(* ===== verification/Prelude.thy ===== *)
theory Prelude
  imports Complex_Main "HOL-Library.AList" "HOL-Library.Char_ord" "HOL-Library.List_Lexorder"
    "HOL-Library.Sublist"
begin

text \<open>
  Prelude of the development: the values a JavaScript operation of the backend can end with (a
  result or a thrown error), the pieces of the JavaScript string library the sources use, and
  the named collections the component proofs share.

  Strings are HOL strings (lists of characters); the backend only inspects ASCII.  A thrown
  object is a value of \<open>js_error\<close>: the constructors are the errors the language and the SQL
  layer raise, \<open>HttpError\<close> is an error object carrying a \<open>status\<close> (and possibly a
  \<open>code\<close>), as the route layer expects.
\<close>

named_theorems op_defs \<open>defining equations of the operations of one component\<close>
named_theorems wf_rules \<open>preservation of a well-formedness invariant by one operation\<close>

datatype js_error =
    ReferenceError string
  | TypeErr string
  | RangeErr string
  | PlainError string
  | SqliteError string
  | HttpError nat "string option" string

text \<open>\<open>err.message\<close>\<close>

fun error_message :: "js_error \<Rightarrow> string" where
  "error_message (ReferenceError m) = m"
| "error_message (TypeErr m) = m"
| "error_message (RangeErr m) = m"
| "error_message (PlainError m) = m"
| "error_message (SqliteError m) = m"
| "error_message (HttpError s c m) = m"

type_synonym 'a res = "js_error + 'a"

definition is_ok :: "'e + 'a \<Rightarrow> bool" where
  "is_ok r = (case r of Inl _ \<Rightarrow> False | Inr _ \<Rightarrow> True)"

lemma is_ok_simps [simp]: "is_ok (Inr x)" "\<not> is_ok (Inl e)"
  by (simp_all add: is_ok_def)

section \<open>Strings\<close>

definition starts_with :: "string \<Rightarrow> string \<Rightarrow> bool" where
  "starts_with s p = prefix p s"

fun str_includes :: "string \<Rightarrow> string \<Rightarrow> bool" where
  "str_includes [] t = (t = [])"
| "str_includes (c # s) t = (prefix t (c # s) \<or> str_includes s t)"

lemma str_includes_sublist: "str_includes s t \<longleftrightarrow> sublist t s"
  by (induction s) (auto simp: sublist_Cons_right)

definition lower_char :: "char \<Rightarrow> char" where
  "lower_char c =
     (let n = of_char c :: nat in if 65 \<le> n \<and> n \<le> 90 then char_of (n + 32) else c)"

definition upper_char :: "char \<Rightarrow> char" where
  "upper_char c =
     (let n = of_char c :: nat in if 97 \<le> n \<and> n \<le> 122 then char_of (n - 32) else c)"

definition to_lower :: "string \<Rightarrow> string" where
  "to_lower s = map lower_char s"

definition to_upper :: "string \<Rightarrow> string" where
  "to_upper s = map upper_char s"

definition is_digit :: "char \<Rightarrow> bool" where
  "is_digit c = (let n = of_char c :: nat in 48 \<le> n \<and> n \<le> 57)"

definition is_upper :: "char \<Rightarrow> bool" where
  "is_upper c = (let n = of_char c :: nat in 65 \<le> n \<and> n \<le> 90)"

definition is_lower :: "char \<Rightarrow> bool" where
  "is_lower c = (let n = of_char c :: nat in 97 \<le> n \<and> n \<le> 122)"

definition is_space :: "char \<Rightarrow> bool" where
  "is_space c = (let n = of_char c :: nat in n = 32 \<or> (9 \<le> n \<and> n \<le> 13))"

definition trim :: "string \<Rightarrow> string" where
  "trim s = rev (dropWhile is_space (rev (dropWhile is_space s)))"

lemma trim_Nil [simp]: "trim [] = []"
  by (simp add: trim_def)

subsection \<open>Decimal numerals\<close>

definition digit_char :: "nat \<Rightarrow> char" where
  "digit_char n = char_of (48 + n mod 10)"

definition digit_val :: "char \<Rightarrow> nat" where
  "digit_val c = of_char c - 48"

definition hex_val :: "char \<Rightarrow> nat option" where
  "hex_val c =
     (let n = of_char c :: nat in
      if 48 \<le> n \<and> n \<le> 57 then Some (n - 48)
      else if 97 \<le> n \<and> n \<le> 102 then Some (n - 87)
      else if 65 \<le> n \<and> n \<le> 70 then Some (n - 55) else None)"

lemma digit_val_digit_char [simp]: "digit_val (digit_char n) = n mod 10"
proof -
  have "n mod 10 < 10" by simp
  then have "(48 + n mod 10) mod 256 = 48 + n mod 10" by (intro mod_less) linarith
  then show ?thesis by (simp add: digit_val_def digit_char_def)
qed

lemma is_digit_digit_char [simp]: "is_digit (digit_char n)"
proof -
  have "n mod 10 < 10" by simp
  then have "(48 + n mod 10) mod 256 = 48 + n mod 10" by (intro mod_less) linarith
  then show ?thesis using \<open>n mod 10 < 10\<close> by (simp add: is_digit_def digit_char_def Let_def)
qed

text \<open>\<open>pad k n\<close> is the last \<open>k\<close> decimal digits of \<open>n\<close>, as \<open>padStart(k, '0')\<close> prints them.\<close>

fun pad :: "nat \<Rightarrow> nat \<Rightarrow> string" where
  "pad 0 n = []"
| "pad (Suc k) n = pad k (n div 10) @ [digit_char n]"

fun nat_str :: "nat \<Rightarrow> string" where
  "nat_str n = (if n < 10 then [digit_char n] else nat_str (n div 10) @ [digit_char n])"

declare nat_str.simps [simp del]

definition int_str :: "int \<Rightarrow> string" where
  "int_str i = (if i < 0 then CHR ''-'' # nat_str (nat (- i)) else nat_str (nat i))"

definition digits_val :: "string \<Rightarrow> nat" where
  "digits_val s = foldl (\<lambda>a c. 10 * a + digit_val c) 0 s"

lemma digits_val_snoc [simp]: "digits_val (s @ [c]) = 10 * digits_val s + digit_val c"
  by (simp add: digits_val_def)

lemma digits_val_Nil [simp]: "digits_val [] = 0"
  by (simp add: digits_val_def)

lemma length_pad [simp]: "length (pad k n) = k"
  by (induction k arbitrary: n) auto

lemma digits_val_pad: "n < 10 ^ k \<Longrightarrow> digits_val (pad k n) = n"
proof (induction k arbitrary: n)
  case 0
  then show ?case by simp
next
  case (Suc k)
  from Suc.prems have "n div 10 < 10 ^ k" by (simp add: less_mult_imp_div_less mult.commute)
  with Suc.IH show ?case by simp
qed

lemma pad_inj: "n < 10 ^ k \<Longrightarrow> m < 10 ^ k \<Longrightarrow> pad k n = pad k m \<Longrightarrow> n = m"
  by (metis digits_val_pad)

lemma digits_val_nat_str: "digits_val (nat_str n) = n"
proof (induction n rule: nat_str.induct)
  case (1 n)
  show ?case
  proof (cases "n < 10")
    case True
    then show ?thesis using digits_val_snoc [of "[]" "digit_char n"]
      by (subst nat_str.simps) simp
  next
    case False
    with 1 show ?thesis by (subst nat_str.simps) simp
  qed
qed

lemma all_digits_nat_str: "\<forall>c \<in> set (nat_str n). is_digit c"
proof (induction n rule: nat_str.induct)
  case (1 n)
  then show ?case by (subst nat_str.simps) auto
qed

lemma nat_str_nonempty [simp]: "nat_str n \<noteq> []"
  by (subst nat_str.simps) simp

lemma nat_str_inject [simp]: "nat_str n = nat_str m \<longleftrightarrow> n = m"
  by (metis digits_val_nat_str)

text \<open>
  \<open>parseInt(s, 10)\<close>: leading white space and a sign are skipped, the longest run of digits is
  read, and \<open>NaN\<close> (\<open>None\<close>) is returned when there is none.
\<close>

definition parse_digits :: "string \<Rightarrow> int option" where
  "parse_digits s =
     (case takeWhile is_digit s of [] \<Rightarrow> None | ds \<Rightarrow> Some (int (digits_val ds)))"

definition parse_int10 :: "string \<Rightarrow> int option" where
  "parse_int10 s =
     (case dropWhile is_space s of
        [] \<Rightarrow> None
      | c # r \<Rightarrow>
          if c = CHR ''-'' then map_option uminus (parse_digits r)
          else if c = CHR ''+'' then parse_digits r
          else parse_digits (c # r))"

lemma digit_not_space: "is_digit c \<Longrightarrow> \<not> is_space c"
  by (auto simp: is_digit_def is_space_def Let_def)

lemma minus_not_digit [simp]: "\<not> is_digit (CHR ''-'')" "\<not> is_digit (CHR ''+'')"
  by (simp_all add: is_digit_def)

lemma parse_int10_nat_str: "parse_int10 (nat_str n) = Some (int n)"
proof -
  obtain c r where cr: "nat_str n = c # r" by (cases "nat_str n") auto
  have dig: "\<forall>x \<in> set (c # r). is_digit x" using all_digits_nat_str [of n] cr by simp
  then have "dropWhile is_space (c # r) = c # r" "takeWhile is_digit (c # r) = c # r"
    by (auto simp: digit_not_space)
  moreover have "c \<noteq> CHR ''-''" "c \<noteq> CHR ''+''" using dig by auto
  ultimately show ?thesis
    using cr digits_val_nat_str [of n] by (simp add: parse_int10_def parse_digits_def)
qed

lemma parse_int10_int_str: "parse_int10 (int_str i) = Some i"
proof (cases "i < 0")
  case False
  then show ?thesis by (simp add: int_str_def parse_int10_nat_str)
next
  case True
  have dig: "\<forall>x \<in> set (nat_str (nat (- i))). is_digit x" by (rule all_digits_nat_str)
  then have "takeWhile is_digit (nat_str (nat (- i))) = nat_str (nat (- i))" by simp
  then have "parse_digits (nat_str (nat (- i))) = Some (- i)"
    using True digits_val_nat_str [of "nat (- i)"]
    by (cases "nat_str (nat (- i))") (auto simp: parse_digits_def)
  moreover have "\<not> is_space (CHR ''-'')" by (simp add: is_space_def)
  ultimately show ?thesis using True by (simp add: int_str_def parse_int10_def)
qed

section \<open>Lexicographic order of strings\<close>

lemma lex_less_append:
  fixes a b c d :: string
  assumes "length a = length c"
  shows "a @ b < c @ d \<longleftrightarrow> a < c \<or> (a = c \<and> b < d)"
  using assms by (induction a c rule: list_induct2) auto

lemma lex_less_snoc:
  fixes a c :: string
  assumes "length a = length c"
  shows "a @ [x] < c @ [y] \<longleftrightarrow> a < c \<or> (a = c \<and> x < y)"
  using lex_less_append [OF assms, of "[x]" "[y]"] by simp

lemma digit_char_less: "digit_char a < digit_char b \<longleftrightarrow> a mod 10 < b mod 10"
proof -
  have "a mod 10 < 10" "b mod 10 < 10" by simp_all
  then have "(48 + a mod 10) mod 256 = 48 + a mod 10" "(48 + b mod 10) mod 256 = 48 + b mod 10"
    by (auto intro!: mod_less)
  then show ?thesis by (simp add: digit_char_def less_char_def)
qed

lemma div_mod_less_iff:
  fixes n m :: nat
  shows "n div 10 < m div 10 \<or> (n div 10 = m div 10 \<and> n mod 10 < m mod 10) \<longleftrightarrow> n < m"
proof -
  have "n = 10 * (n div 10) + n mod 10" "m = 10 * (m div 10) + m mod 10"
    "n mod 10 < 10" "m mod 10 < 10" by simp_all
  then show ?thesis by linarith
qed

lemma pad_less: "n < 10 ^ k \<Longrightarrow> m < 10 ^ k \<Longrightarrow> pad k n < pad k m \<longleftrightarrow> n < m"
proof (induction k arbitrary: n m)
  case 0
  then show ?case by simp
next
  case (Suc k)
  have d: "n div 10 < 10 ^ k" "m div 10 < 10 ^ k"
    using Suc.prems by (simp_all add: less_mult_imp_div_less mult.commute)
  have "pad (Suc k) n < pad (Suc k) m \<longleftrightarrow>
      n div 10 < m div 10 \<or> (n div 10 = m div 10 \<and> n mod 10 < m mod 10)"
    using Suc.IH [OF d] pad_inj [OF d]
    by (auto simp: lex_less_snoc digit_char_less)
  also have "\<dots> \<longleftrightarrow> n < m"
    by (rule div_mod_less_iff)
  finally show ?case .
qed

section \<open>Lists\<close>

lemma filter_map_pair_id:
  "map fst (map (\<lambda>(i, r). (i, f i r)) xs) = map fst xs"
  by (induction xs) auto

lemma find_Some_mem: "find P xs = Some x \<Longrightarrow> x \<in> set xs \<and> P x"
  by (induction xs) (auto split: if_splits)

lemma find_None_iff2: "find P xs = None \<longleftrightarrow> (\<forall>x \<in> set xs. \<not> P x)"
  by (induction xs) auto

lemma find_distinct: "distinct (map f xs) \<Longrightarrow> x \<in> set xs \<Longrightarrow> find (\<lambda>y. f y = f x) xs = Some x"
proof (induction xs)
  case (Cons y ys)
  show ?case
  proof (cases "f y = f x")
    case True
    then have "x \<notin> set ys" using Cons.prems(1) by force
    then show ?thesis using Cons.prems(2) True by simp
  qed (use Cons in auto)
qed simp

lemma sum_list_map_filter_split:
  fixes f :: "'a \<Rightarrow> nat"
  shows "sum_list (map f xs) =
    sum_list (map f (filter P xs)) + sum_list (map f (filter (\<lambda>x. \<not> P x) xs))"
  by (induction xs) auto

end
