(* ===== verification/OrderedMap.thy ===== *)
theory OrderedMap
  imports Prelude
begin

text \<open>
  The JavaScript \<open>Map\<close> object: a finite map that iterates in insertion order.  \<open>set\<close> on an
  existing key keeps the key's place, on a new key it appends.  Every in-memory cache and
  registry of the backend (idempotency keys, signature nonces, in-flight requests, warmed
  contract state, finality trackers, WebSocket subscriptions) is such an object.

  The locale \<open>js_map\<close> states what the language promises of the object; the lemmas about bounded
  caches with first-in-first-out eviction are proved in it once, and the interpretation at the
  end discharges the laws for association lists without duplicate keys, which are the
  representation all component models use.
\<close>

locale js_map =
  fixes mget :: "'m \<Rightarrow> 'k \<Rightarrow> 'v option"
    and mput :: "'k \<Rightarrow> 'v \<Rightarrow> 'm \<Rightarrow> 'm"
    and mdel :: "'k \<Rightarrow> 'm \<Rightarrow> 'm"
    and mkeys :: "'m \<Rightarrow> 'k list"
    and mok :: "'m \<Rightarrow> bool"
  assumes get_put: "mok m \<Longrightarrow> mget (mput k v m) k' = (if k' = k then Some v else mget m k')"
    and get_del: "mok m \<Longrightarrow> mget (mdel k m) k' = (if k' = k then None else mget m k')"
    and keys_get: "mok m \<Longrightarrow> k \<in> set (mkeys m) \<longleftrightarrow> mget m k \<noteq> None"
    and keys_put: "mok m \<Longrightarrow>
      mkeys (mput k v m) = (if k \<in> set (mkeys m) then mkeys m else mkeys m @ [k])"
    and keys_del: "mok m \<Longrightarrow> mkeys (mdel k m) = filter (\<lambda>x. x \<noteq> k) (mkeys m)"
    and keys_distinct: "mok m \<Longrightarrow> distinct (mkeys m)"
    and ok_put: "mok m \<Longrightarrow> mok (mput k v m)"
    and ok_del: "mok m \<Longrightarrow> mok (mdel k m)"
begin

lemma size_put_le: "mok m \<Longrightarrow> length (mkeys (mput k v m)) \<le> Suc (length (mkeys m))"
  by (simp add: keys_put)

lemma size_put_old: "mok m \<Longrightarrow> mget m k \<noteq> None \<Longrightarrow> length (mkeys (mput k v m)) = length (mkeys m)"
  by (simp add: keys_put keys_get)

lemma del_first:
  assumes "mok m" and "mkeys m = k # ks"
  shows "mkeys (mdel k m) = ks"
  using assms keys_distinct [of m] by (auto simp: keys_del filter_id_conv)

lemma size_del_first:
  assumes "mok m" and "mkeys m \<noteq> []"
  shows "length (mkeys (mdel (hd (mkeys m)) m)) = length (mkeys m) - 1"
  using assms del_first [OF assms(1)] by (cases "mkeys m") auto

text \<open>Evict the oldest key when the map is full, then store: the map never exceeds its capacity.\<close>

lemma fifo_bound:
  assumes ok: "mok m" and cap: "0 < cap" and le: "length (mkeys m) \<le> cap"
  shows "length (mkeys (mput k v (if cap \<le> length (mkeys m) then mdel (hd (mkeys m)) m else m)))
    \<le> cap"
proof (cases "cap \<le> length (mkeys m)")
  case True
  with cap have ne: "mkeys m \<noteq> []" by auto
  have "length (mkeys (mdel (hd (mkeys m)) m)) = length (mkeys m) - 1"
    by (rule size_del_first [OF ok ne])
  then have "length (mkeys (mdel (hd (mkeys m)) m)) < cap"
    using cap le by linarith
  with True size_put_le [OF ok_del [OF ok], of k v "hd (mkeys m)"] show ?thesis by auto
next
  case False
  with size_put_le [OF ok, of k v] show ?thesis by auto
qed

lemma fifo_get:
  assumes "mok m"
  shows "mget (mput k v (if c then mdel k0 m else m)) k = Some v"
  using assms by (simp add: get_put ok_del)

text \<open>Storing evicts nothing but the oldest key.\<close>

lemma fifo_other:
  assumes "mok m" and "k' \<noteq> k" and "k' \<noteq> k0"
  shows "mget (mput k v (if c then mdel k0 m else m)) k' = mget m k'"
  using assms by (simp add: get_put get_del ok_del)

end

section \<open>Association lists as \<open>Map\<close> objects\<close>

type_synonym ('k, 'v) jsmap = "('k \<times> 'v) list"

abbreviation map_get :: "('k, 'v) jsmap \<Rightarrow> 'k \<Rightarrow> 'v option" where
  "map_get m k \<equiv> map_of m k"

abbreviation map_set :: "'k \<Rightarrow> 'v \<Rightarrow> ('k, 'v) jsmap \<Rightarrow> ('k, 'v) jsmap" where
  "map_set k v m \<equiv> AList.update k v m"

abbreviation map_delete :: "'k \<Rightarrow> ('k, 'v) jsmap \<Rightarrow> ('k, 'v) jsmap" where
  "map_delete k m \<equiv> AList.delete k m"

abbreviation map_keys :: "('k, 'v) jsmap \<Rightarrow> 'k list" where
  "map_keys m \<equiv> map fst m"

abbreviation map_ok :: "('k, 'v) jsmap \<Rightarrow> bool" where
  "map_ok m \<equiv> distinct (map fst m)"

definition map_has :: "('k, 'v) jsmap \<Rightarrow> 'k \<Rightarrow> bool" where
  "map_has m k = (map_of m k \<noteq> None)"

lemma keys_update:
  "map fst (AList.update k v m) = (if k \<in> set (map fst m) then map fst m else map fst m @ [k])"
  by (induction m) auto

lemma keys_delete: "map fst (AList.delete k m) = filter (\<lambda>x. x \<noteq> k) (map fst m)"
  by (induction m) (auto simp: AList.delete_eq)

interpretation om: js_map map_of AList.update AList.delete "map fst" "\<lambda>m. distinct (map fst m)"
proof unfold_locales
  show "map_of (AList.update k v m) k' = (if k' = k then Some v else map_of m k')"
    for k k' :: 'a and v :: 'b and m
    by (simp add: update_conv')
  show "map_of (AList.delete k m) k' = (if k' = k then None else map_of m k')"
    for k k' :: 'a and m :: "('a \<times> 'b) list"
    by (simp add: delete_conv')
  show "k \<in> set (map fst m) \<longleftrightarrow> map_of m k \<noteq> None" for k :: 'a and m :: "('a \<times> 'b) list"
    by (simp add: map_of_eq_None_iff)
  show "distinct (map fst m) \<Longrightarrow> distinct (map fst (AList.update k v m))"
    for k :: 'a and v :: 'b and m
    by (rule distinct_update)
qed (simp_all add: keys_update keys_delete)

lemmas map_get_simps = om.get_put om.get_del

lemma map_of_update [simp]:
  "map_of (AList.update k v m) k' = (if k' = k then Some v else map_of m k')"
  by (simp add: update_conv')

lemma map_of_delete [simp]:
  "map_of (AList.delete k m) k' = (if k' = k then None else map_of m k')"
  by (simp add: delete_conv')

text \<open>Dropping the entries that fail a test, as the expiry sweeps do.\<close>

lemma map_of_filter:
  "distinct (map fst m) \<Longrightarrow>
   map_of (filter (\<lambda>(k, v). P k v) m) k =
     (case map_of m k of None \<Rightarrow> None | Some v \<Rightarrow> if P k v then Some v else None)"
proof (induction m)
  case Nil
  then show ?case by simp
next
  case (Cons x m)
  obtain a b where [simp]: "x = (a, b)" by (cases x)
  have "a \<notin> fst ` set m" using Cons.prems by simp
  then have "map_of m a = None" by (simp add: map_of_eq_None_iff)
  with Cons show ?case by (auto split: option.splits)
qed

lemma keys_filter_distinct: "distinct (map fst m) \<Longrightarrow> distinct (map fst (filter P m))"
  by (simp add: distinct_map_filter)

lemma length_filter_keys: "length (map fst (filter P m)) \<le> length (map fst m)"
  by simp

end
