(* ===== verification/Http.thy ===== *)
theory Http
  imports OrderedMap
begin

text \<open>
  The HTTP surface shared by every middleware and route: JSON values, the parts of an Express
  request and response the backend reads and writes, the outcome of a middleware, and
  \<open>src/backend/src/error-response.js\<close> (the standard error payload, the 404 handler and the
  central error handler).

  A JavaScript object is a \<open>jsmap\<close> from property names, so the object spread \<open>{...a, ...b}\<close> is
  \<open>obj_spread\<close>: later properties overwrite earlier ones in place.  Logging is not modelled.
\<close>

datatype json =
    JNull
  | JBool bool
  | JNum int
  | JStr string
  | JArr "json list"
  | JObj "(string \<times> json) list"

definition obj_spread :: "(string \<times> json) list \<Rightarrow> (string \<times> json) list \<Rightarrow> (string \<times> json) list" where
  "obj_spread a b = foldl (\<lambda>acc p. map_set (fst p) (snd p) acc) a b"

record response =
  rstatus :: nat
  rbody :: json

record request =
  req_method :: string
  original_url :: string
  headers :: "(string, string) jsmap"
  body :: json
  raw_body :: string
  req_ip :: "string option"

datatype 'q outcome = Next 'q | Respond response

text \<open>\<open>JSON.stringify\<close>.\<close>

definition json_escape_char :: "char \<Rightarrow> string" where
  "json_escape_char c =
     (let n = of_char c :: nat; bs = CHR 0x5C in
      if n = 34 then [bs, CHR 0x22] else if n = 92 then [bs, bs]
      else if n = 8 then [bs, CHR ''b''] else if n = 9 then [bs, CHR ''t'']
      else if n = 10 then [bs, CHR ''n''] else if n = 12 then [bs, CHR ''f'']
      else if n = 13 then [bs, CHR ''r'']
      else if n < 32 then bs # ''u00'' @ [digit_char (n div 16),
             (if n mod 16 < 10 then digit_char (n mod 16) else char_of (87 + n mod 16))]
      else [c])"

definition json_quote :: "string \<Rightarrow> string" where
  "json_quote s = CHR 0x22 # concat (map json_escape_char s) @ [CHR 0x22]"

fun json_commas :: "string list \<Rightarrow> string" where
  "json_commas [] = []"
| "json_commas [x] = x"
| "json_commas (x # xs) = x @ '','' @ json_commas xs"

fun json_stringify :: "json \<Rightarrow> string" where
  "json_stringify JNull = ''null''"
| "json_stringify (JBool b) = (if b then ''true'' else ''false'')"
| "json_stringify (JNum n) = int_str n"
| "json_stringify (JStr s) = json_quote s"
| "json_stringify (JArr xs) = ''['' @ json_commas (map json_stringify xs) @ '']''"
| "json_stringify (JObj fs) =
     ''{'' @ json_commas (map (\<lambda>p. json_quote (fst p) @ '':'' @ json_stringify (snd p)) fs) @ ''}''"

text \<open>A string in a boolean position is false when it is absent or empty.\<close>

definition truthy :: "string option \<Rightarrow> bool" where
  "truthy s = (case s of None \<Rightarrow> False | Some x \<Rightarrow> x \<noteq> [])"

lemma truthy_iff: "truthy s \<longleftrightarrow> (\<exists>x. s = Some x \<and> x \<noteq> [])"
  by (cases s) (auto simp: truthy_def)

lemma truthy_simps [simp]: "\<not> truthy None" "truthy (Some x) \<longleftrightarrow> x \<noteq> []"
  by (simp_all add: truthy_def)

lemma obj_spread_Nil [simp]: "obj_spread a [] = a"
  by (simp add: obj_spread_def)

lemma obj_spread_get:
  "map_of (obj_spread a b) k = (case map_of (rev b) k of None \<Rightarrow> map_of a k | Some v \<Rightarrow> Some v)"
  unfolding obj_spread_def
  by (induction b arbitrary: a) (auto simp: map_add_def split: option.splits)

section \<open>error-response.js\<close>

definition default_error_codes :: "(nat, string) jsmap" where
  "default_error_codes =
     [(400, ''bad_request''), (401, ''unauthorized''), (403, ''forbidden''), (404, ''not_found''),
      (409, ''conflict''), (413, ''payload_too_large''), (415, ''unsupported_media_type''),
      (429, ''too_many_requests''), (500, ''internal_server_error''), (503, ''service_unavailable'')]"

definition retryable_error_codes :: "(string, bool) jsmap" where
  "retryable_error_codes =
     [(''too_many_requests'', True), (''service_unavailable'', True), (''request_timeout'', True),
      (''internal_server_error'', False)]"

definition normalize_error_code :: "nat \<Rightarrow> string option \<Rightarrow> string" where
  "normalize_error_code status code =
     (if truthy code then the code
      else case map_get default_error_codes status of Some c \<Rightarrow> c | None \<Rightarrow> ''error'')"

definition build_error_payload ::
  "nat \<Rightarrow> string option \<Rightarrow> string \<Rightarrow> (string \<times> json) list \<Rightarrow> (string \<times> json) list" where
  "build_error_payload status code message extra =
     (let c = normalize_error_code status code;
          retryable = (case map_get retryable_error_codes c of Some b \<Rightarrow> b | None \<Rightarrow> False);
          retry_after = (if retryable then JNum (if status = 429 then 60 else 5) else JNull)
      in obj_spread
           [(''status'', JNum (int status)), (''code'', JStr c), (''message'', JStr message),
            (''error'', JStr message), (''retryable'', JBool retryable),
            (''retryAfter'', retry_after), (''details_url'', JStr (''docs/errors#'' @ c))]
           extra)"

definition send_error ::
  "nat \<Rightarrow> string option \<Rightarrow> string \<Rightarrow> (string \<times> json) list \<Rightarrow> response" where
  "send_error status code message extra =
     \<lparr>rstatus = status, rbody = JObj (build_error_payload status code message extra)\<rparr>"

text \<open>An issue of a validation is a path and a message.\<close>

definition issue_json :: "string \<times> string \<Rightarrow> json" where
  "issue_json i = JObj [(''field'', JStr (fst i)), (''message'', JStr (snd i))]"

definition send_validation_error :: "(string \<times> string) list \<Rightarrow> response" where
  "send_validation_error issues =
     (let first = (case issues of [] \<Rightarrow> ''Validation failed'' | i # _ \<Rightarrow> snd i)
      in send_error 400 (Some ''validation_failed'') first
           [(''details'', JArr (map issue_json issues))])"

definition not_found_handler :: "request \<Rightarrow> response" where
  "not_found_handler req =
     send_error 404 (Some ''not_found'')
       (''No route matches '' @ req_method req @ '' '' @ original_url req) []"

text \<open>The properties of a thrown object the central handler looks at.\<close>

record thrown =
  err_type :: "string option"
  err_status :: nat
  err_code :: "string option"
  err_message :: "string option"
  err_detail :: "json option"
  err_stack :: string

definition error_handler :: "thrown \<Rightarrow> response" where
  "error_handler err =
     (let message = (\<lambda>d. case err_message err of Some m \<Rightarrow> m | None \<Rightarrow> d)
      in if err_type err = Some ''entity.too.large'' then
           send_error 413 (Some ''payload_too_large'') ''Payload too large'' []
         else if err_status err \<noteq> 0 \<and> truthy (err_code err) then
           send_error (err_status err) (err_code err) (message ''Error'')
             (case err_detail err of None \<Rightarrow> [] | Some d \<Rightarrow> [(''detail'', d)])
         else if err_status err \<noteq> 0 then
           send_error (err_status err) None (message ''Error'') []
         else send_error 500 (Some ''internal_server_error'') (message ''Internal server error'') [])"

lemma normalize_error_code_nonempty: "normalize_error_code status code \<noteq> []"
  by (auto simp: normalize_error_code_def default_error_codes_def truthy_iff
      split: option.splits if_splits)

lemma error_payload_field:
  assumes "map_of (rev extra) f = None"
  shows "map_get (build_error_payload status code message extra) f =
    map_get (build_error_payload status code message []) f"
  using assms by (simp add: build_error_payload_def Let_def obj_spread_get)

text \<open>Whatever object reaches the central error handler, the response is a complete standard
  error payload: the HTTP status is repeated in the body, the code is never empty, the message
  appears under both names, and the stack of the thrown object has no influence on it.\<close>

theorem error_handler_standard_payload:
  "\<exists>fields c m. rbody (error_handler err) = JObj fields
     \<and> map_get fields ''status'' = Some (JNum (int (rstatus (error_handler err))))
     \<and> map_get fields ''code'' = Some (JStr c) \<and> c \<noteq> []
     \<and> map_get fields ''message'' = Some (JStr m) \<and> map_get fields ''error'' = Some (JStr m)
     \<and> error_handler (err\<lparr>err_stack := s\<rparr>) = error_handler err"
  unfolding error_handler_def
  by (auto simp: send_error_def build_error_payload_def Let_def obj_spread_get
      normalize_error_code_nonempty split: option.splits)

end
