(* ===== verification/Idempotency.thy ===== *)
theory Idempotency
  imports Http
begin

text \<open>
  \<open>src/backend/src/idempotency.js\<close>: the in-memory cache of responses by \<open>Idempotency-Key\<close> and the
  middleware in front of the transaction routes.  The state is the module's \<open>cache\<close> object; the
  clock is an argument (milliseconds).  A route is a function of the server's other state, so the
  composition \<open>idempotent_request\<close> says which effects a request has, and \<open>idem_reach\<close> collects the
  states of the cache under any order of requests, finished responses and cleanup timers.
\<close>

record idem_config =
  cache_ttl_ms :: int
  max_entries :: nat

record idem_entry =
  entry_response :: response
  expires_at :: int

type_synonym idem_cache = "(string, idem_entry) jsmap"

definition default_idem_config :: idem_config where
  "default_idem_config = \<lparr>cache_ttl_ms = 86400000, max_entries = 10000\<rparr>"

definition cleanup_expired_entries :: "int \<Rightarrow> idem_cache \<Rightarrow> idem_cache" where
  "cleanup_expired_entries now c = filter (\<lambda>(k, e). \<not> expires_at e < now) c"

definition evict_oldest_if_needed :: "idem_config \<Rightarrow> idem_cache \<Rightarrow> idem_cache" where
  "evict_oldest_if_needed cfg c =
     (if max_entries cfg \<le> length c
      then (case c of [] \<Rightarrow> c | p # _ \<Rightarrow> map_delete (fst p) c)
      else c)"

definition get_cached_response ::
  "string \<Rightarrow> int \<Rightarrow> idem_cache \<Rightarrow> response option \<times> idem_cache" where
  "get_cached_response key now c =
     (case map_get c key of
        None \<Rightarrow> (None, c)
      | Some e \<Rightarrow>
          if expires_at e < now then (None, map_delete key c) else (Some (entry_response e), c))"

definition cache_response ::
  "idem_config \<Rightarrow> string \<Rightarrow> response \<Rightarrow> int \<Rightarrow> idem_cache \<Rightarrow> idem_cache" where
  "cache_response cfg key r now c =
     map_set key \<lparr>entry_response = r, expires_at = now + cache_ttl_ms cfg\<rparr>
       (evict_oldest_if_needed cfg c)"

definition idempotency_key_char :: "char \<Rightarrow> bool" where
  "idempotency_key_char c \<longleftrightarrow>
     is_lower c \<or> is_upper c \<or> is_digit c \<or> c = CHR ''_'' \<or> c = CHR ''-''"

definition valid_idempotency_key :: "string \<Rightarrow> bool" where
  "valid_idempotency_key k \<longleftrightarrow>
     1 \<le> length k \<and> length k \<le> 255 \<and> list_all idempotency_key_char k"

text \<open>
  What the middleware does with a request: pass it on untouched, answer it, or pass it on with the
  \<open>json\<close> method of the response replaced by \<open>idempotent_json\<close>.
\<close>

datatype idem_action = PassThrough | Answer response | Intercept string

definition idempotency_middleware ::
  "request \<Rightarrow> int \<Rightarrow> idem_cache \<Rightarrow> idem_action \<times> idem_cache" where
  "idempotency_middleware req now c =
     (case map_get (headers req) ''idempotency-key'' of
        None \<Rightarrow> (PassThrough, c)
      | Some key \<Rightarrow>
          if key = [] then (PassThrough, c)
          else if \<not> valid_idempotency_key key then
            (Answer (send_error 400 (Some ''invalid_idempotency_key'')
               (''Invalid Idempotency-Key format. Must be 1-255 alphanumeric characters, '' @
                ''hyphens, or underscores.'') []), c)
          else (case get_cached_response key now c of
                  (Some r, c') \<Rightarrow> (Answer r, c')
                | (None, c') \<Rightarrow> (Intercept key, c')))"

definition idempotent_json ::
  "idem_config \<Rightarrow> string \<Rightarrow> response \<Rightarrow> int \<Rightarrow> idem_cache \<Rightarrow> idem_cache" where
  "idempotent_json cfg key r now c =
     (if 200 \<le> rstatus r \<and> rstatus r < 300 then cache_response cfg key r now c else c)"

text \<open>A request that runs from the middleware to its response without another in between: the
  handler starts at \<open>t\<close>, changes the server state and answers at \<open>t + d\<close>.\<close>

definition idempotent_request ::
  "idem_config \<Rightarrow> ('s \<Rightarrow> response \<times> 's) \<Rightarrow> request \<Rightarrow> int \<Rightarrow> int \<Rightarrow> idem_cache \<times> 's
    \<Rightarrow> response \<times> idem_cache \<times> 's" where
  "idempotent_request cfg handler req t d cs =
     (case idempotency_middleware req t (fst cs) of
        (Answer r, c) \<Rightarrow> (r, c, snd cs)
      | (PassThrough, c) \<Rightarrow> (let (r, s) = handler (snd cs) in (r, c, s))
      | (Intercept key, c) \<Rightarrow>
          (let (r, s) = handler (snd cs) in (r, idempotent_json cfg key r (t + d) c, s)))"

definition get_cache_stats :: "idem_config \<Rightarrow> int \<Rightarrow> idem_cache \<Rightarrow> nat \<times> nat \<times> int" where
  "get_cache_stats cfg now c =
     (let expired = length (filter (\<lambda>p. expires_at (snd p) < now) c)
      in (length c, expired, int (length c) - int expired))"

definition clear_cache :: "idem_cache \<Rightarrow> idem_cache" where
  "clear_cache c = []"

section \<open>The cache invariant\<close>

inductive idem_reach :: "idem_config \<Rightarrow> idem_cache \<Rightarrow> bool" for cfg where
  start: "idem_reach cfg []"
| arrive: "idem_reach cfg c \<Longrightarrow> idem_reach cfg (snd (idempotency_middleware req now c))"
| answer: "idem_reach cfg c \<Longrightarrow> idem_reach cfg (idempotent_json cfg key r now c)"
| sweep: "idem_reach cfg c \<Longrightarrow> idem_reach cfg (cleanup_expired_entries now c)"
| reset: "idem_reach cfg c \<Longrightarrow> idem_reach cfg (clear_cache c)"

definition idem_ok :: "idem_config \<Rightarrow> idem_cache \<Rightarrow> bool" where
  "idem_ok cfg c \<longleftrightarrow> map_ok c \<and> length c \<le> max_entries cfg"

lemma evict_eq:
  "evict_oldest_if_needed cfg c =
     (if max_entries cfg \<le> length (map_keys c) \<and> c \<noteq> [] then map_delete (hd (map_keys c)) c else c)"
  by (cases c) (simp_all add: evict_oldest_if_needed_def)

lemma length_delete_le: "length (AList.delete k c) \<le> length c"
  by (simp add: AList.delete_eq)

lemma idem_ok_delete: "idem_ok cfg c \<Longrightarrow> idem_ok cfg (map_delete k c)"
  using length_delete_le [of k c] om.ok_del [of c k] unfolding idem_ok_def by linarith

lemma idem_ok_middleware: "idem_ok cfg c \<Longrightarrow> idem_ok cfg (snd (idempotency_middleware req now c))"
  by (auto simp: idempotency_middleware_def get_cached_response_def idem_ok_delete
      split: option.splits)

lemma idem_ok_cache_response:
  assumes "0 < max_entries cfg" and "idem_ok cfg c"
  shows "idem_ok cfg (cache_response cfg key r now c)"
proof -
  let ?e = "\<lparr>entry_response = r, expires_at = now + cache_ttl_ms cfg\<rparr>"
  have ok: "map_ok c" and le: "length (map_keys c) \<le> max_entries cfg"
    using assms(2) by (simp_all add: idem_ok_def)
  have ev: "evict_oldest_if_needed cfg c =
      (if max_entries cfg \<le> length (map_keys c) then map_delete (hd (map_keys c)) c else c)"
    using assms(1) by (auto simp: evict_eq)
  have "length (map_keys (cache_response cfg key r now c)) \<le> max_entries cfg"
    unfolding cache_response_def ev by (rule om.fifo_bound [OF ok assms(1) le])
  moreover have "map_ok (cache_response cfg key r now c)"
    using ok by (simp add: cache_response_def ev om.ok_put om.ok_del)
  ultimately show ?thesis by (simp add: idem_ok_def)
qed

lemma cache_response_get:
  assumes "map_ok c"
  shows "map_get (cache_response cfg key r now c) key =
      Some \<lparr>entry_response = r, expires_at = now + cache_ttl_ms cfg\<rparr>"
  by (simp add: cache_response_def)

lemma idem_reach_ok:
  assumes "idem_reach cfg c" and "0 < max_entries cfg"
  shows "idem_ok cfg c"
  using assms
proof (induction rule: idem_reach.induct)
  case start
  then show ?case by (simp add: idem_ok_def)
next
  case (answer c key r now)
  then show ?case by (simp add: idempotent_json_def idem_ok_cache_response)
next
  case (sweep c now)
  then show ?case
    using le_trans [OF length_filter_le [of "\<lambda>(k, e). \<not> expires_at e < now" c]]
    by (simp add: idem_ok_def cleanup_expired_entries_def keys_filter_distinct)
next
  case (arrive c req now)
  then show ?case by (simp add: idem_ok_middleware)
next
  case (reset c)
  then show ?case by (simp add: clear_cache_def idem_ok_def)
qed

section \<open>Properties\<close>

text \<open>The idempotency cache stays within its capacity and keeps one entry per key, whatever
  order requests, responses and cleanup timers come in.\<close>

theorem idempotency_cache_bounded:
  assumes "0 < max_entries cfg" and "idem_reach cfg c"
  shows "length c \<le> max_entries cfg \<and> map_ok c"
  using idem_reach_ok [OF assms(2,1)] by (simp add: idem_ok_def)

theorem idempotency_cache_bounded_witness:
  "length (idempotent_json default_idem_config ''k'' \<lparr>rstatus = 201, rbody = JNull\<rparr> 5 []) \<le> 10000
   \<and> map_ok (idempotent_json default_idem_config ''k'' \<lparr>rstatus = 201, rbody = JNull\<rparr> 5 [])"
  using idempotency_cache_bounded [of default_idem_config,
      OF _ idem_reach.answer [OF idem_reach.start]]
  by (simp add: default_idem_config_def)

lemma middleware_intercept:
  assumes "idempotency_middleware req t c = (Intercept key, c')"
  shows "map_get (headers req) ''idempotency-key'' = Some key" "key \<noteq> []"
    "valid_idempotency_key key" "c' = c \<or> c' = map_delete key c" "map_get c' key = None"
  using assms
  by (auto simp: idempotency_middleware_def get_cached_response_def split: option.splits if_splits)

lemma middleware_replays:
  assumes "map_get (headers req) ''idempotency-key'' = Some key" "key \<noteq> []"
    "valid_idempotency_key key" "map_get c key = Some e" "\<not> expires_at e < now"
  shows "idempotency_middleware req now c = (Answer (entry_response e), c)"
  using assms by (simp add: idempotency_middleware_def get_cached_response_def)

lemma answered_request_replayed:
  assumes ok: "map_ok c"
    and first: "idempotency_middleware req t c = (Intercept key, c0)"
    and run: "idempotent_request cfg handler req t d (c, s) = (r, c1, s1)"
    and success: "200 \<le> rstatus r" "rstatus r < 300"
    and again: "t2 \<le> t + d + cache_ttl_ms cfg"
  shows "idempotency_middleware req t2 c1 = (Answer r, c1)" "handler s = (r, s1)"
proof -
  note m = middleware_intercept [OF first]
  show h: "handler s = (r, s1)"
    using run first by (auto simp: idempotent_request_def Let_def split: prod.splits)
  have c1: "c1 = cache_response cfg key r (t + d) c0"
    using run first success
    by (auto simp: idempotent_request_def idempotent_json_def Let_def split: prod.splits)
  have "map_ok c0" using m(4) ok by (auto intro: om.ok_del)
  then have g: "map_get c1 key =
      Some \<lparr>entry_response = r, expires_at = t + d + cache_ttl_ms cfg\<rparr>"
    unfolding c1 by (rule cache_response_get)
  show "idempotency_middleware req t2 c1 = (Answer r, c1)"
    using middleware_replays [OF m(1-3) g] again by simp
qed


definition demo_request :: request where
  "demo_request = \<lparr>req_method = ''POST'', original_url = ''/api/v1/distribute'',
     headers = [(''idempotency-key'', ''pay-1'')], body = JNull, raw_body = [], req_ip = None\<rparr>"

definition demo_handler :: "nat \<Rightarrow> response \<times> nat" where
  "demo_handler n = (\<lparr>rstatus = 200, rbody = JNum (int n)\<rparr>, n + 1)"


text \<open>Only successful responses are kept: a failed attempt leaves no entry, so the same key runs
  the handler again.\<close>

lemma idempotent_failure_retried:
  assumes "idempotency_middleware req t c = (Intercept key, c0)"
    and "\<not> (200 \<le> rstatus (fst (handler s)) \<and> rstatus (fst (handler s)) < 300)"
  shows "idempotent_request cfg handler req t d (c, s) = (fst (handler s), c0, snd (handler s))"
    and "idempotency_middleware req t2 c0 = (Intercept key, c0)"
proof -
  obtain r s1 where h: "handler s = (r, s1)" by (cases "handler s")
  show "idempotent_request cfg handler req t d (c, s) = (fst (handler s), c0, snd (handler s))"
    using assms by (auto simp: idempotent_request_def idempotent_json_def h)
  show "idempotency_middleware req t2 c0 = (Intercept key, c0)"
    using middleware_intercept [OF assms(1)]
    by (simp add: idempotency_middleware_def get_cached_response_def)
qed

text \<open>Two requests that overlap: the second reaches the middleware before the first has answered.\<close>

definition overlapping_requests ::
  "idem_config \<Rightarrow> ('s \<Rightarrow> response \<times> 's) \<Rightarrow> request \<Rightarrow> request \<Rightarrow> int \<Rightarrow> int \<Rightarrow> int \<Rightarrow> int
    \<Rightarrow> idem_cache \<times> 's \<Rightarrow> idem_cache \<times> 's" where
  "overlapping_requests cfg handler req1 req2 t1 t2 t3 t4 cs =
     (let (a1, c1) = idempotency_middleware req1 t1 (fst cs);
          (a2, c2) = idempotency_middleware req2 t2 c1;
          finish = (\<lambda>a t (c, s). case a of
             Answer r \<Rightarrow> (c, s)
           | PassThrough \<Rightarrow> (c, snd (handler s))
           | Intercept key \<Rightarrow> (idempotent_json cfg key (fst (handler s)) t c, snd (handler s)))
      in finish a2 t4 (finish a1 t3 (c2, snd cs)))"

text \<open>The entry is written only when a response is sent.  Two requests with one key of which
  the second arrives before the first has answered are both executed, although the first one
  succeeds.\<close>

theorem idempotent_overlap_runs_twice:
  assumes "idempotency_middleware req t1 c = (Intercept key, c0)"
  shows "snd (overlapping_requests cfg handler req req t1 t2 t3 t4 (c, s)) =
    snd (handler (snd (handler s)))"
proof -
  have "idempotency_middleware req t2 c0 = (Intercept key, c0)"
    using middleware_intercept [OF assms]
    by (simp add: idempotency_middleware_def get_cached_response_def)
  with assms show ?thesis by (simp add: overlapping_requests_def Let_def)
qed

theorem idempotent_overlap_runs_twice_witness:
  "snd (overlapping_requests default_idem_config demo_handler demo_request demo_request
      5 6 30 31 ([], 4)) = 6"
proof -
  have "idempotency_middleware demo_request 5 [] = (Intercept ''pay-1'', [])"
    by (simp add: idempotency_middleware_def demo_request_def valid_idempotency_key_def
        idempotency_key_char_def get_cached_response_def is_lower_def is_digit_def)
  from idempotent_overlap_runs_twice [OF this, of default_idem_config demo_handler 6 30 31 4]
  show ?thesis by (simp add: demo_handler_def)
qed

end
