(* ===== verification/JsNumber.thy ===== *)
theory JsNumber
  imports Prelude
begin

text \<open>
  \<open>Number(s)\<close> of a string, as ECMAScript's StringToNumber reads it: white space is trimmed, the
  empty string is 0, a decimal literal may have a sign, a fraction and an exponent, and \<open>0x\<close>, \<open>0o\<close>
  and \<open>0b\<close> introduce an unsigned literal of another base.  Values are exact rationals (the
  rounding of a double is not modelled: every value the backend computes with is an integer below
  \<open>2 ^ 53\<close>).
\<close>

datatype js_number = NaN | Infinite bool | Finite rat

definition digit_in :: "nat \<Rightarrow> char \<Rightarrow> nat option" where
  "digit_in base c =
     (let n = of_char c :: nat;
          v = (if 48 \<le> n \<and> n \<le> 57 then n - 48
               else if 97 \<le> n \<and> n \<le> 122 then n - 87
               else if 65 \<le> n \<and> n \<le> 90 then n - 55 else 99)
      in if v < base then Some v else None)"

definition radix_literal :: "nat \<Rightarrow> string \<Rightarrow> js_number" where
  "radix_literal base s =
     (if s \<noteq> [] \<and> list_all (\<lambda>c. digit_in base c \<noteq> None) s
      then Finite (of_nat (foldl (\<lambda>a c. base * a + the (digit_in base c)) 0 s)) else NaN)"

definition scale10 :: "int \<Rightarrow> rat \<Rightarrow> rat" where
  "scale10 e x = (if 0 \<le> e then x * 10 ^ nat e else x / 10 ^ nat (- e))"

definition exponent_part :: "string \<Rightarrow> int option" where
  "exponent_part s =
     (case s of
        [] \<Rightarrow> Some 0
      | c # r \<Rightarrow>
          if c \<noteq> CHR ''e'' \<and> c \<noteq> CHR ''E'' then None
          else (let (neg, ds) = (case r of
                    [] \<Rightarrow> (False, [])
                  | d # q \<Rightarrow> if d = CHR ''-'' then (True, q) else if d = CHR ''+'' then (False, q)
                      else (False, r))
                in if ds \<noteq> [] \<and> list_all is_digit ds
                   then Some (if neg then - int (digits_val ds) else int (digits_val ds)) else None))"

definition unsigned_decimal :: "string \<Rightarrow> js_number" where
  "unsigned_decimal s =
     (if s = ''Infinity'' then Infinite False
      else
        let ip = takeWhile is_digit s;
            r = dropWhile is_digit s;
            (fp, r2) = (case r of [] \<Rightarrow> ([], [])
                        | c # q \<Rightarrow> if c = CHR ''.'' then (takeWhile is_digit q, dropWhile is_digit q)
                                 else ([], r))
        in if ip @ fp = [] then NaN
           else case exponent_part r2 of
                  None \<Rightarrow> NaN
                | Some e \<Rightarrow>
                    Finite (scale10 (e - int (length fp)) (of_nat (digits_val (ip @ fp)))))"

definition js_negate :: "js_number \<Rightarrow> js_number" where
  "js_negate n = (case n of NaN \<Rightarrow> NaN | Infinite b \<Rightarrow> Infinite (\<not> b) | Finite q \<Rightarrow> Finite (- q))"

definition string_to_number :: "string \<Rightarrow> js_number" where
  "string_to_number s0 =
     (case trim s0 of
        [] \<Rightarrow> Finite 0
      | c # r \<Rightarrow>
          if c = CHR ''-'' then js_negate (unsigned_decimal r)
          else if c = CHR ''+'' then unsigned_decimal r
          else if c = CHR ''0'' \<and> r \<noteq> [] \<and> (hd r = CHR ''x'' \<or> hd r = CHR ''X'') then
            radix_literal 16 (tl r)
          else if c = CHR ''0'' \<and> r \<noteq> [] \<and> (hd r = CHR ''o'' \<or> hd r = CHR ''O'') then
            radix_literal 8 (tl r)
          else if c = CHR ''0'' \<and> r \<noteq> [] \<and> (hd r = CHR ''b'' \<or> hd r = CHR ''B'') then
            radix_literal 2 (tl r)
          else unsigned_decimal (c # r))"

lemma digits_of_nat_str [simp]:
  "takeWhile is_digit (nat_str n) = nat_str n" "dropWhile is_digit (nat_str n) = []"
  using all_digits_nat_str [of n] by simp_all

lemma unsigned_decimal_nat_str: "unsigned_decimal (nat_str n) = Finite (of_nat n)"
proof -
  have "nat_str n \<noteq> ''Infinity''"
  proof
    assume "nat_str n = ''Infinity''"
    then have "is_digit (CHR ''I'')" using all_digits_nat_str [of n] by simp
    then show False by (simp add: is_digit_def)
  qed
  then show ?thesis
    by (simp add: unsigned_decimal_def digits_val_nat_str exponent_part_def scale10_def)
qed

text \<open>The decimal numerals the clients send are read back exactly.\<close>

lemma string_to_number_nat_str: "string_to_number (nat_str n) = Finite (of_nat n)"
proof -
  have d: "\<forall>x \<in> set (nat_str n). is_digit x" by (rule all_digits_nat_str)
  then have "\<forall>x \<in> set (nat_str n). \<not> is_space x" using digit_not_space by blast
  then have t: "trim (nat_str n) = nat_str n"
  proof -
    assume ns: "\<forall>x \<in> set (nat_str n). \<not> is_space x"
    have drop: "dropWhile is_space s = s" if "\<forall>x \<in> set s. \<not> is_space x" for s
      using that by (cases s) auto
    show ?thesis using ns by (simp add: trim_def drop)
  qed
  obtain c r where cr: "nat_str n = c # r" by (cases "nat_str n") auto
  have nd: "\<not> is_digit (CHR ''x'')" "\<not> is_digit (CHR ''X'')" "\<not> is_digit (CHR ''o'')"
    "\<not> is_digit (CHR ''O'')" "\<not> is_digit (CHR ''b'')" "\<not> is_digit (CHR ''B'')"
    by (simp_all add: is_digit_def)
  have "c \<noteq> CHR ''-''" "c \<noteq> CHR ''+''" using d cr by auto
  moreover have "r \<noteq> [] \<longrightarrow> is_digit (hd r)" using d cr by simp
  then have "r = [] \<or> hd r \<notin> {CHR ''x'', CHR ''X'', CHR ''o'', CHR ''O'', CHR ''b'', CHR ''B''}"
    using nd by fastforce
  ultimately have "string_to_number (nat_str n) = unsigned_decimal (c # r)"
    unfolding string_to_number_def t [unfolded cr] cr by (elim disjE) (simp_all only: list.case insert_iff empty_iff de_Morgan_disj simp_thms if_False if_cancel)
  then show ?thesis using cr unsigned_decimal_nat_str [of n] by simp
qed

lemma trim_no_space: "\<forall>x \<in> set s. \<not> is_space x \<Longrightarrow> trim s = s"
proof -
  assume a: "\<forall>x \<in> set s. \<not> is_space x"
  have "dropWhile is_space s = s" if "\<forall>x \<in> set s. \<not> is_space x" for s
    using that by (cases s) auto
  from this [of s] this [of "rev s"] show ?thesis using a by (simp add: trim_def)
qed

lemma string_to_number_int_str: "string_to_number (int_str i) = Finite (of_int i)"
proof (cases "i < 0")
  case False
  then show ?thesis by (simp add: int_str_def string_to_number_nat_str)
next
  case True
  have "\<forall>x \<in> set (nat_str (nat (- i))). \<not> is_space x"
    using all_digits_nat_str [of "nat (- i)"] digit_not_space by blast
  then have "trim (CHR ''-'' # nat_str (nat (- i))) = CHR ''-'' # nat_str (nat (- i))"
    by (intro trim_no_space) (simp add: is_space_def)
  then show ?thesis using True unsigned_decimal_nat_str [of "nat (- i)"]
    by (simp add: int_str_def string_to_number_def js_negate_def)
qed

end
