(* ===== verification/Signature.thy ===== *)
theory Signature
  imports Http JsNumber
begin

text \<open>
  \<open>src/backend/src/verify-signature.js\<close>: Ed25519 request signatures with a timestamp window and a
  bounded cache of used nonces.  SHA-256 and the key and signature operations of the Stellar SDK
  are parameters (\<open>crypto_env\<close>): \<open>verify k m s\<close> is false also where the library throws.
  \<open>Buffer.from(s, 'hex')\<close> does not throw, so the branch that handles its exception is dead and has
  no counterpart here.

  The main result is that no signed request is accepted twice.
\<close>

record crypto_env =
  sha256_hex :: "string \<Rightarrow> string"
  pubkey_valid :: "string \<Rightarrow> bool"
  ed25519_verify :: "string \<Rightarrow> string \<Rightarrow> string \<Rightarrow> bool"

record sig_config =
  max_age_ms :: int
  nonce_ttl_ms :: int
  nonce_max_entries :: nat
  enforcement :: bool

definition default_sig_config :: sig_config where
  "default_sig_config =
     \<lparr>max_age_ms = 300000, nonce_ttl_ms = 600000, nonce_max_entries = 50000, enforcement = True\<rparr>"

type_synonym nonce_cache = "(string, int) jsmap"

section \<open>The nonce cache\<close>

definition evict_expired :: "int \<Rightarrow> nonce_cache \<Rightarrow> nonce_cache" where
  "evict_expired now c = filter (\<lambda>(n, e). \<not> e \<le> now) c"

definition is_nonce_seen :: "string \<Rightarrow> int \<Rightarrow> nonce_cache \<Rightarrow> bool \<times> nonce_cache" where
  "is_nonce_seen n now c =
     (let c' = evict_expired now c
      in (case map_get c' n of None \<Rightarrow> False | Some e \<Rightarrow> now < e, c'))"

definition record_nonce :: "sig_config \<Rightarrow> string \<Rightarrow> int \<Rightarrow> nonce_cache \<Rightarrow> nonce_cache" where
  "record_nonce cfg n now c0 =
     (let c = evict_expired now c0;
          c' = (if nonce_max_entries cfg \<le> length c
                then (case c of [] \<Rightarrow> c | p # _ \<Rightarrow> map_delete (fst p) c) else c)
      in map_set n (now + nonce_ttl_ms cfg) c')"

definition get_nonce_cache_stats :: "sig_config \<Rightarrow> int \<Rightarrow> nonce_cache \<Rightarrow> (nat \<times> nat \<times> int) \<times> nonce_cache" where
  "get_nonce_cache_stats cfg now c =
     (let c' = evict_expired now c in ((length c', nonce_max_entries cfg, nonce_ttl_ms cfg), c'))"

section \<open>The signed string and the headers\<close>

definition build_signed_string ::
  "crypto_env \<Rightarrow> string \<Rightarrow> string \<Rightarrow> string \<Rightarrow> string \<Rightarrow> string \<Rightarrow> string" where
  "build_signed_string env method path timestamp nonce raw =
     to_upper method @ ''\<newline>'' @ path @ ''\<newline>'' @ timestamp @ ''\<newline>'' @ nonce @ ''\<newline>'' @
     sha256_hex env raw"

definition nonce_re :: "string \<Rightarrow> bool" where
  "nonce_re s \<longleftrightarrow> 16 \<le> length s \<and> length s \<le> 128 \<and>
     list_all (\<lambda>c. is_lower c \<or> is_upper c \<or> is_digit c \<or> c = CHR ''_'' \<or> c = CHR ''-'') s"

definition hex_char :: "char \<Rightarrow> bool" where
  "hex_char c = (digit_in 16 c \<noteq> None)"

definition hex_sig_re :: "string \<Rightarrow> bool" where
  "hex_sig_re s \<longleftrightarrow> length s = 128 \<and> list_all hex_char s"

definition base32_char :: "char \<Rightarrow> bool" where
  "base32_char c \<longleftrightarrow> is_upper c \<or> (let n = of_char c :: nat in 50 \<le> n \<and> n \<le> 55)"

definition stellar_pubkey_re :: "string \<Rightarrow> bool" where
  "stellar_pubkey_re s \<longleftrightarrow>
     (case s of [] \<Rightarrow> False | c # r \<Rightarrow> c = CHR ''G'' \<and> length r = 55 \<and> list_all base32_char r)"

fun hex_bytes :: "string \<Rightarrow> string" where
  "hex_bytes (a # b # r) =
     (case (digit_in 16 a, digit_in 16 b) of
        (Some x, Some y) \<Rightarrow> char_of (16 * x + y) # hex_bytes r
      | _ \<Rightarrow> [])"
| "hex_bytes _ = []"

record sig_headers =
  sh_signature :: string
  sh_signed_by :: string
  sh_nonce :: string
  sh_timestamp :: string
  sh_tsnum :: rat

record sig_error =
  se_status :: nat
  se_code :: string
  se_message :: string

definition sig_error :: "nat \<Rightarrow> string \<Rightarrow> string \<Rightarrow> sig_error" where
  "sig_error s c m = \<lparr>se_status = s, se_code = c, se_message = m\<rparr>"

definition header :: "request \<Rightarrow> string \<Rightarrow> string" where
  "header req h = (case map_get (headers req) h of None \<Rightarrow> [] | Some v \<Rightarrow> v)"

definition extract_headers :: "request \<Rightarrow> sig_error + sig_headers" where
  "extract_headers req =
     (let raw = header req ''x-signature''; by = header req ''x-signed-by'';
          nonce = header req ''x-nonce''; timestamp = header req ''x-timestamp''
      in if raw = [] \<or> by = [] \<or> nonce = [] \<or> timestamp = [] then
           Inl (sig_error 401 ''missing_signature''
             ''Request must include X-Signature, X-Signed-By, X-Nonce, and X-Timestamp headers'')
         else if \<not> hex_sig_re raw then
           Inl (sig_error 400 ''invalid_signature_format''
             ''X-Signature must be a 128-character hex string (64-byte Ed25519 signature)'')
         else if \<not> stellar_pubkey_re by then
           Inl (sig_error 400 ''invalid_signer_format''
             ''X-Signed-By must be a valid Stellar public key (G...)'')
         else if \<not> nonce_re nonce then
           Inl (sig_error 400 ''invalid_nonce_format''
             ''X-Nonce must be 16-128 alphanumeric characters, hyphens, or underscores'')
         else case string_to_number timestamp of
             Finite ts \<Rightarrow>
               if ts \<le> 0 then
                 Inl (sig_error 400 ''invalid_timestamp_format''
                   ''X-Timestamp must be a positive integer (Unix milliseconds)'')
               else Inr \<lparr>sh_signature = raw, sh_signed_by = by, sh_nonce = nonce,
                         sh_timestamp = timestamp, sh_tsnum = ts\<rparr>
           | _ \<Rightarrow> Inl (sig_error 400 ''invalid_timestamp_format''
                   ''X-Timestamp must be a positive integer (Unix milliseconds)''))"

section \<open>Verification\<close>

text \<open>The number of seconds as \<open>${ms / 1000}\<close> prints it.\<close>

definition seconds_str :: "int \<Rightarrow> string" where
  "seconds_str ms =
     int_str (ms div 1000) @
     (if ms mod 1000 = 0 then []
      else CHR ''.'' # rev (dropWhile (\<lambda>c. c = CHR ''0'') (rev (pad 3 (nat (ms mod 1000))))))"

definition verify_request_signature ::
  "crypto_env \<Rightarrow> sig_config \<Rightarrow> string \<Rightarrow> string \<Rightarrow> sig_headers \<Rightarrow> string \<Rightarrow> int \<Rightarrow> nonce_cache
    \<Rightarrow> sig_error option \<times> nonce_cache" where
  "verify_request_signature env cfg method path h raw now c =
     (let age = of_int now - sh_tsnum h
      in if age < 0 \<or> of_int (max_age_ms cfg) < age then
           (Some (sig_error 401 ''signature_expired''
              (''Request timestamp is outside the allowed '' @ [CHR 0xB1] @
               seconds_str (max_age_ms cfg) @ ''s window'')), c)
         else
           let (seen, c1) = is_nonce_seen (sh_nonce h) now c
           in if seen then
                (Some (sig_error 401 ''nonce_reused''
                  ''Nonce has already been used. Each request must carry a unique nonce.''), c1)
              else if \<not> pubkey_valid env (sh_signed_by h) then
                (Some (sig_error 400 ''invalid_public_key''
                  ''X-Signed-By contains an invalid Stellar public key''), c1)
              else if \<not> ed25519_verify env (sh_signed_by h)
                      (build_signed_string env method path (sh_timestamp h) (sh_nonce h) raw)
                      (hex_bytes (sh_signature h)) then
                (Some (sig_error 401 ''invalid_signature''
                  ''Signature verification failed. The request may have been tampered with.''), c1)
              else (None, record_nonce cfg (sh_nonce h) now c1))"

text \<open>The outcome \<open>Next\<close> carries \<open>req.verifiedSigner\<close>.\<close>

definition verify_signature_middleware ::
  "crypto_env \<Rightarrow> sig_config \<Rightarrow> request \<Rightarrow> int \<Rightarrow> nonce_cache
    \<Rightarrow> string option outcome \<times> nonce_cache" where
  "verify_signature_middleware env cfg req now c =
     (if req_method req = ''GET'' \<or> req_method req = ''HEAD'' \<or> req_method req = ''OPTIONS'' then
        (Next None, c)
      else
        let refuse = (\<lambda>e. if enforcement cfg
                          then Respond (send_error (se_status e) (Some (se_code e)) (se_message e) [])
                          else Next None)
        in case extract_headers req of
             Inl e \<Rightarrow> (refuse e, c)
           | Inr h \<Rightarrow>
               (case verify_request_signature env cfg (req_method req) (original_url req) h
                       (raw_body req) now c of
                  (Some e, c') \<Rightarrow> (refuse e, c')
                | (None, c') \<Rightarrow> (Next (Some (sh_signed_by h)), c')))"

definition verified :: "string option outcome \<Rightarrow> bool" where
  "verified out = (case out of Next (Some _) \<Rightarrow> True | _ \<Rightarrow> False)"

text \<open>The server over a list of requests with their arrival times.\<close>

fun serve_signed ::
  "crypto_env \<Rightarrow> sig_config \<Rightarrow> (request \<times> int) list \<Rightarrow> nonce_cache
    \<Rightarrow> string option outcome list \<times> nonce_cache" where
  "serve_signed env cfg [] c = ([], c)"
| "serve_signed env cfg ((req, now) # rs) c =
     (let (out, c1) = verify_signature_middleware env cfg req now c;
          (outs, c2) = serve_signed env cfg rs c1
      in (out # outs, c2))"

section \<open>Recency in the nonce cache\<close>

text \<open>The nonces recorded after \<open>n\<close>.\<close>

definition younger :: "'k \<Rightarrow> 'k list \<Rightarrow> 'k list" where
  "younger n ks = takeWhile (\<lambda>x. x \<noteq> n) (rev ks)"

lemma younger_snoc: "younger n (ks @ [k]) = (if k = n then [] else k # younger n ks)"
  by (simp add: younger_def)

lemma younger_filter:
  assumes "P n"
  shows "length (younger n (filter P ks)) \<le> length (younger n ks)"
proof -
  have "length (takeWhile (\<lambda>x. x \<noteq> n) (filter P xs)) \<le> length (takeWhile (\<lambda>x. x \<noteq> n) xs)" for xs
    using assms by (induction xs) auto
  then show ?thesis by (simp add: younger_def rev_filter)
qed

lemma younger_first:
  assumes "distinct (n # ks)"
  shows "length (younger n (n # ks)) = length ks"
proof -
  have "takeWhile (\<lambda>x. x \<noteq> n) (rev ks @ [n]) = rev ks"
    using assms by (subst takeWhile_append2) auto
  then show ?thesis by (simp add: younger_def)
qed

definition remembered :: "sig_config \<Rightarrow> string \<Rightarrow> int \<Rightarrow> nat \<Rightarrow> nonce_cache \<Rightarrow> bool" where
  "remembered cfg n e k c \<longleftrightarrow>
     map_ok c \<and> map_get c n = Some e \<and> length (younger n (map_keys c)) \<le> k"

lemma map_fst_filter_pairs:
  "map_ok c \<Longrightarrow> map fst (filter (\<lambda>(n, e). P n e) c) =
     filter (\<lambda>n. case map_of c n of None \<Rightarrow> False | Some e \<Rightarrow> P n e) (map fst c)"
proof (induction c)
  case Nil
  then show ?case by simp
next
  case (Cons p c)
  obtain a b where [simp]: "p = (a, b)" by (cases p)
  have "filter (\<lambda>n. case map_of ((a, b) # c) n of None \<Rightarrow> False | Some e \<Rightarrow> P n e) (map fst c) =
      filter (\<lambda>n. case map_of c n of None \<Rightarrow> False | Some e \<Rightarrow> P n e) (map fst c)"
    using Cons.prems by (intro filter_cong) auto
  with Cons show ?case by simp
qed

lemma remembered_evict:
  assumes "remembered cfg n e k c" and "now < e"
  shows "remembered cfg n e k (evict_expired now c)"
proof -
  have ok: "map_ok c" and g: "map_get c n = Some e" using assms(1) by (simp_all add: remembered_def)
  have "length (younger n (map_keys (evict_expired now c))) \<le> length (younger n (map_keys c))"
    unfolding evict_expired_def map_fst_filter_pairs [OF ok]
    by (rule younger_filter) (use assms(2) in \<open>simp add: g\<close>)
  then show ?thesis
    using assms ok g map_of_filter [OF ok, of "\<lambda>_ e. \<not> e \<le> now" n]
    by (simp add: remembered_def evict_expired_def keys_filter_distinct)
qed

lemma ok_evict: "map_ok c \<Longrightarrow> map_ok (evict_expired now c)"
  by (simp add: evict_expired_def keys_filter_distinct)

lemma record_eq:
  "record_nonce cfg m now c =
     map_set m (now + nonce_ttl_ms cfg)
       (if nonce_max_entries cfg \<le> length (map_keys (evict_expired now c)) \<and> evict_expired now c \<noteq> []
        then map_delete (hd (map_keys (evict_expired now c))) (evict_expired now c)
        else evict_expired now c)"
  by (cases "evict_expired now c") (simp_all add: record_nonce_def)

lemma ok_record: "map_ok c \<Longrightarrow> map_ok (record_nonce cfg m now c)"
  unfolding record_eq by (simp add: ok_evict om.ok_put om.ok_del)

lemma remembered_record_other:
  assumes r: "remembered cfg n e k c" and "now < e" "m \<noteq> n" "Suc k < nonce_max_entries cfg"
  shows "remembered cfg n e (Suc k) (record_nonce cfg m now c)"
proof -
  let ?c = "evict_expired now c"
  have r1: "remembered cfg n e k ?c" by (rule remembered_evict [OF r assms(2)])
  then have ok: "map_ok ?c" and g: "map_get ?c n = Some e"
    and y: "length (younger n (map_keys ?c)) \<le> k" by (simp_all add: remembered_def)
  have keep: "hd (map_keys ?c) \<noteq> n" if "nonce_max_entries cfg \<le> length (map_keys ?c)" "?c \<noteq> []"
  proof
    assume "hd (map_keys ?c) = n"
    with that(2) obtain ks where ks: "map_keys ?c = n # ks" by (cases "map_keys ?c") auto
    then have "length (younger n (map_keys ?c)) = length ks"
      using ok younger_first [of n ks] by simp
    then show False using y that(1) ks assms(4) by simp
  qed
  define d where "d = (if nonce_max_entries cfg \<le> length (map_keys ?c) \<and> ?c \<noteq> []
        then map_delete (hd (map_keys ?c)) ?c else ?c)"
  have "map_get d n = (if nonce_max_entries cfg \<le> length (map_keys ?c) \<and> ?c \<noteq> []
      \<and> hd (map_keys ?c) = n then None else map_get ?c n)"
    by (simp only: d_def map_of_delete if_split) auto
  then have d1: "map_get d n = Some e" using keep g by auto
  have d: "map_ok d" "length (younger n (map_keys d)) \<le> k"
    using ok y keep le_trans [OF younger_filter y, of "\<lambda>x. x \<noteq> hd (map_keys ?c)"]
    by (auto simp: d_def om.ok_del om.keys_del)
  have "record_nonce cfg m now c = map_set m (now + nonce_ttl_ms cfg) d"
    unfolding record_eq d_def ..
  moreover have "map_ok (map_set m v d)" for v by (rule om.ok_put [OF d(1)])
  ultimately show ?thesis
    using d d1 assms(3) by (simp only: remembered_def map_of_update keys_update) (simp add: younger_snoc)
qed

lemma evict_none: "map_get c m = None \<Longrightarrow> map_get (evict_expired now c) m = None"
  unfolding evict_expired_def by (force simp: map_of_eq_None_iff)

lemma remembered_record_new:
  assumes "map_ok c" and "map_get (evict_expired now c) n = None"
  shows "remembered cfg n (now + nonce_ttl_ms cfg) 0 (record_nonce cfg n now c)"
proof -
  let ?c = "evict_expired now c"
  define d where "d = (if nonce_max_entries cfg \<le> length (map_keys ?c) \<and> ?c \<noteq> []
        then map_delete (hd (map_keys ?c)) ?c else ?c)"
  have "n \<notin> set (map_keys ?c)" using assms(2) by (simp add: map_of_eq_None_iff)
  then have "n \<notin> set (map_keys d)" by (auto simp only: d_def keys_delete set_filter split: if_splits)
  moreover have "record_nonce cfg n now c = map_set n (now + nonce_ttl_ms cfg) d"
    unfolding record_eq d_def ..
  moreover have "map_ok (record_nonce cfg n now c)" by (rule ok_record [OF assms(1)])
  ultimately show ?thesis by (simp add: remembered_def keys_update younger_snoc)
qed

section \<open>One request\<close>

lemma verified_iff: "verified out \<longleftrightarrow> (\<exists>s. out = Next (Some s))"
  by (auto simp: verified_def split: outcome.splits option.splits)

text \<open>What it takes to be verified, and what every other request does to the cache.\<close>

lemma verified_facts:
  assumes "verify_signature_middleware env cfg req now c = (out, c')" and "verified out"
  shows "\<exists>h. extract_headers req = Inr h \<and> out = Next (Some (sh_signed_by h))
    \<and> 0 \<le> of_int now - sh_tsnum h \<and> of_int now - sh_tsnum h \<le> of_int (max_age_ms cfg)
    \<and> \<not> fst (is_nonce_seen (sh_nonce h) now c)
    \<and> ed25519_verify env (sh_signed_by h) (build_signed_string env (req_method req)
       (original_url req) (sh_timestamp h) (sh_nonce h) (raw_body req)) (hex_bytes (sh_signature h))
    \<and> c' = record_nonce cfg (sh_nonce h) now (evict_expired now c)"
proof -
  have out: "\<exists>s. out = Next (Some s)" using assms(2) by (simp add: verified_iff)
  then obtain h where h: "extract_headers req = Inr h"
    using assms(1)
    by (cases "extract_headers req")
      (auto simp: verify_signature_middleware_def split: if_splits)
  obtain e c2 where v: "verify_request_signature env cfg (req_method req) (original_url req) h
      (raw_body req) now c = (e, c2)" by fastforce
  have e: "e = None" "out = Next (Some (sh_signed_by h))" "c' = c2"
    using assms(1) out h v
    by (auto simp: verify_signature_middleware_def split: if_splits option.splits)
  show ?thesis
    using v e h
    by (auto simp: verify_request_signature_def Let_def is_nonce_seen_def split: if_splits)
qed

lemma unverified_cache:
  assumes "verify_signature_middleware env cfg req now c = (out, c')" and "\<not> verified out"
  shows "c' = c \<or> c' = evict_expired now c"
  using assms
  by (auto simp: verify_signature_middleware_def verify_request_signature_def Let_def verified_def
      is_nonce_seen_def split: if_splits sum.splits prod.splits option.splits)

lemma evict_idem: "evict_expired now (evict_expired now c) = evict_expired now c"
  by (simp add: evict_expired_def)

lemma record_evict: "record_nonce cfg n now (evict_expired now c) = record_nonce cfg n now c"
  by (simp add: record_nonce_def evict_idem)

lemma remembered_seen:
  "remembered cfg n e k c \<Longrightarrow> now < e \<Longrightarrow> fst (is_nonce_seen n now c)"
  using remembered_evict [of cfg n e k c now]
  by (simp add: is_nonce_seen_def Let_def remembered_def)

text \<open>One step of the server keeps a nonce in the cache, with one more younger nonce at most.\<close>

lemma remembered_step:
  assumes "remembered cfg n e k c" "now < e" "Suc k < nonce_max_entries cfg"
    and "verify_signature_middleware env cfg req now c = (out, c')"
  shows "remembered cfg n e (if verified out then Suc k else k) c'"
proof (cases "verified out")
  case False
  then show ?thesis
    using unverified_cache [OF assms(4) False] assms remembered_evict by auto
next
  case True
  from verified_facts [OF assms(4) True] obtain h :: sig_headers where
    h: "\<not> fst (is_nonce_seen (sh_nonce h) now c)"
      "c' = record_nonce cfg (sh_nonce h) now (evict_expired now c)" by blast
  have "sh_nonce h \<noteq> n" using h(1) remembered_seen [OF assms(1,2)] by auto
  then show ?thesis
    using True h(2) remembered_record_other [OF assms(1,2) _ assms(3)] by (simp add: record_evict)
qed

lemma remembered_mono: "remembered cfg n e k c \<Longrightarrow> k \<le> l \<Longrightarrow> remembered cfg n e l c"
  by (simp add: remembered_def)

lemma remembered_serve:
  assumes "remembered cfg n e k c"
    and "\<forall>x \<in> set rs. snd x < e"
    and "k + length (filter verified (fst (serve_signed env cfg rs c))) < nonce_max_entries cfg"
  shows "remembered cfg n e (k + length (filter verified (fst (serve_signed env cfg rs c))))
    (snd (serve_signed env cfg rs c))"
  using assms
proof (induction rs arbitrary: k c)
  case Nil
  then show ?case by simp
next
  case (Cons x rs)
  obtain req now where x: "x = (req, now)" by (cases x)
  obtain out c1 where m: "verify_signature_middleware env cfg req now c = (out, c1)" by fastforce
  obtain outs c2 where sv: "serve_signed env cfg rs c1 = (outs, c2)" by fastforce
  have all: "serve_signed env cfg (x # rs) c = (out # outs, c2)" by (simp add: x m sv)
  have now: "now < e" "\<forall>x \<in> set rs. snd x < e" using Cons.prems(2) by (simp_all add: x)
  show ?case
  proof (cases "verified out")
    case True
    have lt: "Suc k + length (filter verified outs) < nonce_max_entries cfg"
      using Cons.prems(3) True by (simp add: all)
    then have "remembered cfg n e (Suc k) c1"
      using remembered_step [OF Cons.prems(1) now(1) _ m] True by simp
    from Cons.IH [OF this now(2)] lt show ?thesis using True by (simp add: all sv)
  next
    case False
    have "c1 = c \<or> c1 = evict_expired now c" by (rule unverified_cache [OF m False])
    then have "remembered cfg n e k c1" using remembered_evict Cons.prems(1) now(1) by auto
    from Cons.IH [OF this now(2)] Cons.prems(3) False show ?thesis by (simp add: all sv)
  qed
qed

section \<open>Properties\<close>

text \<open>C1: a signed request is accepted at most once.  After a request was verified, any request with
  the same nonce and timestamp, at any later time and after any sequence of other requests, is
  refused: while the nonce is remembered as a replay, and afterwards as expired.  The nonce cache
  must not have been flooded (fewer verified requests in between than its capacity), and nonces
  must be kept longer than timestamps are valid, as the defaults do.\<close>

theorem signed_request_not_replayed:
  assumes ttl: "max_age_ms cfg < nonce_ttl_ms cfg"
    and ok: "map_ok c0"
    and first: "verify_signature_middleware env cfg req1 t1 c0 = (Next (Some s1), c1)"
    and between: "serve_signed env cfg rs c1 = (outs, c2)"
    and order: "\<forall>x \<in> set rs. snd x \<le> t2"
    and room: "length (filter verified outs) < nonce_max_entries cfg"
    and same: "header req2 ''x-nonce'' = header req1 ''x-nonce''"
      "header req2 ''x-timestamp'' = header req1 ''x-timestamp''"
  shows "\<not> verified (fst (verify_signature_middleware env cfg req2 t2 c2))"
proof
  obtain out c3 where m2: "verify_signature_middleware env cfg req2 t2 c2 = (out, c3)" by fastforce
  assume "verified (fst (verify_signature_middleware env cfg req2 t2 c2))"
  then have v2: "verified out" by (simp add: m2)
  have v1: "verified (Next (Some s1))" by (simp add: verified_def)
  from verified_facts [OF first v1] obtain h1 where h1: "extract_headers req1 = Inr h1"
    "0 \<le> of_int t1 - sh_tsnum h1" "\<not> fst (is_nonce_seen (sh_nonce h1) t1 c0)"
    "c1 = record_nonce cfg (sh_nonce h1) t1 (evict_expired t1 c0)" by auto
  from verified_facts [OF m2 v2] obtain h2 where h2: "extract_headers req2 = Inr h2"
    "of_int t2 - sh_tsnum h2 \<le> of_int (max_age_ms cfg)"
    "\<not> fst (is_nonce_seen (sh_nonce h2) t2 c2)" by auto
  have ext: "extract_headers req = Inr h \<Longrightarrow> sh_nonce h = header req ''x-nonce''
      \<and> string_to_number (header req ''x-timestamp'') = Finite (sh_tsnum h)" for req h
    by (auto simp: extract_headers_def Let_def split: if_splits js_number.splits)
  have eq: "sh_nonce h2 = sh_nonce h1" "sh_tsnum h2 = sh_tsnum h1"
    using ext [OF h1(1)] ext [OF h2(1)] same by simp_all
  let ?e = "t1 + nonce_ttl_ms cfg"
  have t2: "t2 < ?e"
  proof -
    have "of_int t2 \<le> (of_int (t1 + max_age_ms cfg) :: rat)" using h1(2) h2(2) eq by simp
    then have "t2 \<le> t1 + max_age_ms cfg" by linarith
    then show ?thesis using ttl by linarith
  qed
  have none: "map_get (evict_expired t1 c0) (sh_nonce h1) = None"
    using h1(3) map_of_filter [OF ok, of "\<lambda>_ e. \<not> e \<le> t1" "sh_nonce h1"]
    by (auto simp: is_nonce_seen_def Let_def evict_expired_def split: option.splits if_splits)
  have "remembered cfg (sh_nonce h1) ?e 0 c1"
    using remembered_record_new [OF ok none] h1(4) by (simp add: record_evict)
  from remembered_serve [OF this, of rs env] order room t2 between
  have "remembered cfg (sh_nonce h1) ?e (length (filter verified outs)) c2" by fastforce
  from remembered_seen [OF this t2] h2(3) eq show False by simp
qed

definition demo_env :: crypto_env where
  "demo_env = \<lparr>sha256_hex = (\<lambda>s. nat_str (length s)), pubkey_valid = (\<lambda>k. length k = 56),
     ed25519_verify = (\<lambda>k m s. length s = 64)\<rparr>"

definition demo_signed :: request where
  "demo_signed = \<lparr>req_method = ''POST'', original_url = ''/api/v1/distribute'',
     headers = [(''x-signature'', replicate 128 (CHR ''a'')),
                (''x-signed-by'', CHR ''G'' # replicate 55 (CHR ''A'')),
                (''x-nonce'', replicate 16 (CHR ''n'')), (''x-timestamp'', ''100'')],
     body = JNull, raw_body = ''{}'', req_ip = None\<rparr>"

definition demo_headers :: sig_headers where
  "demo_headers = \<lparr>sh_signature = replicate 128 (CHR ''a''),
     sh_signed_by = CHR ''G'' # replicate 55 (CHR ''A''), sh_nonce = replicate 16 (CHR ''n''),
     sh_timestamp = ''100'', sh_tsnum = 100\<rparr>"

lemma number_100: "string_to_number ''100'' = Finite 100"
  by code_simp

lemma demo_extract: "extract_headers demo_signed = Inr demo_headers"
  by (simp add: extract_headers_def Let_def header_def demo_signed_def demo_headers_def hex_sig_re_def
      hex_char_def digit_in_def stellar_pubkey_re_def base32_char_def nonce_re_def list_all_iff
      is_upper_def is_lower_def number_100 set_replicate_conv_if)

lemma length_hex_bytes_replicate:
  "digit_in 16 a = Some d \<Longrightarrow> length (hex_bytes (replicate (n + n) a)) = n"
  by (induction n) simp_all

lemma demo_sig_bytes: "length (hex_bytes (replicate 128 (CHR ''a''))) = 64"
  using length_hex_bytes_replicate [of "CHR ''a''" 10 64] by (simp add: digit_in_def)

lemma demo_verified:
  "verify_signature_middleware demo_env default_sig_config demo_signed 250 []
   = (Next (Some (sh_signed_by demo_headers)), [(replicate 16 (CHR ''n''), 600250)])"
  by (simp add: verify_signature_middleware_def demo_extract)
    (simp add: verify_request_signature_def is_nonce_seen_def evict_expired_def record_nonce_def
      demo_headers_def demo_signed_def demo_env_def default_sig_config_def demo_sig_bytes)

theorem signed_request_not_replayed_witness:
  "\<not> verified (fst (verify_signature_middleware demo_env default_sig_config demo_signed 900
       [(replicate 16 (CHR ''n''), 600250)]))"
  by (rule signed_request_not_replayed
      [OF _ _ demo_verified, where rs = "[]" and outs = "[]"])
    (simp_all add: default_sig_config_def)

text \<open>C2: with enforcement on, a mutating request reaches its route only with a verified signer:
  its timestamp is within the window and not in the future, its nonce is unused, and the signature
  verifies, under the key the route sees as the signer, for the string built from this request's
  own method, path, timestamp, nonce and body.\<close>

theorem mutating_request_needs_signature:
  assumes "enforcement cfg" and "req_method req \<notin> {''GET'', ''HEAD'', ''OPTIONS''}"
    and "verify_signature_middleware env cfg req now c = (Next signer, c')"
  shows "\<exists>h. extract_headers req = Inr h \<and> signer = Some (sh_signed_by h)
    \<and> sh_tsnum h \<le> of_int now \<and> of_int now \<le> sh_tsnum h + of_int (max_age_ms cfg)
    \<and> \<not> fst (is_nonce_seen (sh_nonce h) now c)
    \<and> ed25519_verify env (sh_signed_by h)
        (build_signed_string env (req_method req) (original_url req) (sh_timestamp h)
           (sh_nonce h) (raw_body req)) (hex_bytes (sh_signature h))"
proof -
  have "verified (Next signer)"
    using assms
    by (cases signer)
      (auto simp: verify_signature_middleware_def Let_def verified_def
        split: if_splits sum.splits prod.splits option.splits)
  from verified_facts [OF assms(3) this] show ?thesis
    by (fastforce simp: algebra_simps)
qed

theorem mutating_request_needs_signature_witness:
  "\<exists>h. extract_headers demo_signed = Inr h \<and> sh_signed_by h = sh_signed_by demo_headers"
proof -
  have "enforcement default_sig_config" "req_method demo_signed \<notin> {''GET'', ''HEAD'', ''OPTIONS''}"
    by (simp_all add: default_sig_config_def demo_signed_def)
  from mutating_request_needs_signature [OF this demo_verified] show ?thesis by auto
qed

lemma split_at_newline:
  assumes "CHR ''\<newline>'' \<notin> set a" "CHR ''\<newline>'' \<notin> set b" "a @ CHR ''\<newline>'' # x = b @ CHR ''\<newline>'' # y"
  shows "a = b \<and> x = y"
  using assms
proof (induction a arbitrary: b)
  case Nil
  then show ?case by (cases b) auto
next
  case (Cons c a)
  then show ?case by (cases b) auto
qed

text \<open>The canonical string binds every part of the request: for parts without a line break
  (which HTTP rules out) equal strings mean equal method, path, timestamp, nonce and body hash, so
  a signature cannot be moved to another request.\<close>

theorem signed_string_binds_request:
  assumes "build_signed_string env m p t n b = build_signed_string env m' p' t' n' b'"
    and "\<forall>s \<in> {to_upper m, to_upper m', p, p', t, t', n, n'}. CHR ''\<newline>'' \<notin> set s"
  shows "to_upper m = to_upper m' \<and> p = p' \<and> t = t' \<and> n = n' \<and> sha256_hex env b = sha256_hex env b'"
proof -
  have nl: "CHR ''\<newline>'' \<notin> set (to_upper m)" "CHR ''\<newline>'' \<notin> set (to_upper m')" "CHR ''\<newline>'' \<notin> set p"
    "CHR ''\<newline>'' \<notin> set p'" "CHR ''\<newline>'' \<notin> set t" "CHR ''\<newline>'' \<notin> set t'" "CHR ''\<newline>'' \<notin> set n"
    "CHR ''\<newline>'' \<notin> set n'" using assms(2) by auto
  note e = assms(1) [unfolded build_signed_string_def append_Cons append_Nil]
  note e1 = split_at_newline [OF nl(1,2) e]
  note e2 = split_at_newline [OF nl(3,4) e1 [THEN conjunct2]]
  note e3 = split_at_newline [OF nl(5,6) e2 [THEN conjunct2]]
  note e4 = split_at_newline [OF nl(7,8) e3 [THEN conjunct2]]
  show ?thesis using e1 e2 e3 e4 by blast
qed

theorem signed_string_binds_request_witness:
  "to_upper ''post'' = to_upper ''POST'' \<and> ''/a'' = ''/a'' \<and> ''1'' = ''1'' \<and> ''n'' = ''n''
   \<and> sha256_hex demo_env ''xy'' = sha256_hex demo_env ''zz''"
proof (rule signed_string_binds_request)
  have u: "to_upper ''post'' = ''POST''" "to_upper ''POST'' = ''POST''" by code_simp+
  show "build_signed_string demo_env ''post'' ''/a'' ''1'' ''n'' ''xy'' =
      build_signed_string demo_env ''POST'' ''/a'' ''1'' ''n'' ''zz''"
    by (simp add: build_signed_string_def u demo_env_def)
  show "\<forall>s \<in> {to_upper ''post'', to_upper ''POST'', ''/a'', ''/a'', ''1'', ''1'', ''n'', ''n''}.
      CHR ''\<newline>'' \<notin> set s"
    by (simp add: u)
qed

text \<open>A request that is refused records nothing: it can only drop expired nonces, so a flood of
  invalid signatures cannot push live nonces out of the cache.\<close>

theorem refused_request_keeps_nonces:
  assumes "verify_signature_middleware env cfg req now c = (out, c')" and "\<not> verified out"
    and "map_ok c" and "map_get c n = Some e" and "now < e"
  shows "map_get c' n = Some e \<and> set c' \<subseteq> set c"
  using unverified_cache [OF assms(1,2)] assms(3-5)
    map_of_filter [OF assms(3), of "\<lambda>_ e. \<not> e \<le> now" n]
  by (auto simp: evict_expired_def)

theorem refused_request_keeps_nonces_witness:
  "map_get (snd (verify_signature_middleware demo_env default_sig_config
      (demo_signed\<lparr>headers := []\<rparr>) 9 [(''live'', 600000)])) ''live'' = Some 600000"
  using refused_request_keeps_nonces [of demo_env default_sig_config "demo_signed\<lparr>headers := []\<rparr>" 9
      "[(''live'', 600000)]", where n = "''live''"]
  by (simp add: verify_signature_middleware_def extract_headers_def header_def demo_signed_def
      verified_def default_sig_config_def)

end
