(* ===== verification/Dedup.thy ===== *)
theory Dedup
  imports Http
begin

text \<open>
  \<open>src/backend/src/middleware/dedup.js\<close>: single-flight execution of requests with equal contract,
  wallet, operation and token.  The first request of a key becomes its owner and runs; later ones
  wait on the owner's promise.  The state is the module's \<open>inFlight\<close> object (key to the promise,
  named by its owner's id) with the pending waiters, the owners whose safety timer is armed, and
  the responses sent so far.  The SHA-256 of the stringified key object is a parameter.

  The events are the ones of the event loop: a request arrives, an owner's route sends its JSON,
  a timer fires.  \<open>next\<close> is called once, without an error, so the rejecting branch of
  \<open>wrappedNext\<close> is dead code and has no event.
\<close>

record dedup_state =
  in_flight :: "(string, nat) jsmap"
  waiting :: "(nat \<times> nat) list"       \<comment> \<open>waiter, owner\<close>
  armed :: "(nat \<times> string) list"      \<comment> \<open>owner, key\<close>
  settled :: "(nat, response) jsmap"
  executed :: "nat list"
  answered :: "(nat \<times> response) list"
  dd_hits :: nat
  dd_misses :: nat

definition dedup_init :: dedup_state where
  "dedup_init = \<lparr>in_flight = [], waiting = [], armed = [], settled = [], executed = [],
     answered = [], dd_hits = 0, dd_misses = 0\<rparr>"

definition json_field :: "json \<Rightarrow> string \<Rightarrow> json option" where
  "json_field j f = (case j of JObj fs \<Rightarrow> map_get fs f | _ \<Rightarrow> None)"

definition json_truthy :: "json option \<Rightarrow> bool" where
  "json_truthy j = (case j of
     None \<Rightarrow> False | Some JNull \<Rightarrow> False | Some (JBool t) \<Rightarrow> t | Some (JNum n) \<Rightarrow> n \<noteq> 0
   | Some (JStr s) \<Rightarrow> s \<noteq> [] | Some _ \<Rightarrow> True)"

definition build_dedup_key :: "((string \<times> json) list \<Rightarrow> string) \<Rightarrow> json \<Rightarrow> string" where
  "build_dedup_key sha b =
     sha (concat (map (\<lambda>f. case json_field b f of None \<Rightarrow> [] | Some v \<Rightarrow> [(f, v)])
       [''contractId'', ''walletAddress'', ''operation'', ''tokenId'']))"

definition dedup_arrive ::
  "((string \<times> json) list \<Rightarrow> string) \<Rightarrow> nat \<Rightarrow> json \<Rightarrow> dedup_state \<Rightarrow> dedup_state" where
  "dedup_arrive sha i b st =
     (if \<not> json_truthy (json_field b ''contractId'') then
        st\<lparr>dd_misses := dd_misses st + 1, executed := executed st @ [i]\<rparr>
      else
        let key = build_dedup_key sha b
        in case map_get (in_flight st) key of
             Some owner \<Rightarrow>
               st\<lparr>dd_hits := dd_hits st + 1, waiting := waiting st @ [(i, owner)]\<rparr>
           | None \<Rightarrow>
               st\<lparr>dd_misses := dd_misses st + 1, in_flight := map_set key i (in_flight st),
                  armed := armed st @ [(i, key)], executed := executed st @ [i]\<rparr>)"

text \<open>Settling a promise answers its waiters; only the first settlement of a promise counts.\<close>

definition settle :: "nat \<Rightarrow> response \<Rightarrow> dedup_state \<Rightarrow> dedup_state" where
  "settle owner r st =
     (if map_has (settled st) owner then st
      else st\<lparr>settled := map_set owner r (settled st),
              answered := answered st @ map (\<lambda>w. (fst w, r)) (filter (\<lambda>w. snd w = owner) (waiting st)),
              waiting := filter (\<lambda>w. snd w \<noteq> owner) (waiting st)\<rparr>)"

definition dedup_json :: "nat \<Rightarrow> string \<Rightarrow> response \<Rightarrow> dedup_state \<Rightarrow> dedup_state" where
  "dedup_json owner key r st =
     (let st1 = st\<lparr>armed := filter (\<lambda>a. fst a \<noteq> owner) (armed st),
                   in_flight := map_delete key (in_flight st)\<rparr>;
          st2 = settle owner r st1
      in st2\<lparr>answered := answered st2 @ [(owner, r)]\<rparr>)"

definition timed_out :: response where
  "timed_out = \<lparr>rstatus = 500, rbody = JObj [(''error'', JStr ''Dedup entry timed out'')]\<rparr>"

definition dedup_timeout :: "nat \<Rightarrow> string \<Rightarrow> dedup_state \<Rightarrow> dedup_state" where
  "dedup_timeout owner key st0 =
     (let st = st0\<lparr>armed := filter (\<lambda>a. fst a \<noteq> owner) (armed st0)\<rparr>
      in if map_get (in_flight st) key = Some owner
         then settle owner timed_out (st\<lparr>in_flight := map_delete key (in_flight st)\<rparr>)
         else st)"

section \<open>Runs\<close>

datatype dedup_event = Arrive nat json | Answered nat string response | TimerFires nat string

definition dedup_step ::
  "((string \<times> json) list \<Rightarrow> string) \<Rightarrow> dedup_state \<Rightarrow> dedup_event \<Rightarrow> dedup_state" where
  "dedup_step sha st e = (case e of
     Arrive i b \<Rightarrow> dedup_arrive sha i b st
   | Answered i key r \<Rightarrow> dedup_json i key r st
   | TimerFires i key \<Rightarrow> dedup_timeout i key st)"

definition dedup_run ::
  "((string \<times> json) list \<Rightarrow> string) \<Rightarrow> dedup_event list \<Rightarrow> dedup_state \<Rightarrow> dedup_state" where
  "dedup_run sha es st = foldl (dedup_step sha) st es"

lemma dedup_run_Nil [simp]: "dedup_run sha [] st = st"
  by (simp add: dedup_run_def)

lemma dedup_run_Cons [simp]: "dedup_run sha (e # es) st = dedup_run sha es (dedup_step sha st e)"
  by (simp add: dedup_run_def)

lemma dedup_run_append: "dedup_run sha (es @ fs) st = dedup_run sha fs (dedup_run sha es st)"
  by (simp add: dedup_run_def)

text \<open>An event that concerns neither the promise of \<open>i\<close> nor the entry \<open>key\<close>.\<close>

definition foreign :: "nat \<Rightarrow> string \<Rightarrow> dedup_event \<Rightarrow> bool" where
  "foreign i key e = (case e of
     Arrive j b \<Rightarrow> j \<noteq> i
   | Answered j k r \<Rightarrow> j \<noteq> i \<and> k \<noteq> key
   | TimerFires j k \<Rightarrow> j \<noteq> i \<and> k \<noteq> key)"

text \<open>The requests among some events that carry the key.\<close>

definition hits_key :: "((string \<times> json) list \<Rightarrow> string) \<Rightarrow> string \<Rightarrow> dedup_event \<Rightarrow> nat list" where
  "hits_key sha key e = (case e of
     Arrive j b \<Rightarrow>
       if json_truthy (json_field b ''contractId'') \<and> build_dedup_key sha b = key then [j] else []
   | _ \<Rightarrow> [])"

definition owns :: "nat \<Rightarrow> string \<Rightarrow> dedup_state \<Rightarrow> bool" where
  "owns i key st \<longleftrightarrow> map_get (in_flight st) key = Some i
     \<and> (\<forall>k. map_get (in_flight st) k = Some i \<longrightarrow> k = key) \<and> map_get (settled st) i = None"

lemma settle_frame:
  assumes "j \<noteq> i"
  shows "filter (\<lambda>w. snd w = i) (waiting (settle j r st)) = filter (\<lambda>w. snd w = i) (waiting st)"
    "map_get (settled (settle j r st)) i = map_get (settled st) i"
  using assms by (auto simp: settle_def intro: filter_cong)

lemma settle_fields [simp]:
  "in_flight (settle j r st) = in_flight st" "executed (settle j r st) = executed st"
  by (simp_all add: settle_def)

lemma foreign_step:
  assumes "owns i key st" and "foreign i key e"
  shows "owns i key (dedup_step sha st e)"
    and "filter (\<lambda>w. snd w = i) (waiting (dedup_step sha st e)) =
      filter (\<lambda>w. snd w = i) (waiting st) @ map (\<lambda>j. (j, i)) (hits_key sha key e)"
    and "hits_key sha key e \<noteq> [] \<Longrightarrow> executed (dedup_step sha st e) = executed st"
proof -
  consider (a) j b where "e = Arrive j b" "j \<noteq> i"
    | (b) j k r where "e = Answered j k r" "j \<noteq> i" "k \<noteq> key"
    | (c) j k where "e = TimerFires j k" "j \<noteq> i" "k \<noteq> key"
    using assms(2) by (cases e) (auto simp: foreign_def)
  note cs = this
  show "owns i key (dedup_step sha st e)"
    using cs
  proof cases
    case a
    then show ?thesis using assms(1)
      by (auto simp: owns_def dedup_step_def dedup_arrive_def Let_def split: option.splits)
  next
    case b
    then show ?thesis using assms(1)
      by (auto simp: owns_def dedup_step_def dedup_json_def Let_def settle_frame(2) [OF b(2)])
  next
    case c
    then show ?thesis using assms(1)
      by (auto simp: owns_def dedup_step_def dedup_timeout_def Let_def settle_frame(2) [OF c(2)])
  qed
  show "filter (\<lambda>w. snd w = i) (waiting (dedup_step sha st e)) =
      filter (\<lambda>w. snd w = i) (waiting st) @ map (\<lambda>j. (j, i)) (hits_key sha key e)"
    using cs
  proof cases
    case a
    have w: "filter (\<lambda>w. snd w = i) (waiting (dedup_arrive sha j b st)) =
        filter (\<lambda>w. snd w = i) (waiting st) @
        (if json_truthy (json_field b ''contractId'')
          \<and> map_get (in_flight st) (build_dedup_key sha b) = Some i then [(j, i)] else [])"
      by (simp add: dedup_arrive_def Let_def split: option.split)
    have "map_get (in_flight st) (build_dedup_key sha b) = Some i \<longleftrightarrow> build_dedup_key sha b = key"
      using assms(1) by (auto simp: owns_def)
    then show ?thesis using w by (simp add: dedup_step_def hits_key_def a(1))
  next
    case b
    then show ?thesis
      by (simp add: dedup_step_def dedup_json_def hits_key_def Let_def settle_frame(1) [OF b(2)])
  next
    case c
    then show ?thesis
      by (simp add: dedup_step_def dedup_timeout_def hits_key_def Let_def settle_frame(1) [OF c(2)])
  qed
  show "executed (dedup_step sha st e) = executed st" if "hits_key sha key e \<noteq> []"
    using cs
  proof cases
    case a
    have k: "map_get (in_flight st) key = Some i" using assms(1) by (simp add: owns_def)
    have "json_truthy (json_field b ''contractId'') \<and> build_dedup_key sha b = key"
      using that by (simp add: hits_key_def a(1) split: if_splits)
    then show ?thesis using k by (simp add: dedup_step_def dedup_arrive_def Let_def a(1))
  qed (use that in \<open>simp_all add: hits_key_def\<close>)
qed

lemma foreign_run:
  assumes "owns i key st" and "list_all (foreign i key) es"
  shows "owns i key (dedup_run sha es st)
    \<and> filter (\<lambda>w. snd w = i) (waiting (dedup_run sha es st)) =
      filter (\<lambda>w. snd w = i) (waiting st) @ map (\<lambda>j. (j, i)) (concat (map (hits_key sha key) es))"
  using assms
proof (induction es arbitrary: st)
  case Nil
  then show ?case by simp
next
  case (Cons e es)
  have e: "foreign i key e" "list_all (foreign i key) es" using Cons.prems(2) by simp_all
  note s = foreign_step [OF Cons.prems(1) e(1), of sha]
  from Cons.IH [OF s(1) e(2)] show ?case by (simp add: s(2))
qed

section \<open>Properties\<close>


definition demo_body :: json where
  "demo_body = JObj [(''contractId'', JStr ''C1''), (''walletAddress'', JStr ''G1'')]"

definition demo_sha :: "(string \<times> json) list \<Rightarrow> string" where
  "demo_sha o1 = (case o1 of [] \<Rightarrow> [] | p # _ \<Rightarrow> (case snd p of JStr s \<Rightarrow> s | _ \<Rightarrow> fst p))"

lemma demo_key: "build_dedup_key demo_sha demo_body = ''C1''"
  by (simp add: build_dedup_key_def json_field_def demo_body_def demo_sha_def)


text \<open>An owner that answers after its safety timer fired removes the entry of its key even when
  a later request owns it by then, so a third request with the same key runs beside the second.\<close>

theorem dedup_late_owner_breaks_flight:
  assumes "json_truthy (json_field b ''contractId'')" and "build_dedup_key sha b = key"
  shows "executed (dedup_run sha [Arrive 1 b, TimerFires 1 key, Arrive 2 b, Answered 1 key r, Arrive 3 b]
     dedup_init) = [1, 2, 3]"
  using assms by (simp add: dedup_step_def dedup_arrive_def dedup_json_def dedup_timeout_def
      dedup_init_def Let_def)

theorem dedup_late_owner_breaks_flight_witness:
  "executed (dedup_run demo_sha [Arrive 1 demo_body, TimerFires 1 ''C1'', Arrive 2 demo_body,
     Answered 1 ''C1'' timed_out, Arrive 3 demo_body] dedup_init) = [1, 2, 3]"
  by (rule dedup_late_owner_breaks_flight)
    (simp add: json_truthy_def json_field_def demo_body_def, rule demo_key)

end
