(* ===== verification/WarmCache.thy ===== *)
theory WarmCache
  imports OrderedMap
begin

text \<open>
  \<open>src/backend/src/cache.js\<close>: the cache of contract state with background refresh.  The state is
  the module's three maps and its metrics.  A refresh is split at its only suspension point: it
  starts (the key enters \<open>refresh_in_flight\<close> and the fetch is issued) and later completes with a
  value or a failure.  The external fetch function is a parameter; \<open>fetch_throws\<close> says whether the
  call itself throws before returning a promise.  The promise object is represented by its key.
\<close>

record 'v cache_item =
  ci_value :: 'v
  fetched_at :: int
  ci_expires_at :: int

record cache_config =
  ttl_ms :: int
  warm_lead_time_ms :: int

record 'v warm_state =
  cache_store :: "(string, 'v cache_item) jsmap"
  refresh_in_flight :: "(string, unit) jsmap"
  access_count :: "(string, nat) jsmap"
  fetch_configured :: bool
  hits :: nat
  misses :: nat
  stale_serves :: nat
  refresh_latency_ms :: int

definition default_cache_config :: cache_config where
  "default_cache_config = \<lparr>ttl_ms = 60000, warm_lead_time_ms = 30000\<rparr>"

definition warming_enabled :: "cache_config \<Rightarrow> bool" where
  "warming_enabled cfg \<longleftrightarrow> warm_lead_time_ms cfg < ttl_ms cfg"

definition cache_init :: "'v warm_state" where
  "cache_init = \<lparr>cache_store = [], refresh_in_flight = [], access_count = [],
     fetch_configured = False, hits = 0, misses = 0, stale_serves = 0, refresh_latency_ms = 0\<rparr>"

definition configure_cache :: "bool \<Rightarrow> 'v warm_state \<Rightarrow> 'v warm_state res" where
  "configure_cache is_function st =
     (if \<not> is_function then Inl (TypeErr ''fetch function must be a function'')
      else Inr (st\<lparr>fetch_configured := True\<rparr>))"

definition cache_set :: "string \<Rightarrow> 'v \<Rightarrow> int \<Rightarrow> int \<Rightarrow> 'v warm_state \<Rightarrow> 'v warm_state" where
  "cache_set key v ttl now st =
     st\<lparr>cache_store := map_set key
          \<lparr>ci_value = v, fetched_at = now, ci_expires_at = now + ttl\<rparr> (cache_store st)\<rparr>"

text \<open>The result says whether a fetch was issued.\<close>

definition refresh_contract ::
  "(string \<Rightarrow> bool) \<Rightarrow> string \<Rightarrow> 'v warm_state \<Rightarrow> bool \<times> 'v warm_state" where
  "refresh_contract fetch_throws key st =
     (if \<not> fetch_configured st then (False, st)
      else if map_has (refresh_in_flight st) key then (False, st)
      else
        let st1 = (if fetch_throws key
                   then st\<lparr>refresh_in_flight := map_delete key (refresh_in_flight st)\<rparr> else st)
        in (True, st1\<lparr>refresh_in_flight := map_set key () (refresh_in_flight st1)\<rparr>))"

definition finish_refresh ::
  "cache_config \<Rightarrow> string \<Rightarrow> 'v option \<Rightarrow> int \<Rightarrow> int \<Rightarrow> 'v warm_state \<Rightarrow> 'v warm_state" where
  "finish_refresh cfg key fetched start now st =
     (let st1 = (case fetched of
                   None \<Rightarrow> st
                 | Some v \<Rightarrow> (cache_set key v (ttl_ms cfg) now st)
                     \<lparr>refresh_latency_ms := refresh_latency_ms st + (now - start)\<rparr>)
      in st1\<lparr>refresh_in_flight := map_delete key (refresh_in_flight st1)\<rparr>)"

definition cache_get ::
  "cache_config \<Rightarrow> (string \<Rightarrow> bool) \<Rightarrow> string \<Rightarrow> int \<Rightarrow> 'v warm_state \<Rightarrow> 'v option \<times> 'v warm_state" where
  "cache_get cfg fetch_throws key now st =
     (case map_get (cache_store st) key of
        None \<Rightarrow> (None, st\<lparr>misses := misses st + 1\<rparr>)
      | Some e \<Rightarrow>
          if ci_expires_at e \<le> now then (None, st\<lparr>misses := misses st + 1\<rparr>)
          else if warming_enabled cfg \<and> ci_expires_at e - warm_lead_time_ms cfg \<le> now then
            (let st1 = (if map_has (refresh_in_flight st) key then st
                        else snd (refresh_contract fetch_throws key st))
             in (Some (ci_value e), st1\<lparr>stale_serves := stale_serves st1 + 1\<rparr>))
          else (Some (ci_value e), st\<lparr>hits := hits st + 1\<rparr>))"

text \<open>One tick of the scheduler picks the most accessed contracts; each is refreshed after a random
  delay, so the tick returns the keys and the event loop issues the refreshes.\<close>

definition accesses :: "'v warm_state \<Rightarrow> string \<Rightarrow> nat" where
  "accesses st key = (case map_get (access_count st) key of None \<Rightarrow> 0 | Some n \<Rightarrow> n)"

definition warming_tick :: "nat \<Rightarrow> string list \<Rightarrow> 'v warm_state \<Rightarrow> string list" where
  "warming_tick batch contracts st =
     take batch (sort_key (\<lambda>k. - int (accesses st k)) contracts)"

definition record_access :: "string \<Rightarrow> 'v warm_state \<Rightarrow> 'v warm_state" where
  "record_access key st = st\<lparr>access_count := map_set key (accesses st key + 1) (access_count st)\<rparr>"

definition reset_metrics :: "'v warm_state \<Rightarrow> 'v warm_state" where
  "reset_metrics st = st\<lparr>hits := 0, misses := 0, stale_serves := 0, refresh_latency_ms := 0\<rparr>"

definition get_metrics :: "'v warm_state \<Rightarrow> nat \<times> nat \<times> nat \<times> int" where
  "get_metrics st = (hits st, misses st, stale_serves st, refresh_latency_ms st)"

section \<open>Freshness\<close>

text \<open>What a lookup returns is never expired and is exactly the value stored last; a lookup
  inside the lead time before expiry still returns it and leaves a refresh of the key in flight;
  every lookup is counted once.\<close>

theorem cache_get_fresh:
  assumes "cache_get cfg ft key now st = (r, st')"
  shows "(r = (case map_get (cache_store st) key of
              None \<Rightarrow> None | Some e \<Rightarrow> if now < ci_expires_at e then Some (ci_value e) else None))
    \<and> cache_store st' = cache_store st
    \<and> (\<forall>e. map_get (cache_store st) key = Some e \<and> fetch_configured st \<and> warming_enabled cfg
         \<and> now < ci_expires_at e \<and> ci_expires_at e - warm_lead_time_ms cfg \<le> now
         \<longrightarrow> map_has (refresh_in_flight st') key)
    \<and> hits st' + misses st' + stale_serves st' = Suc (hits st + misses st + stale_serves st)"
proof -
  have rc: "cache_store (snd (refresh_contract ft key st)) = cache_store st"
    "hits (snd (refresh_contract ft key st)) = hits st"
    "misses (snd (refresh_contract ft key st)) = misses st"
    "stale_serves (snd (refresh_contract ft key st)) = stale_serves st"
    "fetch_configured st \<Longrightarrow> map_has (refresh_in_flight (snd (refresh_contract ft key st))) key"
    by (simp_all add: refresh_contract_def Let_def map_has_def)
  show ?thesis
    using assms by (auto simp: cache_get_def Let_def rc split: option.splits if_splits)
qed

definition demo_warm :: "nat warm_state" where
  "demo_warm = cache_set ''C1'' 7 60000 0 (cache_init\<lparr>fetch_configured := True\<rparr>)"

theorem cache_get_fresh_witness:
  "fst (cache_get default_cache_config (\<lambda>_. False) ''C1'' 40000 demo_warm) = Some 7
   \<and> map_has (refresh_in_flight (snd (cache_get default_cache_config (\<lambda>_. False) ''C1'' 40000 demo_warm)))
       ''C1''"
  using cache_get_fresh [OF surjective_pairing, of default_cache_config "\<lambda>_. False" "''C1''" 40000 demo_warm]
  by (simp add: demo_warm_def cache_set_def cache_init_def default_cache_config_def
      warming_enabled_def)

section \<open>Single flight\<close>

text \<open>A refresh that is in flight is not issued again; a failed one keeps the stored value, a
  successful one replaces it for a full TTL, and both leave the flight.\<close>

lemma refresh_single_flight:
  "map_has (refresh_in_flight st) key \<Longrightarrow> refresh_contract ft key st = (False, st)"
  by (simp add: refresh_contract_def)

lemma finish_refresh_store:
  "map_get (cache_store (finish_refresh cfg key fetched start now st)) key =
     (case fetched of None \<Rightarrow> map_get (cache_store st) key
      | Some v \<Rightarrow> Some \<lparr>ci_value = v, fetched_at = now, ci_expires_at = now + ttl_ms cfg\<rparr>)"
  "\<not> map_has (refresh_in_flight (finish_refresh cfg key fetched start now st)) key"
  by (auto simp: finish_refresh_def cache_set_def Let_def map_has_def split: option.split)

text \<open>A fetch function that throws before it returns a promise leaves its key in flight with no
  completion to come: the refresh code removes the key before it adds it, so from then on the key
  is never refreshed again.\<close>

theorem refresh_sync_throw_sticks:
  assumes "fetch_configured st" and "\<not> map_has (refresh_in_flight st) key" and "ft key"
    and "refresh_contract ft key st = (issued, st')"
  shows "issued \<and> map_has (refresh_in_flight st') key \<and> refresh_contract ft2 key st' = (False, st')"
  using assms by (auto simp: refresh_contract_def Let_def map_has_def)

theorem refresh_sync_throw_sticks_witness:
  "map_has (refresh_in_flight (snd (refresh_contract (\<lambda>_. True) ''C1'' demo_warm))) ''C1''"
  using refresh_sync_throw_sticks [of demo_warm "''C1''" "\<lambda>_. True", OF _ _ _ surjective_pairing]
  by (simp add: demo_warm_def cache_set_def cache_init_def map_has_def)

text \<open>The scheduler refreshes at most \<open>batch\<close> contracts, all of them active, none less accessed than
  one it leaves out.\<close>

lemma warming_tick_top:
  assumes "x \<in> set (warming_tick batch cs st)" and "y \<in> set (drop batch (sort_key (\<lambda>k. - int (accesses st k)) cs))"
  shows "x \<in> set cs" "accesses st y \<le> accesses st x" "length (warming_tick batch cs st) \<le> batch"
proof -
  let ?k = "\<lambda>k. - int (accesses st k)" and ?s = "sort_key (\<lambda>k. - int (accesses st k)) cs"
  have x: "x \<in> set (take batch ?s)" using assms(1) by (simp add: warming_tick_def)
  then show "x \<in> set cs" by (auto dest: in_set_takeD)
  have "sorted (map ?k (take batch ?s @ drop batch ?s))" by simp
  then have "sorted_wrt (\<lambda>a b. ?k a \<le> ?k b) (take batch ?s @ drop batch ?s)"
    by (simp only: sorted_map)
  then have "?k x \<le> ?k y" using x assms(2) by (simp add: sorted_wrt_append del: append_take_drop_id)
  then show "accesses st y \<le> accesses st x" by simp
  show "length (warming_tick batch cs st) \<le> batch" by (simp add: warming_tick_def)
qed

end
