(* ===== verification/RpcRetry.thy ===== *)
theory RpcRetry
  imports Http
begin

text \<open>
  \<open>src/backend/src/rpc-retry.js\<close>: classification of RPC errors, exponential backoff with jitter and
  the retry wrapper.  A caught error is a record of the properties the code looks at; the wrapped
  operation is a function of the state of the world, so a retry is a second application of it.
  \<open>Math.random()\<close> is a parameter (a rational in [0, 1)) and a sleep is recorded as its delay.
\<close>

record result_codes =
  rc_transaction :: "string option"
  rc_operations :: "string list option"

record rpc_error =
  e_message :: "string option"
  e_msg :: "string option"
  e_response_status :: "nat option"
  e_status :: "nat option"
  e_code :: "string option"
  e_errno :: "string option"
  e_type :: "string option"                   \<comment> \<open>\<open>_type\<close>\<close>
  e_has_events :: bool                        \<comment> \<open>\<open>events !== undefined\<close>\<close>
  e_error :: "string option"
  e_result_error :: "string option"           \<comment> \<open>\<open>result.error\<close>\<close>
  e_response_codes :: "result_codes option"   \<comment> \<open>\<open>response.data.extras.result_codes\<close>\<close>
  e_data_codes :: "result_codes option"       \<comment> \<open>\<open>data.extras.result_codes\<close>\<close>
  e_extras_codes :: "result_codes option"     \<comment> \<open>\<open>extras.result_codes\<close>\<close>
  e_response_data :: "json option"

text \<open>An error object without any of the properties, and \<open>new Error(m)\<close>.\<close>

definition bare_error :: rpc_error where
  "bare_error = \<lparr>e_message = None, e_msg = None, e_response_status = None, e_status = None,
     e_code = None, e_errno = None, e_type = None, e_has_events = False, e_error = None,
     e_result_error = None, e_response_codes = None, e_data_codes = None, e_extras_codes = None,
     e_response_data = None\<rparr>"

definition new_error :: "string \<Rightarrow> rpc_error" where
  "new_error m = bare_error\<lparr>e_message := Some m\<rparr>"

record retry_config =
  max_retries :: nat
  base_backoff_ms :: rat
  max_backoff_ms :: rat

definition default_retry_config :: retry_config where
  "default_retry_config = \<lparr>max_retries = 3, base_backoff_ms = 1000, max_backoff_ms = 30000\<rparr>"

record error_analysis =
  is_transient :: bool
  reason :: string
  category :: string
  retryable :: bool

definition analysis :: "bool \<Rightarrow> string \<Rightarrow> string \<Rightarrow> error_analysis" where
  "analysis b r c = \<lparr>is_transient = b, reason = r, category = c, retryable = b\<rparr>"

definition or_else :: "'a option \<Rightarrow> 'a option \<Rightarrow> 'a option" where
  "or_else a b = (case a of None \<Rightarrow> b | Some x \<Rightarrow> Some x)"

definition error_message_lower :: "rpc_error \<Rightarrow> string" where
  "error_message_lower e =
     to_lower (case or_else (e_message e) (e_msg e) of None \<Rightarrow> [] | Some m \<Rightarrow> m)"

definition is_transient_error :: "rpc_error option \<Rightarrow> error_analysis" where
  "is_transient_error err =
     (case err of
        None \<Rightarrow> analysis False ''unknown_error'' ''invalid''
      | Some e \<Rightarrow>
          let msg = error_message_lower e;
              status = or_else (e_response_status e) (e_status e);
              code = or_else (e_code e) (e_errno e)
          in if str_includes msg ''simulation'' \<or> str_includes msg ''contract''
                \<or> str_includes msg ''invocation'' then
               analysis False ''simulation_error'' ''contract_error''
             else if str_includes msg ''account not found'' then
               analysis False ''account_not_found'' ''account_error''
             else if status = Some 429 then analysis True ''rate_limit'' ''http_429''
             else if status = Some 503 then analysis True ''service_unavailable'' ''http_503''
             else if status = Some 504 then analysis True ''gateway_timeout'' ''http_504''
             else if status = Some 408 then analysis True ''request_timeout'' ''http_408''
             else if status = Some 400 \<or> status = Some 401 \<or> status = Some 403 \<or> status = Some 404 then
               analysis False ''permanent_client_error'' (''http_'' @ nat_str (the status))
             else if code \<noteq> None \<and> the code \<in>
                 {''ENOTFOUND'', ''ECONNREFUSED'', ''ETIMEDOUT'', ''EHOSTUNREACH''} then
               analysis True ''network_error'' (''network_'' @ the code)
             else if str_includes msg ''timed out'' \<or> str_includes msg ''timeout''
                \<or> str_includes msg ''network'' \<or> str_includes msg ''econnrefused'' then
               analysis True ''network_error_from_message'' ''network_error''
             else analysis False ''unknown_error'' ''unknown'')"

text \<open>\<open>Math.round\<close> rounds halves up.\<close>

definition js_round :: "rat \<Rightarrow> int" where
  "js_round x = floor (x + 1 / 2)"

definition get_backoff_delay :: "nat \<Rightarrow> retry_config \<Rightarrow> rat \<Rightarrow> rat" where
  "get_backoff_delay attempt cfg u =
     (let exponential = base_backoff_ms cfg * 2 ^ (attempt - 1);
          capped = min exponential (max_backoff_ms cfg);
          jitter = 9 / 10 + u * (2 / 10);
          delay = of_int (js_round (capped * jitter))
      in min delay (max_backoff_ms cfg))"

section \<open>The wrapper\<close>

type_synonym ('s, 'a) operation = "'s \<Rightarrow> (rpc_error + 'a) \<times> 's"

datatype 'a retried = Returned 'a | Threw rpc_error | NoAttempt string

text \<open>
  \<open>retry_loop\<close> runs the attempts from \<open>attempt\<close> on, \<open>left\<close> of them remaining; the result carries
  the delays slept.  \<open>should\<close> is the optional predicate of the caller.
\<close>

definition retry_decision :: "(rpc_error \<Rightarrow> nat \<Rightarrow> bool) option \<Rightarrow> rpc_error \<Rightarrow> nat \<Rightarrow> bool" where
  "retry_decision should e attempt =
     (case should of Some p \<Rightarrow> p e attempt | None \<Rightarrow> is_transient (is_transient_error (Some e)))"

fun retry_loop ::
  "retry_config \<Rightarrow> (rpc_error \<Rightarrow> nat \<Rightarrow> bool) option \<Rightarrow> ('s, 'a) operation \<Rightarrow> (nat \<Rightarrow> rat) \<Rightarrow> string
    \<Rightarrow> nat \<Rightarrow> nat \<Rightarrow> rpc_error option \<Rightarrow> 's \<Rightarrow> 'a retried \<times> rat list \<times> 's" where
  "retry_loop cfg should op rnd type 0 attempt lastE s =
     (case lastE of
        Some e \<Rightarrow> (Threw e, [], s)
      | None \<Rightarrow> (NoAttempt (type @ '' failed for unknown reason''), [], s))"
| "retry_loop cfg should op rnd type (Suc left) attempt lastE s =
     (case op s of
        (Inr x, s') \<Rightarrow> (Returned x, [], s')
      | (Inl e, s') \<Rightarrow>
          if \<not> retry_decision should e attempt \<or> left = 0 then (Threw e, [], s')
          else
            let (r, ds, s2) = retry_loop cfg should op rnd type left (Suc attempt) (Some e) s'
            in (r, get_backoff_delay attempt cfg (rnd attempt) # ds, s2))"

definition with_retry ::
  "retry_config \<Rightarrow> (rpc_error \<Rightarrow> nat \<Rightarrow> bool) option \<Rightarrow> ('s, 'a) operation \<Rightarrow> (nat \<Rightarrow> rat) \<Rightarrow> string
    \<Rightarrow> nat \<Rightarrow> 's \<Rightarrow> 'a retried \<times> rat list \<times> 's" where
  "with_retry cfg should op rnd type maxr s =
     (if type = ''submitTransaction'' \<or> type = ''submit'' then
        (case op s of
           (Inr x, s') \<Rightarrow> (Returned x, [], s')
         | (Inl e, s') \<Rightarrow> (Threw e, [], s'))
      else retry_loop cfg should op rnd type maxr 1 None s)"

text \<open>The counters of \<open>retryMetrics\<close>.\<close>

record retry_metrics =
  retry_attempts :: nat
  retry_successes :: nat
  retry_exhausted :: nat

definition metrics_init :: retry_metrics where
  "metrics_init = \<lparr>retry_attempts = 0, retry_successes = 0, retry_exhausted = 0\<rparr>"

definition record_attempt :: "retry_metrics \<Rightarrow> retry_metrics" where
  "record_attempt m = m\<lparr>retry_attempts := retry_attempts m + 1\<rparr>"

definition record_success :: "retry_metrics \<Rightarrow> retry_metrics" where
  "record_success m = m\<lparr>retry_successes := retry_successes m + 1\<rparr>"

definition record_exhausted :: "retry_metrics \<Rightarrow> retry_metrics" where
  "record_exhausted m = m\<lparr>retry_exhausted := retry_exhausted m + 1\<rparr>"

text \<open>The success rate in hundredths of a percent, as \<open>toFixed(2)\<close> prints it.\<close>

definition success_rate :: "retry_metrics \<Rightarrow> int" where
  "success_rate m =
     (if 0 < retry_attempts m
      then js_round (of_nat (retry_successes m) / of_nat (retry_attempts m) * 10000) else 0)"

section \<open>Backoff\<close>

lemma js_round_le: "js_round x \<le> n \<longleftrightarrow> x < of_int n + 1 / 2"
  unfolding js_round_def by (simp add: floor_le_iff) linarith

lemma js_round_ge: "n \<le> js_round x \<longleftrightarrow> of_int n - 1 / 2 \<le> x"
  unfolding js_round_def by (simp add: le_floor_iff) linarith

text \<open>A backoff delay never exceeds the configured maximum and is at least nine tenths of the
  capped exponential delay, less half a millisecond of rounding.\<close>

theorem backoff_bounds:
  assumes "0 \<le> u" "u < 1" "0 \<le> base_backoff_ms cfg" "0 \<le> max_backoff_ms cfg"
  shows "get_backoff_delay n cfg u \<le> max_backoff_ms cfg
    \<and> 9 / 10 * min (base_backoff_ms cfg * 2 ^ (n - 1)) (max_backoff_ms cfg) - 1 / 2
        \<le> get_backoff_delay n cfg u"
proof -
  let ?c = "min (base_backoff_ms cfg * 2 ^ (n - 1)) (max_backoff_ms cfg)"
  let ?j = "9 / 10 + u * (2 / 10)"
  have c: "0 \<le> ?c" using assms by simp
  have "?c * (9 / 10) \<le> ?c * ?j" using c assms(1) by (intro mult_left_mono) simp_all
  moreover have "?c * ?j - 1 / 2 \<le> of_int (js_round (?c * ?j))"
    unfolding js_round_def by linarith
  ultimately have "9 / 10 * ?c - 1 / 2 \<le> of_int (js_round (?c * ?j))" by (simp add: mult.commute)
  moreover have "9 / 10 * ?c - 1 / 2 \<le> max_backoff_ms cfg"
    using c min.cobounded2 [of "base_backoff_ms cfg * 2 ^ (n - 1)" "max_backoff_ms cfg"] by linarith
  ultimately show ?thesis by (simp add: get_backoff_delay_def Let_def)
qed

theorem backoff_bounds_witness:
  "get_backoff_delay 9 default_retry_config (1 / 2) \<le> 30000"
  using backoff_bounds [of "1 / 2" default_retry_config 9] by (simp add: default_retry_config_def)

section \<open>Attempts\<close>

text \<open>The outcomes of the successive attempts, as many as needed.\<close>

fun nth_state :: "('s, 'a) operation \<Rightarrow> nat \<Rightarrow> 's \<Rightarrow> 's" where
  "nth_state op 0 s = s"
| "nth_state op (Suc n) s = nth_state op n (snd (op s))"

definition nth_outcome :: "('s, 'a) operation \<Rightarrow> nat \<Rightarrow> 's \<Rightarrow> rpc_error + 'a" where
  "nth_outcome op n s = fst (op (nth_state op n s))"

definition stops_at :: "(rpc_error \<Rightarrow> nat \<Rightarrow> bool) option \<Rightarrow> ('s, 'a) operation \<Rightarrow> nat \<Rightarrow> nat \<Rightarrow> 's \<Rightarrow> bool" where
  "stops_at should op attempt n s =
     (case nth_outcome op n s of Inr _ \<Rightarrow> True | Inl e \<Rightarrow> \<not> retry_decision should e (attempt + n))"

lemma nth_outcome_0 [simp]: "nth_outcome op 0 s = fst (op s)"
  by (simp add: nth_outcome_def)

lemma nth_outcome_Suc [simp]: "nth_outcome op (Suc n) s = nth_outcome op n (snd (op s))"
  by (simp add: nth_outcome_def)

lemma stops_at_Suc: "stops_at should op attempt (Suc n) s \<longleftrightarrow> stops_at should op (Suc attempt) n (snd (op s))"
  by (simp add: stops_at_def split: sum.split)

definition outcome_of :: "rpc_error + 'a \<Rightarrow> 'a retried" where
  "outcome_of x = (case x of Inl e \<Rightarrow> Threw e | Inr v \<Rightarrow> Returned v)"

lemma retry_loop_spec:
  assumes "retry_loop cfg should op rnd type (Suc left) attempt lastE s = (r, ds, s')"
  shows "\<exists>n \<le> left. s' = nth_state op (Suc n) s \<and> r = outcome_of (nth_outcome op n s)
    \<and> (\<forall>k < n. \<not> stops_at should op attempt k s) \<and> (n < left \<longrightarrow> stops_at should op attempt n s)
    \<and> ds = map (\<lambda>k. get_backoff_delay (attempt + k) cfg (rnd (attempt + k))) [0..<n]"
  using assms
proof (induction left arbitrary: attempt lastE s r ds s')
  case 0
  obtain x t where o: "op s = (x, t)" by fastforce
  show ?case using 0 o
    by (intro exI [of _ 0]) (auto simp: outcome_of_def split: sum.splits)
next
  case (Suc left)
  obtain x t where o: "op s = (x, t)" by fastforce
  show ?case
  proof (cases "stops_at should op attempt 0 s")
    case True
    then show ?thesis using Suc.prems o
      by (intro exI [of _ 0]) (auto simp: outcome_of_def stops_at_def split: sum.splits)
  next
    case False
    then obtain e where e: "x = Inl e" "retry_decision should e attempt"
      using o by (auto simp: stops_at_def split: sum.splits)
    obtain r2 ds2 s2 where l: "retry_loop cfg should op rnd type (Suc left) (Suc attempt) (Some e) t
        = (r2, ds2, s2)" by (metis prod_cases3)
    have res: "r = r2" "s' = s2" "ds = get_backoff_delay attempt cfg (rnd attempt) # ds2"
      using Suc.prems o e l by (simp_all del: retry_loop.simps add: retry_loop.simps(2) [of _ _ _ _ _ "Suc left"])
    from Suc.IH [OF l] obtain n where n: "n \<le> left" "s2 = nth_state op (Suc n) t"
      "r2 = outcome_of (nth_outcome op n t)" "\<forall>k < n. \<not> stops_at should op (Suc attempt) k t"
      "n < left \<longrightarrow> stops_at should op (Suc attempt) n t"
      "ds2 = map (\<lambda>k. get_backoff_delay (Suc attempt + k) cfg (rnd (Suc attempt + k))) [0..<n]"
      by blast
    have "\<not> stops_at should op attempt k s" if "k < Suc n" for k
      using that False n(4) o by (cases k) (simp_all add: stops_at_Suc)
    moreover have "ds = map (\<lambda>k. get_backoff_delay (attempt + k) cfg (rnd (attempt + k))) [0..<Suc n]"
      by (simp only: res(3) n(6) upt_conv_Cons [OF zero_less_Suc] map_Suc_upt [symmetric])
        (simp add: comp_def)
    ultimately show ?thesis
      using n res o by (intro exI [of _ "Suc n"]) (auto simp: stops_at_Suc)
  qed
qed

section \<open>Properties\<close>

text \<open>The wrapper returns the outcome of the first decisive attempt: the first success, or the
  first error that is not to be retried, or the last allowed attempt; it makes no attempt after
  that one, at most \<open>maxr\<close> in all, and sleeps the backoff delay once between two attempts.\<close>

theorem with_retry_first_decisive:
  assumes "type \<noteq> ''submitTransaction''" "type \<noteq> ''submit''" "0 < maxr"
    and "with_retry cfg should op rnd type maxr s = (r, ds, s')"
  shows "\<exists>n < maxr. s' = nth_state op (Suc n) s \<and> r = outcome_of (nth_outcome op n s)
    \<and> (\<forall>k < n. \<not> stops_at should op 1 k s) \<and> (Suc n < maxr \<longrightarrow> stops_at should op 1 n s)
    \<and> ds = map (\<lambda>k. get_backoff_delay (Suc k) cfg (rnd (Suc k))) [0..<n]"
proof -
  obtain m where m: "maxr = Suc m" using assms(3) by (cases maxr) auto
  have l: "retry_loop cfg should op rnd type (Suc m) 1 None s = (r, ds, s')"
    using assms by (simp only: with_retry_def m simp_thms if_False)
  from retry_loop_spec [OF l] show ?thesis
    unfolding m by (simp add: less_Suc_eq_le Suc_le_eq)
qed

definition flaky :: "(nat, nat) operation" where
  "flaky n = (if n < 2 then (Inl ((new_error ''Rate limited'')\<lparr>e_response_status := Some 429\<rparr>), n + 1)
     else (Inr n, n + 1))"

theorem with_retry_first_decisive_witness:
  "\<exists>n < 3. snd (snd (with_retry default_retry_config None flaky (\<lambda>_. 1 / 2) ''getAccount'' 3 0))
     = nth_state flaky (Suc n) 0"
proof -
  obtain r ds s' where w: "with_retry default_retry_config None flaky (\<lambda>_. 1 / 2) ''getAccount'' 3 0
      = (r, ds, s')" by (metis prod_cases3)
  from with_retry_first_decisive [OF _ _ _ w] show ?thesis by (auto simp: w)
qed

text \<open>A submission is sent exactly once, whatever its error, the limits and the retry predicate
  of the caller: the world is the one after a single application.\<close>

theorem submission_never_retried:
  assumes "type = ''submitTransaction'' \<or> type = ''submit''"
  shows "with_retry cfg should op rnd type maxr s = (outcome_of (fst (op s)), [], snd (op s))"
  using assms by (auto simp: with_retry_def outcome_of_def split: prod.split sum.split)

theorem submission_never_retried_witness:
  "snd (snd (with_retry default_retry_config None flaky (\<lambda>_. 0) ''submitTransaction'' 3 0)) = 1"
  using submission_never_retried [of "''submitTransaction''" default_retry_config None flaky "\<lambda>_. 0" 3 0]
  by (simp add: flaky_def)

text \<open>Contract errors are permanent: an error whose message names a simulation, a contract or an
  invocation is never retried, even when its HTTP status is one of the transient ones.\<close>

theorem contract_errors_permanent:
  assumes "str_includes (error_message_lower e) w" and "w \<in> {''simulation'', ''contract'', ''invocation''}"
  shows "\<not> is_transient (is_transient_error (Some e)) \<and>
    with_retry cfg None (\<lambda>s. (Inl e, g s)) rnd type (Suc m) s = (Threw e, [], g s)"
proof -
  have "\<not> is_transient (is_transient_error (Some e))"
    using assms by (auto simp: is_transient_error_def Let_def analysis_def)
  then show ?thesis by (simp add: with_retry_def retry_decision_def)
qed

theorem contract_errors_permanent_witness:
  "\<not> is_transient (is_transient_error (Some ((new_error ''Contract trap'')\<lparr>e_response_status := Some 503\<rparr>)))"
proof -
  let ?e = "((new_error ''Contract trap'')\<lparr>e_response_status := Some 503\<rparr>)"
  have "str_includes (error_message_lower ?e) ''contract''" by code_simp
  then have "\<not> is_transient (is_transient_error (Some ?e)) \<and>
      with_retry default_retry_config None (\<lambda>s::nat. (Inl ?e :: rpc_error + nat, s + 1)) (\<lambda>_. 0) [] (Suc 0) 0
      = (Threw ?e, [], 0 + 1)"
    by (rule contract_errors_permanent) simp
  then show ?thesis by (rule conjunct1)
qed

end
