(* ===== verification/JsDate.thy ===== *)
theory JsDate
  imports Prelude
begin

text \<open>
  The part of the JavaScript \<open>Date\<close> object the backend uses, as ECMAScript defines it: a time is a
  number of milliseconds since 1970-01-01T00:00:00Z, split into a day number and the time within
  the day; year, month and date come from the proleptic Gregorian calendar, and the UTC setters
  rebuild the day number with \<open>MakeDay\<close>, which lets a month or date argument overflow.
  \<open>to_iso\<close> is \<open>Date.prototype.toISOString\<close> and \<open>sql_timestamp\<close> is SQLite's
  \<open>CURRENT_TIMESTAMP\<close>; both are compared as strings in the SQL of the backend, so their order is
  part of the model.  Times are within the range of the object (about 270000 years around 1970).

  The lemmas show that the calendar functions invert \<open>make_day\<close>, and that \<open>to_iso\<close> orders times as
  the numbers do for the years 0 to 9999.
\<close>

section \<open>Days and years\<close>

definition ms_per_day :: int where
  "ms_per_day = 86400000"

definition day_of :: "int \<Rightarrow> int" where
  "day_of t = t div ms_per_day"

definition time_in_day :: "int \<Rightarrow> int" where
  "time_in_day t = t mod ms_per_day"

definition leap :: "int \<Rightarrow> bool" where
  "leap y \<longleftrightarrow> y mod 4 = 0 \<and> (y mod 100 \<noteq> 0 \<or> y mod 400 = 0)"

definition day_from_year :: "int \<Rightarrow> int" where
  "day_from_year y =
     365 * (y - 1970) + (y - 1969) div 4 - (y - 1901) div 100 + (y - 1601) div 400"

definition year_of_day :: "int \<Rightarrow> int" where
  "year_of_day d =
     (let y = 1970 + (400 * d) div 146097
      in if d < day_from_year y then y - 1 else if day_from_year (y + 1) \<le> d then y + 1 else y)"

lemma day_split: "t = ms_per_day * day_of t + time_in_day t"
  by (simp add: day_of_def time_in_day_def)

lemma time_in_day_bounds: "0 \<le> time_in_day t" "time_in_day t < ms_per_day"
  by (simp_all add: time_in_day_def ms_per_day_def)

lemma day_of_build: "0 \<le> r \<Longrightarrow> r < ms_per_day \<Longrightarrow> day_of (ms_per_day * d + r) = d"
  by (simp add: day_of_def ms_per_day_def)

lemma time_in_day_build: "0 \<le> r \<Longrightarrow> r < ms_per_day \<Longrightarrow> time_in_day (ms_per_day * d + r) = r"
  by (simp add: time_in_day_def ms_per_day_def)

lemma div_succ:
  fixes z c :: int
  assumes "0 < c"
  shows "(z + 1) div c = z div c + (if (z + 1) mod c = 0 then 1 else 0)"
proof -
  note b = pos_mod_sign [OF assms, of z] pos_mod_bound [OF assms, of z] mult_div_mod_eq [of c z]
  show ?thesis
  proof (cases "z mod c = c - 1")
    case True
    then have e: "z + 1 = c * (z div c + 1) + 0"
      using b(3) by (simp add: distrib_left)
    have "(z + 1) div c = z div c + 1" by (rule int_div_pos_eq [OF e]) (use assms in auto)
    moreover have "(z + 1) mod c = 0" by (rule int_mod_pos_eq [OF e]) (use assms in auto)
    ultimately show ?thesis by simp
  next
    case False
    have e: "z + 1 = c * (z div c) + (z mod c + 1)" using b by linarith
    have "(z + 1) div c = z div c" by (rule int_div_pos_eq [OF e]) (use b False in auto)
    moreover have "(z + 1) mod c = z mod c + 1" by (rule int_mod_pos_eq [OF e]) (use b False in auto)
    ultimately show ?thesis using b by simp
  qed
qed

lemma day_from_year_Suc:
  "day_from_year (y + 1) = day_from_year y + (if leap y then 366 else 365)"
proof -
  have m: "(y - 1969 + 1) mod 4 = y mod 4" "(y - 1901 + 1) mod 100 = y mod 100"
    "(y - 1601 + 1) mod 400 = y mod 400"
    using mod_mult_self1 [of "y - 1968" 492 4] mod_mult_self1 [of "y - 1900" 19 100]
      mod_mult_self1 [of "y - 1600" 4 400] by simp_all
  have s: "y + 1 - 1969 = (y - 1969) + 1" "y + 1 - 1901 = (y - 1901) + 1" "y + 1 - 1601 = (y - 1601) + 1"
    by simp_all
  have d: "y mod 400 = 0 \<Longrightarrow> y mod 100 = 0" "y mod 100 = 0 \<Longrightarrow> y mod 4 = 0"
    using mod_mod_cancel [of 100 400 y] mod_mod_cancel [of 4 100 y] by auto
  have c: "0 < (4::int)" "0 < (100::int)" "0 < (400::int)" by simp_all
  have "day_from_year (y + 1) = day_from_year y + 365 + (if y mod 4 = 0 then 1 else 0)
      - (if y mod 100 = 0 then 1 else 0) + (if y mod 400 = 0 then 1 else 0)"
    unfolding day_from_year_def s div_succ [OF c(1)] div_succ [OF c(2)] div_succ [OF c(3)] m
    by (simp only: algebra_simps)
  then show ?thesis using d by (cases "y mod 400 = 0"; cases "y mod 100 = 0"; simp add: leap_def)
qed

lemma day_from_year_less_Suc: "day_from_year y < day_from_year (y + 1)"
  by (simp add: day_from_year_Suc)

lemma day_from_year_mono: "y \<le> z \<Longrightarrow> day_from_year y \<le> day_from_year z"
proof (induction z rule: int_ge_induct)
  case base
  then show ?case by simp
next
  case (step i)
  then show ?case using day_from_year_less_Suc [of i] by linarith
qed

text \<open>A year is 146097 / 400 days long, up to a constant.\<close>

lemma div_numeral_bounds:
  fixes z c :: int
  assumes "0 < c"
  shows "c * (z div c) \<le> z" "z < c * (z div c) + c"
  using assms mult_div_mod_eq [of c z] pos_mod_sign [OF assms, of z] pos_mod_bound [OF assms, of z]
  by linarith+

lemma day_from_year_linear:
  "400 * day_from_year y \<le> 146097 * y - 287810501"
  "146097 * y - 287811596 \<le> 400 * day_from_year y"
proof -
  obtain p q r where e: "p = (y - 1969) div 4" "q = (y - 1901) div 100" "r = (y - 1601) div 400"
    by blast
  have b: "4 * p \<le> y - 1969" "y - 1969 < 4 * p + 4" "100 * q \<le> y - 1901" "y - 1901 < 100 * q + 100"
    "400 * r \<le> y - 1601" "y - 1601 < 400 * r + 400"
    unfolding e by (rule div_numeral_bounds; simp)+
  have "day_from_year y = 365 * (y - 1970) + p - q + r"
    by (simp add: day_from_year_def e)
  then have "400 * day_from_year y = 146000 * y - 287620000 + 400 * p - 400 * q + 400 * r"
    by simp
  with b show "400 * day_from_year y \<le> 146097 * y - 287810501"
    and "146097 * y - 287811596 \<le> 400 * day_from_year y"
    by simp_all
qed

lemma year_of_day_bounds:
  "day_from_year (year_of_day d) \<le> d" "d < day_from_year (year_of_day d + 1)"
proof -
  define k where "k = (400 * d) div 146097"
  have k: "146097 * k \<le> 400 * d" "400 * d < 146097 * k + 146097"
    unfolding k_def by linarith+
  have lo: "day_from_year (1970 + k - 1) \<le> d"
    using k day_from_year_linear(1) [of "1970 + k - 1"] by simp
  have hi: "d < day_from_year (1970 + k + 1 + 1)"
    using k day_from_year_linear(2) [of "1970 + k + 1 + 1"] by simp
  show "day_from_year (year_of_day d) \<le> d" "d < day_from_year (year_of_day d + 1)"
    using lo hi unfolding year_of_day_def k_def [symmetric] Let_def by auto
qed

lemma year_of_day_unique:
  assumes "day_from_year y \<le> d" "d < day_from_year (y + 1)"
  shows "year_of_day d = y"
proof (rule ccontr)
  assume "year_of_day d \<noteq> y"
  then consider "year_of_day d + 1 \<le> y" | "y + 1 \<le> year_of_day d" by linarith
  then show False
  proof cases
    case 1
    then show ?thesis using day_from_year_mono [OF 1] year_of_day_bounds [of d] assms by linarith
  next
    case 2
    then show ?thesis using day_from_year_mono [OF 2] year_of_day_bounds [of d] assms by linarith
  qed
qed

lemma year_of_day_mono:
  assumes "a \<le> b"
  shows "year_of_day a \<le> year_of_day b"
proof (rule ccontr)
  assume "\<not> year_of_day a \<le> year_of_day b"
  then have "year_of_day b + 1 \<le> year_of_day a" by linarith
  then show False
    using day_from_year_mono year_of_day_bounds [of a] year_of_day_bounds [of b] assms by fastforce
qed

section \<open>Months and dates\<close>

definition month_start :: "bool \<Rightarrow> int \<Rightarrow> int" where
  "month_start lp m =
     (if m = 0 then 0 else if m = 1 then 31
      else (if lp then 1 else 0) +
        (if m = 2 then 59 else if m = 3 then 90 else if m = 4 then 120 else if m = 5 then 151
         else if m = 6 then 181 else if m = 7 then 212 else if m = 8 then 243
         else if m = 9 then 273 else if m = 10 then 304 else if m = 11 then 334 else 365))"

definition month_of_yday :: "bool \<Rightarrow> int \<Rightarrow> int" where
  "month_of_yday lp n =
     (let l = (if lp then 1 else 0) in
      if n < 31 then 0 else if n < 59 + l then 1 else if n < 90 + l then 2
      else if n < 120 + l then 3 else if n < 151 + l then 4 else if n < 181 + l then 5
      else if n < 212 + l then 6 else if n < 243 + l then 7 else if n < 273 + l then 8
      else if n < 304 + l then 9 else if n < 334 + l then 10 else 11)"

definition yday :: "int \<Rightarrow> int" where
  "yday d = d - day_from_year (year_of_day d)"

definition month_of_day :: "int \<Rightarrow> int" where
  "month_of_day d = month_of_yday (leap (year_of_day d)) (yday d)"

definition date_of_day :: "int \<Rightarrow> int" where
  "date_of_day d = yday d - month_start (leap (year_of_day d)) (month_of_day d) + 1"

definition weekday_of_day :: "int \<Rightarrow> int" where
  "weekday_of_day d = (d + 4) mod 7"

definition make_day :: "int \<Rightarrow> int \<Rightarrow> int \<Rightarrow> int" where
  "make_day y m dt =
     (let y' = y + m div 12 in day_from_year y' + month_start (leap y') (m mod 12) + dt - 1)"

lemma month_of_yday_range: "0 \<le> month_of_yday lp n" "month_of_yday lp n \<le> 11"
  by (auto simp: month_of_yday_def Let_def)

lemma month_of_yday_bounds:
  assumes "0 \<le> n" "n < (if lp then 366 else 365)"
  shows "month_start lp (month_of_yday lp n) \<le> n" "n < month_start lp (month_of_yday lp n + 1)"
  unfolding month_of_yday_def Let_def using assms
  by (cases lp; simp add: month_start_def)+

lemma month_of_yday_mono: "a \<le> b \<Longrightarrow> month_of_yday lp a \<le> month_of_yday lp b"
  by (auto simp: month_of_yday_def Let_def)

lemma month_cases:
  fixes m :: int
  assumes "0 \<le> m" "m \<le> 11"
  shows "m = 0 \<or> m = 1 \<or> m = 2 \<or> m = 3 \<or> m = 4 \<or> m = 5 \<or> m = 6 \<or> m = 7 \<or> m = 8 \<or> m = 9 \<or> m = 10 \<or> m = 11"
  using assms by presburger

lemma month_of_yday_unique:
  assumes "0 \<le> m" "m \<le> 11" "month_start lp m \<le> n" "n < month_start lp (m + 1)"
  shows "month_of_yday lp n = m"
  using month_cases [OF assms(1,2)] assms(3,4)
  by (elim disjE) (auto simp: month_of_yday_def month_start_def Let_def split: if_splits)

lemma month_length_ge_28:
  assumes "0 \<le> m" "m \<le> 11"
  shows "month_start lp m + 28 \<le> month_start lp (m + 1)"
    and "0 \<le> month_start lp m" "month_start lp (m + 1) \<le> (if lp then 366 else 365)"
  using month_cases [OF assms] by (elim disjE; simp add: month_start_def)+

lemma yday_bounds: "0 \<le> yday d" "yday d < (if leap (year_of_day d) then 366 else 365)"
  using year_of_day_bounds [of d] day_from_year_Suc [of "year_of_day d"]
  by (auto simp: yday_def)

lemma month_of_day_range: "0 \<le> month_of_day d" "month_of_day d \<le> 11"
  by (simp_all add: month_of_day_def month_of_yday_range)

lemma date_of_day_range: "1 \<le> date_of_day d" "date_of_day d \<le> 31"
proof -
  note b = month_of_yday_bounds [OF yday_bounds, of d, folded month_of_day_def]
  show "1 \<le> date_of_day d" using b(1) by (simp add: date_of_day_def)
  have "month_start lp (m + 1) \<le> month_start lp m + 31" if "0 \<le> m" "m \<le> 11" for lp m
    using month_cases [OF that] by (elim disjE; simp add: month_start_def)
  from this [OF month_of_day_range] show "date_of_day d \<le> 31"
    using b(2) by (smt (verit, best) date_of_day_def)
qed

theorem make_day_of_parts: "make_day (year_of_day d) (month_of_day d) (date_of_day d) = d"
  using month_of_day_range [of d]
  by (simp add: make_day_def date_of_day_def yday_def)

lemma make_day_add: "make_day y m (dt + k) = make_day y m dt + k"
  by (simp add: make_day_def Let_def)

lemma make_day_norm: "make_day y m dt = make_day (y + m div 12) (m mod 12) dt"
  by (simp add: make_day_def)

theorem parts_of_make_day:
  assumes m: "0 \<le> m" "m \<le> 11" and dt: "1 \<le> dt" "dt \<le> 28"
  shows "year_of_day (make_day y m dt) = y" "month_of_day (make_day y m dt) = m"
    "date_of_day (make_day y m dt) = dt"
proof -
  let ?d = "make_day y m dt"
  have d: "?d = day_from_year y + month_start (leap y) m + dt - 1"
    using m by (simp add: make_day_def)
  note ml = month_length_ge_28 [OF m, of "leap y"]
  show y: "year_of_day ?d = y"
    by (rule year_of_day_unique) (use d ml dt in \<open>auto simp: day_from_year_Suc\<close>)
  then have n: "yday ?d = month_start (leap y) m + dt - 1" by (simp add: yday_def d)
  show mo: "month_of_day ?d = m"
    unfolding month_of_day_def y by (rule month_of_yday_unique) (use m dt ml n in auto)
  show "date_of_day ?d = dt" by (simp add: date_of_day_def y mo n)
qed

text \<open>The month number counts months from year 0, so that ordering months is ordering numbers.\<close>

definition month_index :: "int \<Rightarrow> int" where
  "month_index d = 12 * year_of_day d + month_of_day d"

lemma month_index_mono:
  assumes "a \<le> b"
  shows "month_index a \<le> month_index b"
proof (cases "year_of_day a = year_of_day b")
  case True
  then have "yday a \<le> yday b" using assms by (simp add: yday_def)
  then show ?thesis using True by (simp add: month_index_def month_of_day_def month_of_yday_mono)
next
  case False
  then have "year_of_day a + 1 \<le> year_of_day b" using year_of_day_mono [OF assms] by linarith
  then show ?thesis
    using month_of_day_range [of a] month_of_day_range [of b] by (simp add: month_index_def)
qed

lemma make_day_month_index: "make_day y m dt = make_day 0 (12 * y + m) dt"
  by (simp add: make_day_def)

lemma make_day_index: "make_day 0 (month_index d) (date_of_day d) = d"
  using make_day_of_parts [of d] make_day_month_index [of "year_of_day d" "month_of_day d"]
  by (simp add: month_index_def)

lemma month_index_make_day:
  assumes "1 \<le> dt" "dt \<le> 28"
  shows "month_index (make_day 0 i dt) = i" "date_of_day (make_day 0 i dt) = dt"
proof -
  have m: "0 \<le> i mod 12" "i mod 12 \<le> 11" by simp_all
  note p = parts_of_make_day [OF m assms, of "i div 12"]
  have e: "make_day 0 i dt = make_day (i div 12) (i mod 12) dt"
    using make_day_norm [of 0 i dt] by simp
  show "month_index (make_day 0 i dt) = i" "date_of_day (make_day 0 i dt) = dt"
    using p by (simp_all add: e month_index_def)
qed

section \<open>Setters\<close>

definition set_utc_hours :: "int \<Rightarrow> int \<Rightarrow> int" where
  \<comment> \<open>\<open>setUTCHours(h, 0, 0, 0)\<close>\<close>
  "set_utc_hours t h = ms_per_day * day_of t + 3600000 * h"

definition set_utc_date :: "int \<Rightarrow> int \<Rightarrow> int" where
  "set_utc_date t dt =
     ms_per_day * make_day (year_of_day (day_of t)) (month_of_day (day_of t)) dt + time_in_day t"

definition set_utc_month :: "int \<Rightarrow> int \<Rightarrow> int" where
  "set_utc_month t m =
     ms_per_day * make_day (year_of_day (day_of t)) m (date_of_day (day_of t)) + time_in_day t"

definition utc_date :: "int \<Rightarrow> int" where
  "utc_date t = date_of_day (day_of t)"

definition utc_month :: "int \<Rightarrow> int" where
  "utc_month t = month_of_day (day_of t)"

definition utc_day :: "int \<Rightarrow> int" where
  "utc_day t = weekday_of_day (day_of t)"

lemma day_of_set_utc_date:
  "day_of (set_utc_date t dt) = make_day (year_of_day (day_of t)) (month_of_day (day_of t)) dt"
  unfolding set_utc_date_def by (rule day_of_build) (rule time_in_day_bounds)+

lemma day_of_set_utc_date_index:
  "day_of (set_utc_date t dt) = make_day 0 (month_index (day_of t)) dt"
  by (simp add: day_of_set_utc_date make_day_month_index [of "year_of_day (day_of t)"] month_index_def)

lemma day_of_set_utc_month:
  "day_of (set_utc_month t m) =
     make_day 0 (12 * year_of_day (day_of t) + m) (date_of_day (day_of t))"
  unfolding set_utc_month_def make_day_month_index [of "year_of_day (day_of t)" m]
  by (rule day_of_build) (rule time_in_day_bounds)+

lemma day_of_set_utc_hours:
  "0 \<le> h \<Longrightarrow> h \<le> 23 \<Longrightarrow> day_of (set_utc_hours t h) = day_of t"
  unfolding set_utc_hours_def by (rule day_of_build) (simp_all add: ms_per_day_def)

lemma time_in_set_utc_hours:
  "0 \<le> h \<Longrightarrow> h \<le> 23 \<Longrightarrow> time_in_day (set_utc_hours t h) = 3600000 * h"
  unfolding set_utc_hours_def by (rule time_in_day_build) (simp_all add: ms_per_day_def)

lemma set_utc_date_add: "set_utc_date t (utc_date t + k) = t + ms_per_day * k"
proof -
  have "make_day (year_of_day (day_of t)) (month_of_day (day_of t)) (date_of_day (day_of t) + k)
      = day_of t + k"
    by (simp add: make_day_add make_day_of_parts)
  then show ?thesis
    using day_split [of t] by (simp add: set_utc_date_def utc_date_def algebra_simps)
qed

section \<open>Printed timestamps\<close>

definition iso_date :: "int \<Rightarrow> string" where
  "iso_date d =
     (let y = year_of_day d in
      (if 0 \<le> y \<and> y \<le> 9999 then pad 4 (nat y)
       else (if y < 0 then CHR ''-'' else CHR ''+'') # pad 6 (nat \<bar>y\<bar>)) @
      ''-'' @ pad 2 (nat (month_of_day d + 1)) @ ''-'' @ pad 2 (nat (date_of_day d)))"

definition clock :: "int \<Rightarrow> string" where
  "clock r =
     pad 2 (nat (r div 3600000)) @ '':'' @ pad 2 (nat (r mod 3600000 div 60000)) @ '':'' @
     pad 2 (nat (r mod 3600000 mod 60000 div 1000))"

definition to_iso :: "int \<Rightarrow> string" where
  "to_iso t =
     iso_date (day_of t) @ ''T'' @ clock (time_in_day t) @ ''.'' @
     pad 3 (nat (time_in_day t mod 3600000 mod 60000 mod 1000)) @ ''Z''"

definition sql_timestamp :: "int \<Rightarrow> string" where
  "sql_timestamp t = iso_date (day_of t) @ '' '' @ clock (time_in_day t)"

definition four_digit_year :: "int \<Rightarrow> bool" where
  "four_digit_year t \<longleftrightarrow> 0 \<le> year_of_day (day_of t) \<and> year_of_day (day_of t) \<le> 9999"

lemma length_iso_date: "four_digit_year t \<Longrightarrow> length (iso_date (day_of t)) = 10"
  by (simp add: iso_date_def four_digit_year_def Let_def)

lemma length_clock [simp]: "length (clock r) = 8"
  by (simp add: clock_def)

lemma iso_date_less:
  assumes "a < b" and "0 \<le> year_of_day a" "year_of_day b \<le> 9999"
  shows "iso_date a < iso_date b"
proof -
  let ?y = year_of_day and ?m = month_of_day and ?d = date_of_day
  have ym: "?y a \<le> ?y b" using assms(1) by (simp add: year_of_day_mono)
  have mm: "?y a = ?y b \<Longrightarrow> ?m a \<le> ?m b"
    using month_index_mono [of a b] assms(1) by (simp add: month_index_def)
  have dd: "?y a = ?y b \<Longrightarrow> ?m a = ?m b \<Longrightarrow> ?d a < ?d b"
    using assms(1) by (simp add: date_of_day_def yday_def)
  have P: "pad 4 (nat (?y a)) < pad 4 (nat (?y b)) \<longleftrightarrow> ?y a < ?y b"
    using assms(2,3) ym by (subst pad_less) auto
  have Q: "pad 2 (nat (?m a + 1)) < pad 2 (nat (?m b + 1)) \<longleftrightarrow> ?m a < ?m b"
    using month_of_day_range [of a] month_of_day_range [of b] by (subst pad_less) auto
  have R: "pad 2 (nat (?d a)) < pad 2 (nat (?d b)) \<longleftrightarrow> ?d a < ?d b"
    using date_of_day_range [of a] date_of_day_range [of b] by (subst pad_less) auto
  have y4: "0 \<le> ?y a \<and> ?y a \<le> 9999" "0 \<le> ?y b \<and> ?y b \<le> 9999" using assms(2,3) ym by auto
  consider "?y a < ?y b" | "?y a = ?y b" "?m a < ?m b" | "?y a = ?y b" "?m a = ?m b" "?d a < ?d b"
    using ym mm dd by fastforce
  then show ?thesis
    by cases (simp_all add: iso_date_def Let_def y4 P Q R lex_less_append)
qed

lemma div_mod_less_cases:
  fixes a b c :: int
  assumes "a < b" "0 < c"
  shows "a div c < b div c \<or> (a div c = b div c \<and> a mod c < b mod c)"
proof -
  have "a div c \<le> b div c" using assms by (simp add: zdiv_mono1)
  then consider "a div c < b div c" | "a div c = b div c" by linarith
  then show ?thesis
  proof cases
    case 2
    then have "a div c * c = b div c * c" by simp
    then have "a mod c < b mod c"
      using assms(1) div_mult_mod_eq [of a c] div_mult_mod_eq [of b c] by linarith
    with 2 show ?thesis by simp
  qed simp
qed

lemma pad2_less:
  fixes x y :: int
  assumes "0 \<le> x" "x < 100" "0 \<le> y" "y < 100"
  shows "pad 2 (nat x) < pad 2 (nat y) \<longleftrightarrow> x < y"
  using assms by (subst pad_less) auto

lemma pad3_less:
  fixes x y :: int
  assumes "0 \<le> x" "x < 1000" "0 \<le> y" "y < 1000"
  shows "pad 3 (nat x) < pad 3 (nat y) \<longleftrightarrow> x < y"
  using assms by (subst pad_less) auto

lemma clock_ms_less:
  assumes "a < b" "0 \<le> a" "b < ms_per_day"
  shows "clock a < clock b \<or>
    clock a = clock b \<and> a mod 3600000 mod 60000 mod 1000 < b mod 3600000 mod 60000 mod 1000"
proof -
  let ?h = "\<lambda>r::int. r div 3600000" and ?m = "\<lambda>r::int. r mod 3600000 div 60000"
    and ?s = "\<lambda>r::int. r mod 3600000 mod 60000 div 1000"
  have bnd: "0 \<le> ?h r \<and> ?h r < 24" if "0 \<le> r" "r < ms_per_day" for r
    using that unfolding ms_per_day_def by linarith
  have mb: "0 \<le> ?m r \<and> ?m r < 60" for r :: int
    using pos_mod_sign [of 3600000 r] pos_mod_bound [of 3600000 r] by linarith
  have sb: "0 \<le> ?s r \<and> ?s r < 60" for r :: int
    using pos_mod_sign [of 60000 "r mod 3600000"] pos_mod_bound [of 60000 "r mod 3600000"] by linarith
  have H: "pad 2 (nat (?h a)) < pad 2 (nat (?h b)) \<longleftrightarrow> ?h a < ?h b"
    by (rule pad2_less) (use bnd [of a] bnd [of b] assms in linarith)+
  have M: "pad 2 (nat (?m a)) < pad 2 (nat (?m b)) \<longleftrightarrow> ?m a < ?m b"
    by (rule pad2_less) (use mb [of a] mb [of b] in linarith)+
  have S: "pad 2 (nat (?s a)) < pad 2 (nat (?s b)) \<longleftrightarrow> ?s a < ?s b"
    by (rule pad2_less) (use sb [of a] sb [of b] in linarith)+
  have c: "?h a < ?h b \<or> ?h a = ?h b \<and> a mod 3600000 < b mod 3600000"
    "a mod 3600000 < b mod 3600000 \<Longrightarrow>
      ?m a < ?m b \<or> ?m a = ?m b \<and> a mod 3600000 mod 60000 < b mod 3600000 mod 60000"
    "a mod 3600000 mod 60000 < b mod 3600000 mod 60000 \<Longrightarrow> ?s a < ?s b \<or>
      ?s a = ?s b \<and> a mod 3600000 mod 60000 mod 1000 < b mod 3600000 mod 60000 mod 1000"
    by (rule div_mod_less_cases; (rule assms | assumption | simp))+
  have l: "length (pad 2 n) = length (pad 2 m)" for n m by simp
  have "clock a < clock b \<longleftrightarrow> ?h a < ?h b \<or> pad 2 (nat (?h a)) = pad 2 (nat (?h b)) \<and>
    (?m a < ?m b \<or> pad 2 (nat (?m a)) = pad 2 (nat (?m b)) \<and> ?s a < ?s b)"
    unfolding clock_def lex_less_append [OF l] lex_less_append [OF refl]
    by (simp only: H M S less_irrefl simp_thms)
  moreover have "clock a = clock b" if "?h a = ?h b" "?m a = ?m b" "?s a = ?s b"
    unfolding clock_def that ..
  moreover have "pad 2 (nat (?h a)) = pad 2 (nat (?h b))" if "?h a = ?h b" unfolding that ..
  moreover have "pad 2 (nat (?m a)) = pad 2 (nat (?m b))" if "?m a = ?m b" unfolding that ..
  ultimately show ?thesis using c by blast
qed

lemma to_iso_strict:
  assumes "a < b" "four_digit_year a" "four_digit_year b"
  shows "to_iso a < to_iso b"
proof -
  note y = assms(2,3) [unfolded four_digit_year_def]
  note l = length_iso_date [OF assms(2)] length_iso_date [OF assms(3)]
  consider "day_of a < day_of b" | "day_of a = day_of b" "time_in_day a < time_in_day b"
    using div_mod_less_cases [OF assms(1), of ms_per_day]
    by (auto simp: day_of_def time_in_day_def ms_per_day_def)
  then show ?thesis
  proof cases
    case 1
    then have "iso_date (day_of a) < iso_date (day_of b)" using y by (simp add: iso_date_less)
    then show ?thesis using l by (simp add: to_iso_def lex_less_append)
  next
    case 2
    let ?ms = "\<lambda>t. time_in_day t mod 3600000 mod 60000 mod 1000"
    have "pad 3 (nat (?ms a)) < pad 3 (nat (?ms b)) \<longleftrightarrow> ?ms a < ?ms b"
      by (rule pad3_less) (rule pos_mod_sign pos_mod_bound; simp)+
    then show ?thesis
      using clock_ms_less [OF 2(2) time_in_day_bounds(1) time_in_day_bounds(2)] 2(1) l
      by (auto simp: to_iso_def lex_less_append)
  qed
qed

text \<open>Comparing two printed times is comparing the times.\<close>

lemma to_iso_less_iff1:
  assumes "four_digit_year a" "four_digit_year b"
  shows "to_iso a < to_iso b \<longleftrightarrow> a < b"
proof (cases a b rule: linorder_cases)
  case less
  then show ?thesis using to_iso_strict [OF _ assms] by simp
next
  case greater
  then have "to_iso b < to_iso a" using to_iso_strict [OF _ assms(2,1)] by simp
  with greater show ?thesis by simp
qed simp

theorem to_iso_less_iff:
  assumes "four_digit_year a" "four_digit_year b"
  shows "to_iso a < to_iso b \<longleftrightarrow> a < b" "to_iso a \<le> to_iso b \<longleftrightarrow> a \<le> b"
  using to_iso_less_iff1 [OF assms] to_iso_less_iff1 [OF assms(2,1)]
  by (simp_all add: linorder_not_less [symmetric])

text \<open>
  The two printed forms differ after the date: a blank sorts before \<open>T\<close>, so a SQLite timestamp of
  a day is smaller than every ISO string of the same day, whatever the clocks say.
\<close>

theorem sql_before_iso_same_day:
  assumes "day_of a = day_of b"
  shows "sql_timestamp a < to_iso b"
  by (simp add: sql_timestamp_def to_iso_def assms lex_less_append less_char_def)

end
