(* ===== verification/ScheduleCalculator.thy ===== *)
theory ScheduleCalculator
  imports JsDate
begin

text \<open>
  \<open>src/backend/src/schedule-calculator.js\<close>: the next run of a payment schedule.  A \<open>Date\<close> is its time
  in milliseconds; the functions named \<open>.._time\<close> compute the date and the others print it.  A date
  string is read by the parameter \<open>date_parse\<close> (the formats \<open>new Date(string)\<close> accepts beyond ISO
  8601 are implementation defined); \<open>None\<close> is an invalid date, whose \<open>toISOString\<close> throws.
\<close>

definition js_rem :: "int \<Rightarrow> int \<Rightarrow> int" where
  \<comment> \<open>the remainder operator: the sign of the dividend\<close>
  "js_rem a b = (if a < 0 then - ((- a) mod b) else a mod b)"

definition at_hour :: "int \<Rightarrow> int \<Rightarrow> int" where
  "at_hour date hour_of_day = set_utc_hours date hour_of_day"

definition add_days :: "int \<Rightarrow> int \<Rightarrow> int" where
  "add_days date days = set_utc_date date (utc_date date + days)"

definition next_monthly_time :: "int \<Rightarrow> int \<Rightarrow> int \<Rightarrow> int" where
  "next_monthly_time now day_of_month hour_of_day =
     (let dm = min (max day_of_month 1) 28;
          candidate = at_hour (set_utc_date now dm) hour_of_day
      in if candidate \<le> now
         then at_hour (set_utc_date (set_utc_month candidate (utc_month candidate + 1)) dm) hour_of_day
         else candidate)"

definition next_weekly_time :: "int \<Rightarrow> int \<Rightarrow> int \<Rightarrow> int" where
  "next_weekly_time now day_of_week hour_of_day =
     (let dow = js_rem (js_rem day_of_week 7 + 7) 7;
          days_until = js_rem (dow - utc_day now + 7) 7;
          candidate = at_hour (add_days now days_until) hour_of_day
      in if candidate \<le> now then at_hour (add_days candidate 7) hour_of_day else candidate)"

definition next_interval_time :: "int \<Rightarrow> int \<Rightarrow> int \<Rightarrow> int \<Rightarrow> int" where
  "next_interval_time now anchor_date interval_days hour_of_day =
     (let anchor = set_utc_hours anchor_date 0;
          elapsed = (now - anchor) div 86400000;
          cycles_passed = elapsed div interval_days;
          candidate = at_hour (add_days anchor ((cycles_passed + 1) * interval_days)) hour_of_day
      in if candidate \<le> now
         then at_hour (add_days anchor ((cycles_passed + 2) * interval_days)) hour_of_day
         else candidate)"

definition next_monthly :: "int \<Rightarrow> int \<Rightarrow> int \<Rightarrow> string" where
  "next_monthly now dm h = to_iso (next_monthly_time now dm h)"

definition next_weekly :: "int \<Rightarrow> int \<Rightarrow> int \<Rightarrow> string" where
  "next_weekly now dow h = to_iso (next_weekly_time now dow h)"

text \<open>Division by a zero interval makes the date invalid, and so does an invalid anchor.\<close>

definition next_interval :: "int \<Rightarrow> int option \<Rightarrow> int \<Rightarrow> int \<Rightarrow> string res" where
  "next_interval now anchor interval h =
     (case anchor of
        None \<Rightarrow> Inl (RangeErr ''Invalid time value'')
      | Some a \<Rightarrow>
          if interval = 0 then Inl (RangeErr ''Invalid time value'')
          else Inr (to_iso (next_interval_time now a interval h)))"

text \<open>The columns of a schedule the calculator reads; \<open>null\<close> counts as 0 in arithmetic.\<close>

record schedule_rule =
  sr_type :: string
  day_of_month :: "int option"
  day_of_week :: "int option"
  interval_days :: "int option"
  anchor_date :: "string option"
  hour_of_day :: "int option"

definition num_of :: "int option \<Rightarrow> int" where
  "num_of n = (case n of None \<Rightarrow> 0 | Some i \<Rightarrow> i)"

definition compute_next_run :: "(string \<Rightarrow> int option) \<Rightarrow> schedule_rule \<Rightarrow> int \<Rightarrow> string res" where
  "compute_next_run date_parse s now =
     (let h = num_of (hour_of_day s);
          anchor = (case anchor_date s of
                      None \<Rightarrow> Some now
                    | Some d \<Rightarrow> if d = [] then Some now else date_parse d)
      in if sr_type s = ''monthly'' then Inr (next_monthly now (num_of (day_of_month s)) h)
         else if sr_type s = ''weekly'' then Inr (next_weekly now (num_of (day_of_week s)) h)
         else if sr_type s = ''biweekly'' then next_interval now anchor 14 h
         else if sr_type s = ''custom'' then
           next_interval now anchor (case interval_days s of None \<Rightarrow> 1 | Some i \<Rightarrow> i) h
         else Inl (PlainError (''Unknown schedule type: '' @ [CHR 0x22] @ sr_type s @ [CHR 0x22])))"

section \<open>Days at an hour\<close>

lemma at_hour_eq: "at_hour t h = ms_per_day * day_of t + 3600000 * h"
  by (simp add: at_hour_def set_utc_hours_def)

lemma day_of_at_hour: "0 \<le> h \<Longrightarrow> h \<le> 23 \<Longrightarrow> day_of (at_hour t h) = day_of t"
  by (simp add: at_hour_def day_of_set_utc_hours)

lemma add_days_eq: "add_days t k = t + ms_per_day * k"
  by (simp add: add_days_def set_utc_date_add)

lemma day_of_add_days: "day_of (add_days t k) = day_of t + k"
  unfolding add_days_eq day_of_def by (simp add: ms_per_day_def)

lemma less_of_day_less:
  assumes "day_of a < day_of b"
  shows "a < b"
proof (rule ccontr)
  assume "\<not> a < b"
  then have "day_of b \<le> day_of a" by (simp add: day_of_def ms_per_day_def zdiv_mono1)
  with assms show False by simp
qed

text \<open>A time on a given day at a given hour is at or after another one with the same hour exactly
  when its day is.\<close>

lemma hour_time: "time_in_day t = 3600000 * h \<Longrightarrow> t = ms_per_day * day_of t + 3600000 * h"
  using day_split [of t] by simp

lemma day_of_mono: "a \<le> b \<Longrightarrow> day_of a \<le> day_of b"
  by (simp add: day_of_def ms_per_day_def zdiv_mono1)

section \<open>Monthly schedules\<close>

lemma month_days_strict:
  assumes "1 \<le> dt" "dt \<le> 28" "i < j"
  shows "make_day 0 i dt < make_day 0 j dt"
proof (rule ccontr)
  assume "\<not> ?thesis"
  then have "month_index (make_day 0 j dt) \<le> month_index (make_day 0 i dt)"
    by (intro month_index_mono) simp
  then show False using month_index_make_day(1) [OF assms(1,2)] assms(3) by simp
qed

lemma month_days_mono: "1 \<le> dt \<Longrightarrow> dt \<le> 28 \<Longrightarrow> i \<le> j \<Longrightarrow> make_day 0 i dt \<le> make_day 0 j dt"
  using month_days_strict [of dt i j] by (cases "i = j") auto

lemma next_monthly_cases:
  fixes now dm h :: int
  defines "d \<equiv> min (max dm 1) 28" and "i \<equiv> month_index (day_of now)"
  defines "c \<equiv> ms_per_day * make_day 0 i d + 3600000 * h"
  assumes h: "0 \<le> h" "h \<le> 23"
  shows "next_monthly_time now dm h =
    (if c \<le> now then ms_per_day * make_day 0 (i + 1) d + 3600000 * h else c)"
proof -
  have dd: "1 \<le> d" "d \<le> 28" by (simp_all add: d_def)
  have c: "at_hour (set_utc_date now d) h = c"
    by (simp add: at_hour_eq day_of_set_utc_date_index c_def i_def)
  have dc: "day_of c = make_day 0 i d"
    using day_of_at_hour [OF h, of "set_utc_date now d"] by (simp add: c day_of_set_utc_date_index i_def)
  have m: "12 * year_of_day (day_of c) + (utc_month c + 1) = i + 1" "date_of_day (day_of c) = d"
    using month_index_make_day [OF dd, of i] by (simp_all add: dc utc_month_def month_index_def)
  have "day_of (set_utc_month c (utc_month c + 1)) = make_day 0 (i + 1) d"
    unfolding day_of_set_utc_month m ..
  then have "day_of (set_utc_date (set_utc_month c (utc_month c + 1)) d) = make_day 0 (i + 1) d"
    using month_index_make_day [OF dd, of "i + 1"] by (simp add: day_of_set_utc_date_index)
  then show ?thesis
    by (simp add: next_monthly_time_def Let_def d_def [symmetric] c at_hour_eq
        [of "set_utc_date (set_utc_month c (utc_month c + 1)) d"])
qed

text \<open>C38: a monthly schedule runs next at the first moment after now that has the configured day
  (clamped to 1..28) and hour, whatever the month lengths and leap years in between.\<close>

theorem next_monthly_is_next:
  assumes "0 \<le> h" "h \<le> 23"
  shows "now < next_monthly_time now dm h
    \<and> date_of_day (day_of (next_monthly_time now dm h)) = min (max dm 1) 28
    \<and> time_in_day (next_monthly_time now dm h) = 3600000 * h
    \<and> (\<forall>t. now < t \<and> date_of_day (day_of t) = min (max dm 1) 28 \<and> time_in_day t = 3600000 * h
         \<longrightarrow> next_monthly_time now dm h \<le> t)"
proof -
  let ?d = "min (max dm 1) 28" and ?i = "month_index (day_of now)"
  let ?D = "\<lambda>j. make_day 0 j ?d" and ?n = "next_monthly_time now dm h"
  let ?c = "ms_per_day * ?D ?i + 3600000 * h"
  have dd: "1 \<le> ?d" "?d \<le> 28" by simp_all
  have hb: "0 \<le> 3600000 * h" "3600000 * h < ms_per_day" using assms by (simp_all add: ms_per_day_def)
  note eq = next_monthly_cases [OF assms, of now dm]
  have shape: "\<exists>j. ?n = ms_per_day * ?D j + 3600000 * h" unfolding eq by auto
  then have day: "date_of_day (day_of ?n) = ?d \<and> time_in_day ?n = 3600000 * h"
    using month_index_make_day(2) [OF dd] by (auto simp: day_of_build [OF hb] time_in_day_build [OF hb])
  have later: "now < ?n"
  proof (cases "?c \<le> now")
    case True
    have "day_of now < ?D (?i + 1)"
    proof (rule ccontr)
      assume "\<not> ?thesis"
      then have "month_index (?D (?i + 1)) \<le> ?i" by (intro month_index_mono) simp
      then show False using month_index_make_day(1) [OF dd, of "?i + 1"] by simp
    qed
    then have "day_of now < day_of ?n" using True by (simp add: eq day_of_build [OF hb])
    then show ?thesis by (rule less_of_day_less)
  qed (simp add: eq)
  have least: "?n \<le> t" if t: "now < t" "date_of_day (day_of t) = ?d" "time_in_day t = 3600000 * h" for t
  proof -
    let ?j = "month_index (day_of t)"
    have dt: "day_of t = ?D ?j" using make_day_index [of "day_of t"] t(2) by simp
    have tj: "t = ms_per_day * ?D ?j + 3600000 * h" using hour_time [OF t(3)] dt by simp
    have ij: "?i \<le> ?j" using t(1) by (intro month_index_mono day_of_mono) simp
    show ?thesis
    proof (cases "?c \<le> now")
      case True
      then have "?j \<noteq> ?i" using t(1) tj by auto
      then have "?D (?i + 1) \<le> ?D ?j" using ij by (intro month_days_mono [OF dd]) simp
      then have "ms_per_day * ?D (?i + 1) \<le> ms_per_day * ?D ?j" by (simp add: ms_per_day_def)
      then show ?thesis using True tj by (simp add: eq)
    next
      case False
      have "?D ?i \<le> ?D ?j" using ij by (rule month_days_mono [OF dd])
      then have "ms_per_day * ?D ?i \<le> ms_per_day * ?D ?j" by (simp add: ms_per_day_def)
      then show ?thesis using False tj by (simp add: eq)
    qed
  qed
  show ?thesis using day later least by blast
qed

theorem next_monthly_is_next_witness:
  "date_of_day (day_of (next_monthly_time 1709164800000 31 9)) = 28"
  using next_monthly_is_next [of 9 1709164800000 31] by simp

section \<open>Weekly schedules\<close>

lemma js_rem_7: "js_rem (js_rem a 7 + 7) 7 = a mod 7"
proof (cases "a < 0")
  case True
  have b: "0 \<le> (- a) mod 7" "(- a) mod 7 < 7" by simp_all
  then have "js_rem (js_rem a 7 + 7) 7 = (7 - (- a) mod 7) mod 7"
    using True by (simp add: js_rem_def)
  also have "\<dots> = (7 - (- a)) mod 7" by (rule mod_diff_right_eq)
  finally show ?thesis by simp
next
  case False
  then have "0 \<le> a mod 7 + 7" by (simp add: pos_mod_sign add_nonneg_nonneg)
  then show ?thesis using False by (simp add: js_rem_def)
qed

lemma days_until_weekday:
  assumes "0 \<le> w" "w \<le> 6"
  shows "js_rem (w - weekday_of_day d + 7) 7 = (w - weekday_of_day d) mod 7"
    and "weekday_of_day (d + (w - weekday_of_day d) mod 7) = w"
proof -
  have "weekday_of_day d < 7" by (simp add: weekday_of_day_def)
  then have "0 \<le> w - weekday_of_day d + 7" using assms by linarith
  then show "js_rem (w - weekday_of_day d + 7) 7 = (w - weekday_of_day d) mod 7"
    by (simp add: js_rem_def)
  define y where "y = d + 4"
  have "weekday_of_day (d + (w - weekday_of_day d) mod 7) = (y + (w - y mod 7) mod 7) mod 7"
    by (simp add: weekday_of_day_def y_def ac_simps)
  also have "\<dots> = (y + (w - y mod 7)) mod 7" by (rule mod_add_right_eq)
  also have "\<dots> = ((y + w) - y mod 7) mod 7" by (simp add: add_diff_eq)
  also have "\<dots> = ((y + w) - y) mod 7" by (rule mod_diff_right_eq)
  also have "\<dots> = w" using assms by simp
  finally show "weekday_of_day (d + (w - weekday_of_day d) mod 7) = w" .
qed

lemma weekday_add_7: "weekday_of_day (d + 7) = weekday_of_day d"
  unfolding weekday_of_day_def by presburger

lemma weekday_gap:
  assumes "weekday_of_day a = weekday_of_day b" "a < b"
  shows "a + 7 \<le> b"
proof -
  have "(b + 4) mod 7 = (a + 4) mod 7" using assms(1) by (simp only: weekday_of_day_def)
  then have "7 dvd (b + 4) - (a + 4)" by (rule mod_eq_dvd_iff [THEN iffD1])
  then have "7 \<le> b - a" using assms(2) by (intro zdvd_imp_le) simp_all
  then show ?thesis by linarith
qed

lemma next_weekly_cases:
  fixes now dow h :: int
  defines "k \<equiv> (dow mod 7 - weekday_of_day (day_of now)) mod 7"
  defines "c \<equiv> ms_per_day * (day_of now + k) + 3600000 * h"
  assumes h: "0 \<le> h" "h \<le> 23"
  shows "next_weekly_time now dow h = (if c \<le> now then c + ms_per_day * 7 else c)"
proof -
  have w: "0 \<le> dow mod 7" "dow mod 7 \<le> 6" by simp_all
  have k: "js_rem (dow mod 7 - utc_day now + 7) 7 = k"
    unfolding k_def utc_day_def by (rule days_until_weekday(1) [OF w])
  have c: "at_hour (add_days now k) h = c"
    by (simp add: at_hour_eq day_of_add_days c_def)
  have "day_of c = day_of now + k"
    using day_of_at_hour [OF h, of "add_days now k"] by (simp add: c day_of_add_days)
  then have "at_hour (add_days c 7) h = c + ms_per_day * 7"
    by (simp add: at_hour_eq day_of_add_days c_def distrib_left)
  then show ?thesis by (simp add: next_weekly_time_def Let_def js_rem_7 k c)
qed

text \<open>A weekly schedule runs next at the first moment after now with the configured weekday (read
  modulo 7) and hour.\<close>

theorem next_weekly_is_next:
  assumes "0 \<le> h" "h \<le> 23"
  shows "now < next_weekly_time now dow h
    \<and> weekday_of_day (day_of (next_weekly_time now dow h)) = dow mod 7
    \<and> time_in_day (next_weekly_time now dow h) = 3600000 * h
    \<and> (\<forall>t. now < t \<and> weekday_of_day (day_of t) = dow mod 7 \<and> time_in_day t = 3600000 * h
         \<longrightarrow> next_weekly_time now dow h \<le> t)"
proof -
  let ?w = "dow mod 7" and ?n = "next_weekly_time now dow h"
  let ?k = "(?w - weekday_of_day (day_of now)) mod 7"
  let ?e = "day_of now + ?k"
  let ?c = "ms_per_day * ?e + 3600000 * h"
  have w: "0 \<le> ?w" "?w \<le> 6" by simp_all
  have hb: "0 \<le> 3600000 * h" "3600000 * h < ms_per_day" using assms by (simp_all add: ms_per_day_def)
  have k: "0 \<le> ?k" "?k < 7" by simp_all
  have we: "weekday_of_day ?e = ?w" by (rule days_until_weekday(2) [OF w])
  note eq = next_weekly_cases [OF assms, of now dow]
  have n7: "?c + ms_per_day * 7 = ms_per_day * (?e + 7) + 3600000 * h" by (simp add: distrib_left)
  have day: "weekday_of_day (day_of ?n) = ?w \<and> time_in_day ?n = 3600000 * h"
    unfolding eq n7 using we by (simp add: day_of_build [OF hb] time_in_day_build [OF hb] weekday_add_7)
  have later: "now < ?n"
  proof (cases "?c \<le> now")
    case True
    have "day_of now < day_of (ms_per_day * (?e + 7) + 3600000 * h)"
      using k(1) by (simp only: day_of_build [OF hb])
    then have "now < ms_per_day * (?e + 7) + 3600000 * h" by (rule less_of_day_less)
    then show ?thesis using True unfolding eq n7 by simp
  next
    case False
    then show ?thesis unfolding eq by simp
  qed
  have least: "?n \<le> t" if t: "now < t" "weekday_of_day (day_of t) = ?w" "time_in_day t = 3600000 * h" for t
  proof -
    have tj: "t = ms_per_day * day_of t + 3600000 * h" by (rule hour_time [OF t(3)])
    have nt: "day_of now \<le> day_of t" using t(1) by (intro day_of_mono) simp
    have ge: "?e \<le> day_of t"
    proof (rule ccontr)
      assume "\<not> ?thesis"
      then have "day_of t + 7 \<le> ?e" using weekday_gap [of "day_of t" ?e] t(2) we by simp
      then show False using nt k by linarith
    qed
    show ?thesis
    proof (cases "?c \<le> now")
      case True
      then have "?e \<noteq> day_of t" using t(1) tj by auto
      then have "?e + 7 \<le> day_of t" using ge weekday_gap [of ?e "day_of t"] t(2) we by simp
      then have "ms_per_day * (?e + 7) \<le> ms_per_day * day_of t" by (simp add: ms_per_day_def)
      then show ?thesis using True tj unfolding eq n7 by simp
    next
      case False
      have "ms_per_day * ?e \<le> ms_per_day * day_of t" using ge by (simp add: ms_per_day_def)
      then show ?thesis using False tj unfolding eq by simp
    qed
  qed
  show ?thesis using day later least by blast
qed

theorem next_weekly_is_next_witness:
  "weekday_of_day (day_of (next_weekly_time 1709164800000 (-1) 23)) = 6"
  using next_weekly_is_next [of 23 1709164800000 "-1"] by simp

section \<open>Interval schedules\<close>

lemma next_interval_eq:
  assumes h: "0 \<le> h" "h \<le> 23" and k: "0 < k"
  shows "next_interval_time now a k h =
    ms_per_day * (day_of a + ((day_of now - day_of a) div k + 1) * k) + 3600000 * h"
    and "day_of now < day_of a + ((day_of now - day_of a) div k + 1) * k"
proof -
  let ?e = "day_of now - day_of a"
  have an: "set_utc_hours a 0 = ms_per_day * day_of a" by (simp add: set_utc_hours_def)
  have el: "(now - ms_per_day * day_of a) div 86400000 = ?e"
    unfolding day_of_def [of now] ms_per_day_def by simp
  have gt: "?e < (?e div k + 1) * k"
  proof -
    have "(?e div k + 1) * k = k * (?e div k) + k" by (simp add: distrib_left mult.commute)
    then show ?thesis using pos_mod_bound [OF k, of ?e] mult_div_mod_eq [of k ?e] by linarith
  qed
  then show lt: "day_of now < day_of a + (?e div k + 1) * k" by linarith
  have da: "day_of (ms_per_day * day_of a) = day_of a"
    using day_of_build [of 0 "day_of a"] by (simp add: ms_per_day_def)
  let ?c = "at_hour (add_days (ms_per_day * day_of a) ((?e div k + 1) * k)) h"
  have c: "?c = ms_per_day * (day_of a + (?e div k + 1) * k) + 3600000 * h"
    by (simp add: at_hour_eq day_of_add_days da)
  have "day_of now < day_of ?c" using lt by (simp add: day_of_at_hour [OF h] day_of_add_days da)
  then have "now < ?c" by (rule less_of_day_less)
  then show "next_interval_time now a k h =
      ms_per_day * (day_of a + (?e div k + 1) * k) + 3600000 * h"
    by (simp add: next_interval_time_def Let_def an el c [symmetric])
qed

text \<open>A biweekly or custom schedule runs next, at the configured hour, on the first day after
  today that is a whole number of intervals from the anchor day; the second branch of the code is
  never needed.\<close>

theorem next_interval_is_next:
  assumes "0 \<le> h" "h \<le> 23" and "0 < k"
  shows "day_of now < day_of (next_interval_time now a k h)
    \<and> (day_of (next_interval_time now a k h) - day_of a) mod k = 0
    \<and> time_in_day (next_interval_time now a k h) = 3600000 * h
    \<and> (\<forall>d. day_of now < d \<and> (d - day_of a) mod k = 0 \<longrightarrow> day_of (next_interval_time now a k h) \<le> d)"
proof -
  let ?q = "(day_of now - day_of a) div k"
  have hb: "0 \<le> 3600000 * h" "3600000 * h < ms_per_day" using assms by (simp_all add: ms_per_day_def)
  note n = next_interval_eq [OF assms, of now a]
  have day: "day_of (next_interval_time now a k h) = day_of a + (?q + 1) * k"
    "time_in_day (next_interval_time now a k h) = 3600000 * h"
    unfolding n(1) by (simp_all only: day_of_build [OF hb] time_in_day_build [OF hb])
  have least: "day_of a + (?q + 1) * k \<le> d" if d: "day_of now < d" "(d - day_of a) mod k = 0" for d
  proof -
    obtain j where j: "d - day_of a = k * j" using d(2) by (auto simp: mod_eq_0_iff_dvd elim: dvdE)
    have "day_of now - day_of a < k * j" using d(1) j by linarith
    moreover have "k * ?q \<le> day_of now - day_of a"
      using pos_mod_sign [OF assms(3), of "day_of now - day_of a"]
        mult_div_mod_eq [of k "day_of now - day_of a"] by linarith
    ultimately have "k * ?q < k * j" by linarith
    then have "?q < j" using assms(3) by simp
    then have "(?q + 1) * k \<le> j * k" using assms(3) by (intro mult_right_mono) auto
    then show ?thesis using j by (simp add: mult.commute)
  qed
  show ?thesis using n(2) day least by simp
qed

theorem next_interval_is_next_witness:
  "(day_of (next_interval_time 1709164800000 0 14 6) - 0) mod 14 = 0"
  using next_interval_is_next [of 6 14 1709164800000 0] by (simp add: day_of_def)

text \<open>On a day that is itself a cycle day, a run later the same day is skipped: asked at any
  time of the anchor day, even before the configured hour, the calculator answers one whole
  interval later.  A schedule never runs on its anchor date.\<close>

theorem interval_skips_anchor_day:
  assumes "0 \<le> h" "h \<le> 23" "0 < k" and "day_of now = day_of a"
  shows "next_interval_time now a k h = at_hour a h + ms_per_day * k"
  using next_interval_eq(1) [OF assms(1-3), of now a] assms(4)
  by (simp add: at_hour_eq distrib_left)

theorem interval_skips_anchor_day_witness:
  "0 < at_hour 0 9 \<and> next_interval_time 0 0 14 9 = at_hour 0 9 + ms_per_day * 14"
  using interval_skips_anchor_day [of 9 14 0 0] by (simp add: at_hour_eq day_of_def)

end
