(* ===== verification/SqlTable.thy ===== *)
theory SqlTable
  imports Prelude "HOL-Library.Multiset"
begin

text \<open>
  SQL tables as the backend uses them through \<open>better-sqlite3\<close>: rows in rowid order with an
  \<open>INTEGER PRIMARY KEY AUTOINCREMENT\<close> column, so an insert gets an id larger than every id ever
  used.  \<open>prepare(..).run\<close> of an \<open>INSERT\<close>, \<open>UPDATE .. WHERE\<close> and \<open>DELETE .. WHERE\<close> are
  \<open>t_insert\<close>, \<open>t_update\<close> and \<open>t_delete\<close>; \<open>.get\<close> is \<open>t_get\<close> (the first row or nothing), \<open>.all\<close>
  with \<open>ORDER BY\<close> and \<open>LIMIT/OFFSET\<close> is \<open>t_select\<close> under \<open>order_asc\<close>/\<open>order_desc\<close> and
  \<open>limit_offset\<close>.  SQL leaves the order of rows that tie open: the model keeps them in rowid
  order, and no property below depends on it.

  The locale \<open>sql_table\<close> is the interface the component models rely on.
\<close>

record 'r table =
  tseq :: nat
  trows :: "(nat \<times> 'r) list"

definition t_empty :: "'r table" where
  "t_empty = \<lparr>tseq = 0, trows = []\<rparr>"

definition t_insert :: "'r \<Rightarrow> 'r table \<Rightarrow> nat \<times> 'r table" where
  "t_insert r t =
     (Suc (tseq t), t\<lparr>tseq := Suc (tseq t), trows := trows t @ [(Suc (tseq t), r)]\<rparr>)"

definition t_update :: "(nat \<times> 'r \<Rightarrow> bool) \<Rightarrow> ('r \<Rightarrow> 'r) \<Rightarrow> 'r table \<Rightarrow> 'r table" where
  "t_update P f t = t\<lparr>trows := map (\<lambda>x. if P x then (fst x, f (snd x)) else x) (trows t)\<rparr>"

definition t_delete :: "(nat \<times> 'r \<Rightarrow> bool) \<Rightarrow> 'r table \<Rightarrow> 'r table" where
  "t_delete P t = t\<lparr>trows := filter (\<lambda>x. \<not> P x) (trows t)\<rparr>"

definition t_select :: "(nat \<times> 'r \<Rightarrow> bool) \<Rightarrow> 'r table \<Rightarrow> (nat \<times> 'r) list" where
  "t_select P t = filter P (trows t)"

definition t_get :: "(nat \<times> 'r \<Rightarrow> bool) \<Rightarrow> 'r table \<Rightarrow> (nat \<times> 'r) option" where
  "t_get P t = find P (trows t)"

text \<open>\<open>result.changes\<close> of an update or delete, and \<open>SELECT COUNT(*)\<close>.\<close>

definition t_count :: "(nat \<times> 'r \<Rightarrow> bool) \<Rightarrow> 'r table \<Rightarrow> nat" where
  "t_count P t = length (filter P (trows t))"

definition by_id :: "nat \<Rightarrow> nat \<times> 'r \<Rightarrow> bool" where
  "by_id i x = (fst x = i)"

definition t_ok :: "'r table \<Rightarrow> bool" where
  "t_ok t \<longleftrightarrow> sorted_wrt (<) (map fst (trows t)) \<and> (\<forall>x \<in> set (trows t). 0 < fst x \<and> fst x \<le> tseq t)"

lemma t_ok_keys:
  "t_ok t \<longleftrightarrow> sorted_wrt (<) (map fst (trows t)) \<and> (\<forall>i \<in> set (map fst (trows t)). 0 < i \<and> i \<le> tseq t)"
  by (auto simp: t_ok_def)

section \<open>Ordering and paging\<close>

definition order_asc :: "('r \<Rightarrow> 'k::linorder) \<Rightarrow> 'r list \<Rightarrow> 'r list" where
  "order_asc k xs = sort_key k xs"

definition order_desc :: "('r \<Rightarrow> 'k::linorder) \<Rightarrow> 'r list \<Rightarrow> 'r list" where
  "order_desc k xs = rev (sort_key k (rev xs))"

text \<open>SQLite reads a negative \<open>LIMIT\<close> as none and a negative \<open>OFFSET\<close> as zero.\<close>

definition limit_offset :: "int \<Rightarrow> int \<Rightarrow> 'r list \<Rightarrow> 'r list" where
  "limit_offset l n xs = (let ys = drop (nat n) xs in if l < 0 then ys else take (nat l) ys)"

lemma mset_order_asc [simp]: "mset (order_asc k xs) = mset xs"
  by (simp add: order_asc_def)

lemma mset_order_desc [simp]: "mset (order_desc k xs) = mset xs"
  by (simp add: order_desc_def)

lemma set_order_asc [simp]: "set (order_asc k xs) = set xs"
  by (simp add: order_asc_def)

lemma set_order_desc [simp]: "set (order_desc k xs) = set xs"
  by (simp add: order_desc_def)

lemma length_order_asc [simp]: "length (order_asc k xs) = length xs"
  by (simp add: order_asc_def)

lemma length_order_desc [simp]: "length (order_desc k xs) = length xs"
  by (simp add: order_desc_def)

lemma sorted_order_asc: "sorted (map k (order_asc k xs))"
  by (simp add: order_asc_def)

lemma sorted_order_desc: "sorted_wrt (\<lambda>x y. k y \<le> k x) (order_desc k xs)"
  using sorted_sort_key [of k "rev xs"]
  by (simp add: order_desc_def sorted_wrt_rev sorted_map)

lemma set_limit_offset: "set (limit_offset l n xs) \<subseteq> set xs"
  unfolding limit_offset_def Let_def by (auto dest: in_set_takeD in_set_dropD)

lemma length_limit_offset: "0 \<le> l \<Longrightarrow> length (limit_offset l n xs) = min (nat l) (length xs - nat n)"
  by (simp add: limit_offset_def Let_def min.commute)

text \<open>Consecutive pages of one result are disjoint pieces of it, in order.\<close>

lemma limit_offset_pages:
  "0 \<le> l \<Longrightarrow> 0 \<le> n \<Longrightarrow>
   limit_offset l n xs @ limit_offset m (n + l) xs = limit_offset (if m < 0 then m else l + m) n xs"
  by (simp add: limit_offset_def Let_def nat_add_distrib add.commute [of n l] take_add
      flip: drop_drop)

section \<open>The table interface\<close>

locale sql_table =
  fixes ins :: "'r \<Rightarrow> 't \<Rightarrow> nat \<times> 't"
    and upd :: "(nat \<times> 'r \<Rightarrow> bool) \<Rightarrow> ('r \<Rightarrow> 'r) \<Rightarrow> 't \<Rightarrow> 't"
    and del :: "(nat \<times> 'r \<Rightarrow> bool) \<Rightarrow> 't \<Rightarrow> 't"
    and rows :: "'t \<Rightarrow> (nat \<times> 'r) list"
    and ok :: "'t \<Rightarrow> bool"
  assumes ins_rows: "rows (snd (ins r t)) = rows t @ [(fst (ins r t), r)]"
    and ins_fresh: "ok t \<Longrightarrow> fst (ins r t) \<notin> fst ` set (rows t)"
    and upd_rows: "rows (upd P f t) = map (\<lambda>x. if P x then (fst x, f (snd x)) else x) (rows t)"
    and del_rows: "rows (del P t) = filter (\<lambda>x. \<not> P x) (rows t)"
    and ok_ins: "ok t \<Longrightarrow> ok (snd (ins r t))"
    and ok_upd: "ok t \<Longrightarrow> ok (upd P f t)"
    and ok_del: "ok t \<Longrightarrow> ok (del P t)"
    and ok_distinct: "ok t \<Longrightarrow> distinct (map fst (rows t))"
begin

lemma row_unique:
  assumes "ok t" "(i, r) \<in> set (rows t)" "(i, r') \<in> set (rows t)"
  shows "r = r'"
  using assms ok_distinct by (metis eq_key_imp_eq_value)

lemma find_id:
  assumes "ok t" "(i, r) \<in> set (rows t)"
  shows "find (by_id i) (rows t) = Some (i, r)"
proof (cases "find (by_id i) (rows t)")
  case None
  with assms(2) show ?thesis by (auto simp: find_None_iff2 by_id_def)
next
  case (Some x)
  then have "x \<in> set (rows t)" "fst x = i" by (auto dest: find_Some_mem simp: by_id_def)
  then have "(i, snd x) \<in> set (rows t)" by (metis prod.collapse)
  then have "snd x = r" using row_unique [OF assms(1) _ assms(2)] by blast
  then show ?thesis using Some \<open>fst x = i\<close> by (metis prod.collapse)
qed

lemma find_inserted:
  assumes "ok t"
  shows "find (by_id (fst (ins r t))) (rows (snd (ins r t))) = Some (fst (ins r t), r)"
  by (rule find_id) (simp_all add: ok_ins assms ins_rows)

lemma find_other_after_insert:
  assumes "i \<noteq> fst (ins r t)"
  shows "find (by_id i) (rows (snd (ins r t))) = find (by_id i) (rows t)"
proof -
  have "find (by_id i) (xs @ [(fst (ins r t), r)]) = find (by_id i) xs" for xs
    using assms by (induction xs) (auto simp: by_id_def)
  then show ?thesis by (simp add: ins_rows)
qed

lemma find_updated:
  assumes "find (by_id i) (rows t) = Some (i, r)"
  shows "find (by_id i) (rows (upd (by_id i) f t)) = Some (i, f r)"
proof -
  have "find (by_id i) xs = Some (i, r) \<Longrightarrow>
      find (by_id i) (map (\<lambda>x. if by_id i x then (fst x, f (snd x)) else x) xs) = Some (i, f r)" for xs
    by (induction xs) (auto simp: by_id_def split: if_splits)
  with assms show ?thesis by (simp add: upd_rows)
qed

lemma find_not_updated:
  assumes "i \<noteq> j"
  shows "find (by_id i) (rows (upd (by_id j) f t)) = find (by_id i) (rows t)"
proof -
  have "find (by_id i) (map (\<lambda>x. if by_id j x then (fst x, f (snd x)) else x) xs) = find (by_id i) xs"
    for xs
    using assms by (induction xs) (auto simp: by_id_def)
  then show ?thesis by (simp add: upd_rows)
qed

lemma update_none: "find P (rows t) = None \<Longrightarrow> rows (upd P f t) = rows t"
  by (simp add: upd_rows find_None_iff2 map_idI)

end

interpretation tb: sql_table t_insert t_update t_delete trows t_ok
proof unfold_locales
  fix t :: "'a table" and r :: 'a and P f
  show "trows (snd (t_insert r t)) = trows t @ [(fst (t_insert r t), r)]"
    by (simp add: t_insert_def)
  show "t_ok t \<Longrightarrow> fst (t_insert r t) \<notin> fst ` set (trows t)"
    by (force simp: t_insert_def t_ok_def)
  show "trows (t_update P f t) = map (\<lambda>x. if P x then (fst x, f (snd x)) else x) (trows t)"
    by (simp add: t_update_def)
  show "trows (t_delete P t) = filter (\<lambda>x. \<not> P x) (trows t)"
    by (simp add: t_delete_def)
  have keys: "map fst (trows (t_update P f t)) = map fst (trows t)"
    by (simp add: t_update_def comp_def if_distrib [of fst])
  show "t_ok t \<Longrightarrow> t_ok (t_update P f t)"
    unfolding t_ok_keys keys by (simp add: t_update_def)
  show "t_ok t \<Longrightarrow> t_ok (snd (t_insert r t))"
    by (auto simp: t_ok_def t_insert_def sorted_wrt_append)
  show "t_ok t \<Longrightarrow> t_ok (t_delete P t)"
    by (auto simp: t_ok_def t_delete_def sorted_wrt_filter sorted_wrt_map)
  show "t_ok t \<Longrightarrow> distinct (map fst (trows t))"
    by (simp add: t_ok_def strict_sorted_iff)
qed

lemmas t_ok_rules [wf_rules] = tb.ok_ins tb.ok_upd tb.ok_del

lemma t_ok_empty [simp]: "t_ok t_empty"
  by (simp add: t_ok_def t_empty_def)

lemma t_get_inserted:
  "t_ok t \<Longrightarrow> t_get (by_id (fst (t_insert r t))) (snd (t_insert r t)) = Some (fst (t_insert r t), r)"
  unfolding t_get_def by (rule tb.find_inserted)

lemma t_get_insert_other:
  "i \<noteq> fst (t_insert r t) \<Longrightarrow> t_get (by_id i) (snd (t_insert r t)) = t_get (by_id i) t"
  unfolding t_get_def by (rule tb.find_other_after_insert)

lemma t_get_updated:
  "t_get (by_id i) t = Some (i, r) \<Longrightarrow> t_get (by_id i) (t_update (by_id i) f t) = Some (i, f r)"
  unfolding t_get_def by (rule tb.find_updated)

lemma t_get_not_updated:
  "i \<noteq> j \<Longrightarrow> t_get (by_id i) (t_update (by_id j) f t) = t_get (by_id i) t"
  unfolding t_get_def by (rule tb.find_not_updated)

lemma t_get_Some: "t_get P t = Some x \<Longrightarrow> x \<in> set (trows t) \<and> P x"
  unfolding t_get_def by (rule find_Some_mem)

lemma t_get_None: "t_get P t = None \<longleftrightarrow> (\<forall>x \<in> set (trows t). \<not> P x)"
  unfolding t_get_def by (rule find_None_iff2)

lemma t_count_0: "t_count P t = 0 \<longleftrightarrow> t_get P t = None"
  by (simp add: t_count_def t_get_None filter_empty_conv)

lemma t_get_mem: "t_ok t \<Longrightarrow> (i, r) \<in> set (trows t) \<Longrightarrow> t_get (by_id i) t = Some (i, r)"
  unfolding t_get_def by (rule tb.find_id)

lemma t_get_id_fst: "t_get (by_id i) t = Some x \<Longrightarrow> fst x = i"
  by (auto dest: t_get_Some simp: by_id_def)

text \<open>Updating by a condition that the update keeps.\<close>

lemma t_get_update_where:
  assumes "t_get P t = Some (i, r)" and "\<And>x. P x \<Longrightarrow> P (fst x, f (snd x))"
  shows "t_get P (t_update P f t) = Some (i, f r)"
proof -
  have "find P xs = Some (i, r) \<Longrightarrow> find P (map (\<lambda>x. if P x then (fst x, f (snd x)) else x) xs) = Some (i, f r)"
    for xs
    by (induction xs) (auto split: if_splits dest: assms(2))
  then show ?thesis using assms(1) by (simp add: t_get_def t_update_def)
qed

text \<open>A lookup by a condition that an update does not touch.\<close>

lemma t_get_update_stable:
  assumes "\<And>x. P (fst x, f (snd x)) = P x"
  shows "t_get P (t_update Q f t) = map_option (\<lambda>x. if Q x then (fst x, f (snd x)) else x) (t_get P t)"
proof -
  have "find P (map (\<lambda>x. if Q x then (fst x, f (snd x)) else x) xs) =
      map_option (\<lambda>x. if Q x then (fst x, f (snd x)) else x) (find P xs)" for xs
    by (induction xs) (auto simp: assms)
  then show ?thesis by (simp add: t_get_def t_update_def)
qed

lemma t_get_insert:
  "t_get P (snd (t_insert r t)) =
     (case t_get P t of Some x \<Rightarrow> Some x
      | None \<Rightarrow> if P (fst (t_insert r t), r) then Some (fst (t_insert r t), r) else None)"
proof -
  have "find P (xs @ [y]) = (case find P xs of Some x \<Rightarrow> Some x | None \<Rightarrow> if P y then Some y else None)" for xs y
    by (induction xs) auto
  then show ?thesis by (simp add: t_get_def t_insert_def split: option.split)
qed

lemma t_select_insert:
  "t_select P (snd (t_insert r t)) = t_select P t @ (if P (fst (t_insert r t), r) then [(fst (t_insert r t), r)] else [])"
  by (simp add: t_select_def t_insert_def)

text \<open>Updating one row changes a sum over selected rows by what it changes in that row.\<close>

lemma sum_update_row:
  fixes f :: "'r \<Rightarrow> nat"
  assumes "distinct (map fst xs)" "x \<in> set xs" "Q (fst x, h (snd x)) = Q x" "f (h (snd x)) = f (snd x) + c"
  shows "sum_list (map (\<lambda>y. f (snd y)) (filter Q (map (\<lambda>y. if by_id (fst x) y then (fst y, h (snd y)) else y) xs))) =
    sum_list (map (\<lambda>y. f (snd y)) (filter Q xs)) + (if Q x then c else 0)"
  using assms(1,2)
proof (induction xs)
  case (Cons y ys)
  show ?case
  proof (cases "y = x")
    case True
    have "map (\<lambda>z. if by_id (fst x) z then (fst z, h (snd z)) else z) ys = ys"
      using Cons.prems(1) True by (intro map_idI) (auto simp: by_id_def image_iff)
    then show ?thesis using True assms(3,4) by (simp add: by_id_def)
  next
    case False
    then have "fst y \<noteq> fst x" "x \<in> set ys" using Cons.prems by (auto simp: image_iff)
    then show ?thesis using Cons False by (simp add: by_id_def)
  qed
qed simp

section \<open>Paged queries\<close>

text \<open>The contract of a list query with its count: a page is a window of one fixed list of rows.\<close>

locale paged_query =
  fixes found :: "'s \<Rightarrow> 'r list"
    and page :: "int \<Rightarrow> int \<Rightarrow> 's \<Rightarrow> 'r list"
    and counted :: "'s \<Rightarrow> nat"
  assumes page_window: "page l n s = limit_offset l n (found s)"
    and counted_all: "counted s = length (found s)"
begin

lemma page_length: "0 \<le> l \<Longrightarrow> length (page l n s) \<le> nat l"
  by (simp add: page_window length_limit_offset)

lemma page_beyond: "0 \<le> l \<Longrightarrow> int (counted s) \<le> n \<Longrightarrow> page l n s = []"
  by (simp add: page_window counted_all limit_offset_def)

lemma pages_prefix:
  "0 < l \<Longrightarrow> concat (map (\<lambda>k. page l (int k * l) s) [0..<m]) = take (m * nat l) (found s)"
proof (induction m)
  case (Suc m)
  have "nat (int m * l) = m * nat l" using Suc.prems by (simp add: nat_mult_distrib)
  then have "page l (int m * l) s = take (nat l) (drop (m * nat l) (found s))"
    using Suc.prems by (simp add: page_window limit_offset_def)
  moreover have "take (Suc m * nat l) (found s) =
      take (m * nat l) (found s) @ take (nat l) (drop (m * nat l) (found s))"
    by (simp add: add.commute [of "nat l"] take_add)
  ultimately show ?case using Suc by simp
qed simp

lemma pages_complete:
  assumes "0 < l" "int (counted s) \<le> int m * l"
  shows "concat (map (\<lambda>k. page l (int k * l) s) [0..<m]) = found s"
proof -
  have "int (counted s) \<le> int (m * nat l)" using assms by simp
  then have "length (found s) \<le> m * nat l" unfolding counted_all by linarith
  then show ?thesis using assms(1) by (simp add: pages_prefix)
qed

end

end
