(* ===== verification/Database.thy ===== *)
theory Database
  imports SqlTable OrderedMap JsDate
begin

text \<open>
  The database layer shared by the modules under \<open>src/backend/src/database\<close>: the connection object
  with the module variable \<open>_writeCount\<close> of \<open>core.js\<close> (\<open>write_count\<close>), the SQL tables of a group of
  modules (\<open>tables\<close>, a type parameter), operations that may throw, database transactions with
  rollback, and the migration runner.

  An operation keeps its effects when it throws, as autocommitted statements do;
  \<open>db_transaction\<close> is \<open>db.transaction(f)()\<close>, which rolls the tables back.  In \<open>core.js\<close> the line
  that should declare \<open>_writeCount\<close> is part of a comment, so there the variable is unresolvable:
  \<open>write_count = None\<close>, and \<open>countWrite\<close> throws.  In the older module \<open>database.js\<close> it is declared.
\<close>

record 't db =
  write_count :: "nat option"
  checkpoints :: nat
  db_open :: bool
  tables :: 't

type_synonym ('t, 'a) db_op = "'t db \<Rightarrow> 'a res \<times> 't db"

definition op_return :: "'a \<Rightarrow> ('t, 'a) db_op" where
  "op_return x d = (Inr x, d)"

definition op_raise :: "js_error \<Rightarrow> ('t, 'a) db_op" where
  "op_raise e d = (Inl e, d)"

definition op_bind :: "('t, 'a) db_op \<Rightarrow> ('a \<Rightarrow> ('t, 'b) db_op) \<Rightarrow> ('t, 'b) db_op" where
  "op_bind m f d = (case m d of (Inl e, d') \<Rightarrow> (Inl e, d') | (Inr x, d') \<Rightarrow> f x d')"

definition op_read :: "('t \<Rightarrow> 'a) \<Rightarrow> ('t, 'a) db_op" where
  "op_read f d = (Inr (f (tables d)), d)"

text \<open>A statement that changes the tables and yields a value.\<close>

definition op_write :: "('t \<Rightarrow> 'a \<times> 't) \<Rightarrow> ('t, 'a) db_op" where
  "op_write f d = (let (x, t) = f (tables d) in (Inr x, d\<lparr>tables := t\<rparr>))"

definition op_catch :: "('t, 'a) db_op \<Rightarrow> (js_error \<Rightarrow> ('t, 'a) db_op) \<Rightarrow> ('t, 'a) db_op" where
  "op_catch m h d = (case m d of (Inl e, d') \<Rightarrow> h e d' | (Inr x, d') \<Rightarrow> (Inr x, d'))"

fun op_each :: "('x \<Rightarrow> ('t, unit) db_op) \<Rightarrow> 'x list \<Rightarrow> ('t, unit) db_op" where
  "op_each f [] = op_return ()"
| "op_each f (x # xs) = op_bind (f x) (\<lambda>_. op_each f xs)"

text \<open>An operation of one module on its part of a larger set of tables.\<close>

definition op_within :: "('t \<Rightarrow> 's) \<Rightarrow> ('s \<Rightarrow> 't \<Rightarrow> 't) \<Rightarrow> ('s, 'a) db_op \<Rightarrow> ('t, 'a) db_op" where
  "op_within part put m d =
     (case m \<lparr>write_count = write_count d, checkpoints = checkpoints d, db_open = db_open d,
              tables = part (tables d)\<rparr> of
        (r, e) \<Rightarrow> (r, \<lparr>write_count = write_count e, checkpoints = checkpoints e, db_open = db_open e,
                      tables = put (tables e) (tables d)\<rparr>))"

section \<open>core.js\<close>

text \<open>A checkpoint never throws: errors of the pragma are caught and logged.\<close>

definition checkpoint_database :: "'t db \<Rightarrow> 't db" where
  "checkpoint_database d = (if db_open d then d\<lparr>checkpoints := checkpoints d + 1\<rparr> else d)"

definition close_database :: "'t db \<Rightarrow> 't db" where
  "close_database d = (if db_open d then (checkpoint_database d)\<lparr>db_open := False\<rparr> else d)"

definition count_write :: "('t, unit) db_op" where
  "count_write d =
     (case write_count d of
        None \<Rightarrow> (Inl (ReferenceError ''_writeCount is not defined''), d)
      | Some n \<Rightarrow>
          let d1 = d\<lparr>write_count := Some (n + 1)\<rparr>
          in (Inr (), if (n + 1) mod 100 = 0 then checkpoint_database d1 else d1))"

text \<open>The connection as \<open>core.js\<close> leaves it, and as \<open>database.js\<close> does.\<close>

definition core_connection :: "'t \<Rightarrow> 't db" where
  "core_connection t = \<lparr>write_count = None, checkpoints = 0, db_open = True, tables = t\<rparr>"

definition counted_connection :: "'t \<Rightarrow> 't db" where
  "counted_connection t = \<lparr>write_count = Some 0, checkpoints = 0, db_open = True, tables = t\<rparr>"

definition db_transaction :: "('t, 'a) db_op \<Rightarrow> ('t, 'a) db_op" where
  "db_transaction m d = (case m d of (Inl e, d') \<Rightarrow> (Inl e, d'\<lparr>tables := tables d\<rparr>) | ok \<Rightarrow> ok)"

subsection \<open>Migrations\<close>

text \<open>
  The SQL engine is a parameter: \<open>exec sql s\<close> runs a script on the schema.  Each pending migration
  runs with its version record in one transaction.
\<close>

record 's schema_state =
  applied :: "nat list"
  schema :: 's

definition apply_migration ::
  "(string \<Rightarrow> 's \<Rightarrow> js_error + 's) \<Rightarrow> nat \<times> string \<Rightarrow> 's schema_state \<Rightarrow> js_error + 's schema_state" where
  "apply_migration exec m st =
     (if fst m \<in> set (applied st) then Inr st
      else case exec (snd m) (schema st) of
             Inl e \<Rightarrow> Inl e
           | Inr s \<Rightarrow> Inr (st\<lparr>applied := applied st @ [fst m], schema := s\<rparr>))"

fun initialize_database ::
  "(string \<Rightarrow> 's \<Rightarrow> js_error + 's) \<Rightarrow> (nat \<times> string) list \<Rightarrow> 's schema_state
    \<Rightarrow> js_error option \<times> 's schema_state" where
  "initialize_database exec [] st = (None, st)"
| "initialize_database exec (m # ms) st =
     (case apply_migration exec m st of
        Inl e \<Rightarrow> (Some e, st)
      | Inr st' \<Rightarrow> initialize_database exec ms st')"

definition get_migration_version :: "'s schema_state \<Rightarrow> bool \<Rightarrow> nat" where
  "get_migration_version st is_open = (if is_open then foldr max (applied st) 0 else 0)"

section \<open>Running operations\<close>

lemmas op_simps = op_return_def op_raise_def op_bind_def op_read_def op_write_def op_catch_def

definition bump :: "'t db \<Rightarrow> 't db" where
  "bump d = snd (count_write d)"

definition counting :: "'t db \<Rightarrow> bool" where
  "counting d \<longleftrightarrow> write_count d \<noteq> None"

lemma tables_checkpoint [simp]: "tables (checkpoint_database d) = tables d"
  by (simp add: checkpoint_database_def)

lemma write_count_checkpoint [simp]: "write_count (checkpoint_database d) = write_count d"
  by (simp add: checkpoint_database_def)

lemma tables_bump [simp]: "tables (bump d) = tables d"
  by (simp add: bump_def count_write_def Let_def split: option.split)

lemma counting_bump [simp]: "counting (bump d) = counting d"
  by (auto simp: bump_def counting_def count_write_def Let_def split: option.split)

lemma counting_tables [simp]: "counting (d\<lparr>tables := t\<rparr>) = counting d"
  by (simp add: counting_def)

lemma count_write_ok: "counting d \<Longrightarrow> count_write d = (Inr (), bump d)"
  by (auto simp: bump_def counting_def count_write_def Let_def)

lemma count_write_fails:
  "\<not> counting d \<Longrightarrow> count_write d = (Inl (ReferenceError ''_writeCount is not defined''), d)"
  by (simp add: counting_def count_write_def)

lemma bump_fails: "\<not> counting d \<Longrightarrow> bump d = d"
  by (simp add: bump_def count_write_fails)

lemma bump_tables_upd [simp]: "bump (d\<lparr>tables := t\<rparr>) = (bump d)\<lparr>tables := t\<rparr>"
  by (auto simp: bump_def count_write_def Let_def checkpoint_database_def split: option.split)

lemma not_counting_core [simp]: "\<not> counting (core_connection t)"
  by (simp add: core_connection_def counting_def)

lemma counting_counted [simp]: "counting (counted_connection t)"
  by (simp add: counted_connection_def counting_def)

lemma tables_connection [simp]: "tables (core_connection t) = t" "tables (counted_connection t) = t"
  by (simp_all add: core_connection_def counted_connection_def)

text \<open>A statement followed by \<open>countWrite\<close> and a result: the shape of most helpers.\<close>

definition counted_write :: "('t \<Rightarrow> 'a \<times> 't) \<Rightarrow> ('t, 'a) db_op" where
  "counted_write f = op_bind (op_write f) (\<lambda>x. op_bind count_write (\<lambda>_. op_return x))"

lemma counted_write_ok:
  "counting d \<Longrightarrow> counted_write f d =
     (Inr (fst (f (tables d))), (bump d)\<lparr>tables := snd (f (tables d))\<rparr>)"
  by (simp add: counted_write_def op_simps count_write_ok split: prod.split)

lemma counted_write_fails:
  "\<not> counting d \<Longrightarrow> counted_write f d =
     (Inl (ReferenceError ''_writeCount is not defined''), d\<lparr>tables := snd (f (tables d))\<rparr>)"
  by (simp add: counted_write_def op_simps count_write_fails split: prod.split)

lemma counted_write_tables: "tables (snd (counted_write f d)) = snd (f (tables d))"
  by (cases "counting d") (simp_all add: counted_write_ok counted_write_fails)

subsection \<open>Invariants of the tables\<close>

text \<open>An operation keeps an invariant if it holds afterwards, whether the operation throws or not.\<close>

definition keeps :: "('t \<Rightarrow> bool) \<Rightarrow> ('t, 'a) db_op \<Rightarrow> bool" where
  "keeps P m \<longleftrightarrow> (\<forall>d. P (tables d) \<longrightarrow> P (tables (snd (m d))))"

lemma tables_count_write [simp]: "tables (snd (count_write d)) = tables d"
  by (cases "counting d") (simp_all add: count_write_ok count_write_fails)

lemma keepsD: "keeps P m \<Longrightarrow> P (tables d) \<Longrightarrow> P (tables (snd (m d)))"
  by (simp add: keeps_def)

lemma keeps_basic [intro!]:
  "keeps P (op_return x)" "keeps P (op_raise e)" "keeps P (op_read f)" "keeps P count_write"
  by (simp_all add: keeps_def op_simps)

lemma keeps_write: "(\<And>t. P t \<Longrightarrow> P (snd (f t))) \<Longrightarrow> keeps P (op_write f)"
  by (simp add: keeps_def op_write_def case_prod_beta)

lemma keeps_counted_write: "(\<And>t. P t \<Longrightarrow> P (snd (f t))) \<Longrightarrow> keeps P (counted_write f)"
  by (simp add: keeps_def counted_write_tables)

lemma keeps_bind [intro!]: "keeps P m \<Longrightarrow> (\<And>x. keeps P (f x)) \<Longrightarrow> keeps P (op_bind m f)"
  unfolding keeps_def op_bind_def by (auto split: prod.split sum.split; metis snd_conv)

lemma keeps_catch [intro!]: "keeps P m \<Longrightarrow> (\<And>e. keeps P (h e)) \<Longrightarrow> keeps P (op_catch m h)"
  unfolding keeps_def op_catch_def by (auto split: prod.split sum.split; metis snd_conv)

lemma keeps_transaction [intro!]: "keeps P m \<Longrightarrow> keeps P (db_transaction m)"
  unfolding keeps_def db_transaction_def by (auto split: prod.split sum.split; metis snd_conv)

lemma keeps_cases [intro!]:
  "(\<And>x. keeps P (f x)) \<Longrightarrow> keeps P g \<Longrightarrow> keeps P (case o1 of None \<Rightarrow> g | Some x \<Rightarrow> f x)"
  "(c \<Longrightarrow> keeps P a) \<Longrightarrow> (\<not> c \<Longrightarrow> keeps P b) \<Longrightarrow> keeps P (if c then a else b)"
  by (cases o1; simp) (cases c; simp)

text \<open>What was read still holds in the step that follows the read.\<close>

lemma keeps_read_bind:
  assumes "\<And>d. P (tables d) \<Longrightarrow> P (tables (snd (f (g (tables d)) d)))"
  shows "keeps P (op_bind (op_read g) f)"
  using assms by (simp add: keeps_def op_bind_def op_read_def)

text \<open>The number of checkpoints is the number of whole hundreds of counted writes.\<close>

definition checkpointed :: "'t db \<Rightarrow> bool" where
  "checkpointed d \<longleftrightarrow> (\<forall>n. write_count d = Some n \<longrightarrow> db_open d \<longrightarrow> checkpoints d = n div 100)"

text \<open>While the connection is open, every hundredth write checkpoints the WAL: the number of
  checkpoints stays the number of completed hundreds of counted writes.\<close>

theorem checkpoint_every_hundred:
  assumes "checkpointed d" and "db_open d"
  shows "checkpointed (snd (counted_write f d)) \<and> db_open (snd (counted_write f d))"
proof (cases "write_count d")
  case None
  then have "\<not> counting d" by (simp add: counting_def)
  then show ?thesis using assms None by (simp add: counted_write_fails checkpointed_def)
next
  case (Some n)
  have s: "Suc n div 100 = (if Suc n mod 100 = 0 then Suc (n div 100) else n div 100)"
    by (simp add: div_Suc)
  have "snd (counted_write f d) = (bump d)\<lparr>tables := snd (f (tables d))\<rparr>"
    using Some by (simp add: counted_write_ok counting_def)
  moreover have "bump d = (if Suc n mod 100 = 0
      then d\<lparr>write_count := Some (Suc n), checkpoints := checkpoints d + 1\<rparr>
      else d\<lparr>write_count := Some (Suc n)\<rparr>)"
    using Some assms(2) by (simp add: bump_def count_write_def Let_def checkpoint_database_def)
  ultimately show ?thesis using assms Some s by (simp add: checkpointed_def)
qed

theorem checkpoint_every_hundred_witness:
  "checkpointed (snd (counted_write (\<lambda>t::nat. ((), t + 1)) (counted_connection 0)))"
  using checkpoint_every_hundred [of "counted_connection (0::nat)" "\<lambda>t. ((), t + 1)"]
  by (simp add: checkpointed_def counted_connection_def)

section \<open>Transactions and migrations\<close>

text \<open>A transaction that throws leaves the tables as they were.\<close>

lemma db_transaction_rollback:
  "fst (db_transaction m d) = Inl e \<Longrightarrow> tables (snd (db_transaction m d)) = tables d"
  by (auto simp: db_transaction_def split: prod.splits sum.splits)

lemma db_transaction_commit:
  "m d = (Inr x, d') \<Longrightarrow> db_transaction m d = (Inr x, d')"
  by (simp add: db_transaction_def)

lemma initialize_applied:
  "initialize_database exec ms st = (None, st') \<Longrightarrow>
     set (applied st') = set (applied st) \<union> fst ` set ms"
proof (induction ms arbitrary: st)
  case Nil
  then show ?case by simp
next
  case (Cons m ms)
  then show ?case
    by (auto simp: apply_migration_def split: sum.splits if_splits)
qed

lemma initialize_noop:
  "fst ` set ms \<subseteq> set (applied st) \<Longrightarrow> initialize_database exec ms st = (None, st)"
  by (induction ms) (auto simp: apply_migration_def)

text \<open>Starting the server again after a successful start changes nothing: every migration is
  recorded as applied and none runs twice.\<close>

theorem migrations_idempotent:
  assumes "initialize_database exec ms st = (None, st')"
  shows "initialize_database exec2 ms st' = (None, st')"
  using initialize_applied [OF assms] by (intro initialize_noop) auto

theorem migrations_idempotent_witness:
  "initialize_database (\<lambda>_ _. Inl (SqliteError ''used twice'')) [(1, ''a''), (3, ''b''), (2, ''c'')]
     (snd (initialize_database (\<lambda>q s. Inr (s @ q)) [(1, ''a''), (3, ''b''), (2, ''c'')]
        \<lparr>applied = [1], schema = []\<rparr>))
   = (None, \<lparr>applied = [1, 3, 2], schema = ''bc''\<rparr>)"
proof -
  have "initialize_database (\<lambda>q s. Inr (s @ q)) [(1, ''a''), (3, ''b''), (2, ''c'')]
      \<lparr>applied = [1], schema = []\<rparr> = (None, \<lparr>applied = [1, 3, 2], schema = ''bc''\<rparr>)"
    by (simp add: apply_migration_def)
  from migrations_idempotent [OF this] show ?thesis by (simp add: apply_migration_def)
qed

text \<open>A failing script stops the start there: the earlier migrations stay applied, the failing one
  and the later ones do not run.\<close>

lemma migration_failure_stops:
  assumes "initialize_database exec ms st = (Some e, st')"
  shows "\<exists>pre m post. ms = pre @ m # post \<and> initialize_database exec pre st = (None, st')
    \<and> apply_migration exec m st' = Inl e"
  using assms
proof (induction ms arbitrary: st)
  case Nil
  then show ?case by simp
next
  case (Cons m ms)
  show ?case
  proof (cases "apply_migration exec m st")
    case (Inl e2)
    then show ?thesis using Cons.prems by (intro exI [of _ "[]"] exI [of _ m] exI [of _ ms]) simp
  next
    case (Inr st2)
    then have "initialize_database exec ms st2 = (Some e, st')" using Cons.prems by simp
    from Cons.IH [OF this] obtain pre m2 post where "ms = pre @ m2 # post"
      "initialize_database exec pre st2 = (None, st')" "apply_migration exec m2 st' = Inl e"
      by blast
    then show ?thesis using Inr
      by (intro exI [of _ "m # pre"] exI [of _ m2] exI [of _ post]) simp
  qed
qed

end
