(* ===== verification/Transactions.thy ===== *)
theory Transactions
  imports Database Http "HOL-Library.Product_Lexorder"
begin

text \<open>
  The tables around a royalty payment (\<open>transactions\<close>, \<open>distribution_payouts\<close>,
  \<open>contract_event_archive\<close>, \<open>event_archive_policy\<close>, \<open>audit_log\<close>, \<open>hold_audit\<close>, \<open>transaction_finality\<close>, \<open>webhooks\<close>,
  \<open>webhook_dlq\<close>, \<open>payment_schedules\<close>) as one record, and the operations of
  \<open>src/backend/src/database/transactions.js\<close>.  Columns that may be NULL are
  options, times are the strings SQLite and \<open>toISOString\<close> print, and the declared CHECK and UNIQUE
  constraints raise.  No migration creates the archive tables: a fresh ledger has none.  \<open>now\<close> is the clock in milliseconds.
\<close>

record tx_row =
  tx_hash :: "string option"
  tx_contract :: string
  tx_type :: string
  tx_initiator :: string
  requested_amount :: "string option"
  token_id :: "string option"
  tx_timestamp :: string
  block_time :: "string option"
  tx_status :: string
  tx_error :: "string option"
  retry_count :: nat
  last_retry_time :: "string option"
  hold_reason :: "string option"
  hold_until :: "string option"
  hold_placed_at :: "string option"
  hold_placed_by :: "string option"
  hold_released_at :: "string option"
  hold_released_by :: "string option"
  hold_approved_by :: "string option"
  hold_approved_at :: "string option"
  hold_approval_note :: "string option"
  hold_status :: "string option"

record payout_row =
  po_transaction :: nat
  po_contract :: string
  po_collaborator :: string
  po_amount :: string

text \<open>The columns a transaction keeps in the archive, and the two archive tables.\<close>

record event =
  ev_id :: nat
  ev_hash :: "string option"
  ev_contract :: string
  ev_type :: string
  ev_initiator :: string
  ev_amount :: "string option"
  ev_token :: "string option"
  ev_timestamp :: string
  ev_block_time :: "string option"
  ev_status :: string
  ev_error :: "string option"

record archive_row =
  ar_event :: event
  ar_payout_count :: nat
  ar_payouts_json :: string
  ar_archived_at :: string

record archive_policy_row =
  apr_enabled :: bool
  apr_retention_days :: int
  apr_updated_at :: string

record archive_tables =
  archived_events :: "archive_row table"
  archive_policy :: "archive_policy_row option"

record audit_row =
  au_contract :: string
  au_action :: string
  au_user :: "string option"
  au_details :: json
  au_timestamp :: string

record hold_audit_row =
  ha_transaction :: nat
  ha_action :: string
  ha_reason :: "string option"
  ha_performed_by :: "string option"
  ha_details :: json
  ha_created_at :: string

record finality_row =
  fin_transaction :: nat
  fin_tx_hash :: "string option"
  fin_status :: string
  confirmations :: nat
  fee_paid :: "string option"
  submission_at :: string
  first_confirmation_at :: "string option"
  final_status :: "string option"
  final_status_at :: "string option"
  fin_error :: "string option"
  poll_attempts :: nat
  next_poll_at :: "string option"

record webhook_row =
  wh_contract :: string
  wh_url :: string
  wh_enabled :: bool
  wh_retry_count :: nat
  next_retry_time :: "string option"
  wh_payload :: "string option"
  wh_created_at :: string

record dlq_row =
  dlq_webhook :: nat
  dlq_url :: string
  dlq_contract :: string
  dlq_payload :: "string option"
  dlq_error :: "string option"
  dlq_retry_count :: nat
  dlq_created_at :: string

record schedule_row =
  ps_name :: string
  ps_type :: string
  ps_contract :: string
  ps_token :: string
  ps_wallet :: string
  ps_day_of_month :: "int option"
  ps_day_of_week :: "int option"
  ps_interval_days :: "int option"
  ps_anchor_date :: "string option"
  ps_hour_of_day :: int
  ps_timezone :: string
  ps_enabled :: bool
  ps_last_run_at :: "string option"
  ps_next_run_at :: "string option"
  ps_metadata :: "string option"
  ps_created_at :: string
  ps_updated_at :: string

record ledger =
  transactions :: "tx_row table"
  payouts :: "payout_row table"
  archive :: "archive_tables option"
  audit_log :: "audit_row table"
  hold_audit :: "hold_audit_row table"
  finality :: "finality_row table"
  webhooks :: "webhook_row table"
  webhook_dlq :: "dlq_row table"
  schedules :: "schedule_row table"

definition empty_ledger :: ledger where
  "empty_ledger = \<lparr>transactions = t_empty, payouts = t_empty, archive = None, audit_log = t_empty,
     hold_audit = t_empty, finality = t_empty, webhooks = t_empty, webhook_dlq = t_empty,
     schedules = t_empty\<rparr>"

type_synonym 'a ledger_op = "(ledger, 'a) db_op"

section \<open>transactions.js\<close>

definition tx_types :: "string list" where
  "tx_types = [''initialize'', ''distribute'', ''secondary_royalty'', ''secondary_distribute'']"

definition tx_statuses :: "string list" where
  "tx_statuses = [''pending'', ''confirmed'', ''failed'']"

definition retry_backoff_ms :: "int list" where
  "retry_backoff_ms = [60000, 300000, 900000]"

definition max_retry_count :: nat where
  "max_retry_count = 3"

definition new_tx ::
  "string \<Rightarrow> string \<Rightarrow> string \<Rightarrow> string option \<Rightarrow> string option \<Rightarrow> int \<Rightarrow> tx_row" where
  "new_tx contract type initiator amount token now =
     \<lparr>tx_hash = None, tx_contract = contract, tx_type = type, tx_initiator = initiator,
      requested_amount = amount, token_id = token, tx_timestamp = sql_timestamp now,
      block_time = None, tx_status = ''pending'', tx_error = None, retry_count = 0,
      last_retry_time = None, hold_reason = None, hold_until = None, hold_placed_at = None,
      hold_placed_by = None, hold_released_at = None, hold_released_by = None,
      hold_approved_by = None, hold_approved_at = None, hold_approval_note = None, hold_status = None\<rparr>"

definition insert_tx :: "tx_row \<Rightarrow> ledger \<Rightarrow> nat \<times> ledger" where
  "insert_tx r l = (let (i, t) = t_insert r (transactions l) in (i, l\<lparr>transactions := t\<rparr>))"

definition check_failed :: js_error where
  "check_failed = SqliteError ''CHECK constraint failed: transactions''"

definition unique_failed :: js_error where
  "unique_failed = SqliteError ''UNIQUE constraint failed: transactions.txHash''"

definition record_transaction ::
  "string \<Rightarrow> string \<Rightarrow> string \<Rightarrow> string option \<Rightarrow> string option \<Rightarrow> int \<Rightarrow> nat ledger_op" where
  "record_transaction contract type initiator amount token now =
     (if type \<notin> set tx_types then op_raise check_failed
      else counted_write (insert_tx (new_tx contract type initiator amount token now)))"

definition set_tx :: "(nat \<times> tx_row \<Rightarrow> bool) \<Rightarrow> (tx_row \<Rightarrow> tx_row) \<Rightarrow> ledger \<Rightarrow> unit \<times> ledger" where
  "set_tx P f l = ((), l\<lparr>transactions := t_update P f (transactions l)\<rparr>)"

definition hash_taken :: "string \<Rightarrow> nat \<Rightarrow> ledger \<Rightarrow> bool" where
  "hash_taken h i l = list_ex (\<lambda>x. fst x \<noteq> i \<and> tx_hash (snd x) = Some h) (trows (transactions l))"

definition update_transaction_hash :: "nat \<Rightarrow> string \<Rightarrow> unit ledger_op" where
  "update_transaction_hash i h d =
     (if t_count (by_id i) (transactions (tables d)) \<noteq> 0 \<and> hash_taken h i (tables d)
      then op_raise unique_failed d
      else counted_write (set_tx (by_id i) (\<lambda>r. r\<lparr>tx_hash := Some h\<rparr>)) d)"

definition has_hash :: "string \<Rightarrow> nat \<times> tx_row \<Rightarrow> bool" where
  "has_hash h x = (tx_hash (snd x) = Some h)"

definition update_transaction_status ::
  "string \<Rightarrow> string \<Rightarrow> string option \<Rightarrow> string option \<Rightarrow> unit ledger_op" where
  "update_transaction_status h status blk err d =
     (if t_count (has_hash h) (transactions (tables d)) \<noteq> 0 \<and> status \<notin> set tx_statuses
      then op_raise check_failed d
      else counted_write (set_tx (has_hash h)
             (\<lambda>r. r\<lparr>tx_status := status, block_time := blk, tx_error := err\<rparr>)) d)"

text \<open>Foreign keys are on: a payout needs its transaction.\<close>

definition insert_payout :: "payout_row \<Rightarrow> ledger \<Rightarrow> unit \<times> ledger" where
  "insert_payout r l = ((), l\<lparr>payouts := snd (t_insert r (payouts l))\<rparr>)"

definition add_distribution_payout :: "nat \<Rightarrow> string \<Rightarrow> string \<Rightarrow> string \<Rightarrow> unit ledger_op" where
  "add_distribution_payout tx contract collaborator amount d =
     (if t_get (by_id tx) (transactions (tables d)) = None
      then op_raise (SqliteError ''FOREIGN KEY constraint failed'') d
      else counted_write (insert_payout \<lparr>po_transaction = tx, po_contract = contract,
             po_collaborator = collaborator, po_amount = amount\<rparr>) d)"

subsection \<open>History\<close>

text \<open>SQL \<open>LIKE\<close>: \<open>%\<close> is any string, \<open>_\<close> any character, ASCII letters match either case.\<close>

fun sql_like :: "string \<Rightarrow> string \<Rightarrow> bool" where
  "sql_like [] s = (s = [])"
| "sql_like (p # ps) s =
     (if p = CHR ''%'' then sql_like ps s \<or> (case s of [] \<Rightarrow> False | _ # t \<Rightarrow> sql_like (p # ps) t)
      else case s of [] \<Rightarrow> False
           | c # t \<Rightarrow> (p = CHR ''_'' \<or> lower_char p = lower_char c) \<and> sql_like ps t)"

record tx_filters =
  f_type :: "string option"
  f_recipient :: "string option"
  f_start :: "string option"
  f_end :: "string option"

definition given :: "string option \<Rightarrow> (string \<Rightarrow> bool) \<Rightarrow> bool" where
  "given s P = (case s of None \<Rightarrow> True | Some x \<Rightarrow> x = [] \<or> P x)"

definition tx_matches :: "string \<Rightarrow> tx_filters \<Rightarrow> ledger \<Rightarrow> nat \<times> tx_row \<Rightarrow> bool" where
  "tx_matches contract f l x \<longleftrightarrow>
     tx_contract (snd x) = contract
     \<and> given (f_type f) (\<lambda>v. tx_type (snd x) = v)
     \<and> given (f_recipient f) (\<lambda>v. list_ex (\<lambda>p. po_transaction (snd p) = fst x
          \<and> sql_like (''%'' @ v @ ''%'') (po_collaborator (snd p))) (trows (payouts l)))
     \<and> given (f_start f) (\<lambda>v. v \<le> tx_timestamp (snd x))
     \<and> given (f_end f) (\<lambda>v. tx_timestamp (snd x) \<le> v)"

definition get_transaction_count :: "string \<Rightarrow> tx_filters \<Rightarrow> nat ledger_op" where
  "get_transaction_count contract f =
     op_read (\<lambda>l. t_count (tx_matches contract f l) (transactions l))"

definition tx_key :: "nat \<times> tx_row \<Rightarrow> string \<times> nat" where
  "tx_key x = (tx_timestamp (snd x), fst x)"

definition payout_count :: "ledger \<Rightarrow> nat \<Rightarrow> nat" where
  "payout_count l i = t_count (\<lambda>p. po_transaction (snd p) = i) (payouts l)"

text \<open>The filtered transactions, newest first (\<open>ORDER BY timestamp DESC, id DESC\<close>).\<close>

definition tx_list :: "string \<Rightarrow> tx_filters \<Rightarrow> ledger \<Rightarrow> (nat \<times> tx_row) list" where
  "tx_list contract f l = order_desc tx_key (t_select (tx_matches contract f l) (transactions l))"

definition with_payout_count :: "ledger \<Rightarrow> nat \<times> tx_row \<Rightarrow> (nat \<times> tx_row) \<times> nat" where
  "with_payout_count l x = (x, payout_count l (fst x))"

definition get_transaction_history ::
  "string \<Rightarrow> int \<Rightarrow> int \<Rightarrow> tx_filters \<Rightarrow> ((nat \<times> tx_row) \<times> nat) list ledger_op" where
  "get_transaction_history contract limit offset f =
     op_read (\<lambda>l. map (with_payout_count l) (limit_offset limit offset (tx_list contract f l)))"

definition before_cursor :: "(string \<times> nat) option \<Rightarrow> nat \<times> tx_row \<Rightarrow> bool" where
  "before_cursor cursor x =
     (case cursor of
        None \<Rightarrow> True
      | Some (ts, i) \<Rightarrow> tx_timestamp (snd x) < ts \<or> (tx_timestamp (snd x) = ts \<and> fst x < i))"

definition history_page ::
  "string \<Rightarrow> int \<Rightarrow> (string \<times> nat) option \<Rightarrow> tx_filters \<Rightarrow> ledger
    \<Rightarrow> (nat \<times> tx_row) list \<times> (string \<times> nat) option" where
  "history_page contract limit cursor f l =
     (let selected = order_desc tx_key
            (t_select (\<lambda>x. tx_matches contract f l x \<and> before_cursor cursor x) (transactions l));
          found = limit_offset (limit + 1) 0 selected;
          has_more = limit < int (length found);
          page = (if has_more then take (nat limit) found else found);
          next_cursor = (if has_more \<and> page \<noteq> [] then Some (tx_key (last page)) else None)
      in (page, next_cursor))"

definition get_transaction_history_cursor ::
  "string \<Rightarrow> int \<Rightarrow> (string \<times> nat) option \<Rightarrow> tx_filters
    \<Rightarrow> (((nat \<times> tx_row) \<times> nat) list \<times> (string \<times> nat) option) ledger_op" where
  "get_transaction_history_cursor contract limit cursor f =
     op_read (\<lambda>l. let (page, nxt) = history_page contract limit cursor f l
                  in (map (with_payout_count l) page, nxt))"

text \<open>A client that follows the cursors: \<open>fuel\<close> bounds the number of requests.\<close>

fun follow_cursors ::
  "nat \<Rightarrow> string \<Rightarrow> int \<Rightarrow> (string \<times> nat) option \<Rightarrow> tx_filters \<Rightarrow> ledger \<Rightarrow> (nat \<times> tx_row) list option" where
  "follow_cursors 0 contract limit cursor f l = None"
| "follow_cursors (Suc fuel) contract limit cursor f l =
     (case history_page contract limit cursor f l of
        (page, None) \<Rightarrow> Some page
      | (page, Some c) \<Rightarrow> map_option (\<lambda>rest. page @ rest) (follow_cursors fuel contract limit (Some c) f l))"

definition get_transaction_by_id :: "nat \<Rightarrow> (nat \<times> tx_row) option ledger_op" where
  "get_transaction_by_id i = op_read (\<lambda>l. t_get (by_id i) (transactions l))"

definition get_retry_eligible_transactions :: "int \<Rightarrow> (nat \<times> tx_row) list ledger_op" where
  "get_retry_eligible_transactions limit =
     op_read (\<lambda>l. limit_offset limit 0
       (order_asc (\<lambda>x. (case last_retry_time (snd x) of None \<Rightarrow> (0::nat, []) | Some t \<Rightarrow> (1, t), fst x))
         (t_select (\<lambda>x. tx_status (snd x) = ''failed'' \<and> retry_count (snd x) < max_retry_count)
            (transactions l))))"

section \<open>Recording and looking up\<close>

text \<open>A recorded transaction gets a fresh id, is found under it as pending with the given
  contract, type and initiator, and no other transaction changes.\<close>

theorem record_transaction_inserts:
  assumes "counting d" and "t_ok (transactions (tables d))" and "type \<in> set tx_types"
    and "record_transaction contract type initiator amount token now d = (r, d')"
  shows "\<exists>i. r = Inr i \<and> t_get (by_id i) (transactions (tables d)) = None
    \<and> fst (get_transaction_by_id i d') = Inr (Some (i, new_tx contract type initiator amount token now))
    \<and> (\<forall>j. j \<noteq> i \<longrightarrow> fst (get_transaction_by_id j d') = fst (get_transaction_by_id j d))
    \<and> t_ok (transactions (tables d'))"
proof -
  let ?r = "new_tx contract type initiator amount token now" and ?t = "transactions (tables d)"
  obtain i t where it: "t_insert ?r ?t = (i, t)" by fastforce
  have r: "r = Inr i" "transactions (tables d') = t"
    using assms by (auto simp: record_transaction_def counted_write_ok insert_tx_def it)
  have "i \<notin> fst ` set (trows ?t)" using tb.ins_fresh [OF assms(2), of ?r] by (simp add: it)
  then have "t_get (by_id i) ?t = None" by (auto simp: t_get_None by_id_def)
  moreover have "t_get (by_id i) t = Some (i, ?r)"
    using t_get_inserted [OF assms(2), of ?r] by (simp add: it)
  moreover have "t_get (by_id j) t = t_get (by_id j) ?t" if "j \<noteq> i" for j
    using t_get_insert_other [of j ?r ?t] that by (simp add: it)
  moreover have "t_ok t" using tb.ok_ins [OF assms(2), of ?r] by (simp add: it)
  ultimately show ?thesis using r by (simp add: get_transaction_by_id_def op_read_def)
qed

theorem record_transaction_inserts_witness:
  "\<exists>i. fst (record_transaction ''C1'' ''distribute'' ''G1'' None (Some ''T'') 0
      (counted_connection empty_ledger)) = Inr i"
proof -
  obtain r d' where c: "record_transaction ''C1'' ''distribute'' ''G1'' None (Some ''T'') 0
      (counted_connection empty_ledger) = (r, d')" by fastforce
  have "t_ok (transactions (tables (counted_connection empty_ledger)))" by (simp add: empty_ledger_def)
  from record_transaction_inserts [OF counting_counted this _ c] show ?thesis
    by (auto simp: tx_types_def c)
qed

text \<open>On the connection of \<open>core.js\<close>, where \<open>_writeCount\<close> is never declared, recording a transaction
  stores the pending row and then throws: the caller gets a \<open>ReferenceError\<close> and no id for a row that
  stays in the table, and the next write fails in the same way.\<close>

theorem core_writes_store_and_throw:
  assumes "\<not> counting d" and "type \<in> set tx_types"
  shows "let res = record_transaction contract type initiator amount token now d; l = tables d in
      fst res = Inl (ReferenceError ''_writeCount is not defined'')
      \<and> trows (transactions (tables (snd res))) =
          trows (transactions l) @ [(Suc (tseq (transactions l)), new_tx contract type initiator amount token now)]
      \<and> \<not> counting (snd res)"
  using assms
  by (simp add: record_transaction_def counted_write_fails insert_tx_def t_insert_def Let_def)

theorem core_writes_store_and_throw_witness:
  "fst (record_transaction ''C1'' ''distribute'' ''G1'' None None 0 (core_connection empty_ledger))
     = Inl (ReferenceError ''_writeCount is not defined'')"
  using core_writes_store_and_throw [of "core_connection empty_ledger" "''distribute''" "''C1''" "''G1''"
      None None 0]
  by (simp add: tx_types_def Let_def)

text \<open>Transaction hashes stay unique.\<close>

definition unique_hashes :: "ledger \<Rightarrow> bool" where
  "unique_hashes l \<longleftrightarrow> (\<forall>x \<in> set (trows (transactions l)). \<forall>y \<in> set (trows (transactions l)).
     tx_hash (snd x) \<noteq> None \<and> tx_hash (snd x) = tx_hash (snd y) \<longrightarrow> fst x = fst y)"

lemma unique_hashes_update:
  assumes "unique_hashes l" and "\<not> hash_taken h i l"
  shows "unique_hashes (snd (set_tx (by_id i) (\<lambda>r. r\<lparr>tx_hash := Some h\<rparr>) l))"
  using assms
  by (fastforce simp: unique_hashes_def set_tx_def t_update_def hash_taken_def list_ex_iff by_id_def)

lemma unique_hashes_insert:
  assumes "unique_hashes l" and "tx_hash r = None"
  shows "unique_hashes (snd (insert_tx r l))"
  using assms by (auto simp: unique_hashes_def insert_tx_def t_insert_def Let_def)

lemma unique_hashes_status:
  assumes "unique_hashes l" and "\<And>r. tx_hash (g r) = tx_hash r"
  shows "unique_hashes (snd (set_tx P g l))"
  using assms by (auto simp: unique_hashes_def set_tx_def t_update_def)

lemma unique_hashes_record:
  assumes "unique_hashes (tables d)"
  shows "unique_hashes (tables (snd (record_transaction c ty ini a tk now d)))"
  using assms unique_hashes_insert [of "tables d" "new_tx c ty ini a tk now"]
  by (simp add: record_transaction_def op_raise_def counted_write_tables new_tx_def)

lemma unique_hashes_set_hash:
  assumes "unique_hashes (tables d)"
  shows "unique_hashes (tables (snd (update_transaction_hash i h d)))"
proof (cases "t_count (by_id i) (transactions (tables d)) = 0")
  case True
  then have "trows (t_update (by_id i) g (transactions (tables d))) = trows (transactions (tables d))" for g
    by (simp add: t_count_0 t_get_def tb.update_none)
  then show ?thesis using True assms
    by (simp add: update_transaction_hash_def counted_write_tables unique_hashes_def set_tx_def)
next
  case False
  then show ?thesis using assms unique_hashes_update [OF assms, of h i]
    by (simp add: update_transaction_hash_def op_raise_def counted_write_tables)
qed

text \<open>No two transactions ever share a hash: recording, attaching a hash and changing a status
  preserve uniqueness, whether they succeed or throw.\<close>

theorem transaction_hashes_unique:
  assumes "unique_hashes (tables d)"
  shows "unique_hashes (tables (snd (record_transaction c ty ini a tk now d)))
    \<and> unique_hashes (tables (snd (update_transaction_hash i h d)))
    \<and> unique_hashes (tables (snd (update_transaction_status h2 st blk err d)))"
  using unique_hashes_record [OF assms] unique_hashes_set_hash [OF assms]
    unique_hashes_status [OF assms, of "\<lambda>r. r\<lparr>tx_status := st, block_time := blk, tx_error := err\<rparr>"]
    assms
  by (simp add: update_transaction_status_def op_raise_def counted_write_tables)

theorem transaction_hashes_unique_witness:
  "unique_hashes (tables (snd (update_transaction_hash 1 ''ab''
     (snd (record_transaction ''C1'' ''distribute'' ''G1'' None None 0 (core_connection empty_ledger))))))"
proof -
  have "unique_hashes (tables (core_connection empty_ledger))"
    by (simp add: unique_hashes_def empty_ledger_def t_empty_def)
  then have "unique_hashes (tables (snd (record_transaction ''C1'' ''distribute'' ''G1'' None None 0
      (core_connection empty_ledger))))" by (rule unique_hashes_record)
  from transaction_hashes_unique [OF this] show ?thesis by blast
qed

section \<open>Paging\<close>

text \<open>Offset paging is exact: the count of a filtered history is the length of its full listing,
  and two consecutive pages are consecutive pieces of that listing.\<close>

theorem history_offset_paging:
  assumes "0 \<le> limit" "0 \<le> offset"
  shows "fst (get_transaction_count contract f d) =
      Inr (length (tx_list contract f (tables d)))
    \<and> (\<exists>p q. fst (get_transaction_history contract limit offset f d) = Inr p
        \<and> fst (get_transaction_history contract (-1) (offset + limit) f d) = Inr q
        \<and> map fst (p @ q) = drop (nat offset) (tx_list contract f (tables d)))"
proof -
  have m: "map fst (map (with_payout_count l) xs) = xs" for l xs
    by (induction xs) (simp_all add: with_payout_count_def)
  let ?s = "tx_list contract f (tables d)"
  let ?page = "\<lambda>l n. map (with_payout_count (tables d)) (limit_offset l n ?s)"
  have "map fst (?page limit offset @ ?page (-1) (offset + limit)) = drop (nat offset) ?s"
    unfolding map_append m limit_offset_pages [OF assms] by (simp add: limit_offset_def)
  moreover have "fst (get_transaction_history contract l n f d) = Inr (?page l n)" for l n
    by (simp add: get_transaction_history_def op_read_def)
  moreover have "fst (get_transaction_count contract f d) = Inr (length ?s)"
    by (simp add: get_transaction_count_def op_read_def t_count_def tx_list_def t_select_def)
  ultimately show ?thesis by blast
qed

theorem history_offset_paging_witness:
  "fst (get_transaction_count ''C1'' \<lparr>f_type = None, f_recipient = None, f_start = None, f_end = None\<rparr>
     (counted_connection empty_ledger)) = Inr 0"
  using history_offset_paging [of 5 0 "''C1''" "\<lparr>f_type = None, f_recipient = None, f_start = None, f_end = None\<rparr>"
      "counted_connection empty_ledger"]
  by (simp add: tx_list_def t_select_def empty_ledger_def t_empty_def order_desc_def)

lemma before_cursor_key: "before_cursor (Some (tx_key y)) x \<longleftrightarrow> tx_key x < tx_key y"
  by (auto simp: before_cursor_def tx_key_def less_prod_simp)

lemma tx_list_strict:
  assumes "t_ok (transactions l)"
  shows "sorted_wrt (\<lambda>x y. tx_key y < tx_key x) (tx_list contract f l)"
proof -
  let ?s = "tx_list contract f l"
  have "distinct (map fst (t_select (tx_matches contract f l) (transactions l)))"
    using tb.ok_distinct [OF assms] by (simp add: t_select_def distinct_map_filter)
  then have "distinct (map tx_key (t_select (tx_matches contract f l) (transactions l)))"
    by (auto simp: distinct_map tx_key_def inj_on_def)
  then have d: "distinct (map tx_key ?s)"
    unfolding tx_list_def by (metis distinct_map mset_order_desc mset_eq_imp_distinct_iff mset_map)
  have s: "sorted_wrt (\<lambda>x y. tx_key y \<le> tx_key x) ?s" unfolding tx_list_def by (rule sorted_order_desc)
  have "sorted_wrt (\<lambda>x y. tx_key y \<le> tx_key x) xs \<Longrightarrow> distinct (map tx_key xs) \<Longrightarrow>
      sorted_wrt (\<lambda>x y. tx_key y < tx_key x) xs" for xs
  proof (induction xs)
    case (Cons a xs)
    have "tx_key y < tx_key a" if "y \<in> set xs" for y
    proof -
      have "tx_key y \<le> tx_key a" using Cons.prems(1) that by simp
      moreover have "tx_key a \<notin> tx_key ` set xs" using Cons.prems(2) by simp
      then have "tx_key y \<noteq> tx_key a" using that by (metis imageI)
      ultimately show ?thesis by (rule order_le_neq_trans)
    qed
    then show ?case using Cons by simp
  qed simp
  then show ?thesis using s d by blast
qed

lemma cursor_selection:
  "order_desc tx_key (t_select (\<lambda>x. tx_matches contract f l x \<and> before_cursor c x) (transactions l))
   = filter (before_cursor c) (tx_list contract f l)"
proof -
  have "filter (\<lambda>x. tx_matches contract f l x \<and> before_cursor c x) xs =
      filter (before_cursor c) (filter (tx_matches contract f l) xs)" for xs
    by (simp add: filter_filter conj_commute)
  then show ?thesis
    by (simp add: tx_list_def t_select_def order_desc_def rev_filter filter_sort [symmetric])
qed

lemma history_page_eq:
  assumes "1 \<le> limit"
  shows "history_page contract limit c f l =
    (let zs = filter (before_cursor c) (tx_list contract f l)
     in (take (nat limit) zs,
         if nat limit < length zs then Some (tx_key (last (take (nat limit) zs))) else None))"
proof -
  let ?z = "filter (before_cursor c) (tx_list contract f l)"
  have n: "nat (limit + 1) = Suc (nat limit)" using assms by simp
  have lo: "limit_offset (limit + 1) 0 ?z = take (Suc (nat limit)) ?z"
    using assms by (simp add: limit_offset_def n)
  have m: "limit < int (length (take (Suc (nat limit)) ?z)) \<longleftrightarrow> nat limit < length ?z"
    using assms by auto
  have t: "take (nat limit) (take (Suc (nat limit)) ?z) = take (nat limit) ?z" by (simp add: min_def)
  have s: "take (Suc (nat limit)) ?z = take (nat limit) ?z" if "\<not> nat limit < length ?z"
    using that by simp
  have "nat limit < length ?z \<Longrightarrow> take (nat limit) ?z \<noteq> []" using assms by auto
  then show ?thesis
    unfolding history_page_def Let_def cursor_selection lo m t using s by auto
qed

lemma filter_after:
  fixes k :: "'a \<Rightarrow> 'k::linorder"
  assumes "sorted_wrt (\<lambda>x y. k y < k x) (xs @ ys)" "xs \<noteq> []"
  shows "filter (\<lambda>x. k x < k (last xs)) (xs @ ys) = ys"
proof -
  obtain a z where z: "xs = a @ [z]" using assms(2) by (cases xs rule: rev_cases) auto
  have "filter (\<lambda>x. k x < k z) a = []"
    using assms(1) by (auto simp: z sorted_wrt_append filter_empty_conv)
  moreover have "filter (\<lambda>x. k x < k z) ys = ys"
    using assms(1) by (auto simp: z sorted_wrt_append filter_id_conv)
  ultimately show ?thesis by (simp add: z)
qed

lemma follow_cursors_rest:
  assumes "t_ok (transactions l)" "1 \<le> limit" "tx_list contract f l = ys @ zs"
    and "filter (before_cursor c) (tx_list contract f l) = zs" "length zs < fuel"
  shows "follow_cursors fuel contract limit c f l = Some zs"
  using assms(3-5)
proof (induction fuel arbitrary: ys zs c)
  case 0
  then show ?case by simp
next
  case (Suc fuel)
  let ?n = "nat limit"
  note page = history_page_eq [OF assms(2), of contract c f l, unfolded Suc.prems(2) Let_def]
  show ?case
  proof (cases "?n < length zs")
    case False
    then show ?thesis by (simp add: page)
  next
    case True
    let ?p = "take ?n zs" and ?y = "tx_key (last (take ?n zs))"
    have ne: "?p \<noteq> []" using True assms(2) by auto
    have strict: "sorted_wrt (\<lambda>x y. tx_key y < tx_key x) ((ys @ ?p) @ drop ?n zs)"
      using tx_list_strict [OF assms(1), of contract f] Suc.prems(1) by simp
    have l: "tx_list contract f l = (ys @ ?p) @ drop ?n zs" using Suc.prems(1) by simp
    have "filter (before_cursor (Some ?y)) (tx_list contract f l) = drop ?n zs"
      unfolding l before_cursor_key using filter_after [OF strict] ne by simp
    moreover have "length (drop ?n zs) < fuel" using Suc.prems(3) True assms(2) by simp
    ultimately have "follow_cursors fuel contract limit (Some ?y) f l = Some (drop ?n zs)"
      using Suc.IH [OF l] by blast
    then show ?thesis using True by (simp add: page)
  qed
qed

text \<open>Cursor paging loses and repeats nothing: with any positive page size, a client that follows
  the cursors to the end receives exactly the filtered history, newest first, as offset paging
  lists it, although each request only knows the last row of the page before.\<close>

theorem cursor_paging_complete:
  assumes "t_ok (transactions l)" and "1 \<le> limit" and "length (tx_list contract f l) < fuel"
  shows "follow_cursors fuel contract limit None f l = Some (tx_list contract f l)"
proof -
  have "filter (before_cursor None) (tx_list contract f l) = tx_list contract f l"
    by (simp add: before_cursor_def)
  then show ?thesis using follow_cursors_rest [OF assms(1,2), of contract f "[]"] assms(3) by simp
qed

definition demo_ledger :: ledger where
  "demo_ledger = snd (insert_tx (new_tx ''C1'' ''distribute'' ''G1'' None None 5)
     (snd (insert_tx (new_tx ''C1'' ''initialize'' ''G1'' None None 5)
       (snd (insert_tx (new_tx ''C1'' ''distribute'' ''G2'' None None 90000000) empty_ledger)))))"

theorem cursor_paging_complete_witness:
  "follow_cursors 4 ''C1'' 1 None \<lparr>f_type = None, f_recipient = None, f_start = None, f_end = None\<rparr>
     demo_ledger
   = Some (tx_list ''C1'' \<lparr>f_type = None, f_recipient = None, f_start = None, f_end = None\<rparr> demo_ledger)"
proof (rule cursor_paging_complete)
  show "t_ok (transactions demo_ledger)"
    by (simp add: demo_ledger_def insert_tx_def t_insert_def empty_ledger_def t_empty_def t_ok_def Let_def)
  have "length (tx_list c f l) \<le> length (trows (transactions l))" for c f l
    by (simp add: tx_list_def t_select_def)
  moreover have "length (trows (transactions demo_ledger)) = 3"
    by (simp add: demo_ledger_def insert_tx_def t_insert_def empty_ledger_def t_empty_def Let_def)
  ultimately have "length (tx_list ''C1'' \<lparr>f_type = None, f_recipient = None, f_start = None,
      f_end = None\<rparr> demo_ledger) \<le> 3" by metis
  then show "length (tx_list ''C1'' \<lparr>f_type = None, f_recipient = None, f_start = None,
      f_end = None\<rparr> demo_ledger) < 4" by simp
qed simp

end
