(* ===== verification/AuditLog.thy ===== *)
theory AuditLog
  imports Transactions
begin

text \<open>
  \<open>src/backend/src/database/audit.js\<close> with the closed list of actions \<open>AUDIT_ACTIONS\<close> of
  \<open>validation.js\<close>: writing audit entries (unsupported actions are refused, sensitive detail keys are
  dropped) and reading them with filters and paging.  The \<open>details\<close> column holds the JSON value the
  code stringifies and parses back; searches look at its text.
\<close>

definition audit_actions :: "string list" where
  "audit_actions =
     [''contract_initialized'', ''distribution_initiated'', ''secondary_sale_recorded'',
      ''royalty_rate_set'', ''secondary_distribution_initiated'']"

text \<open>\<open>/secret|private[_-]?key|password|token|auth/i\<close>\<close>

definition sensitive_detail_key :: "string \<Rightarrow> bool" where
  "sensitive_detail_key k =
     (let s = to_lower k
      in list_ex (str_includes s)
           [''secret'', ''privatekey'', ''private_key'', ''private-key'', ''password'', ''token'', ''auth''])"

definition strip_sensitive_details :: "json \<Rightarrow> json" where
  "strip_sensitive_details details =
     (case details of
        JObj fs \<Rightarrow> JObj (filter (\<lambda>p. \<not> sensitive_detail_key (fst p)) fs)
      | JArr xs \<Rightarrow> JObj (zip (map nat_str [0..<length xs]) xs)
      | _ \<Rightarrow> details)"

definition insert_audit :: "audit_row \<Rightarrow> ledger \<Rightarrow> unit \<times> ledger" where
  "insert_audit r l = ((), l\<lparr>audit_log := snd (t_insert r (audit_log l))\<rparr>)"

definition add_audit_log :: "string \<Rightarrow> string \<Rightarrow> string option \<Rightarrow> json \<Rightarrow> int \<Rightarrow> unit ledger_op" where
  "add_audit_log contract action user details now =
     (if action \<notin> set audit_actions
      then op_raise (PlainError (''Refusing to record unsupported audit action: '' @ action))
      else counted_write (insert_audit
             \<lparr>au_contract = contract, au_action = action, au_user = user,
              au_details = strip_sensitive_details details, au_timestamp = sql_timestamp now\<rparr>))"

record audit_filters =
  af_action :: "string option"
  af_user :: "string option"
  af_start :: "string option"
  af_end :: "string option"
  af_search :: "string option"

definition audit_matches :: "string \<Rightarrow> audit_filters \<Rightarrow> nat \<times> audit_row \<Rightarrow> bool" where
  "audit_matches contract f x \<longleftrightarrow>
     (let r = snd x in
      au_contract r = contract
      \<and> given (af_action f) (\<lambda>v. au_action r = v)
      \<and> given (af_user f) (\<lambda>v. au_user r = Some v)
      \<and> given (af_start f) (\<lambda>v. v \<le> au_timestamp r)
      \<and> given (af_end f) (\<lambda>v. au_timestamp r \<le> v)
      \<and> given (af_search f) (\<lambda>v. sql_like (''%'' @ v @ ''%'') (au_action r)
            \<or> (case au_user r of None \<Rightarrow> False | Some u \<Rightarrow> sql_like (''%'' @ v @ ''%'') u)
            \<or> sql_like (''%'' @ v @ ''%'') (json_stringify (au_details r))))"

definition get_audit_log ::
  "string \<Rightarrow> int \<Rightarrow> int \<Rightarrow> audit_filters \<Rightarrow> (nat \<times> audit_row) list ledger_op" where
  "get_audit_log contract limit offset f =
     op_read (\<lambda>l. limit_offset limit offset
       (order_desc (\<lambda>x. au_timestamp (snd x)) (t_select (audit_matches contract f) (audit_log l))))"

definition count_audit_log :: "string \<Rightarrow> audit_filters \<Rightarrow> nat ledger_op" where
  "count_audit_log contract f = op_read (\<lambda>l. t_count (audit_matches contract f) (audit_log l))"

section \<open>Properties\<close>

lemma refused_audit:
  "action \<notin> set audit_actions \<Longrightarrow> add_audit_log contract action user details now d =
     (Inl (PlainError (''Refusing to record unsupported audit action: '' @ action)), d)"
  by (simp add: add_audit_log_def op_raise_def)

lemma accepted_audit:
  "action \<in> set audit_actions \<Longrightarrow>
   add_audit_log contract action user details now d =
     counted_write (insert_audit
       \<lparr>au_contract = contract, au_action = action, au_user = user,
        au_details = strip_sensitive_details details, au_timestamp = sql_timestamp now\<rparr>) d"
  by (simp add: add_audit_log_def)

definition clean_details :: "json \<Rightarrow> bool" where
  "clean_details j = (case j of JObj fs \<Rightarrow> \<forall>p \<in> set fs. \<not> sensitive_detail_key (fst p) | JArr _ \<Rightarrow> False | _ \<Rightarrow> True)"

definition audit_clean :: "ledger \<Rightarrow> bool" where
  "audit_clean l \<longleftrightarrow> (\<forall>x \<in> set (trows (audit_log l)).
     au_action (snd x) \<in> set audit_actions \<and> clean_details (au_details (snd x)))"

lemma sensitive_nat_str [simp]: "\<not> sensitive_detail_key (nat_str n)"
proof -
  have d: "\<forall>c \<in> set (nat_str n). is_digit c" by (rule all_digits_nat_str)
  have low: "lower_char c = c" if "is_digit c" for c
    using that by (auto simp: lower_char_def is_digit_def Let_def)
  have "to_lower (nat_str n) = nat_str n" unfolding to_lower_def by (rule map_idI) (use d low in auto)
  moreover have "\<not> str_includes (nat_str n) (c # w)" if "\<not> is_digit c" for c w
  proof
    assume "str_includes (nat_str n) (c # w)"
    then have "sublist (c # w) (nat_str n)" by (simp add: str_includes_sublist)
    then have "c \<in> set (nat_str n)" using set_mono_sublist by fastforce
    then show False using d that by blast
  qed
  moreover have "\<not> is_digit (CHR ''s'')" "\<not> is_digit (CHR ''p'')" "\<not> is_digit (CHR ''t'')"
    "\<not> is_digit (CHR ''a'')" by (simp_all add: is_digit_def)
  ultimately show ?thesis by (simp add: sensitive_detail_key_def Let_def)
qed

lemma strip_clean: "clean_details (strip_sensitive_details j)"
  by (cases j) (auto simp: strip_sensitive_details_def clean_details_def dest!: set_zip_leftD)

text \<open>The audit log is closed: whatever a caller passes, every stored entry carries one of the
  five supported actions and no sensitive detail key; an unsupported action throws and stores
  nothing.\<close>

theorem audit_log_closed:
  assumes "audit_clean (tables d)"
  shows "audit_clean (tables (snd (add_audit_log contract action user details now d)))
    \<and> (action \<notin> set audit_actions \<longrightarrow>
         snd (add_audit_log contract action user details now d) = d
         \<and> \<not> is_ok (fst (add_audit_log contract action user details now d)))"
proof (cases "action \<in> set audit_actions")
  case True
  then show ?thesis using assms strip_clean [of details]
    by (simp add: accepted_audit counted_write_tables insert_audit_def t_insert_def audit_clean_def)
next
  case False
  then show ?thesis using assms by (simp add: refused_audit)
qed

theorem audit_log_closed_witness:
  "audit_clean (tables (snd (add_audit_log ''C1'' ''distribution_initiated'' (Some ''G1'')
     (JObj [(''tokenId'', JStr ''T''), (''transactionId'', JNum 1)]) 0 (counted_connection empty_ledger))))"
  using audit_log_closed [of "counted_connection empty_ledger"]
  by (simp add: audit_clean_def empty_ledger_def t_empty_def)

text \<open>The pattern for secrets also matches \<open>tokenId\<close>: the token a distribution was initiated for,
  which the distribute route passes as audit metadata, is never stored.\<close>

theorem audit_drops_token_id:
  assumes "counting d" and "t_ok (audit_log (tables d))"
  shows "\<exists>i. t_get (by_id i) (audit_log (tables (snd (add_audit_log contract ''distribution_initiated'' user
      (JObj [(''transactionId'', JNum n), (''tokenId'', JStr tok)]) now d))))
    = Some (i, \<lparr>au_contract = contract, au_action = ''distribution_initiated'', au_user = user,
        au_details = JObj [(''transactionId'', JNum n)], au_timestamp = sql_timestamp now\<rparr>)"
proof -
  have s: "sensitive_detail_key ''tokenId''" "\<not> sensitive_detail_key ''transactionId''" by code_simp+
  have a: "''distribution_initiated'' \<in> set audit_actions" by (simp add: audit_actions_def)
  show ?thesis
    using t_get_inserted [OF assms(2)]
    by (simp add: accepted_audit [OF a] counted_write_tables insert_audit_def
        strip_sensitive_details_def s) blast
qed

theorem audit_drops_token_id_witness:
  "\<exists>i. t_get (by_id i) (audit_log (tables (snd (add_audit_log ''C1'' ''distribution_initiated'' None
      (JObj [(''transactionId'', JNum 7), (''tokenId'', JStr ''T'')]) 0 (counted_connection empty_ledger)))))
    = Some (i, \<lparr>au_contract = ''C1'', au_action = ''distribution_initiated'', au_user = None,
        au_details = JObj [(''transactionId'', JNum 7)], au_timestamp = sql_timestamp 0\<rparr>)"
  by (rule audit_drops_token_id) (simp_all add: empty_ledger_def)

end
