(* ===== verification/Holds.thy ===== *)
theory Holds
  imports AuditLog
begin

text \<open>
  Payment holds: \<open>src/backend/src/database/payment-holds.js\<close> and the three write routes of
  \<open>src/backend/src/routes/payment-holds.js\<close>.  A hold is a group of columns of a transaction; every
  change also writes a row of \<open>hold_audit\<close>.  The routes take the already parsed body fields and
  return either the row they answer with or the error response.
\<close>

definition hold_entry ::
  "nat \<Rightarrow> string \<Rightarrow> string option \<Rightarrow> string option \<Rightarrow> json \<Rightarrow> int \<Rightarrow> ledger \<Rightarrow> unit \<times> ledger" where
  "hold_entry i action reason who details now l =
     ((), l\<lparr>hold_audit := snd (t_insert \<lparr>ha_transaction = i, ha_action = action, ha_reason = reason,
        ha_performed_by = who, ha_details = details, ha_created_at = sql_timestamp now\<rparr> (hold_audit l))\<rparr>)"

definition get_transaction_with_hold :: "nat \<Rightarrow> (nat \<times> tx_row) option ledger_op" where
  "get_transaction_with_hold i = op_read (\<lambda>l. t_get (by_id i) (transactions l))"

text \<open>The common shape: test, update, count, audit entry, count, read back.\<close>

definition hold_change ::
  "nat \<Rightarrow> (nat \<times> tx_row \<Rightarrow> bool) \<Rightarrow> (tx_row \<Rightarrow> tx_row) \<Rightarrow> (ledger \<Rightarrow> unit \<times> ledger)
    \<Rightarrow> (nat \<times> tx_row) option ledger_op" where
  "hold_change i P f entry d =
     (if t_get (\<lambda>x. by_id i x \<and> P x) (transactions (tables d)) = None then (Inr None, d)
      else op_bind (counted_write (set_tx (by_id i) f)) (\<lambda>_.
           op_bind (counted_write entry) (\<lambda>_. get_transaction_with_hold i)) d)"

definition json_or_null :: "string option \<Rightarrow> json" where
  "json_or_null s = (case s of None \<Rightarrow> JNull | Some x \<Rightarrow> JStr x)"

definition place_hold ::
  "nat \<Rightarrow> string \<Rightarrow> string option \<Rightarrow> string \<Rightarrow> int \<Rightarrow> (nat \<times> tx_row) option ledger_op" where
  "place_hold i reason til placed_by now =
     hold_change i (\<lambda>_. True)
       (\<lambda>r. r\<lparr>hold_reason := Some reason, hold_until := til,
              hold_placed_at := Some (sql_timestamp now), hold_placed_by := Some placed_by,
              hold_status := Some ''active''\<rparr>)
       (hold_entry i ''placed'' (Some reason) (Some placed_by) (JObj [(''holdUntil'', json_or_null til)]) now)"

definition is_active :: "nat \<times> tx_row \<Rightarrow> bool" where
  "is_active x = (hold_status (snd x) = Some ''active'')"

definition release_hold ::
  "nat \<Rightarrow> string \<Rightarrow> string option \<Rightarrow> int \<Rightarrow> (nat \<times> tx_row) option ledger_op" where
  "release_hold i released_by note now =
     hold_change i is_active
       (\<lambda>r. r\<lparr>hold_status := Some ''released'', hold_released_at := Some (sql_timestamp now),
              hold_released_by := Some released_by\<rparr>)
       (hold_entry i ''released'' (Some (case note of None \<Rightarrow> ''Released'' | Some n \<Rightarrow> n)) (Some released_by)
          (JObj [(''releasedAt'', JStr (to_iso now))]) now)"

definition approve_hold_release ::
  "nat \<Rightarrow> string \<Rightarrow> string option \<Rightarrow> int \<Rightarrow> (nat \<times> tx_row) option ledger_op" where
  "approve_hold_release i approved_by note now =
     hold_change i is_active
       (\<lambda>r. r\<lparr>hold_approved_by := Some approved_by, hold_approved_at := Some (sql_timestamp now),
              hold_approval_note := note\<rparr>)
       (hold_entry i ''approved'' (Some ''Approved for release'') (Some approved_by)
          (JObj [(''note'', json_or_null note)]) now)"

definition placed_key :: "nat \<times> tx_row \<Rightarrow> string" where
  "placed_key x = (case hold_placed_at (snd x) of None \<Rightarrow> [] | Some t \<Rightarrow> t)"

definition get_held_transactions :: "string \<Rightarrow> string \<Rightarrow> (nat \<times> tx_row) list ledger_op" where
  "get_held_transactions contract status = op_read (\<lambda>l. order_desc placed_key
     (t_select (\<lambda>x. tx_contract (snd x) = contract \<and> hold_status (snd x) = Some status) (transactions l)))"

definition get_all_held_transactions :: "string \<Rightarrow> (nat \<times> tx_row) list ledger_op" where
  "get_all_held_transactions status = op_read (\<lambda>l. order_desc placed_key
     (t_select (\<lambda>x. hold_status (snd x) = Some status) (transactions l)))"

definition get_hold_audit_trail :: "nat \<Rightarrow> (nat \<times> hold_audit_row) list ledger_op" where
  "get_hold_audit_trail i = op_read (\<lambda>l. order_asc (\<lambda>x. ha_created_at (snd x))
     (t_select (\<lambda>x. ha_transaction (snd x) = i) (hold_audit l)))"

definition get_transactions_pending_hold_release :: "(nat \<times> tx_row) list ledger_op" where
  "get_transactions_pending_hold_release = op_read (\<lambda>l.
     order_asc (\<lambda>x. case hold_approved_at (snd x) of None \<Rightarrow> [] | Some t \<Rightarrow> t)
       (t_select (\<lambda>x. is_active x \<and> hold_approved_by (snd x) \<noteq> None) (transactions l)))"

section \<open>The routes\<close>

datatype hold_reply = HoldData "nat \<times> tx_row" | HoldError response

definition hold_route ::
  "string \<Rightarrow> string \<Rightarrow> string \<Rightarrow> string \<Rightarrow> json \<Rightarrow> int \<Rightarrow> (nat \<times> tx_row) option ledger_op
    \<Rightarrow> ledger db \<Rightarrow> hold_reply \<times> ledger db" where
  "hold_route not_found ecode action user details now change d =
     (case op_bind change (\<lambda>res. case res of
             None \<Rightarrow> op_return None
           | Some x \<Rightarrow> op_bind (add_audit_log (tx_contract (snd x)) action (Some user)
                         (JStr (json_stringify details)) now) (\<lambda>_. op_return (Some x))) d of
        (Inl e, d') \<Rightarrow> (HoldError (send_error 500 (Some ecode) (error_message e) []), d')
      | (Inr None, d') \<Rightarrow> (HoldError (send_error 404 (Some ''not_found'') not_found []), d')
      | (Inr (Some x), d') \<Rightarrow> (HoldData x, d'))"

definition or_admin :: "string option \<Rightarrow> string" where
  "or_admin s = (case s of None \<Rightarrow> ''admin'' | Some x \<Rightarrow> x)"

definition post_place ::
  "nat \<Rightarrow> string \<Rightarrow> string option \<Rightarrow> string option \<Rightarrow> int \<Rightarrow> ledger db \<Rightarrow> hold_reply \<times> ledger db" where
  "post_place i reason til placed_by now d =
     (if i = 0 \<or> reason = [] then
        (HoldError (send_error 400 (Some ''validation_error'')
           ''transactionId and holdReason are required'' []), d)
      else hold_route ''Transaction not found'' ''hold_place_error'' ''payment_hold_placed'' (or_admin placed_by)
             (JObj [(''transactionId'', JNum (int i)), (''holdReason'', JStr reason),
                    (''holdUntil'', json_or_null til)]) now
             (place_hold i reason til (or_admin placed_by) now) d)"

definition post_release ::
  "nat \<Rightarrow> string option \<Rightarrow> string option \<Rightarrow> int \<Rightarrow> ledger db \<Rightarrow> hold_reply \<times> ledger db" where
  "post_release i released_by note now d =
     (if i = 0 then
        (HoldError (send_error 400 (Some ''validation_error'') ''transactionId is required'' []), d)
      else hold_route ''Transaction not found or not on hold'' ''hold_release_error'' ''payment_hold_released''
             (or_admin released_by)
             (JObj [(''transactionId'', JNum (int i)), (''approvalNote'', json_or_null note)]) now
             (release_hold i (or_admin released_by) note now) d)"

definition post_approve_release ::
  "nat \<Rightarrow> string option \<Rightarrow> string option \<Rightarrow> int \<Rightarrow> ledger db \<Rightarrow> hold_reply \<times> ledger db" where
  "post_approve_release i approved_by note now d =
     (if i = 0 then
        (HoldError (send_error 400 (Some ''validation_error'') ''transactionId is required'' []), d)
      else hold_route ''Transaction not found or not on hold'' ''approve_error'' ''hold_release_approved''
             (or_admin approved_by)
             (JObj [(''transactionId'', JNum (int i)), (''approvalNote'', json_or_null note)]) now
             (approve_hold_release i (or_admin approved_by) note now) d)"

section \<open>The audit trail determines the hold\<close>

text \<open>The status of a hold as its audit entries tell it.\<close>

definition status_of_actions :: "string list \<Rightarrow> string option" where
  "status_of_actions as =
     foldl (\<lambda>s a. if a = ''placed'' then Some ''active'' else if a = ''released'' then Some ''released'' else s)
       None as"

definition hold_actions :: "ledger \<Rightarrow> nat \<Rightarrow> string list" where
  "hold_actions l i = map (\<lambda>x. ha_action (snd x)) (t_select (\<lambda>x. ha_transaction (snd x) = i) (hold_audit l))"

definition holds_audited :: "ledger \<Rightarrow> bool" where
  "holds_audited l \<longleftrightarrow> (\<forall>(i, r) \<in> set (trows (transactions l)). hold_status r = status_of_actions (hold_actions l i))"

lemma status_snoc [simp]: "status_of_actions (as @ [a]) =
    (if a = ''placed'' then Some ''active'' else if a = ''released'' then Some ''released''
     else status_of_actions as)"
  by (simp add: status_of_actions_def)

lemma hold_actions_entry:
  "hold_actions (snd (hold_entry i a re who de now l)) j =
     hold_actions l j @ (if j = i then [a] else [])"
  by (simp add: hold_actions_def hold_entry_def t_select_def t_insert_def)

lemma hold_actions_set_tx [simp]: "hold_actions (snd (set_tx P f l)) j = hold_actions l j"
  by (simp add: hold_actions_def set_tx_def)

lemma transactions_entry [simp]: "transactions (snd (hold_entry i a re who de now l)) = transactions l"
  by (simp add: hold_entry_def)

lemma hold_change_ok:
  assumes "counting d" and "t_get (\<lambda>x. by_id i x \<and> P x) (transactions (tables d)) \<noteq> None"
  shows "tables (snd (hold_change i P f entry d)) = snd (entry (snd (set_tx (by_id i) f (tables d))))"
    and "counting (snd (hold_change i P f entry d))"
    and "fst (hold_change i P f entry d) =
      Inr (t_get (by_id i) (transactions (snd (entry (snd (set_tx (by_id i) f (tables d)))))))"
  using assms
  by (auto simp: hold_change_def op_bind_def counted_write_ok get_transaction_with_hold_def op_read_def)

lemma hold_change_none:
  "t_get (\<lambda>x. by_id i x \<and> P x) (transactions (tables d)) = None \<Longrightarrow> hold_change i P f entry d = (Inr None, d)"
  by (simp add: hold_change_def)

lemma holds_audited_change:
  assumes "counting d" and "holds_audited (tables d)"
    and st: "\<And>r. hold_status (f r) =
      (if a = ''placed'' then Some ''active'' else if a = ''released'' then Some ''released'' else hold_status r)"
  shows "holds_audited (tables (snd (hold_change i P f (hold_entry i a re who de now) d)))"
proof (cases "t_get (\<lambda>x. by_id i x \<and> P x) (transactions (tables d)) = None")
  case True
  then show ?thesis using assms(2) by (simp add: hold_change_none)
next
  case False
  have "hold_status r' = status_of_actions (hold_actions (tables d) j @ (if j = i then [a] else []))"
    if r': "(j, r') \<in> set (trows (t_update (by_id i) f (transactions (tables d))))" for j r'
  proof -
    obtain r where r: "(j, r) \<in> set (trows (transactions (tables d)))" "r' = (if j = i then f r else r)"
      using r' by (auto simp: t_update_def by_id_def split: if_splits)
    then have "hold_status r = status_of_actions (hold_actions (tables d) j)"
      using assms(2) by (auto simp: holds_audited_def)
    then show ?thesis using r(2) st [of r] by simp
  qed
  then show ?thesis
    by (auto simp: holds_audited_def hold_change_ok(1) [OF assms(1) False] hold_actions_entry set_tx_def
        simp del: hold_actions_set_tx)
      (auto simp: hold_actions_def)
qed


definition held_ledger :: ledger where
  "held_ledger = snd (insert_tx (new_tx ''C1'' ''distribute'' ''G1'' None None 5) empty_ledger)"

lemma held_ledger_rows:
  "trows (transactions held_ledger) = [(1, new_tx ''C1'' ''distribute'' ''G1'' None None 5)]"
  "hold_audit held_ledger = t_empty"
  by (simp_all add: held_ledger_def insert_tx_def t_insert_def empty_ledger_def t_empty_def Let_def)

lemma held_ledger_audited: "holds_audited held_ledger"
  by (simp add: holds_audited_def held_ledger_rows hold_actions_def t_select_def t_empty_def
      status_of_actions_def new_tx_def)


text \<open>A hold is released only from the active state and only once: releasing a transaction that
  is not on hold answers null and changes nothing, and a second release does nothing.\<close>

theorem release_only_active:
  assumes "counting d" and "t_get (by_id i) (transactions (tables d)) = Some (i, r)"
  shows "(hold_status r \<noteq> Some ''active'' \<and> t_ok (transactions (tables d)) \<longrightarrow>
        release_hold i by note now d = (Inr None, d))
    \<and> (hold_status r = Some ''active'' \<and> t_ok (transactions (tables d)) \<longrightarrow>
        (let d1 = snd (release_hold i by note now d) in
           (\<exists>r1. t_get (by_id i) (transactions (tables d1)) = Some (i, r1)
              \<and> hold_status r1 = Some ''released'' \<and> hold_released_by r1 = Some by)
           \<and> release_hold i by2 note2 now2 d1 = (Inr None, d1)))"
proof (intro conjI impI)
  have sel: "t_get (\<lambda>x. by_id i x \<and> is_active x) t = None"
    if "t_get (by_id i) t = Some (i, q)" "\<not> is_active (i, q)" "t_ok t" for t q
  proof -
    have "q' = q" if "(i, q') \<in> set (trows t)" for q'
      using t_get_mem [OF \<open>t_ok t\<close> that] \<open>t_get (by_id i) t = Some (i, q)\<close> by simp
    then show ?thesis using that(2) by (fastforce simp: t_get_None by_id_def)
  qed
  show "release_hold i by note now d = (Inr None, d)"
    if "hold_status r \<noteq> Some ''active'' \<and> t_ok (transactions (tables d))"
    unfolding release_hold_def
    by (rule hold_change_none) (use sel [OF assms(2)] that in \<open>simp add: is_active_def\<close>)
  assume act: "hold_status r = Some ''active'' \<and> t_ok (transactions (tables d))"
  let ?f = "\<lambda>r. r\<lparr>hold_status := Some ''released'', hold_released_at := Some (sql_timestamp now),
              hold_released_by := Some by\<rparr>"
  let ?d1 = "snd (release_hold i by note now d)"
  have mem: "(i, r) \<in> set (trows (transactions (tables d)))" using t_get_Some [OF assms(2)] by simp
  then have found: "t_get (\<lambda>x. by_id i x \<and> is_active x) (transactions (tables d)) \<noteq> None"
    using act by (auto simp: t_get_None by_id_def is_active_def intro!: bexI [of _ "(i, r)"])
  have t1: "transactions (tables ?d1) = t_update (by_id i) ?f (transactions (tables d))"
    unfolding release_hold_def hold_change_ok(1) [OF assms(1) found] by (simp add: set_tx_def)
  have g: "t_get (by_id i) (transactions (tables ?d1)) = Some (i, ?f r)"
    unfolding t1 by (rule t_get_updated [OF assms(2)])
  have "t_ok (transactions (tables ?d1))" unfolding t1 using act by (intro tb.ok_upd) simp
  then have "release_hold i by2 note2 now2 ?d1 = (Inr None, ?d1)"
    unfolding release_hold_def [of i by2]
    by (intro hold_change_none sel [OF g]) (simp_all add: is_active_def)
  then show "let d1 = ?d1 in (\<exists>r1. t_get (by_id i) (transactions (tables d1)) = Some (i, r1)
              \<and> hold_status r1 = Some ''released'' \<and> hold_released_by r1 = Some by)
           \<and> release_hold i by2 note2 now2 d1 = (Inr None, d1)"
    using g by (simp add: Let_def)
qed

theorem release_only_active_witness:
  "release_hold 1 ''admin'' None 9 (counted_connection held_ledger) = (Inr None, counted_connection held_ledger)"
proof -
  have g: "t_get (by_id 1) (transactions (tables (counted_connection held_ledger))) =
      Some (1, new_tx ''C1'' ''distribute'' ''G1'' None None 5)"
    by (simp add: t_get_def held_ledger_rows by_id_def)
  have "t_ok (transactions held_ledger)"
    by (simp add: held_ledger_def insert_tx_def t_insert_def empty_ledger_def t_empty_def Let_def t_ok_def)
  with release_only_active [OF _ g] show ?thesis by (simp add: new_tx_def)
qed

text \<open>The place-hold route can never report success.  The action it logs is not one of the
  supported ones, so after the hold has been placed and audited the route throws and answers 500.\<close>

theorem place_hold_route_reports_failure:
  assumes "counting d" and "i \<noteq> 0" and "reason \<noteq> []"
    and "t_get (by_id i) (transactions (tables d)) = Some (i, r)"
  shows "\<exists>resp. fst (post_place i reason u by now d) = HoldError resp \<and> rstatus resp = 500
    \<and> (\<exists>r1. t_get (by_id i) (transactions (tables (snd (post_place i reason u by now d)))) = Some (i, r1)
        \<and> hold_status r1 = Some ''active'')"
proof -
  let ?by = "or_admin by"
  let ?f = "\<lambda>r. r\<lparr>hold_reason := Some reason, hold_until := u,
              hold_placed_at := Some (sql_timestamp now), hold_placed_by := Some ?by,
              hold_status := Some ''active''\<rparr>"
  have found: "t_get (\<lambda>x. by_id i x \<and> True) (transactions (tables d)) \<noteq> None"
    using assms(4) by simp
  note ok = hold_change_ok [OF assms(1) found]
  have t1: "transactions (tables (snd (place_hold i reason u ?by now d))) =
      t_update (by_id i) ?f (transactions (tables d))"
    unfolding place_hold_def ok(1) by (simp add: set_tx_def)
  have g: "t_get (by_id i) (t_update (by_id i) ?f (transactions (tables d))) = Some (i, ?f r)"
    by (rule t_get_updated [OF assms(4)])
  have "fst (place_hold i reason u ?by now d) = Inr (Some (i, ?f r))"
    unfolding place_hold_def ok(3) using g by (simp add: set_tx_def)
  then obtain d1 where p: "place_hold i reason u ?by now d = (Inr (Some (i, ?f r)), d1)"
    by (metis prod.collapse)
  have na: "''payment_hold_placed'' \<notin> set audit_actions" by (simp add: audit_actions_def)
  show ?thesis
    using assms(2,3) t1 g p
    by (simp add: post_place_def hold_route_def op_bind_def refused_audit [OF na] send_error_def)
qed

theorem place_hold_route_reports_failure_witness:
  "\<exists>resp. fst (post_place 1 ''fraud check'' None None 9 (counted_connection held_ledger)) = HoldError resp
     \<and> rstatus resp = 500"
proof -
  have "t_get (by_id 1) (transactions (tables (counted_connection held_ledger))) =
      Some (1, new_tx ''C1'' ''distribute'' ''G1'' None None 5)"
    by (simp add: t_get_def held_ledger_rows by_id_def)
  from place_hold_route_reports_failure [OF _ _ _ this, of "''fraud check''" None None 9] show ?thesis
    by auto
qed

text \<open>Approvals outlive their hold: placing a new hold keeps the approval of an earlier one, so
  the new hold is at once listed as approved and pending release.\<close>

theorem stale_hold_approval:
  assumes "counting d" and "t_get (by_id i) (transactions (tables d)) = Some (i, r)"
    and "hold_approved_by r = Some admin"
  shows "\<exists>r1. (i, r1) \<in> set (case fst (get_transactions_pending_hold_release
        (snd (place_hold i reason u by now d))) of Inr xs \<Rightarrow> xs | Inl _ \<Rightarrow> [])
      \<and> hold_placed_by r1 = Some by \<and> hold_approved_by r1 = Some admin"
proof -
  let ?f = "\<lambda>r. r\<lparr>hold_reason := Some reason, hold_until := u,
              hold_placed_at := Some (sql_timestamp now), hold_placed_by := Some by,
              hold_status := Some ''active''\<rparr>"
  have found: "t_get (\<lambda>x. by_id i x \<and> True) (transactions (tables d)) \<noteq> None"
    using assms(2) by simp
  have t1: "transactions (tables (snd (place_hold i reason u by now d))) =
      t_update (by_id i) ?f (transactions (tables d))"
    unfolding place_hold_def hold_change_ok(1) [OF assms(1) found] by (simp add: set_tx_def)
  have "(i, ?f r) \<in> set (trows (t_update (by_id i) ?f (transactions (tables d))))"
    using t_get_updated [OF assms(2), of ?f] t_get_Some by fastforce
  then show ?thesis using assms(3)
    by (intro exI [of _ "?f r"])
      (simp add: get_transactions_pending_hold_release_def op_read_def t1 t_select_def is_active_def)
qed

theorem stale_hold_approval_witness:
  "\<exists>r1. (1, r1) \<in> set (case fst (get_transactions_pending_hold_release
        (snd (place_hold 1 ''second'' None ''alice'' 20 (counted_connection
           (snd (set_tx (by_id 1) (\<lambda>r. r\<lparr>hold_approved_by := Some ''bob''\<rparr>) held_ledger)))))) of
        Inr xs \<Rightarrow> xs | Inl _ \<Rightarrow> [])
      \<and> hold_placed_by r1 = Some ''alice'' \<and> hold_approved_by r1 = Some ''bob''"
  by (rule stale_hold_approval [where r = "(new_tx ''C1'' ''distribute'' ''G1'' None None 5)
        \<lparr>hold_approved_by := Some ''bob''\<rparr>"])
    (simp_all add: set_tx_def t_update_def t_get_def held_ledger_rows by_id_def)

end
