(* ===== verification/Stellar.thy ===== *)
theory Stellar
  imports RpcRetry "HOL-Library.Word"
begin

text \<open>
  \<open>src/backend/src/stellar.js\<close>: parsing of Soroban and Horizon errors, the cached fee recommendation,
  building one transaction, the retry wrapper around a build, the batch builder, the read-only
  contract queries and the ScVal encoders.

  The Stellar SDK and the two services behind it are the parameter \<open>sdk\<close>: what the calls answer in a
  state of the network (each already under \<open>withTimeout\<close>), how a transaction is assembled from an
  account, and how amounts are encoded.  A build runs with the fee cache of the module and the state
  of the network as its world; the per-address lock around it is the theory \<open>BuildLock\<close>.
\<close>

section \<open>Errors\<close>

record parsed_error =
  pe_status :: nat
  pe_code :: "string option"
  pe_message :: string
  pe_detail :: "json option"

definition em_dash :: string where
  "em_dash = [CHR 0xE2, CHR 0x80, CHR 0x94]"

text \<open>An absent property prints as \<open>undefined\<close> in a template string.\<close>

definition js_text :: "string option \<Rightarrow> string" where
  "js_text s = (case s of None \<Rightarrow> ''undefined'' | Some x \<Rightarrow> x)"

fun join_comma :: "string list \<Rightarrow> string" where
  "join_comma [] = []"
| "join_comma [x] = x"
| "join_comma (x # xs) = x @ '', '' @ join_comma xs"

definition codes_json :: "result_codes \<Rightarrow> json" where
  "codes_json c = JObj
     ((case rc_transaction c of None \<Rightarrow> [] | Some t \<Rightarrow> [(''transaction'', JStr t)]) @
      (case rc_operations c of None \<Rightarrow> [] | Some ops \<Rightarrow> [(''operations'', JArr (map JStr ops))]))"

definition error_result_codes :: "rpc_error \<Rightarrow> result_codes option" where
  "error_result_codes e = or_else (e_response_codes e) (or_else (e_data_codes e) (e_extras_codes e))"

definition codes_detail :: "result_codes \<Rightarrow> string" where
  "codes_detail c =
     (let tx = (case rc_transaction c of None \<Rightarrow> ''unknown'' | Some t \<Rightarrow> t);
          ops = (case rc_operations c of None \<Rightarrow> [] | Some os \<Rightarrow> os)
      in if ops \<noteq> [] then ''transaction: '' @ tx @ '', operations: '' @ join_comma ops
         else ''transaction: '' @ tx)"

definition parse_soroban_error :: "rpc_error \<Rightarrow> parsed_error option" where
  "parse_soroban_error e =
     (if truthy (e_result_error e) then
        Some \<lparr>pe_status = 400, pe_code = Some ''SOROBAN_SIMULATION_ERROR'',
              pe_message = ''Contract simulation failed: '' @ the (e_result_error e),
              pe_detail = map_option JStr (e_result_error e)\<rparr>
      else if e_type e = Some ''SimulateTransactionError'' \<or> (e_has_events e \<and> truthy (e_error e)) then
        Some \<lparr>pe_status = 400, pe_code = Some ''SOROBAN_SIMULATION_ERROR'',
              pe_message = ''Contract simulation failed: '' @ js_text (e_error e),
              pe_detail = map_option JStr (e_error e)\<rparr>
      else case error_result_codes e of
        Some c \<Rightarrow>
          Some \<lparr>pe_status = 400, pe_code = Some ''SOROBAN_INVOCATION_ERROR'',
                pe_message = ''Contract invocation failed '' @ em_dash @ '' '' @ codes_detail c,
                pe_detail = Some (codes_json c)\<rparr>
      | None \<Rightarrow>
          (case or_else (e_response_status e) (e_status e) of
             Some st \<Rightarrow>
               if 400 \<le> st then
                 Some \<lparr>pe_status = (if 500 \<le> st then 502 else 400), pe_code = Some ''STELLAR_RPC_ERROR'',
                       pe_message = (case e_message e of Some m \<Rightarrow> m
                         | None \<Rightarrow> ''Stellar RPC returned HTTP '' @ nat_str st),
                       pe_detail = Some (case e_response_data e of None \<Rightarrow> JNull | Some d \<Rightarrow> d)\<rparr>
               else None
           | None \<Rightarrow> None))"

definition msg_includes :: "rpc_error \<Rightarrow> string \<Rightarrow> bool" where
  "msg_includes e w = (case e_message e of None \<Rightarrow> False | Some m \<Rightarrow> str_includes m w)"

definition msg_lower_includes :: "rpc_error \<Rightarrow> string \<Rightarrow> bool" where
  "msg_lower_includes e w = (case e_message e of None \<Rightarrow> False | Some m \<Rightarrow> str_includes (to_lower m) w)"

definition is_rate_limit_error :: "rpc_error \<Rightarrow> bool" where
  "is_rate_limit_error e \<longleftrightarrow> e_response_status e = Some 429 \<or> e_status e = Some 429
     \<or> msg_includes e ''429'' \<or> msg_lower_includes e ''too many requests''
     \<or> msg_lower_includes e ''rate limit''"

definition is_timeout_error :: "rpc_error \<Rightarrow> bool" where
  "is_timeout_error e \<longleftrightarrow> e_status e = Some 504"

text \<open>An error thrown as \<open>{ status, message }\<close>.\<close>

definition status_error :: "nat \<Rightarrow> string \<Rightarrow> rpc_error" where
  "status_error st m = (new_error m)\<lparr>e_status := Some st\<rparr>"

definition timeout_error :: "string \<Rightarrow> nat \<Rightarrow> rpc_error" where
  "timeout_error label ms =
     status_error 504 (label @ '' did not respond within '' @ nat_str ms @ ''ms'')"

section \<open>The SDK and the network\<close>

record account =
  account_id :: string
  sequence_number :: int

record fee_stats =
  fs_status :: nat
  fs_p50 :: "string option"
  fs_last_base_fee :: "string option"

text \<open>
  The constructors \<open>new Account\<close> and \<open>new Contract\<close> may throw; \<open>sdk_transaction\<close> is \<open>contract.call\<close>
  inside the transaction builder with the account, the fee, the method and its arguments,
  \<open>sdk_prepare\<close> is \<open>prepareTransaction\<close> with \<open>toXDR\<close> of its result, \<open>sdk_simulate\<close> is
  \<open>simulateTransaction\<close>.
\<close>

datatype sc_value = ScU32 nat | ScBool bool | ScStr string | ScOther

record simulation =
  sim_is_error :: bool
  sim_retval :: "sc_value option"

record ('s, 'a, 'c, 't) sdk =
  sdk_base_fee :: string
  sdk_fee_stats :: "('s, fee_stats) operation"
  sdk_get_account :: "string \<Rightarrow> ('s, account) operation"
  sdk_account :: "string \<Rightarrow> int \<Rightarrow> rpc_error + account"
  sdk_contract :: "string \<Rightarrow> rpc_error + 'c"
  sdk_transaction :: "account \<Rightarrow> string \<Rightarrow> 'c \<Rightarrow> string \<Rightarrow> 'a list \<Rightarrow> rpc_error + 't"
  sdk_prepare :: "'t \<Rightarrow> ('s, string) operation"
  sdk_simulate :: "'t \<Rightarrow> ('s, simulation) operation"
  sdk_random :: "nat \<Rightarrow> rat"
  sdk_now :: "'s \<Rightarrow> int"

record fee_entry =
  fe_fee :: string
  fe_fetched_at :: int

record 's world =
  fee_cache :: "fee_entry option"
  network :: 's

definition on_network :: "('s, 'x) operation \<Rightarrow> ('s world, 'x) operation" where
  "on_network op w = (let (r, s) = op (network w) in (r, w\<lparr>network := s\<rparr>))"

text \<open>The result of \<open>withRetry\<close> as the rest of an \<open>async\<close> function sees it.\<close>

definition awaited :: "'x retried \<Rightarrow> rpc_error + 'x" where
  "awaited r = (case r of Returned x \<Rightarrow> Inr x | Threw e \<Rightarrow> Inl e | NoAttempt m \<Rightarrow> Inl (new_error m))"

section \<open>The fee recommendation\<close>

definition fee_cache_ms :: int where
  "fee_cache_ms = 30000"

definition fee_candidate :: "string \<Rightarrow> fee_stats \<Rightarrow> string" where
  "fee_candidate bf r =
     (case or_else (fs_p50 r) (fs_last_base_fee r) of Some f \<Rightarrow> f | None \<Rightarrow> bf)"

definition fetch_fee :: "('s, 'a, 'c, 't) sdk \<Rightarrow> ('s, string) operation" where
  "fetch_fee sdk s = (case sdk_fee_stats sdk s of
     (Inl e, s') \<Rightarrow> (Inl e, s')
   | (Inr r, s') \<Rightarrow>
       if 200 \<le> fs_status r \<and> fs_status r < 300 then (Inr (fee_candidate (sdk_base_fee sdk) r), s')
       else (Inl (new_error (''HTTP '' @ nat_str (fs_status r))), s'))"

definition refetch_fee :: "('s, 'a, 'c, 't) sdk \<Rightarrow> 's world \<Rightarrow> string \<times> 's world" where
  "refetch_fee sdk w =
     (let now = sdk_now sdk (network w);
          (r, _, s) = with_retry default_retry_config None (fetch_fee sdk) (sdk_random sdk)
                        ''getFeeStats'' 2 (network w)
      in case awaited r of
           Inr f \<Rightarrow> (f, w\<lparr>network := s, fee_cache := Some \<lparr>fe_fee = f, fe_fetched_at = now\<rparr>\<rparr>)
         | Inl e \<Rightarrow> (sdk_base_fee sdk, w\<lparr>network := s\<rparr>))"

definition get_recommended_fee :: "('s, 'a, 'c, 't) sdk \<Rightarrow> 's world \<Rightarrow> string \<times> 's world" where
  "get_recommended_fee sdk w =
     (case fee_cache w of
        Some c \<Rightarrow>
          if sdk_now sdk (network w) - fe_fetched_at c < fee_cache_ms then (fe_fee c, w)
          else refetch_fee sdk w
      | None \<Rightarrow> refetch_fee sdk w)"

record cache_status =
  cs_cached :: bool
  cs_age :: "int option"
  cs_ttl :: int

definition get_cache_status :: "('s, 'a, 'c, 't) sdk \<Rightarrow> 's world \<Rightarrow> cache_status" where
  "get_cache_status sdk w =
     (case fee_cache w of
        None \<Rightarrow> \<lparr>cs_cached = False, cs_age = None, cs_ttl = fee_cache_ms\<rparr>
      | Some c \<Rightarrow>
          let age = sdk_now sdk (network w) - fe_fetched_at c
          in \<lparr>cs_cached = age < fee_cache_ms, cs_age = Some age, cs_ttl = fee_cache_ms\<rparr>)"

section \<open>Building one transaction\<close>

definition get_fresh_account :: "('s, 'a, 'c, 't) sdk \<Rightarrow> string \<Rightarrow> ('s world, account) operation" where
  "get_fresh_account sdk caller w =
     (let (r, _, s) = with_retry default_retry_config None (sdk_get_account sdk caller)
                        (sdk_random sdk) ''getAccount'' (max_retries default_retry_config) (network w)
      in (awaited r, w\<lparr>network := s\<rparr>))"

definition assemble_and_prepare ::
  "('s, 'a, 'c, 't) sdk \<Rightarrow> account \<Rightarrow> string \<Rightarrow> string \<Rightarrow> string \<Rightarrow> 'a list \<Rightarrow> ('s world, string) operation" where
  "assemble_and_prepare sdk acc f contract meth args w =
     (case sdk_contract sdk contract of
        Inl e \<Rightarrow> (Inl e, w)
      | Inr c \<Rightarrow>
          (case sdk_transaction sdk acc f c meth args of
             Inl e \<Rightarrow> (Inl e, w)
           | Inr tx \<Rightarrow> on_network (sdk_prepare sdk tx) w))"

definition build_tx ::
  "('s, 'a, 'c, 't) sdk \<Rightarrow> string \<Rightarrow> string \<Rightarrow> string \<Rightarrow> 'a list \<Rightarrow> ('s world, string) operation" where
  "build_tx sdk caller contract meth args w =
     (case get_fresh_account sdk caller w of
        (Inl e, w1) \<Rightarrow> (Inl e, w1)
      | (Inr acc, w1) \<Rightarrow>
          let (f, w2) = get_recommended_fee sdk w1
          in assemble_and_prepare sdk acc f contract meth args w2)"

section \<open>Retrying a build\<close>

definition rpc_timeout_ms :: nat where
  "rpc_timeout_ms = 10000"

datatype verdict = GiveUp rpc_error | Again

definition judge_build_error :: "rpc_error \<Rightarrow> bool \<Rightarrow> verdict" where
  "judge_build_error e is_last =
     (let network_error = msg_includes e ''network'' \<or> msg_includes e ''timeout''
            \<or> e_code e = Some ''ENOTFOUND'';
          simulation_error = msg_includes e ''simulation'' \<or> msg_includes e ''prepare''
      in if msg_includes e ''account not found'' then
           GiveUp (status_error 400 ''Caller account not found on Stellar network'')
         else if is_rate_limit_error e then
           (if is_last then
              GiveUp (status_error 429 ''Stellar Horizon rate limit exceeded. Please try again later.'')
            else Again)
         else if is_timeout_error e then
           (if is_last then
              GiveUp (status_error 504
                (''Soroban RPC timed out after '' @ nat_str rpc_timeout_ms @ ''ms''))
            else Again)
         else if network_error \<or> simulation_error then
           (if is_last then
              GiveUp (status_error 503
                ''Stellar RPC is currently unavailable. Please try again later.'')
            else Again)
         else GiveUp e)"

fun retry_build_loop ::
  "('w, string) operation \<Rightarrow> nat \<Rightarrow> nat \<Rightarrow> 'w \<Rightarrow> (rpc_error + string) \<times> nat list \<times> 'w" where
  "retry_build_loop build attempt 0 w = (Inr ''undefined'', [], w)"
| "retry_build_loop build attempt (Suc left) w =
     (case build w of
        (Inr xdr, w1) \<Rightarrow> (Inr xdr, [], w1)
      | (Inl e, w1) \<Rightarrow>
          (case judge_build_error e (left = 0) of
             GiveUp e' \<Rightarrow> (Inl e', [], w1)
           | Again \<Rightarrow>
               let (r, ds, w2) = retry_build_loop build (Suc attempt) left w1
               in (r, 1000 * 2 ^ (attempt - 1) # ds, w2)))"

definition retry_build_tx ::
  "('s, 'a, 'c, 't) sdk \<Rightarrow> string \<Rightarrow> string \<Rightarrow> string \<Rightarrow> 'a list \<Rightarrow> 's world
    \<Rightarrow> (rpc_error + string) \<times> nat list \<times> 's world" where
  "retry_build_tx sdk caller contract meth args w =
     retry_build_loop (build_tx sdk caller contract meth args) 1 3 w"

section \<open>Batches\<close>

record 'a batch_op =
  bo_contract :: string
  bo_method :: string
  bo_args :: "'a list"

datatype batch_result = BatchOk string | BatchErr parsed_error

definition batch_error :: "rpc_error \<Rightarrow> parsed_error" where
  "batch_error e = (case parse_soroban_error e of
     Some p \<Rightarrow> p
   | None \<Rightarrow> \<lparr>pe_status = 500, pe_code = None,
       pe_message = (case e_message e of Some m \<Rightarrow> m | None \<Rightarrow> ''Unknown batch build error''),
       pe_detail = None\<rparr>)"

text \<open>The offset of the sequence number advances once the account object is made.\<close>

definition batch_one ::
  "('s, 'a, 'c, 't) sdk \<Rightarrow> account \<Rightarrow> string \<Rightarrow> nat \<Rightarrow> 'a batch_op \<Rightarrow> 's world
    \<Rightarrow> batch_result \<times> nat \<times> 's world" where
  "batch_one sdk base f offset bop w =
     (case sdk_account sdk (account_id base) (sequence_number base + int offset) of
        Inl e \<Rightarrow> (BatchErr (batch_error e), offset, w)
      | Inr acc \<Rightarrow>
          (case assemble_and_prepare sdk acc f (bo_contract bop) (bo_method bop) (bo_args bop) w of
             (Inr xdr, w1) \<Rightarrow> (BatchOk xdr, offset + 1, w1)
           | (Inl e, w1) \<Rightarrow> (BatchErr (batch_error e), offset + 1, w1)))"

fun batch_each ::
  "('s, 'a, 'c, 't) sdk \<Rightarrow> account \<Rightarrow> string \<Rightarrow> nat \<Rightarrow> 'a batch_op list \<Rightarrow> 's world
    \<Rightarrow> batch_result list \<times> 's world" where
  "batch_each sdk base f offset [] w = ([], w)"
| "batch_each sdk base f offset (bop # bops) w =
     (let (r, offset1, w1) = batch_one sdk base f offset bop w;
          (rs, w2) = batch_each sdk base f offset1 bops w1
      in (r # rs, w2))"

definition batch_build ::
  "('s, 'a, 'c, 't) sdk \<Rightarrow> string \<Rightarrow> 'a batch_op list \<Rightarrow> ('s world, batch_result list) operation" where
  "batch_build sdk caller bops w =
     (if bops = [] then (Inr [], w)
      else case get_fresh_account sdk caller w of
        (Inl e, w1) \<Rightarrow> (Inl e, w1)
      | (Inr base, w1) \<Rightarrow>
          let (f, w2) = get_recommended_fee sdk w1;
              (rs, w3) = batch_each sdk base f 0 bops w2
          in (Inr rs, w3))"

section \<open>Read-only queries\<close>

text \<open>Every query simulates a call from this fixed account with sequence number 0.\<close>

definition dummy_account_id :: string where
  "dummy_account_id = ''GAAZI4TCR3TY5OJHCTJC2A4QSY6CJWJH5IAJTGKIN2ER7LBNVKOCCWN''"

definition simulate_call ::
  "('s, 'a, 'c, 't) sdk \<Rightarrow> string \<Rightarrow> string \<Rightarrow> ('s, simulation) operation" where
  "simulate_call sdk contract meth s =
     (case sdk_contract sdk contract of
        Inl e \<Rightarrow> (Inl e, s)
      | Inr c \<Rightarrow>
          (case sdk_account sdk dummy_account_id 0 of
             Inl e \<Rightarrow> (Inl e, s)
           | Inr acc \<Rightarrow>
               (case sdk_transaction sdk acc (sdk_base_fee sdk) c meth [] of
                  Inl e \<Rightarrow> (Inl e, s)
                | Inr tx \<Rightarrow> sdk_simulate sdk tx s)))"

text \<open>The accessors \<open>u32()\<close>, \<open>bool()\<close> and \<open>str()\<close> of an ScVal throw on another kind of value.\<close>

definition sc_u32 :: "sc_value \<Rightarrow> rpc_error + nat" where
  "sc_u32 v = (case v of ScU32 n \<Rightarrow> Inr n | _ \<Rightarrow> Inl (new_error ''u32 not set''))"

definition sc_bool :: "sc_value \<Rightarrow> rpc_error + bool" where
  "sc_bool v = (case v of ScBool b \<Rightarrow> Inr b | _ \<Rightarrow> Inl (new_error ''b not set''))"

definition get_royalty_rate_from_contract :: "('s, 'a, 'c, 't) sdk \<Rightarrow> string \<Rightarrow> ('s, nat) operation" where
  "get_royalty_rate_from_contract sdk contract s =
     (case simulate_call sdk contract ''get_royalty_rate'' s of
        (Inl e, s1) \<Rightarrow> (Inl e, s1)
      | (Inr sim, s1) \<Rightarrow>
          (if sim_is_error sim then Inr 0
           else case sim_retval sim of None \<Rightarrow> Inr 0 | Some v \<Rightarrow> sc_u32 v, s1))"

definition is_contract_initialized :: "('s, 'a, 'c, 't) sdk \<Rightarrow> string \<Rightarrow> ('s, bool) operation" where
  "is_contract_initialized sdk contract s =
     (case simulate_call sdk contract ''is_initialized'' s of
        (Inl e, s1) \<Rightarrow> (Inl e, s1)
      | (Inr sim, s1) \<Rightarrow>
          (if sim_is_error sim then Inr False
           else case sim_retval sim of None \<Rightarrow> Inr False | Some v \<Rightarrow> sc_bool v, s1))"

definition get_contract_version_from_contract ::
  "('s, 'a, 'c, 't) sdk \<Rightarrow> string \<Rightarrow> ('s, string option) operation" where
  "get_contract_version_from_contract sdk contract s =
     (case simulate_call sdk contract ''get_version'' s of
        (Inl e, s1) \<Rightarrow> (Inl e, s1)
      | (Inr sim, s1) \<Rightarrow>
          (Inr (if sim_is_error sim then None
                else case sim_retval sim of Some (ScStr v) \<Rightarrow> Some v | _ \<Rightarrow> None), s1))"

record deployment_status =
  ds_configured :: bool
  ds_contract :: "string option"
  ds_deployed :: bool
  ds_initialized :: bool
  ds_status :: string

definition check_contract_deployment_status ::
  "('s, 'a, 'c, 't) sdk \<Rightarrow> string option \<Rightarrow> 's \<Rightarrow> deployment_status \<times> 's" where
  "check_contract_deployment_status sdk contract s =
     (if \<not> truthy contract then
        (\<lparr>ds_configured = False, ds_contract = None, ds_deployed = False, ds_initialized = False,
          ds_status = ''not_configured''\<rparr>, s)
      else
        let st = (\<lambda>d i x. \<lparr>ds_configured = True, ds_contract = contract, ds_deployed = d,
                           ds_initialized = i, ds_status = x\<rparr>)
        in case simulate_call sdk (the contract) ''is_initialized'' s of
             (Inl e, s1) \<Rightarrow> (st False False ''error'', s1)
           | (Inr sim, s1) \<Rightarrow>
               if sim_is_error sim then (st False False ''unreachable'', s1)
               else case (case sim_retval sim of None \<Rightarrow> Inr False | Some v \<Rightarrow> sc_bool v) of
                      Inl e \<Rightarrow> (st False False ''error'', s1)
                    | Inr i \<Rightarrow> (st True i (if i then ''initialized'' else ''deployed''), s1))"

section \<open>ScVal encoders\<close>

definition i128_max :: int where
  "i128_max = 2 ^ 127 - 1"

definition i128_min :: int where
  "i128_min = - (2 ^ 127)"

text \<open>The encoder of the SDK is the parameter \<open>native\<close>.\<close>

definition i128_to_scval :: "(int \<Rightarrow> 128 word) \<Rightarrow> int \<Rightarrow> 128 word res" where
  "i128_to_scval native n =
     (if i128_max < n \<or> n < i128_min
      then Inl (RangeErr (''Amount '' @ int_str n @ '' is outside the i128 range supported by Soroban ['' @
             int_str i128_min @ '', '' @ int_str i128_max @ '']''))
      else Inr (native n))"

text \<open>\<open>Buffer.from(hex, 'hex')\<close> decodes pairs of hex digits and stops at the first pair that is none.\<close>

fun from_hex :: "string \<Rightarrow> 8 word list" where
  "from_hex (a # b # s) =
     (case (hex_val a, hex_val b) of
        (Some x, Some y) \<Rightarrow> word_of_nat (16 * x + y) # from_hex s
      | _ \<Rightarrow> [])"
| "from_hex _ = []"

definition bytes32_to_scval :: "string \<Rightarrow> 8 word list res" where
  "bytes32_to_scval hex =
     (let bs = from_hex hex in
      if length bs \<noteq> 32 then Inl (PlainError ''Expected a 32-byte hash'') else Inr bs)"

section \<open>Properties of a build\<close>

lemma retry_build_loop_spec:
  assumes "retry_build_loop (build :: ('w, string) operation) a (Suc left) w = (r, ds, w')"
  shows "\<exists>n \<le> left. w' = nth_state build (Suc n) w
    \<and> (\<forall>k < n. \<exists>e. nth_outcome build k w = Inl e \<and> judge_build_error e False = Again)
    \<and> (case nth_outcome build n w of Inr xdr \<Rightarrow> r = Inr xdr
       | Inl e \<Rightarrow> \<exists>e'. judge_build_error e (n = left) = GiveUp e' \<and> r = Inl e')
    \<and> ds = map (\<lambda>k. 1000 * 2 ^ (a + k - 1)) [0..<n]"
  using assms
proof (induction left arbitrary: a w r ds w')
  case 0
  obtain x t where o: "build w = (x, t)" by fastforce
  have "judge_build_error e True \<noteq> Again" for e
    by (simp add: judge_build_error_def Let_def)
  then show ?case using 0 o
    by (intro exI [of _ 0]) (auto split: sum.splits verdict.splits)
next
  case (Suc left)
  obtain x t where o: "build w = (x, t)" by fastforce
  show ?case
  proof (cases "\<exists>e. x = Inl e \<and> judge_build_error e False = Again")
    case False
    then show ?thesis using Suc.prems o
      by (intro exI [of _ 0]) (auto split: sum.splits verdict.splits)
  next
    case True
    then obtain e where e: "x = Inl e" "judge_build_error e False = Again" by blast
    obtain r2 ds2 w2 where l: "retry_build_loop build (Suc a) (Suc left) t = (r2, ds2, w2)"
      by (metis prod_cases3)
    have res: "r = r2" "w' = w2" "ds = 1000 * 2 ^ (a - 1) # ds2"
      using Suc.prems o e l
      by (simp_all del: retry_build_loop.simps add: retry_build_loop.simps(2) [of _ _ "Suc left"])
    from Suc.IH [OF l] obtain n where n: "n \<le> left" "w2 = nth_state build (Suc n) t"
      "\<forall>k < n. \<exists>e. nth_outcome build k t = Inl e \<and> judge_build_error e False = Again"
      "case nth_outcome build n t of Inr xdr \<Rightarrow> r2 = Inr xdr
       | Inl e \<Rightarrow> \<exists>e'. judge_build_error e (n = left) = GiveUp e' \<and> r2 = Inl e'"
      "ds2 = map (\<lambda>k. 1000 * 2 ^ (Suc a + k - 1)) [0..<n]"
      by blast
    have "\<exists>e. nth_outcome build k w = Inl e \<and> judge_build_error e False = Again" if "k < Suc n" for k
      using that n(3) o e by (cases k) simp_all
    moreover have "ds = map (\<lambda>k. 1000 * 2 ^ (a + k - 1)) [0..<Suc n]"
      by (simp only: res(3) n(5) upt_conv_Cons [OF zero_less_Suc] map_Suc_upt [symmetric])
        (simp add: comp_def)
    ultimately show ?thesis
      using n res o by (intro exI [of _ "Suc n"]) (auto split: sum.splits)
  qed
qed

text \<open>The XDR of a successful build comes from the account that the same build fetched.\<close>

definition built_from ::
  "('s, 'a, 'c, 't) sdk \<Rightarrow> account \<Rightarrow> string \<Rightarrow> string \<Rightarrow> 'a list \<Rightarrow> string \<Rightarrow> bool" where
  "built_from sdk acc contract meth args xdr \<longleftrightarrow>
     (\<exists>c f tx s. sdk_contract sdk contract = Inr c \<and> sdk_transaction sdk acc f c meth args = Inr tx
        \<and> fst (sdk_prepare sdk tx s) = Inr xdr)"

lemma assemble_built_from:
  "assemble_and_prepare sdk acc f contract meth args w = (Inr xdr, w1) \<Longrightarrow>
   built_from sdk acc contract meth args xdr"
  unfolding assemble_and_prepare_def built_from_def on_network_def
  by (auto simp: Let_def split: sum.splits prod.splits) (metis fst_conv)

lemma build_tx_built_from:
  assumes "build_tx sdk caller contract meth args w = (Inr xdr, w1)"
  shows "\<exists>acc w2. get_fresh_account sdk caller w = (Inr acc, w2)
    \<and> built_from sdk acc contract meth args xdr"
  using assms unfolding build_tx_def
  by (auto split: sum.splits prod.splits dest: assemble_built_from)

text \<open>\<open>retryBuildTx\<close> builds at most three times, sleeping one and then two seconds, goes on only
  after an error it classifies as retryable, and ends with the outcome of the last build; an XDR
  it returns was built from the account record fetched in that last build, so no sequence number
  of an earlier attempt is reused.\<close>

theorem retry_build_tx_fresh_account:
  assumes "retry_build_tx sdk caller contract meth args w = (r, ds, w')"
  shows "\<exists>n < 3. let build = build_tx sdk caller contract meth args in
      w' = nth_state build (Suc n) w \<and> ds = take n [1000, 2000]
      \<and> (\<forall>k < n. \<exists>e. nth_outcome build k w = Inl e \<and> judge_build_error e False = Again)
      \<and> (case r of
           Inr xdr \<Rightarrow> nth_outcome build n w = Inr xdr \<and>
             (\<exists>acc w2. get_fresh_account sdk caller (nth_state build n w) = (Inr acc, w2)
                \<and> built_from sdk acc contract meth args xdr)
         | Inl e' \<Rightarrow> \<exists>e. nth_outcome build n w = Inl e \<and> judge_build_error e (n = 2) = GiveUp e')"
proof -
  let ?b = "build_tx sdk caller contract meth args"
  have l: "retry_build_loop ?b 1 (Suc 2) w = (r, ds, w')"
    using assms by (simp add: retry_build_tx_def numeral_3_eq_3 numeral_2_eq_2)
  from retry_build_loop_spec [OF l] obtain n where n: "n \<le> 2" "w' = nth_state ?b (Suc n) w"
    "\<forall>k < n. \<exists>e. nth_outcome ?b k w = Inl e \<and> judge_build_error e False = Again"
    "case nth_outcome ?b n w of Inr xdr \<Rightarrow> r = Inr xdr
       | Inl e \<Rightarrow> \<exists>e'. judge_build_error e (n = 2) = GiveUp e' \<and> r = Inl e'"
    "ds = map (\<lambda>k. 1000 * 2 ^ (1 + k - 1)) [0..<n]" by blast
  have "n = 0 \<or> n = 1 \<or> n = 2" using n(1) by linarith
  then have ds: "ds = take n [1000, 2000]" using n(5) by (auto simp: upt_rec)
  have fresh: "\<exists>acc w2. get_fresh_account sdk caller (nth_state ?b n w) = (Inr acc, w2)
      \<and> built_from sdk acc contract meth args xdr" if "nth_outcome ?b n w = Inr xdr" for xdr
    using that build_tx_built_from [of sdk caller contract meth args "nth_state ?b n w" xdr]
    by (metis nth_outcome_def prod.collapse)
  show ?thesis
    using n ds fresh by (intro exI [of _ n]) (auto simp: Let_def split: sum.splits)
qed

definition demo_sdk :: "(nat, unit, string, string) sdk" where
  "demo_sdk = \<lparr>sdk_base_fee = ''100'',
     sdk_fee_stats = (\<lambda>s. (Inr \<lparr>fs_status = 503, fs_p50 = None, fs_last_base_fee = None\<rparr>, s + 1)),
     sdk_get_account = (\<lambda>a s. (Inr \<lparr>account_id = a, sequence_number = 7\<rparr>, s + 1)),
     sdk_account = (\<lambda>i q. if length i = 56 then Inr \<lparr>account_id = i, sequence_number = q\<rparr>
                          else Inl (new_error ''accountId is invalid'')),
     sdk_contract = Inr,
     sdk_transaction = (\<lambda>acc f c m args. Inr (m @ int_str (sequence_number acc))),
     sdk_prepare = (\<lambda>tx s. if s < 3 then (Inl (bare_error\<lparr>e_status := Some 504\<rparr>), s + 1)
                           else if tx = ''bad8'' then (Inl (new_error ''trap''), s + 1) else (Inr tx, s + 1)),
     sdk_simulate = (\<lambda>tx s. (Inr \<lparr>sim_is_error = False, sim_retval = Some (ScBool True)\<rparr>, s + 1)),
     sdk_random = (\<lambda>_. 0), sdk_now = (\<lambda>_. 0)\<rparr>"

definition demo_world :: "nat world" where
  "demo_world = \<lparr>fee_cache = Some \<lparr>fe_fee = ''250'', fe_fetched_at = 0\<rparr>, network = 0\<rparr>"

definition demo_caller :: string where
  "demo_caller = replicate 56 (CHR ''G'')"

lemma demo_account: "get_fresh_account demo_sdk a w =
    (Inr \<lparr>account_id = a, sequence_number = 7\<rparr>, w\<lparr>network := network w + 1\<rparr>)"
  by (simp add: get_fresh_account_def demo_sdk_def with_retry_def default_retry_config_def
      numeral_3_eq_3 awaited_def)

lemma demo_fee: "fee_cache w = Some \<lparr>fe_fee = f, fe_fetched_at = 0\<rparr> \<Longrightarrow>
    get_recommended_fee demo_sdk w = (f, w)"
  by (simp add: get_recommended_fee_def demo_sdk_def fee_cache_ms_def)

lemma demo_build:
  "fee_cache w = Some \<lparr>fe_fee = f, fe_fetched_at = 0\<rparr> \<Longrightarrow>
   build_tx demo_sdk a c ''pay'' [] w =
     (if network w + 1 < 3 then Inl (bare_error\<lparr>e_status := Some 504\<rparr>) else Inr (''pay'' @ int_str 7),
      w\<lparr>network := network w + 2\<rparr>)"
  by (simp add: build_tx_def demo_account demo_fee assemble_and_prepare_def on_network_def)
    (simp add: demo_sdk_def on_network_def)

theorem retry_build_tx_fresh_account_witness:
  "retry_build_tx demo_sdk demo_caller ''C'' ''pay'' [] demo_world =
     (Inr (''pay'' @ int_str 7), [1000], demo_world\<lparr>network := 4\<rparr>)
   \<and> (\<exists>n < 3. [1000] = take n [1000::nat, 2000])"
proof -
  have "judge_build_error (bare_error\<lparr>e_status := Some 504\<rparr>) False = Again"
    by (simp add: judge_build_error_def bare_error_def msg_includes_def msg_lower_includes_def
        is_rate_limit_error_def is_timeout_error_def)
  then have r: "retry_build_tx demo_sdk demo_caller ''C'' ''pay'' [] demo_world =
     (Inr (''pay'' @ int_str 7), [1000], demo_world\<lparr>network := 4\<rparr>)"
    by (simp add: retry_build_tx_def numeral_3_eq_3 demo_build demo_world_def)
  from retry_build_tx_fresh_account [OF r] obtain n where "n < 3" "[1000] = take n [1000::nat, 2000]"
    by (auto simp: Let_def)
  with r show ?thesis by blast
qed

lemma sublist_map: "sublist u v \<Longrightarrow> sublist (map f u) (map f v)"
  unfolding sublist_def by (metis map_append)

lemma simulation_is_permanent:
  assumes "msg_includes e ''simulation''"
  shows "\<not> is_transient (is_transient_error (Some e))"
proof -
  obtain m where m: "e_message e = Some m" "sublist ''simulation'' m"
    using assms by (auto simp: msg_includes_def str_includes_sublist split: option.splits)
  have "map lower_char ''simulation'' = ''simulation''" by code_simp
  then have "str_includes (error_message_lower e) ''simulation''"
    using m sublist_map [OF m(2), of lower_char]
    by (simp add: error_message_lower_def or_else_def to_lower_def str_includes_sublist)
  then show ?thesis by (simp add: is_transient_error_def analysis_def)
qed

text \<open>A contract invocation that fails its simulation is built three times and then reported as
  an unavailable RPC (503), although the error classifier of the retry module calls the same
  error permanent.\<close>

theorem simulation_failure_reported_unavailable:
  assumes "msg_includes e ''simulation''" "\<not> msg_includes e ''account not found''"
    and "\<not> is_rate_limit_error e" "\<not> is_timeout_error e"
    and "\<And>v. fst (build_tx sdk caller contract meth args v) = Inl e"
  shows "retry_build_tx sdk caller contract meth args w =
      (Inl (status_error 503 ''Stellar RPC is currently unavailable. Please try again later.''),
       [1000, 2000], nth_state (build_tx sdk caller contract meth args) 3 w)
    \<and> \<not> is_transient (is_transient_error (Some e))"
proof -
  have j: "judge_build_error e False = Again"
    "judge_build_error e True =
       GiveUp (status_error 503 ''Stellar RPC is currently unavailable. Please try again later.'')"
    using assms(1-4) by (simp_all add: judge_build_error_def)
  have b: "build_tx sdk caller contract meth args v =
      (Inl e, snd (build_tx sdk caller contract meth args v))" for v
    using assms(5) by (metis prod.collapse)
  have "retry_build_tx sdk caller contract meth args w =
      (Inl (status_error 503 ''Stellar RPC is currently unavailable. Please try again later.''),
       [1000, 2000], nth_state (build_tx sdk caller contract meth args) 3 w)"
    unfolding retry_build_tx_def numeral_3_eq_3
    using j by (simp add: split_beta assms(5))
  then show ?thesis using simulation_is_permanent [OF assms(1)] by blast
qed

definition failing_sdk :: "(nat, unit, string, string) sdk" where
  "failing_sdk = demo_sdk\<lparr>sdk_prepare := (\<lambda>tx s. (Inl (new_error ''simulation failed''), s + 1))\<rparr>"

theorem simulation_failure_reported_unavailable_witness:
  "fst (retry_build_tx failing_sdk demo_caller ''C'' ''pay'' [] demo_world)
   = Inl (status_error 503 ''Stellar RPC is currently unavailable. Please try again later.'')"
proof -
  let ?e = "new_error ''simulation failed''"
  have a: "get_fresh_account failing_sdk demo_caller v =
      (Inr \<lparr>account_id = demo_caller, sequence_number = 7\<rparr>, v\<lparr>network := network v + 1\<rparr>)" for v
    by (simp add: get_fresh_account_def failing_sdk_def demo_sdk_def with_retry_def
        default_retry_config_def numeral_3_eq_3 awaited_def)
  have b: "fst (build_tx failing_sdk demo_caller ''C'' ''pay'' [] v) = Inl ?e" for v
    by (simp add: build_tx_def a assemble_and_prepare_def on_network_def split: prod.split)
      (simp add: failing_sdk_def demo_sdk_def on_network_def Let_def)
  have c: "msg_includes ?e ''simulation''" "\<not> msg_includes ?e ''account not found''"
    "\<not> msg_includes ?e ''429''" "\<not> msg_lower_includes ?e ''too many requests''"
    "\<not> msg_lower_includes ?e ''rate limit''"
    by (simp_all add: msg_includes_def msg_lower_includes_def new_error_def) (code_simp)+
  have "\<not> is_rate_limit_error ?e" "\<not> is_timeout_error ?e"
    using c(3-5) by (simp_all add: is_rate_limit_error_def is_timeout_error_def new_error_def bare_error_def)
  from simulation_failure_reported_unavailable [OF c(1,2) this b] show ?thesis by simp
qed

section \<open>Properties of a batch\<close>

definition batch_ok :: "batch_result \<Rightarrow> bool" where
  "batch_ok r = (case r of BatchOk _ \<Rightarrow> True | BatchErr _ \<Rightarrow> False)"

lemma length_batch_each [simp]: "length (fst (batch_each sdk base f n bops w)) = length bops"
  by (induction bops arbitrary: n w) (auto simp: split_beta Let_def)

text \<open>The account constructor accepts the id of the fetched account.\<close>

definition accepts :: "('s, 'a, 'c, 't) sdk \<Rightarrow> string \<Rightarrow> bool" where
  "accepts sdk i \<longleftrightarrow> (\<forall>q. sdk_account sdk i q = Inr \<lparr>account_id = i, sequence_number = q\<rparr>)"

definition batch_outcome ::
  "('s, 'a, 'c, 't) sdk \<Rightarrow> account \<Rightarrow> string \<Rightarrow> int \<Rightarrow> 'a batch_op \<Rightarrow> ('s world, string) operation" where
  "batch_outcome sdk base f q bop =
     assemble_and_prepare sdk \<lparr>account_id = account_id base, sequence_number = q\<rparr> f
       (bo_contract bop) (bo_method bop) (bo_args bop)"

definition report :: "rpc_error + string \<Rightarrow> batch_result" where
  "report r = (case r of Inr xdr \<Rightarrow> BatchOk xdr | Inl e \<Rightarrow> BatchErr (batch_error e))"

lemma batch_one_accepts:
  "accepts sdk (account_id base) \<Longrightarrow> batch_one sdk base f n bop w =
     (let (r, w1) = batch_outcome sdk base f (sequence_number base + int n) bop w
      in (report r, n + 1, w1))"
  by (auto simp: accepts_def batch_one_def batch_outcome_def report_def split: sum.split prod.split)

lemma batch_each_nth:
  assumes "accepts sdk (account_id base)" and "i < length bops"
  shows "fst (batch_each sdk base f n bops w) ! i =
    report (fst (batch_outcome sdk base f (sequence_number base + int (n + i)) (bops ! i)
      (snd (batch_each sdk base f n (take i bops) w))))"
  using assms(2)
proof (induction bops arbitrary: i n w)
  case Nil
  then show ?case by simp
next
  case (Cons bop bops)
  show ?case
  proof (cases i)
    case 0
    then show ?thesis by (simp add: batch_one_accepts [OF assms(1)] split_beta Let_def)
  next
    case (Suc k)
    then have "k < length bops" using Cons.prems by simp
    from Cons.IH [OF this] show ?thesis
      by (simp add: Suc batch_one_accepts [OF assms(1)] split_beta Let_def add.assoc)
  qed
qed

text \<open>A batch answers one result per operation, in order; the result of an operation is the
  outcome of building that operation alone with the fetched account moved on by its index, at one
  shared fee, whatever the other operations did.\<close>

theorem batch_results_aligned:
  assumes "get_fresh_account sdk caller w = (Inr base, w1)" "get_recommended_fee sdk w1 = (f, w2)"
    and "accepts sdk (account_id base)" "bops \<noteq> []"
    and "batch_build sdk caller bops w = (Inr rs, w3)"
  shows "length rs = length bops \<and> (\<forall>i < length bops. rs ! i =
    report (fst (batch_outcome sdk base f (sequence_number base + int i) (bops ! i)
      (snd (batch_each sdk base f 0 (take i bops) w2)))))"
proof -
  have rs: "rs = fst (batch_each sdk base f 0 bops w2)"
    using assms by (simp add: batch_build_def split_beta Let_def)
  show ?thesis using batch_each_nth [OF assms(3), of _ bops f 0 w2] by (simp add: rs)
qed

definition demo_batch :: "unit batch_op list" where
  "demo_batch = map (\<lambda>m. \<lparr>bo_contract = ''C'', bo_method = m, bo_args = []\<rparr>) [''pay'', ''bad'', ''pay'']"

definition late_world :: "nat world" where
  "late_world = demo_world\<lparr>network := 5\<rparr>"

lemma demo_one:
  "3 \<le> network w \<Longrightarrow>
   batch_one demo_sdk \<lparr>account_id = demo_caller, sequence_number = 7\<rparr> f k
     \<lparr>bo_contract = c, bo_method = m, bo_args = []\<rparr> w =
   (if m @ int_str (7 + int k) = ''bad8'' then BatchErr (batch_error (new_error ''trap''))
    else BatchOk (m @ int_str (7 + int k)), k + 1, w\<lparr>network := network w + 1\<rparr>)"
proof -
  assume n: "3 \<le> network w"
  have "sdk_account demo_sdk demo_caller q = Inr \<lparr>account_id = demo_caller, sequence_number = q\<rparr>" for q
    by (simp add: demo_sdk_def demo_caller_def)
  then show ?thesis using n
    by (simp add: batch_one_def assemble_and_prepare_def on_network_def)
      (simp add: demo_sdk_def on_network_def)
qed

lemma demo_batch_result:
  "batch_build demo_sdk demo_caller demo_batch late_world =
     (Inr [BatchOk ''pay7'', BatchErr (batch_error (new_error ''trap'')), BatchOk ''pay9''],
      late_world\<lparr>network := 9\<rparr>)"
proof -
  have i: "int_str 7 = ''7''" "int_str 8 = ''8''" "int_str 9 = ''9''" by code_simp+
  have w: "late_world = \<lparr>fee_cache = Some \<lparr>fe_fee = ''250'', fe_fetched_at = 0\<rparr>, network = 5\<rparr>"
    by (simp add: late_world_def demo_world_def)
  show ?thesis unfolding w
    by (simp add: batch_build_def demo_batch_def demo_account demo_fee demo_one Let_def i)
qed

lemma demo_accepts: "accepts demo_sdk demo_caller"
  by (simp add: accepts_def demo_sdk_def demo_caller_def)

theorem batch_results_aligned_witness:
  "batch_build demo_sdk demo_caller demo_batch late_world =
     (Inr [BatchOk ''pay7'', BatchErr (batch_error (new_error ''trap'')), BatchOk ''pay9''],
      late_world\<lparr>network := 9\<rparr>)
   \<and> length [BatchOk ''pay7'', BatchErr (batch_error (new_error ''trap'')), BatchOk ''pay9'']
       = length demo_batch"
  using batch_results_aligned [OF demo_account demo_fee _ _ demo_batch_result]
    demo_batch_result demo_accepts
  by (simp add: demo_batch_def late_world_def demo_world_def)

text \<open>A failed operation leaves a hole in the sequence numbers: an operation after it is built
  on a sequence number that counts the failed one too, so its transaction is not the successor of
  the transactions built before it and cannot be submitted after them alone.\<close>

theorem batch_failure_leaves_sequence_gap:
  assumes "get_fresh_account sdk caller w = (Inr base, w1)" "get_recommended_fee sdk w1 = (f, w2)"
    and "accepts sdk (account_id base)"
    and "batch_build sdk caller bops w = (Inr rs, w3)"
    and "i < j" "j < length bops" "\<not> batch_ok (rs ! i)"
  shows "rs ! j = report (fst (batch_outcome sdk base f (sequence_number base + int j) (bops ! j)
      (snd (batch_each sdk base f 0 (take j bops) w2))))
    \<and> length (filter batch_ok (take j rs)) < j"
proof -
  have ne: "bops \<noteq> []" using assms(6) by auto
  have rs: "rs = fst (batch_each sdk base f 0 bops w2)"
    using assms ne by (simp add: batch_build_def split_beta Let_def)
  have len: "length rs = length bops" by (simp add: rs)
  have "rs ! i \<in> set (take j rs)"
    using assms(5,6) len by (metis in_set_conv_nth length_take min.absorb4 nth_take)
  then have "length (filter batch_ok (take j rs)) < length (take j rs)"
    using assms(7) by (rule length_filter_less)
  moreover have "length (take j rs) = j" using assms(6) len by simp
  ultimately show ?thesis
    using batch_each_nth [OF assms(3,6), of f 0 w2] by (simp add: rs)
qed

theorem batch_failure_leaves_sequence_gap_witness:
  "length (filter batch_ok
     (take 2 [BatchOk ''pay7'', BatchErr (batch_error (new_error ''trap'')), BatchOk ''pay9''])) < 2"
  using batch_failure_leaves_sequence_gap [OF demo_account demo_fee _ demo_batch_result,
      of "''250''" 1 2] demo_accepts
  by (simp add: demo_batch_def late_world_def demo_world_def batch_ok_def)

section \<open>Properties of the queries and encoders\<close>

text \<open>The account id of the read-only queries has 55 characters, and the SDK accepts account ids
  of 56 characters only: every query throws before it asks the network, and the deployment status
  of every configured contract is the error status.\<close>

theorem read_only_queries_always_fail:
  assumes "\<And>i q a. sdk_account sdk i q = Inr a \<Longrightarrow> length i = 56"
  shows "(\<exists>e. get_royalty_rate_from_contract sdk c s = (Inl e, s))
    \<and> (\<exists>e. is_contract_initialized sdk c s = (Inl e, s))
    \<and> (\<exists>e. get_contract_version_from_contract sdk c s = (Inl e, s))
    \<and> (c \<noteq> [] \<longrightarrow> check_contract_deployment_status sdk (Some c) s =
        (\<lparr>ds_configured = True, ds_contract = Some c, ds_deployed = False, ds_initialized = False,
          ds_status = ''error''\<rparr>, s))"
proof -
  have "length dummy_account_id \<noteq> 56" by (simp add: dummy_account_id_def)
  then have "\<exists>e. sdk_account sdk dummy_account_id 0 = Inl e"
    using assms by (metis sumE)
  then have sim: "\<exists>e. simulate_call sdk c m s = (Inl e, s)" for m
    by (auto simp: simulate_call_def split: sum.split)
  have "\<exists>e. get_royalty_rate_from_contract sdk c s = (Inl e, s)"
    using sim [of "''get_royalty_rate''"] by (auto simp: get_royalty_rate_from_contract_def)
  moreover have "\<exists>e. get_contract_version_from_contract sdk c s = (Inl e, s)"
    using sim [of "''get_version''"] by (auto simp: get_contract_version_from_contract_def)
  moreover obtain e where "simulate_call sdk c ''is_initialized'' s = (Inl e, s)" using sim by blast
  then have "\<exists>e. is_contract_initialized sdk c s = (Inl e, s)"
    "c \<noteq> [] \<longrightarrow> check_contract_deployment_status sdk (Some c) s =
        (\<lparr>ds_configured = True, ds_contract = Some c, ds_deployed = False, ds_initialized = False,
          ds_status = ''error''\<rparr>, s)"
    by (simp_all add: is_contract_initialized_def check_contract_deployment_status_def)
  ultimately show ?thesis by blast
qed

theorem read_only_queries_always_fail_witness:
  "ds_status (fst (check_contract_deployment_status demo_sdk (Some ''CDEMO'') 0)) = ''error''"
proof -
  have "length i = 56" if "sdk_account demo_sdk i q = Inr a" for i q a
    using that by (simp add: demo_sdk_def split: if_splits)
  from read_only_queries_always_fail [of demo_sdk "''CDEMO''" 0, OF this] show ?thesis by simp
qed

text \<open>An amount is encoded exactly when it fits a signed 128-bit integer, and the encoded word
  then reads back as the amount; any other amount is refused instead of wrapping around.\<close>

theorem i128_encoding_exact:
  assumes "\<And>n. native n = word_of_int n"
  shows "case i128_to_scval native n of
      Inr w \<Rightarrow> sint w = n
    | Inl e \<Rightarrow> n \<notin> {- (2 ^ 127)..2 ^ 127 - 1} \<and> sint (native n) \<noteq> n"
proof (cases "i128_max < n \<or> n < i128_min")
  case True
  have "- (2 ^ 127) \<le> sint (native n)" "sint (native n) < 2 ^ 127"
    using sint_range_size [of "native n"] by (simp_all add: word_size)
  then show ?thesis using True by (auto simp: i128_to_scval_def i128_max_def i128_min_def)
next
  case False
  then have "sint (word_of_int n :: 128 word) = n"
    by (simp add: i128_max_def i128_min_def sint_word_ariths signed_take_bit_int_eq_self
        sint_sbintrunc')
  then show ?thesis using False assms by (simp add: i128_to_scval_def)
qed

theorem i128_encoding_exact_witness:
  "is_ok (i128_to_scval word_of_int (- 5)) \<and> (case i128_to_scval word_of_int (- 5) of
     Inr w \<Rightarrow> sint w = - 5 | Inl e \<Rightarrow> False) \<and> \<not> is_ok (i128_to_scval word_of_int (2 ^ 127))"
  using i128_encoding_exact [of word_of_int "- 5"]
  by (simp add: i128_to_scval_def i128_max_def i128_min_def)

section \<open>Properties of the fee recommendation\<close>

lemma with_retry_permanent:
  assumes "op s = (Inl e, s')" "\<not> is_transient (is_transient_error (Some e))"
    and "type \<notin> {''submitTransaction'', ''submit''}"
  shows "with_retry cfg None op rnd type (Suc m) s = (Threw e, [], s')"
  using assms by (simp add: with_retry_def retry_decision_def)

lemma http_error_permanent: "\<not> is_transient (is_transient_error (Some (new_error (''HTTP '' @ nat_str n))))"
proof -
  let ?m = "to_lower (''HTTP '' @ nat_str n)"
  have "lower_char x = x" if "is_digit x" for x
    using that by (simp add: lower_char_def is_digit_def Let_def)
  then have "map lower_char (nat_str n) = nat_str n"
    using all_digits_nat_str [of n] by (simp add: map_idI)
  moreover have "map lower_char ''HTTP '' = ''http ''" by code_simp
  ultimately have m: "?m = ''http '' @ nat_str n" by (simp add: to_lower_def)
  have no: "\<not> str_includes ?m w" if "c \<in> set w" "\<not> is_digit c" "c \<notin> set ''http ''" for w c
  proof
    assume "str_includes ?m w"
    then have "c \<in> set ?m" using that(1) by (auto simp: str_includes_sublist sublist_def)
    then show False using that m all_digits_nat_str [of n] by auto
  qed
  have d: "\<not> is_digit (CHR ''m'')" "\<not> is_digit (CHR ''c'')" "\<not> is_digit (CHR ''n'')" "\<not> is_digit (CHR ''u'')"
    by (simp_all add: is_digit_def)
  have "\<not> str_includes ?m ''simulation''" "\<not> str_includes ?m ''timed out''" "\<not> str_includes ?m ''timeout''"
    using no [OF _ d(1)] by simp_all
  moreover have "\<not> str_includes ?m ''contract''" "\<not> str_includes ?m ''invocation''"
    "\<not> str_includes ?m ''econnrefused''" "\<not> str_includes ?m ''account not found''"
    using no [OF _ d(2)] by simp_all
  moreover have "\<not> str_includes ?m ''network''" using no [OF _ d(3)] by simp
  ultimately show ?thesis
    by (simp add: is_transient_error_def error_message_lower_def new_error_def bare_error_def
        or_else_def analysis_def Let_def)
qed

text \<open>An answer of Horizon outside 2xx, a rate limit or an outage included, ends the fee fetch at
  its first attempt: the wrapper sees only an error message without status, which it calls
  permanent; the build goes on with the base fee and nothing is cached.\<close>

theorem fee_http_error_not_retried:
  assumes "fee_cache w = None" "sdk_fee_stats sdk (network w) = (Inr r, s')"
    and "fs_status r < 200 \<or> 300 \<le> fs_status r"
  shows "get_recommended_fee sdk w = (sdk_base_fee sdk, w\<lparr>network := s'\<rparr>)"
proof -
  have "fetch_fee sdk (network w) = (Inl (new_error (''HTTP '' @ nat_str (fs_status r))), s')"
    using assms(2,3) by (auto simp: fetch_fee_def)
  then have "with_retry default_retry_config None (fetch_fee sdk) (sdk_random sdk) ''getFeeStats''
      (Suc 1) (network w) = (Threw (new_error (''HTTP '' @ nat_str (fs_status r))), [], s')"
    by (intro with_retry_permanent http_error_permanent) simp_all
  then show ?thesis using assms(1)
    by (simp add: http_error_permanent get_recommended_fee_def refetch_fee_def awaited_def numeral_2_eq_2)
qed

theorem fee_http_error_not_retried_witness:
  "get_recommended_fee demo_sdk (demo_world\<lparr>fee_cache := None\<rparr>)
   = (''100'', demo_world\<lparr>fee_cache := None, network := 1\<rparr>)"
  using fee_http_error_not_retried [of "demo_world\<lparr>fee_cache := None\<rparr>" demo_sdk
      "\<lparr>fs_status = 503, fs_p50 = None, fs_last_base_fee = None\<rparr>" 1]
  by (simp add: demo_sdk_def demo_world_def)

text \<open>A recommended fee is served from the cache for 30 seconds: as long as the cached entry left
  behind by a call is younger than that, every later call returns the same fee and asks nobody.\<close>

theorem fee_cached_for_ttl:
  assumes "get_recommended_fee sdk w = (f, w1)" "fee_cache w1 = Some c"
    and "sdk_now sdk (network w) \<le> sdk_now sdk s" "sdk_now sdk s - fe_fetched_at c < fee_cache_ms"
  shows "get_recommended_fee sdk (w1\<lparr>network := s\<rparr>) = (f, w1\<lparr>network := s\<rparr>)"
proof -
  have "f = fe_fee c"
    using assms
    by (auto simp: get_recommended_fee_def refetch_fee_def split_beta Let_def
        split: option.splits if_splits sum.splits)
  then show ?thesis using assms(2,4) by (simp add: get_recommended_fee_def)
qed

definition ticking_sdk :: "(nat, unit, string, string) sdk" where
  "ticking_sdk = demo_sdk\<lparr>sdk_now := (\<lambda>s. 1000 * int s),
     sdk_fee_stats := (\<lambda>s. (Inr \<lparr>fs_status = 200, fs_p50 = Some ''321'', fs_last_base_fee = None\<rparr>, s + 1))\<rparr>"

theorem fee_cached_for_ttl_witness:
  "fst (get_recommended_fee ticking_sdk
     \<lparr>fee_cache = Some \<lparr>fe_fee = ''321'', fe_fetched_at = 0\<rparr>, network = 29\<rparr>) = ''321''"
proof -
  let ?c = "\<lparr>fe_fee = ''321'', fe_fetched_at = 0\<rparr>"
  have "get_recommended_fee ticking_sdk \<lparr>fee_cache = None, network = 0\<rparr> =
      (''321'', \<lparr>fee_cache = Some ?c, network = 1\<rparr>)"
    by (simp add: get_recommended_fee_def refetch_fee_def ticking_sdk_def with_retry_def fetch_fee_def
        numeral_2_eq_2 fee_candidate_def or_else_def awaited_def)
  from fee_cached_for_ttl [OF this, of ?c 29] show ?thesis
    by (simp add: ticking_sdk_def fee_cache_ms_def)
qed

lemma parsed_status: "parse_soroban_error e = Some p \<Longrightarrow> pe_status p \<in> {400, 502}"
  by (auto simp: parse_soroban_error_def split: if_splits option.splits)

end
