(* ===== verification/BuildLock.thy ===== *)
theory BuildLock
  imports OrderedMap
begin

text \<open>
  \<open>withAccountBuildLock\<close> of \<open>src/backend/src/stellar.js\<close>: callers of one address wait for each other on
  a chain of promises kept in \<open>accountBuildLocks\<close>.  Callers are numbered in order of arrival.  A
  promise is the resolved one, the \<open>current\<close> promise of a caller, or \<open>previous.then(() => current)\<close> of
  a caller, which is the object the map stores and which is never the same object as \<open>current\<close>.

  The steps are the ones of the event loop: a caller arrives (up to its \<open>await\<close>), enters \<open>fn\<close> when
  the promise it awaits has resolved, and leaves through the \<open>finally\<close> block.
\<close>

datatype promise = Resolved | Current nat | Chained nat

record lock_state =
  lk_next :: nat
  lk_addr :: "(nat, string) jsmap"
  lk_locks :: "(string, promise) jsmap"
  lk_previous :: "(nat, promise) jsmap"
  lk_inside :: "nat list"
  lk_released :: "nat list"

definition lock_init :: lock_state where
  "lock_init = \<lparr>lk_next = 0, lk_addr = [], lk_locks = [], lk_previous = [], lk_inside = [],
     lk_released = []\<rparr>"

inductive resolves :: "lock_state \<Rightarrow> promise \<Rightarrow> bool" for st where
  resolves_resolved: "resolves st Resolved"
| resolves_current: "i \<in> set (lk_released st) \<Longrightarrow> resolves st (Current i)"
| resolves_chained: "map_get (lk_previous st) i = Some p \<Longrightarrow> resolves st p \<Longrightarrow> resolves st (Current i)
    \<Longrightarrow> resolves st (Chained i)"

inductive_cases resolves_ChainedE: "resolves st (Chained i)"
inductive_cases resolves_CurrentE: "resolves st (Current i)"

definition lock_arrive :: "string \<Rightarrow> lock_state \<Rightarrow> lock_state" where
  "lock_arrive a st =
     (let i = lk_next st;
          previous = (case map_get (lk_locks st) a of Some p \<Rightarrow> p | None \<Rightarrow> Resolved)
      in st\<lparr>lk_next := Suc i, lk_addr := map_set i a (lk_addr st),
            lk_previous := map_set i previous (lk_previous st),
            lk_locks := map_set a (Chained i) (lk_locks st)\<rparr>)"

definition waiting :: "lock_state \<Rightarrow> nat \<Rightarrow> bool" where
  "waiting st i \<longleftrightarrow> map_get (lk_addr st) i \<noteq> None \<and> i \<notin> set (lk_inside st) \<and> i \<notin> set (lk_released st)"

definition can_enter :: "lock_state \<Rightarrow> nat \<Rightarrow> bool" where
  "can_enter st i \<longleftrightarrow> waiting st i \<and> (\<exists>p. map_get (lk_previous st) i = Some p \<and> resolves st p)"

definition lock_enter :: "nat \<Rightarrow> lock_state \<Rightarrow> lock_state" where
  "lock_enter i st = st\<lparr>lk_inside := i # lk_inside st\<rparr>"

definition lock_leave :: "nat \<Rightarrow> lock_state \<Rightarrow> lock_state" where
  "lock_leave i st =
     (let a = (case map_get (lk_addr st) i of Some x \<Rightarrow> x | None \<Rightarrow> []);
          locks = (if map_get (lk_locks st) a = Some (Current i) then map_delete a (lk_locks st)
                   else lk_locks st)
      in st\<lparr>lk_inside := filter (\<lambda>j. j \<noteq> i) (lk_inside st), lk_released := i # lk_released st,
            lk_locks := locks\<rparr>)"

inductive lock_reach :: "lock_state \<Rightarrow> bool" where
  reach_init: "lock_reach lock_init"
| reach_arrive: "lock_reach st \<Longrightarrow> lock_reach (lock_arrive a st)"
| reach_enter: "lock_reach st \<Longrightarrow> can_enter st i \<Longrightarrow> lock_reach (lock_enter i st)"
| reach_leave: "lock_reach st \<Longrightarrow> i \<in> set (lk_inside st) \<Longrightarrow> lock_reach (lock_leave i st)"

section \<open>The invariant\<close>

definition same_addr :: "lock_state \<Rightarrow> nat \<Rightarrow> nat \<Rightarrow> bool" where
  "same_addr st i j \<longleftrightarrow> map_get (lk_addr st) i \<noteq> None \<and> map_get (lk_addr st) i = map_get (lk_addr st) j"

definition earlier :: "lock_state \<Rightarrow> nat \<Rightarrow> nat \<Rightarrow> bool" where
  "earlier st i j \<longleftrightarrow> i < j \<and> same_addr st i j"

text \<open>What a stored promise says about the callers of its address below a bound.\<close>

definition tail_ok :: "lock_state \<Rightarrow> string \<Rightarrow> nat \<Rightarrow> promise \<Rightarrow> bool" where
  "tail_ok st a n p = (case p of
     Resolved \<Rightarrow> \<forall>i < n. map_get (lk_addr st) i \<noteq> Some a
   | Current k \<Rightarrow> False
   | Chained k \<Rightarrow> k < n \<and> map_get (lk_addr st) k = Some a
       \<and> (\<forall>i. k < i \<and> i < n \<longrightarrow> map_get (lk_addr st) i \<noteq> Some a))"

definition lock_inv :: "lock_state \<Rightarrow> bool" where
  "lock_inv st \<longleftrightarrow>
     (\<forall>i. map_get (lk_addr st) i \<noteq> None \<longleftrightarrow> i < lk_next st)
   \<and> (\<forall>a. tail_ok st a (lk_next st) (case map_get (lk_locks st) a of Some p \<Rightarrow> p | None \<Rightarrow> Resolved))
   \<and> (\<forall>j a. map_get (lk_addr st) j = Some a \<longrightarrow>
        (\<exists>p. map_get (lk_previous st) j = Some p \<and> tail_ok st a j p))
   \<and> (\<forall>j \<in> set (lk_inside st) \<union> set (lk_released st). j < lk_next st
        \<and> (\<forall>i. earlier st i j \<longrightarrow> i \<in> set (lk_released st)))
   \<and> set (lk_inside st) \<inter> set (lk_released st) = {}"

lemma lock_inv_init: "lock_inv lock_init"
  by (auto simp: lock_inv_def lock_init_def tail_ok_def)

lemma tail_ok_cong:
  "(\<And>i. i < n \<Longrightarrow> map_get (lk_addr st') i = map_get (lk_addr st) i) \<Longrightarrow>
   tail_ok st' a n p = tail_ok st a n p"
  by (auto simp: tail_ok_def split: promise.split)

lemma lock_inv_prev:
  "lock_inv st \<Longrightarrow> map_get (lk_addr st) j = Some a \<Longrightarrow>
   \<exists>p. map_get (lk_previous st) j = Some p \<and> tail_ok st a j p"
  unfolding lock_inv_def by blast

lemma lock_inv_arrive:
  assumes "lock_inv st"
  shows "lock_inv (lock_arrive b st)"
proof -
  let ?n = "lk_next st" and ?st = "lock_arrive b st"
  have dom: "map_get (lk_addr st) i \<noteq> None \<longleftrightarrow> i < ?n" for i
    using assms by (simp add: lock_inv_def)
  have addr: "map_get (lk_addr ?st) i = (if i = ?n then Some b else map_get (lk_addr st) i)" for i
    by (simp add: lock_arrive_def Let_def)
  have cong: "tail_ok ?st a n p = tail_ok st a n p" if "n \<le> ?n" for a n p
    using that by (intro tail_ok_cong) (simp add: addr)
  have tails: "tail_ok st a ?n (case map_get (lk_locks st) a of Some p \<Rightarrow> p | None \<Rightarrow> Resolved)" for a
    using assms by (simp add: lock_inv_def)
  have 1: "map_get (lk_addr ?st) i \<noteq> None \<longleftrightarrow> i < lk_next ?st" for i
    using dom by (auto simp: addr lock_arrive_def Let_def less_Suc_eq)
  have 2: "tail_ok ?st a (lk_next ?st) (case map_get (lk_locks ?st) a of Some p \<Rightarrow> p | None \<Rightarrow> Resolved)" for a
  proof (cases "a = b")
    case True
    then show ?thesis by (auto simp: lock_arrive_def Let_def tail_ok_def)
  next
    case False
    then have "tail_ok ?st a ?n (case map_get (lk_locks ?st) a of Some p \<Rightarrow> p | None \<Rightarrow> Resolved)"
      using tails [of a] cong [of ?n] by (simp add: lock_arrive_def Let_def)
    then show ?thesis using False
      by (auto simp: tail_ok_def addr lock_arrive_def Let_def less_Suc_eq split: promise.splits)
  qed
  have 3: "\<exists>p. map_get (lk_previous ?st) j = Some p \<and> tail_ok ?st a j p"
    if "map_get (lk_addr ?st) j = Some a" for j a
  proof (cases "j = ?n")
    case True
    then have "a = b" using that by (simp add: addr)
    then show ?thesis using True tails [of b] cong [of ?n b]
      by (auto simp: lock_arrive_def Let_def)
  next
    case False
    then have j: "map_get (lk_addr st) j = Some a" "j < ?n" using that dom [of j] by (auto simp: addr)
    then obtain p where "map_get (lk_previous st) j = Some p" "tail_ok st a j p"
      using lock_inv_prev [OF assms] by blast
    then show ?thesis using False j cong [of j a p] by (auto simp: lock_arrive_def Let_def)
  qed
  have 4: "j < lk_next ?st \<and> (\<forall>i. earlier ?st i j \<longrightarrow> i \<in> set (lk_released ?st))"
    if "j \<in> set (lk_inside ?st) \<union> set (lk_released ?st)" for j
  proof -
    have "j \<in> set (lk_inside st) \<union> set (lk_released st)"
      using that by (simp add: lock_arrive_def Let_def)
    then have j: "j < ?n" "\<forall>i. earlier st i j \<longrightarrow> i \<in> set (lk_released st)"
      using assms by (auto simp: lock_inv_def)
    then have "earlier ?st i j \<longleftrightarrow> earlier st i j" for i
      by (auto simp: earlier_def same_addr_def addr)
    then show ?thesis using j by (simp add: lock_arrive_def Let_def)
  qed
  have 5: "set (lk_inside ?st) \<inter> set (lk_released ?st) = {}"
    using assms by (simp add: lock_inv_def lock_arrive_def Let_def)
  show ?thesis
    unfolding lock_inv_def using 1 2 3 4 5 by blast
qed

text \<open>A caller whose awaited promise has resolved has only released callers of its address before it.\<close>

lemma resolved_all_earlier:
  assumes "lock_inv st" "map_get (lk_previous st) j = Some p" "resolves st p" "earlier st i j"
  shows "i \<in> set (lk_released st)"
proof -
  obtain a where a: "map_get (lk_addr st) j = Some a" "map_get (lk_addr st) i = Some a" "i < j"
    using assms(4) unfolding earlier_def same_addr_def by fastforce
  have t: "tail_ok st a j p" using lock_inv_prev [OF assms(1) a(1)] assms(2) by auto
  show ?thesis
  proof (cases p)
    case Resolved
    then show ?thesis using t a by (auto simp: tail_ok_def)
  next
    case (Current k)
    then show ?thesis using t by (simp add: tail_ok_def)
  next
    case (Chained k)
    then have k: "map_get (lk_addr st) k = Some a" "i \<le> k"
      using t a by (auto simp: tail_ok_def not_less [symmetric])
    have r: "k \<in> set (lk_released st)"
      using assms(3) Chained by (auto elim: resolves_ChainedE resolves_CurrentE)
    show ?thesis
    proof (cases "i = k")
      case False
      then have "earlier st i k" using k a by (simp add: earlier_def same_addr_def)
      then show ?thesis using assms(1) r by (auto simp: lock_inv_def)
    qed (use r in simp)
  qed
qed

lemma lock_inv_enter:
  assumes "lock_inv st" "can_enter st i"
  shows "lock_inv (lock_enter i st)"
proof -
  let ?st = "lock_enter i st"
  have same: "lk_addr ?st = lk_addr st" "lk_next ?st = lk_next st" "lk_locks ?st = lk_locks st"
    "lk_previous ?st = lk_previous st" "lk_released ?st = lk_released st"
    by (simp_all add: lock_enter_def)
  have tail: "tail_ok ?st = tail_ok st" by (simp add: fun_eq_iff tail_ok_def same split: promise.split)
  have earlier: "earlier ?st = earlier st" by (simp add: fun_eq_iff earlier_def same_addr_def same)
  have i: "i < lk_next st" "i \<notin> set (lk_released st)" "\<forall>k. earlier st k i \<longrightarrow> k \<in> set (lk_released st)"
    using assms(2) resolved_all_earlier [OF assms(1)] assms(1)
    by (auto simp: can_enter_def waiting_def lock_inv_def)
  show ?thesis
    using assms(1) i unfolding lock_inv_def same tail earlier
    by (auto simp: lock_enter_def)
qed

lemma tail_ok_not_current:
  "lock_inv st \<Longrightarrow> map_get (lk_locks st) a \<noteq> Some (Current i)"
proof
  assume "lock_inv st" "map_get (lk_locks st) a = Some (Current i)"
  then have "tail_ok st a (lk_next st) (Current i)"
    unfolding lock_inv_def by (metis option.simps(5))
  then show False by (simp add: tail_ok_def)
qed

lemma leave_keeps_locks: "lock_inv st \<Longrightarrow> lk_locks (lock_leave i st) = lk_locks st"
  using tail_ok_not_current [of st] by (simp add: lock_leave_def Let_def)

lemma lock_inv_leave:
  assumes "lock_inv st" "i \<in> set (lk_inside st)"
  shows "lock_inv (lock_leave i st)"
proof -
  let ?st = "lock_leave i st"
  have same: "lk_addr ?st = lk_addr st" "lk_next ?st = lk_next st" "lk_locks ?st = lk_locks st"
    "lk_previous ?st = lk_previous st"
    using leave_keeps_locks [OF assms(1)] by (simp_all add: lock_leave_def Let_def)
  have tail: "tail_ok ?st = tail_ok st" by (simp add: fun_eq_iff tail_ok_def same split: promise.split)
  have earlier: "earlier ?st = earlier st" by (simp add: fun_eq_iff earlier_def same_addr_def same)
  have sets: "set (lk_inside ?st) = set (lk_inside st) - {i}"
    "set (lk_released ?st) = insert i (set (lk_released st))"
    by (auto simp: lock_leave_def Let_def)
  show ?thesis
    using assms unfolding lock_inv_def same tail earlier sets by blast
qed

lemma lock_reach_inv: "lock_reach st \<Longrightarrow> lock_inv st"
  by (induction rule: lock_reach.induct)
    (auto intro: lock_inv_init lock_inv_arrive lock_inv_enter lock_inv_leave)

section \<open>Properties\<close>

text \<open>C35: builds of one address never overlap and run in order of arrival: a caller is inside only
  when every earlier caller of its address has left, and two callers inside have different
  addresses.\<close>

theorem build_lock_exclusive_fifo:
  assumes "lock_reach st" "j \<in> set (lk_inside st)"
  shows "(\<forall>i < j. map_get (lk_addr st) i = map_get (lk_addr st) j \<longrightarrow> i \<in> set (lk_released st))
    \<and> (\<forall>i \<in> set (lk_inside st). i \<noteq> j \<longrightarrow> map_get (lk_addr st) i \<noteq> map_get (lk_addr st) j)"
proof -
  have inv: "lock_inv st" by (rule lock_reach_inv [OF assms(1)])
  have some: "map_get (lk_addr st) i \<noteq> None" if "i \<in> set (lk_inside st)" for i
    using inv that unfolding lock_inv_def by blast
  have rel: "i \<in> set (lk_released st)" if "k \<in> set (lk_inside st)" "i < k"
    "map_get (lk_addr st) i = map_get (lk_addr st) k" for i k
  proof -
    have "earlier st i k" using that some by (simp add: earlier_def same_addr_def)
    then show ?thesis using inv that(1) unfolding lock_inv_def by blast
  qed
  moreover have "map_get (lk_addr st) i \<noteq> map_get (lk_addr st) j"
    if "i \<in> set (lk_inside st)" "i \<noteq> j" for i
  proof
    assume eq: "map_get (lk_addr st) i = map_get (lk_addr st) j"
    have "i < j \<or> j < i" using that(2) by linarith
    then have "i \<in> set (lk_released st) \<or> j \<in> set (lk_released st)"
      using rel [OF assms(2)] rel [OF that(1)] eq by metis
    then show False using inv that(1) assms(2) unfolding lock_inv_def by blast
  qed
  ultimately show ?thesis using assms(2) by blast
qed

lemma earlier_trans: "earlier st i k \<Longrightarrow> earlier st k j \<Longrightarrow> earlier st i j"
  unfolding earlier_def same_addr_def by (metis less_trans)

lemma earlier_released_resolves:
  assumes inv: "lock_inv st"
  shows "map_get (lk_addr st) j \<noteq> None \<Longrightarrow> (\<forall>i. earlier st i j \<longrightarrow> i \<in> set (lk_released st)) \<Longrightarrow>
    \<exists>p. map_get (lk_previous st) j = Some p \<and> resolves st p"
proof (induction j rule: less_induct)
  case (less j)
  obtain a p where a: "map_get (lk_addr st) j = Some a" "map_get (lk_previous st) j = Some p"
    "tail_ok st a j p"
    using less.prems(1) lock_inv_prev [OF inv] by blast
  show ?case
  proof (cases p)
    case Resolved
    then show ?thesis using a resolves_resolved by blast
  next
    case (Current k)
    then show ?thesis using a by (simp add: tail_ok_def)
  next
    case (Chained k)
    then have k: "k < j" "map_get (lk_addr st) k = Some a" using a(3) by (auto simp: tail_ok_def)
    then have kj: "earlier st k j" using a by (simp add: earlier_def same_addr_def)
    have "\<forall>i. earlier st i k \<longrightarrow> i \<in> set (lk_released st)"
      using less.prems(2) kj earlier_trans by blast
    then obtain q where q: "map_get (lk_previous st) k = Some q" "resolves st q"
      using less.IH [OF k(1)] k(2) by blast
    have "resolves st (Current k)" using less.prems(2) kj by (blast intro: resolves_current)
    then have "resolves st (Chained k)" using q by (blast intro: resolves_chained)
    then show ?thesis using a(2) Chained by blast
  qed
qed

text \<open>C39: the lock cannot deadlock: while a caller waits, a caller of its address is inside or one of
  them, the earliest that has not left, can enter.\<close>

theorem build_lock_progress:
  assumes "lock_reach st" "waiting st j"
  shows "\<exists>i \<le> j. map_get (lk_addr st) i = map_get (lk_addr st) j \<and> (i \<in> set (lk_inside st) \<or> can_enter st i)"
proof -
  let ?P = "\<lambda>i. map_get (lk_addr st) i = map_get (lk_addr st) j \<and> i \<notin> set (lk_released st)"
  have pj: "?P j" using assms(2) by (simp add: waiting_def)
  define i where "i = (LEAST i. ?P i)"
  have i: "?P i" "i \<le> j" "\<And>k. ?P k \<Longrightarrow> i \<le> k"
    unfolding i_def using LeastI [of ?P j, OF pj] Least_le [of ?P] pj by simp_all
  have some: "map_get (lk_addr st) i \<noteq> None" using i(1) assms(2) by (simp add: waiting_def)
  have "\<forall>k. earlier st k i \<longrightarrow> k \<in> set (lk_released st)"
  proof (intro allI impI)
    fix k assume k: "earlier st k i"
    then have "k < i" "map_get (lk_addr st) k = map_get (lk_addr st) j"
      using i(1) by (simp_all add: earlier_def same_addr_def)
    then show "k \<in> set (lk_released st)" using i(3) [of k] by force
  qed
  from earlier_released_resolves [OF lock_reach_inv [OF assms(1)] some this]
  have "i \<in> set (lk_inside st) \<or> can_enter st i"
    using i(1) some by (auto simp: can_enter_def waiting_def)
  then show ?thesis using i by blast
qed

lemma reach_has_lock:
  "lock_reach st \<Longrightarrow> map_get (lk_addr st) i = Some a \<Longrightarrow> \<exists>k. map_get (lk_locks st) a = Some (Chained k)"
proof -
  assume r: "lock_reach st" and a: "map_get (lk_addr st) i = Some a"
  have inv: "lock_inv st" by (rule lock_reach_inv [OF r])
  then have "i < lk_next st"
    "tail_ok st a (lk_next st) (case map_get (lk_locks st) a of Some p \<Rightarrow> p | None \<Rightarrow> Resolved)"
    using a unfolding lock_inv_def by blast+
  then show ?thesis using a
    by (cases "map_get (lk_locks st) a") (auto simp: tail_ok_def split: promise.splits)
qed

text \<open>The map of locks keeps an entry for every address that ever built, also after its last
  caller has left: the stored promise is the chained one, so the comparison with \<open>current\<close> before the
  deletion never holds.\<close>

theorem build_lock_entries_stay:
  assumes "lock_reach st" "map_get (lk_addr st) i = Some a"
  shows "\<exists>k. map_get (lk_locks st) a = Some (Chained k) \<and>
    (\<forall>j. map_get (lk_locks (lock_leave j st)) a = Some (Chained k))"
  using reach_has_lock [OF assms] leave_keeps_locks [OF lock_reach_inv [OF assms(1)]] by auto

section \<open>Witnesses\<close>

definition two_callers :: lock_state where
  "two_callers = lock_enter 0 (lock_arrive ''GA'' (lock_arrive ''GA'' lock_init))"

lemma two_callers_eq: "two_callers = \<lparr>lk_next = 2, lk_addr = [(0, ''GA''), (1, ''GA'')],
    lk_locks = [(''GA'', Chained 1)], lk_previous = [(0, Resolved), (1, Chained 0)],
    lk_inside = [0], lk_released = []\<rparr>"
  by (simp add: two_callers_def lock_arrive_def lock_enter_def lock_init_def Let_def)

lemma two_callers_reach: "lock_reach two_callers"
  unfolding two_callers_def
proof (intro reach_enter reach_arrive reach_init)
  show "can_enter (lock_arrive ''GA'' (lock_arrive ''GA'' lock_init)) 0"
    by (auto simp: can_enter_def waiting_def lock_arrive_def lock_init_def Let_def
        intro: resolves_resolved)
qed

theorem build_lock_exclusive_fifo_witness:
  "\<not> can_enter two_callers 1 \<and> (1::nat) \<notin> set (lk_inside two_callers)"
proof
  show "\<not> can_enter two_callers 1"
    by (auto simp: can_enter_def two_callers_eq elim!: resolves_ChainedE resolves_CurrentE)
  have "0 \<in> set (lk_inside two_callers)" by (simp add: two_callers_eq)
  moreover have "map_get (lk_addr two_callers) 1 = map_get (lk_addr two_callers) 0"
    by (simp add: two_callers_eq)
  ultimately show "(1::nat) \<notin> set (lk_inside two_callers)"
    using build_lock_exclusive_fifo [OF two_callers_reach, of 0] by auto
qed

theorem build_lock_progress_witness:
  "\<exists>i \<le> 1. i \<in> set (lk_inside two_callers) \<or> can_enter two_callers i"
  using build_lock_progress [OF two_callers_reach, of 1] by (auto simp: waiting_def two_callers_eq)

theorem build_lock_entries_stay_witness:
  "\<exists>k. map_get (lk_locks (lock_leave 0 two_callers)) ''GA'' = Some (Chained k)"
  using build_lock_entries_stay [OF two_callers_reach, of 0 "''GA''"] by (auto simp: two_callers_eq)

end
