(* ===== verification/Rbac.thy ===== *)
theory Rbac
  imports Http Database
begin

text \<open>
  \<open>src/backend/src/middleware/rbac.js\<close>: roles, API keys stored by hash, and the two gates.  The tables
  \<open>users\<close> and \<open>api_keys\<close> are those of migration 8 in \<open>core.js\<close>, with their unique, check and foreign
  key constraints; the hash function is a parameter.

  The code compares positions in the array \<open>ROLES\<close>.  The specification is the linear order of the
  datatype \<open>role\<close>, and \<open>role_index_refines\<close> relates the two.
\<close>

datatype role = Viewer | Collaborator | Operator | Admin

fun role_rank :: "role \<Rightarrow> nat" where
  "role_rank Viewer = 0"
| "role_rank Collaborator = 1"
| "role_rank Operator = 2"
| "role_rank Admin = 3"

instantiation role :: linorder
begin

definition less_eq_role :: "role \<Rightarrow> role \<Rightarrow> bool" where
  "less_eq_role a b \<longleftrightarrow> role_rank a \<le> role_rank b"

definition less_role :: "role \<Rightarrow> role \<Rightarrow> bool" where
  "less_role a b \<longleftrightarrow> role_rank a < role_rank b"

instance
proof
  fix a b c :: role
  show "a \<le> a" by (simp add: less_eq_role_def)
  show "a < b \<longleftrightarrow> a \<le> b \<and> \<not> b \<le> a" by (auto simp: less_eq_role_def less_role_def)
  show "a \<le> b \<Longrightarrow> b \<le> c \<Longrightarrow> a \<le> c" by (simp add: less_eq_role_def)
  show "a \<le> b \<Longrightarrow> b \<le> a \<Longrightarrow> a = b"
    by (cases a; cases b) (simp_all add: less_eq_role_def)
  show "a \<le> b \<or> b \<le> a" by (auto simp: less_eq_role_def)
qed

end

fun role_name :: "role \<Rightarrow> string" where
  "role_name Viewer = ''viewer''"
| "role_name Collaborator = ''collaborator''"
| "role_name Operator = ''operator''"
| "role_name Admin = ''admin''"

section \<open>Data\<close>

definition roles :: "string list" where
  "roles = [''viewer'', ''collaborator'', ''operator'', ''admin'']"

fun index_of :: "string list \<Rightarrow> string \<Rightarrow> int" where
  "index_of [] x = -1"
| "index_of (y # ys) x = (if y = x then 0 else let i = index_of ys x in if i < 0 then -1 else i + 1)"

record user_row =
  us_wallet :: "string option"
  us_role :: string
  us_active :: bool

record key_row =
  ak_hash :: string
  ak_user :: nat
  ak_expires :: "string option"

record rbac_tables =
  users :: "user_row table"
  api_keys :: "key_row table"

type_synonym 'a rbac_op = "(rbac_tables, 'a) db_op"

section \<open>Operations\<close>

text \<open>A key resolves while its expiry, compared as a string, is after \<open>CURRENT_TIMESTAMP\<close>.\<close>

definition key_matches :: "string \<Rightarrow> int \<Rightarrow> rbac_tables \<Rightarrow> nat \<times> key_row \<Rightarrow> bool" where
  "key_matches h now t k \<longleftrightarrow> ak_hash (snd k) = h
     \<and> (case ak_expires (snd k) of None \<Rightarrow> True | Some e \<Rightarrow> sql_timestamp now < e)
     \<and> (case t_get (by_id (ak_user (snd k))) (users t) of None \<Rightarrow> False | Some u \<Rightarrow> us_active (snd u))"

definition resolve_role :: "(string \<Rightarrow> string) \<Rightarrow> string option \<Rightarrow> int \<Rightarrow> rbac_tables \<Rightarrow> string option" where
  "resolve_role hash api_key now t =
     (if \<not> truthy api_key then None
      else case t_get (key_matches (hash (the api_key)) now t) (api_keys t) of
             None \<Rightarrow> None
           | Some k \<Rightarrow> map_option (\<lambda>u. us_role (snd u)) (t_get (by_id (ak_user (snd k))) (users t)))"

definition attach_role :: "(string \<Rightarrow> string) \<Rightarrow> string option \<Rightarrow> int \<Rightarrow> rbac_tables \<Rightarrow> string" where
  "attach_role hash api_key now t =
     (case resolve_role hash api_key now t of None \<Rightarrow> ''viewer'' | Some r \<Rightarrow> r)"

definition forbidden :: response where
  "forbidden = send_error 403 (Some ''forbidden'') ''Insufficient permissions'' []"

definition unauthorized :: response where
  "unauthorized = send_error 401 (Some ''unauthorized'') ''Unauthorized'' []"

definition role_or_viewer :: "string option \<Rightarrow> string" where
  "role_or_viewer r = (case r of None \<Rightarrow> ''viewer'' | Some x \<Rightarrow> x)"

text \<open>\<open>requireRole(minRole)\<close> throws when it is built with an unknown role; otherwise it is a gate.\<close>

definition require_role :: "string \<Rightarrow> (string option \<Rightarrow> unit outcome) res" where
  "require_role min_role =
     (let m = index_of roles min_role in
      if m = -1 then Inl (PlainError (''Unknown role: '' @ min_role))
      else Inr (\<lambda>r. if m \<le> index_of roles (role_or_viewer r) then Next () else Respond forbidden))"

definition require_admin_bearer_or_role ::
  "string option \<Rightarrow> string \<Rightarrow> string option \<Rightarrow> string option \<Rightarrow> unit outcome" where
  "require_admin_bearer_or_role configured min_role authorization r =
     (let bearer = (case authorization of
            Some h \<Rightarrow> starts_with h ''Bearer '' \<and> truthy configured
              \<and> trim (drop 7 h) = the configured
          | None \<Rightarrow> False)
      in if bearer \<or> index_of roles min_role \<le> index_of roles (role_or_viewer r) then Next ()
         else Respond unauthorized)"

definition create_api_key ::
  "(string \<Rightarrow> string) \<Rightarrow> string \<Rightarrow> nat \<Rightarrow> string option \<Rightarrow> nat rbac_op" where
  "create_api_key hash plain user expires d =
     (let t = tables d in
      if \<exists>k \<in> set (trows (api_keys t)). ak_hash (snd k) = hash plain then
        (Inl (SqliteError ''UNIQUE constraint failed: api_keys.keyHash''), d)
      else if t_get (by_id user) (users t) = None then
        (Inl (SqliteError ''FOREIGN KEY constraint failed''), d)
      else
        let (i, ks) = t_insert \<lparr>ak_hash = hash plain, ak_user = user, ak_expires = expires\<rparr> (api_keys t)
        in (Inr i, d\<lparr>tables := t\<lparr>api_keys := ks\<rparr>\<rparr>))"

definition create_user :: "string option \<Rightarrow> string \<Rightarrow> nat rbac_op" where
  "create_user wallet r d =
     (let t = tables d in
      if r \<notin> set roles then (Inl (PlainError (''Unknown role: '' @ r)), d)
      else if wallet \<noteq> None \<and> (\<exists>u \<in> set (trows (users t)). us_wallet (snd u) = wallet) then
        (Inl (SqliteError ''UNIQUE constraint failed: users.walletAddress''), d)
      else
        let (i, us) = t_insert \<lparr>us_wallet = wallet, us_role = r, us_active = True\<rparr> (users t)
        in (Inr i, d\<lparr>tables := t\<lparr>users := us\<rparr>\<rparr>))"

section \<open>Lemmas\<close>

lemma role_index_refines:
  "index_of roles (role_name a) \<le> index_of roles (role_name b) \<longleftrightarrow> a \<le> b"
  by (cases a; cases b) (simp_all add: roles_def less_eq_role_def)

lemma role_name_known: "r \<in> set roles \<longleftrightarrow> (\<exists>x. r = role_name x)"
proof
  assume "r \<in> set roles"
  then show "\<exists>x. r = role_name x"
    by (auto simp: roles_def intro: exI [of _ Viewer] exI [of _ Collaborator] exI [of _ Operator]
        exI [of _ Admin])
next
  assume "\<exists>x. r = role_name x"
  then obtain x where "r = role_name x" ..
  then show "r \<in> set roles" by (cases x) (simp_all add: roles_def)
qed

lemma role_name_in [simp]: "role_name x \<in> set roles"
  using role_name_known by blast

lemma role_name_inject [simp]: "role_name a = role_name b \<longleftrightarrow> a = b"
  by (cases a; cases b) simp_all

lemma index_of_in: "x \<in> set xs \<Longrightarrow> 0 \<le> index_of xs x"
  by (induction xs) (auto simp: Let_def)

lemma index_of_out: "x \<notin> set xs \<Longrightarrow> index_of xs x = -1"
  by (induction xs) (auto simp: Let_def)

lemma index_role_pos: "0 \<le> index_of roles (role_name m)"
  by (rule index_of_in) simp

text \<open>The rank of a role string reaches that of a role exactly when it names a role as high.\<close>

lemma index_reaches:
  "index_of roles (role_name m) \<le> index_of roles r \<longleftrightarrow> (\<exists>x. r = role_name x \<and> m \<le> x)"
proof (cases "r \<in> set roles")
  case True
  then show ?thesis using role_name_known [of r] role_index_refines by auto
next
  case False
  then show ?thesis using index_of_out [OF False] index_role_pos [of m] by auto
qed

lemma gate_of: "require_role (role_name m) = Inr gate \<Longrightarrow>
    gate r = (if \<exists>x. role_or_viewer r = role_name x \<and> m \<le> x then Next () else Respond forbidden)"
  using index_role_pos [of m] by (auto simp: require_role_def Let_def index_reaches split: if_splits)

section \<open>The invariant of the tables\<close>

definition rbac_ok :: "rbac_tables \<Rightarrow> bool" where
  "rbac_ok t \<longleftrightarrow> t_ok (users t) \<and> t_ok (api_keys t)
     \<and> (\<forall>u \<in> set (trows (users t)). us_role (snd u) \<in> set roles)
     \<and> (\<forall>k \<in> set (trows (api_keys t)). ak_user (snd k) \<in> fst ` set (trows (users t)))
     \<and> (\<forall>k \<in> set (trows (api_keys t)). \<forall>l \<in> set (trows (api_keys t)).
          ak_hash (snd k) = ak_hash (snd l) \<longrightarrow> k = l)"

text \<open>Creating users and API keys keeps the access tables well formed: every user has a known
  role, every key belongs to an existing user, and no two keys have the same hash.\<close>

theorem rbac_tables_wellformed:
  assumes "rbac_ok (tables d)"
  shows "rbac_ok (tables (snd (create_user wallet r d)))
    \<and> rbac_ok (tables (snd (create_api_key hash plain user expires d)))"
proof
  show "rbac_ok (tables (snd (create_user wallet r d)))"
    using assms tb.ok_ins [of "users (tables d)"]
    by (auto simp: create_user_def rbac_ok_def Let_def split_beta t_insert_def)
next
  let ?t = "tables d" and ?op = "create_api_key hash plain user expires"
  let ?row = "\<lparr>ak_hash = hash plain, ak_user = user, ak_expires = expires\<rparr>"
  show "rbac_ok (tables (snd (?op d)))"
  proof (cases "fst (?op d)")
    case (Inl e)
    then have "snd (?op d) = d"
      by (auto simp: create_api_key_def Let_def split_beta split: if_splits)
    then show ?thesis using assms by simp
  next
    case (Inr i)
    then have new: "\<forall>k \<in> set (trows (api_keys ?t)). ak_hash (snd k) \<noteq> hash plain"
      and user: "t_get (by_id user) (users ?t) \<noteq> None"
      and res: "tables (snd (?op d)) = ?t\<lparr>api_keys := snd (t_insert ?row (api_keys ?t))\<rparr>"
      by (auto simp: create_api_key_def Let_def split_beta split: if_splits)
    have "user \<in> fst ` set (trows (users ?t))"
      using user by (auto simp: t_get_def by_id_def find_None_iff2)
    moreover have "t_ok (snd (t_insert ?row (api_keys ?t)))"
      using assms by (intro tb.ok_ins) (simp add: rbac_ok_def)
    moreover have "trows (snd (t_insert ?row (api_keys ?t))) =
        trows (api_keys ?t) @ [(Suc (tseq (api_keys ?t)), ?row)]"
      by (simp add: t_insert_def)
    ultimately show ?thesis using assms new unfolding rbac_ok_def res
      by (simp add: ball_Un) metis
  qed
qed

definition demo_rbac :: rbac_tables where
  "demo_rbac = \<lparr>users = \<lparr>tseq = 2, trows = [(1, \<lparr>us_wallet = None, us_role = ''operator'', us_active = True\<rparr>),
       (2, \<lparr>us_wallet = Some ''GA'', us_role = ''admin'', us_active = False\<rparr>)]\<rparr>,
     api_keys = \<lparr>tseq = 2, trows = [(1, \<lparr>ak_hash = ''h:k1'', ak_user = 1, ak_expires = None\<rparr>),
       (2, \<lparr>ak_hash = ''h:k2'', ak_user = 2, ak_expires = None\<rparr>)]\<rparr>\<rparr>"

lemma demo_rbac_ok: "rbac_ok demo_rbac"
  by (simp add: rbac_ok_def demo_rbac_def t_ok_def roles_def)

theorem rbac_tables_wellformed_witness:
  "rbac_ok (tables (snd (create_user (Some ''GB'') ''root'' (core_connection demo_rbac))))
   \<and> rbac_ok (tables (snd (create_api_key (\<lambda>k. ''h:'' @ k) ''k3'' 2 None (core_connection demo_rbac))))"
  by (rule rbac_tables_wellformed) (simp add: demo_rbac_ok)

section \<open>Properties of the gates\<close>

lemma resolve_role_iff:
  assumes "rbac_ok t"
  shows "resolve_role hash (Some key) now t = Some r \<longleftrightarrow>
    key \<noteq> [] \<and> (\<exists>k \<in> set (trows (api_keys t)). \<exists>u. ak_hash (snd k) = hash key
      \<and> (case ak_expires (snd k) of None \<Rightarrow> True | Some e \<Rightarrow> sql_timestamp now < e)
      \<and> (ak_user (snd k), u) \<in> set (trows (users t)) \<and> us_active u \<and> us_role u = r)"
  (is "?L \<longleftrightarrow> ?R")
proof
  assume ?L
  then obtain k u where ku: "key \<noteq> []" "t_get (key_matches (hash key) now t) (api_keys t) = Some k"
    "t_get (by_id (ak_user (snd k))) (users t) = Some u" "us_role (snd u) = r"
    by (auto simp: resolve_role_def split: if_splits option.splits)
  then have "key_matches (hash key) now t k" by (auto simp: t_get_def dest!: find_Some_mem)
  then have "us_active (snd u)" using ku(3) by (simp add: key_matches_def)
  with ku have "k \<in> set (trows (api_keys t))" "key_matches (hash key) now t k"
    "u \<in> set (trows (users t))" "fst u = ak_user (snd k)" and b: "us_role (snd u) = r" "key \<noteq> []"
    "us_active (snd u)"
    by (auto simp: t_get_def by_id_def key_matches_def dest!: find_Some_mem)
  then have "ak_hash (snd k) = hash key
      \<and> (case ak_expires (snd k) of None \<Rightarrow> True | Some e \<Rightarrow> sql_timestamp now < e)
      \<and> (ak_user (snd k), snd u) \<in> set (trows (users t))"
    by (auto simp: key_matches_def) (metis prod.collapse)
  then show ?R using b \<open>k \<in> set (trows (api_keys t))\<close> by blast
next
  assume ?R
  then obtain k u where k: "key \<noteq> []" "k \<in> set (trows (api_keys t))" "ak_hash (snd k) = hash key"
    "case ak_expires (snd k) of None \<Rightarrow> True | Some e \<Rightarrow> sql_timestamp now < e"
    "(ak_user (snd k), u) \<in> set (trows (users t))" "us_active u" "us_role u = r" by blast
  have u: "t_get (by_id (ak_user (snd k))) (users t) = Some (ak_user (snd k), u)"
    using tb.find_id [OF _ k(5)] assms by (simp add: rbac_ok_def t_get_def)
  then have m: "key_matches (hash key) now t k" using k by (simp add: key_matches_def)
  then obtain l where l: "t_get (key_matches (hash key) now t) (api_keys t) = Some l"
    using k(2) find_None_iff2 [of "key_matches (hash key) now t" "trows (api_keys t)"]
    by (cases "t_get (key_matches (hash key) now t) (api_keys t)") (auto simp: t_get_def)
  then have "l \<in> set (trows (api_keys t))" "ak_hash (snd l) = hash key"
    by (auto simp: t_get_def key_matches_def dest!: find_Some_mem)
  then have "l = k" using assms k unfolding rbac_ok_def by metis
  then show ?L using k u l by (simp add: resolve_role_def)
qed

text \<open>C36: behind \<open>attachRole\<close>, the gate for a role above viewer admits a request exactly when it
  carries an API key whose hash is stored, which has not expired, and whose user is active with a
  role at least as high in the order of roles; deactivating the user or the expiry of the key
  closes the gate at once.\<close>

theorem role_gate_admits_iff:
  assumes "rbac_ok t" "require_role (role_name m) = Inr gate" "Viewer < m"
  shows "gate (Some (attach_role hash (Some key) now t)) = Next () \<longleftrightarrow>
    key \<noteq> [] \<and> (\<exists>k \<in> set (trows (api_keys t)). \<exists>u x. ak_hash (snd k) = hash key
      \<and> (case ak_expires (snd k) of None \<Rightarrow> True | Some e \<Rightarrow> sql_timestamp now < e)
      \<and> (ak_user (snd k), u) \<in> set (trows (users t)) \<and> us_active u \<and> us_role u = role_name x \<and> m \<le> x)"
proof -
  have v: "\<not> m \<le> x" if "''viewer'' = role_name x" for x
    using that assms(3) by (cases x) auto
  have "gate (Some (attach_role hash (Some key) now t)) = Next () \<longleftrightarrow>
      (\<exists>x. attach_role hash (Some key) now t = role_name x \<and> m \<le> x)"
    by (simp add: gate_of [OF assms(2)] role_or_viewer_def)
  also have "\<dots> \<longleftrightarrow> (\<exists>x. resolve_role hash (Some key) now t = Some (role_name x) \<and> m \<le> x)"
    using v by (auto simp: attach_role_def split: option.splits)
  also have "\<dots> \<longleftrightarrow> key \<noteq> [] \<and> (\<exists>k \<in> set (trows (api_keys t)). \<exists>u x. ak_hash (snd k) = hash key
      \<and> (case ak_expires (snd k) of None \<Rightarrow> True | Some e \<Rightarrow> sql_timestamp now < e)
      \<and> (ak_user (snd k), u) \<in> set (trows (users t)) \<and> us_active u \<and> us_role u = role_name x \<and> m \<le> x)"
    unfolding resolve_role_iff [OF assms(1)] by blast
  finally show ?thesis .
qed

theorem role_gate_admits_iff_witness:
  "\<exists>gate. require_role ''operator'' = Inr gate
    \<and> gate (Some (attach_role (\<lambda>k. ''h:'' @ k) (Some ''k1'') 0 demo_rbac)) = Next ()
    \<and> gate (Some (attach_role (\<lambda>k. ''h:'' @ k) (Some ''k2'') 0 demo_rbac)) \<noteq> Next ()"
proof -
  obtain gate where g: "require_role (role_name Operator) = Inr gate"
    by (simp add: require_role_def roles_def Let_def)
  have "Viewer < Operator" by (simp add: less_role_def)
  note iff = role_gate_admits_iff [OF demo_rbac_ok g this]
  have "''operator'' = role_name Operator" by simp
  then have "gate (Some (attach_role (\<lambda>k. ''h:'' @ k) (Some ''k1'') 0 demo_rbac)) = Next ()"
    unfolding iff by (auto simp: demo_rbac_def intro!: exI [of _ Operator])
  moreover have "gate (Some (attach_role (\<lambda>k. ''h:'' @ k) (Some ''k2'') 0 demo_rbac)) \<noteq> Next ()"
    unfolding iff by (auto simp: demo_rbac_def)
  ultimately show ?thesis using g by auto
qed

text \<open>The two gates disagree on an unknown role name: \<open>requireRole\<close> refuses to be built with it,
  \<open>requireAdminBearerOrRole\<close> builds a gate that admits every request, anonymous ones included.\<close>

theorem unknown_role_opens_admin_gate:
  assumes "min_role \<notin> set roles"
  shows "require_role min_role = Inl (PlainError (''Unknown role: '' @ min_role))
    \<and> require_admin_bearer_or_role configured min_role authorization r = Next ()"
proof -
  have "-1 \<le> index_of roles x" for x
    using index_of_in [of x roles] index_of_out [of x roles] by (cases "x \<in> set roles") auto
  then show ?thesis using index_of_out [OF assms]
    by (simp add: require_role_def require_admin_bearer_or_role_def)
qed

theorem unknown_role_opens_admin_gate_witness:
  "require_admin_bearer_or_role None ''superadmin'' None None = Next ()"
  using unknown_role_opens_admin_gate [of "''superadmin''"] by (simp add: roles_def)

lemma wrong_bearer_refused:
  assumes "role_or_viewer r = role_name x" "x < m" "authorization = Some (''Bearer '' @ token)"
    and "configured \<noteq> Some (trim token)"
  shows "require_admin_bearer_or_role configured (role_name m) authorization r = Respond unauthorized"
  using assms role_index_refines [of m x]
  by (auto simp: require_admin_bearer_or_role_def starts_with_def truthy_iff Let_def)

end
