(* ===== verification/PaymentSchedules.thy ===== *)
theory PaymentSchedules
  imports AuditLog ScheduleCalculator
begin

text \<open>
  Payment schedules: \<open>src/backend/src/database/payment-schedules.js\<close> and one pass of
  \<open>src/backend/src/jobs/payment-schedule-job.js\<close>.  The simulation of a distribution (Stellar SDK and
  RPC server) is a parameter: it yields an error text or nothing.  The webhooks and WebSocket
  messages at the end of a step have no effect on the tables and are left out; nothing after them
  can throw.  Metadata is the stored JSON text.
\<close>

definition schedule_types :: "string list" where
  "schedule_types = [''monthly'', ''biweekly'', ''weekly'', ''custom'']"

section \<open>payment-schedules.js\<close>

definition get_payment_schedule :: "nat \<Rightarrow> (nat \<times> schedule_row) option ledger_op" where
  "get_payment_schedule i = op_read (\<lambda>l. t_get (by_id i) (schedules l))"

record schedule_params =
  sp_name :: string
  sp_type :: string
  sp_contract :: string
  sp_token :: string
  sp_wallet :: string
  sp_day_of_month :: "int option"
  sp_day_of_week :: "int option"
  sp_interval_days :: "int option"
  sp_anchor_date :: "string option"
  sp_hour_of_day :: int
  sp_timezone :: string
  sp_metadata :: "json option"

definition schedule_of_params :: "schedule_params \<Rightarrow> int \<Rightarrow> schedule_row" where
  "schedule_of_params p now =
     \<lparr>ps_name = sp_name p, ps_type = sp_type p, ps_contract = sp_contract p, ps_token = sp_token p,
      ps_wallet = sp_wallet p, ps_day_of_month = sp_day_of_month p, ps_day_of_week = sp_day_of_week p,
      ps_interval_days = sp_interval_days p, ps_anchor_date = sp_anchor_date p,
      ps_hour_of_day = sp_hour_of_day p, ps_timezone = sp_timezone p, ps_enabled = True,
      ps_last_run_at = None, ps_next_run_at = None, ps_metadata = map_option json_stringify (sp_metadata p),
      ps_created_at = sql_timestamp now, ps_updated_at = sql_timestamp now\<rparr>"

definition insert_schedule :: "schedule_row \<Rightarrow> ledger \<Rightarrow> nat \<times> ledger" where
  "insert_schedule r l = (let (i, t) = t_insert r (schedules l) in (i, l\<lparr>schedules := t\<rparr>))"

definition create_payment_schedule ::
  "schedule_params \<Rightarrow> int \<Rightarrow> (nat \<times> schedule_row) option ledger_op" where
  "create_payment_schedule p now =
     op_bind (counted_write (insert_schedule (schedule_of_params p now))) get_payment_schedule"

definition listed :: "string option \<Rightarrow> bool \<Rightarrow> nat \<times> schedule_row \<Rightarrow> bool" where
  "listed contract include_disabled x \<longleftrightarrow>
     given contract (\<lambda>c. ps_contract (snd x) = c) \<and> (include_disabled \<or> ps_enabled (snd x))"

definition list_payment_schedules ::
  "string option \<Rightarrow> bool \<Rightarrow> int \<Rightarrow> int \<Rightarrow> (nat \<times> schedule_row) list ledger_op" where
  "list_payment_schedules contract include_disabled limit offset =
     op_read (\<lambda>l. limit_offset limit offset
       (order_asc (\<lambda>x. (ps_contract (snd x), ps_name (snd x)))
         (t_select (listed contract include_disabled) (schedules l))))"

definition count_payment_schedules :: "string option \<Rightarrow> bool \<Rightarrow> nat ledger_op" where
  "count_payment_schedules contract include_disabled =
     op_read (\<lambda>l. t_count (listed contract include_disabled) (schedules l))"

text \<open>The entries of an update object, in key order; keys outside the allowed list are dropped.\<close>

datatype schedule_update =
    SetName string
  | SetDayOfMonth "int option"
  | SetDayOfWeek "int option"
  | SetIntervalDays "int option"
  | SetAnchorDate "string option"
  | SetHourOfDay int
  | SetTimezone string
  | SetEnabled bool
  | SetNextRunAt "string option"
  | SetMetadata "json option"
  | OtherField string

fun allowed_update :: "schedule_update \<Rightarrow> bool" where
  "allowed_update (OtherField f) = False"
| "allowed_update _ = True"

fun apply_update :: "schedule_update \<Rightarrow> schedule_row \<Rightarrow> schedule_row" where
  "apply_update (SetName n) r = r\<lparr>ps_name := n\<rparr>"
| "apply_update (SetDayOfMonth n) r = r\<lparr>ps_day_of_month := n\<rparr>"
| "apply_update (SetDayOfWeek n) r = r\<lparr>ps_day_of_week := n\<rparr>"
| "apply_update (SetIntervalDays n) r = r\<lparr>ps_interval_days := n\<rparr>"
| "apply_update (SetAnchorDate a) r = r\<lparr>ps_anchor_date := a\<rparr>"
| "apply_update (SetHourOfDay h) r = r\<lparr>ps_hour_of_day := h\<rparr>"
| "apply_update (SetTimezone z) r = r\<lparr>ps_timezone := z\<rparr>"
| "apply_update (SetEnabled b) r = r\<lparr>ps_enabled := b\<rparr>"
| "apply_update (SetNextRunAt t) r = r\<lparr>ps_next_run_at := t\<rparr>"
| "apply_update (SetMetadata m) r = r\<lparr>ps_metadata := map_option json_stringify m\<rparr>"
| "apply_update (OtherField f) r = r"

definition set_schedule ::
  "(nat \<times> schedule_row \<Rightarrow> bool) \<Rightarrow> (schedule_row \<Rightarrow> schedule_row) \<Rightarrow> ledger \<Rightarrow> unit \<times> ledger" where
  "set_schedule P f l = ((), l\<lparr>schedules := t_update P f (schedules l)\<rparr>)"

definition update_payment_schedule ::
  "nat \<Rightarrow> schedule_update list \<Rightarrow> int \<Rightarrow> (nat \<times> schedule_row) option ledger_op" where
  "update_payment_schedule i updates now =
     (let fields = filter allowed_update updates
      in if fields = [] then get_payment_schedule i
         else op_bind (counted_write (set_schedule (by_id i)
                (\<lambda>r. (fold apply_update fields r)\<lparr>ps_updated_at := sql_timestamp now\<rparr>)))
                (\<lambda>_. get_payment_schedule i))"

definition disable_payment_schedule :: "nat \<Rightarrow> int \<Rightarrow> unit ledger_op" where
  "disable_payment_schedule i now = counted_write (set_schedule (by_id i)
     (\<lambda>r. r\<lparr>ps_enabled := False, ps_updated_at := sql_timestamp now\<rparr>))"

definition delete_payment_schedule :: "nat \<Rightarrow> unit ledger_op" where
  "delete_payment_schedule i = counted_write (\<lambda>l. ((), l\<lparr>schedules := t_delete (by_id i) (schedules l)\<rparr>))"

definition is_due :: "string \<Rightarrow> nat \<times> schedule_row \<Rightarrow> bool" where
  "is_due now_iso x \<longleftrightarrow> ps_enabled (snd x)
     \<and> (case ps_next_run_at (snd x) of None \<Rightarrow> False | Some t \<Rightarrow> t \<le> now_iso)"

definition next_run_key :: "nat \<times> schedule_row \<Rightarrow> string" where
  "next_run_key x = (case ps_next_run_at (snd x) of None \<Rightarrow> [] | Some t \<Rightarrow> t)"

definition get_schedules_due :: "string \<Rightarrow> (nat \<times> schedule_row) list ledger_op" where
  "get_schedules_due now_iso =
     op_read (\<lambda>l. order_asc next_run_key (t_select (is_due now_iso) (schedules l)))"

definition mark_schedule_ran :: "nat \<Rightarrow> string \<Rightarrow> string \<Rightarrow> int \<Rightarrow> unit ledger_op" where
  "mark_schedule_ran i ran_at next_at now = counted_write (set_schedule (by_id i)
     (\<lambda>r. r\<lparr>ps_last_run_at := Some ran_at, ps_next_run_at := Some next_at, ps_updated_at := sql_timestamp now\<rparr>))"

definition set_next_run_at :: "nat \<Rightarrow> string \<Rightarrow> int \<Rightarrow> unit ledger_op" where
  "set_next_run_at i next_at now = counted_write (set_schedule (by_id i)
     (\<lambda>r. r\<lparr>ps_next_run_at := Some next_at, ps_updated_at := sql_timestamp now\<rparr>))"

definition get_upcoming_schedules :: "string option \<Rightarrow> int \<Rightarrow> (nat \<times> schedule_row) list ledger_op" where
  "get_upcoming_schedules contract limit =
     op_read (\<lambda>l. limit_offset limit 0 (order_asc next_run_key
       (t_select (\<lambda>x. ps_enabled (snd x) \<and> ps_next_run_at (snd x) \<noteq> None
          \<and> given contract (\<lambda>c. ps_contract (snd x) = c)) (schedules l))))"

section \<open>payment-schedule-job.js\<close>

definition rule_of :: "schedule_row \<Rightarrow> schedule_rule" where
  "rule_of r = \<lparr>sr_type = ps_type r, day_of_month = ps_day_of_month r, day_of_week = ps_day_of_week r,
     interval_days = ps_interval_days r, anchor_date = ps_anchor_date r,
     hour_of_day = Some (ps_hour_of_day r)\<rparr>"

datatype run_outcome = Triggered | Failed

definition lift_res :: "'a res \<Rightarrow> ('t, 'a) db_op" where
  "lift_res r d = (r, d)"

definition schedule_details :: "nat \<times> schedule_row \<Rightarrow> nat \<Rightarrow> (string \<times> json) list" where
  "schedule_details s tx = [(''scheduleId'', JNum (int (fst s))), (''scheduleName'', JStr (ps_name (snd s))),
     (''transactionId'', JNum (int tx))]"

definition trigger_schedule ::
  "(nat \<times> schedule_row \<Rightarrow> string option) \<Rightarrow> (string \<Rightarrow> int option) \<Rightarrow> int \<Rightarrow> nat \<times> schedule_row
    \<Rightarrow> run_outcome ledger_op" where
  "trigger_schedule simulate date_parse now s =
     (let r = snd s in
      if truthy (simulate s) then
        op_bind (record_transaction (ps_contract r) ''distribute'' (ps_wallet r) None (Some (ps_token r)) now) (\<lambda>tx.
        op_bind (add_audit_log (ps_contract r) ''scheduled_distribution_failed'' (Some (ps_wallet r))
                   (JObj (schedule_details s tx @ [(''error'', JStr (the (simulate s)))])) now) (\<lambda>_.
        op_return Failed))
      else
        op_bind (record_transaction (ps_contract r) ''distribute'' (ps_wallet r) None (Some (ps_token r)) now) (\<lambda>tx.
        op_bind (add_audit_log (ps_contract r) ''scheduled_distribution_triggered'' (Some (ps_wallet r))
                   (JObj (schedule_details s tx @ [(''scheduleType'', JStr (ps_type r))])) now) (\<lambda>_.
        op_bind (lift_res (compute_next_run date_parse (rule_of r) now)) (\<lambda>next_at.
        op_bind (mark_schedule_ran (fst s) (to_iso now) next_at now) (\<lambda>_.
        op_return Triggered)))))"

record run_counts =
  triggered :: nat
  skipped :: nat
  failed :: nat

fun run_due ::
  "(nat \<times> schedule_row \<Rightarrow> string option) \<Rightarrow> (string \<Rightarrow> int option) \<Rightarrow> int \<Rightarrow> (nat \<times> schedule_row) list
    \<Rightarrow> run_counts \<Rightarrow> run_counts ledger_op" where
  "run_due simulate date_parse now [] c = op_return c"
| "run_due simulate date_parse now (s # ss) c =
     op_bind (op_catch (trigger_schedule simulate date_parse now s) (\<lambda>_. op_return Failed)) (\<lambda>out.
       run_due simulate date_parse now ss
         (case out of Triggered \<Rightarrow> c\<lparr>triggered := triggered c + 1\<rparr> | Failed \<Rightarrow> c\<lparr>failed := failed c + 1\<rparr>))"

definition run_payment_schedules ::
  "(nat \<times> schedule_row \<Rightarrow> string option) \<Rightarrow> (string \<Rightarrow> int option) \<Rightarrow> int \<Rightarrow> run_counts ledger_op" where
  "run_payment_schedules simulate date_parse now =
     op_bind (get_schedules_due (to_iso now)) (\<lambda>due.
       run_due simulate date_parse now due \<lparr>triggered = 0, skipped = 0, failed = 0\<rparr>)"

section \<open>Due schedules\<close>

text \<open>Scheduling by strings is scheduling by time: a schedule whose next run was printed from the
  time \<open>t\<close> is returned as due exactly when it is enabled and \<open>t\<close> has come, and due schedules come in
  the order of their times.\<close>

theorem due_iff_time_reached:
  assumes "t_ok (schedules (tables d))" and "t_get (by_id i) (schedules (tables d)) = Some (i, r)"
    and "ps_next_run_at r = Some (to_iso t)" and "four_digit_year t" "four_digit_year now"
    and "fst (get_schedules_due (to_iso now) d) = Inr due"
  shows "((i, r) \<in> set due \<longleftrightarrow> ps_enabled r \<and> t \<le> now)
    \<and> sorted (map next_run_key due)"
proof -
  have due: "due = order_asc next_run_key (t_select (is_due (to_iso now)) (schedules (tables d)))"
    using assms(6) by (simp add: get_schedules_due_def op_read_def)
  have "(i, r) \<in> set (trows (schedules (tables d)))" using t_get_Some [OF assms(2)] by simp
  then show ?thesis
    using assms(3) to_iso_less_iff(2) [OF assms(4,5)]
    by (simp add: due is_due_def t_select_def sorted_order_asc)
qed

definition weekly_schedule :: schedule_row where
  "weekly_schedule = \<lparr>ps_name = ''w'', ps_type = ''weekly'', ps_contract = ''C1'', ps_token = ''T'',
     ps_wallet = ''G1'', ps_day_of_month = None, ps_day_of_week = Some 1, ps_interval_days = None,
     ps_anchor_date = None, ps_hour_of_day = 9, ps_timezone = ''UTC'', ps_enabled = True,
     ps_last_run_at = None, ps_next_run_at = Some (to_iso 0), ps_metadata = None,
     ps_created_at = sql_timestamp 0, ps_updated_at = sql_timestamp 0\<rparr>"

definition scheduled_ledger :: ledger where
  "scheduled_ledger = snd (insert_schedule weekly_schedule empty_ledger)"

lemma scheduled_rows: "trows (schedules scheduled_ledger) = [(1, weekly_schedule)]"
  "transactions scheduled_ledger = t_empty" "t_ok (schedules scheduled_ledger)"
  by (simp_all add: scheduled_ledger_def insert_schedule_def t_insert_def empty_ledger_def t_empty_def
      Let_def t_ok_def)

lemma four_digit_1970: "four_digit_year 0" "four_digit_year 5"
  by code_simp+

theorem due_iff_time_reached_witness:
  "(1, weekly_schedule) \<in> set (case fst (get_schedules_due (to_iso 5) (counted_connection scheduled_ledger)) of
      Inr due \<Rightarrow> due | Inl _ \<Rightarrow> [])"
proof -
  have g: "t_get (by_id 1) (schedules (tables (counted_connection scheduled_ledger))) = Some (1, weekly_schedule)"
    by (simp add: t_get_def scheduled_rows by_id_def)
  have ok: "t_ok (schedules (tables (counted_connection scheduled_ledger)))" by (simp add: scheduled_rows)
  have n: "ps_next_run_at weekly_schedule = Some (to_iso 0)" by (simp add: weekly_schedule_def)
  obtain due where due: "fst (get_schedules_due (to_iso 5) (counted_connection scheduled_ledger)) = Inr due"
    by (simp add: get_schedules_due_def op_read_def)
  from due_iff_time_reached [OF ok g n four_digit_1970 due]
  have "(1, weekly_schedule) \<in> set due" by (simp add: weekly_schedule_def)
  then show ?thesis using due by simp
qed

text \<open>Marking a schedule as ran takes it off the due list until its next run.\<close>

lemma marked_not_due:
  assumes "counting d" and "t_get (by_id i) (schedules (tables d)) = Some (i, r)"
    and "four_digit_year t" "four_digit_year later"
  shows "\<exists>r'. t_get (by_id i) (schedules (tables (snd (mark_schedule_ran i ranat (to_iso t) now d)))) = Some (i, r')
    \<and> ps_last_run_at r' = Some ranat
    \<and> (is_due (to_iso later) (i, r') \<longleftrightarrow> ps_enabled r \<and> t \<le> later)"
proof -
  let ?f = "\<lambda>r. r\<lparr>ps_last_run_at := Some ranat, ps_next_run_at := Some (to_iso t), ps_updated_at := sql_timestamp now\<rparr>"
  have "schedules (tables (snd (mark_schedule_ran i ranat (to_iso t) now d))) =
      t_update (by_id i) ?f (schedules (tables d))"
    by (simp add: mark_schedule_ran_def counted_write_tables set_schedule_def)
  then show ?thesis
    using t_get_updated [OF assms(2), of ?f] to_iso_less_iff(2) [OF assms(3,4)]
    by (simp add: is_due_def)
qed

section \<open>The job\<close>

text \<open>What one step leaves behind: the audit action of either branch is not a supported one, so the
  step always ends in the catch, after the transaction row was written.\<close>

definition after_failed_step :: "int \<Rightarrow> nat \<times> schedule_row \<Rightarrow> ledger \<Rightarrow> ledger" where
  "after_failed_step now s l =
     snd (insert_tx (new_tx (ps_contract (snd s)) ''distribute'' (ps_wallet (snd s)) None
       (Some (ps_token (snd s))) now) l)"

lemma trigger_schedule_fails:
  "\<exists>e d'. trigger_schedule simulate date_parse now s d = (Inl e, d')
     \<and> tables d' = after_failed_step now s (tables d)"
proof -
  let ?n = "new_tx (ps_contract (snd s)) ''distribute'' (ps_wallet (snd s)) None (Some (ps_token (snd s))) now"
  have na: "''scheduled_distribution_failed'' \<notin> set audit_actions"
    "''scheduled_distribution_triggered'' \<notin> set audit_actions"
    by (simp_all add: audit_actions_def)
  have ty: "''distribute'' \<in> set tx_types" by (simp add: tx_types_def)
  show ?thesis
  proof (cases "counting d")
    case True
    then show ?thesis
      by (simp add: trigger_schedule_def Let_def op_bind_def record_transaction_def ty counted_write_ok
          refused_audit [OF na(1)] refused_audit [OF na(2)] after_failed_step_def split: if_split)
  next
    case False
    then show ?thesis
      by (simp add: trigger_schedule_def Let_def op_bind_def record_transaction_def ty counted_write_fails
          after_failed_step_def split: if_split)
  qed
qed

lemma run_due_all_fail:
  "\<exists>d'. run_due simulate date_parse now ss c d = (Inr (c\<lparr>failed := failed c + length ss\<rparr>), d')
     \<and> tables d' = fold (after_failed_step now) ss (tables d)"
proof (induction ss arbitrary: c d)
  case Nil
  then show ?case by (simp add: op_return_def)
next
  case (Cons s ss)
  obtain e d1 where t: "trigger_schedule simulate date_parse now s d = (Inl e, d1)"
    "tables d1 = after_failed_step now s (tables d)" using trigger_schedule_fails by blast
  obtain d2 where r: "run_due simulate date_parse now ss (c\<lparr>failed := failed c + 1\<rparr>) d1 =
      (Inr (c\<lparr>failed := failed c + 1, failed := failed c + 1 + length ss\<rparr>), d2)"
    "tables d2 = fold (after_failed_step now) ss (tables d1)"
    using Cons.IH [of "c\<lparr>failed := failed c + 1\<rparr>" d1] by auto
  show ?case
    using r by (intro exI [of _ d2]) (simp add: op_bind_def op_catch_def op_return_def t)
qed

lemma fold_failed_steps:
  "schedules (fold (after_failed_step now) ss l) = schedules l"
  "audit_log (fold (after_failed_step now) ss l) = audit_log l"
  "length (trows (transactions (fold (after_failed_step now) ss l))) =
     length (trows (transactions l)) + length ss"
  by (induction ss arbitrary: l)
    (simp_all add: after_failed_step_def insert_tx_def t_insert_def Let_def)

text \<open>The scheduler never completes a run.  The audit actions it logs are refused by the audit
  log, so for every due schedule, whatever the simulation says, the pass records one more pending
  distribution, throws before the schedule is advanced, and counts a failure; the schedules stay due
  and the next pass does the same again.\<close>

theorem scheduler_never_advances:
  assumes "fst (get_schedules_due (to_iso now) d) = Inr due"
  shows "\<exists>d'. run_payment_schedules simulate date_parse now d =
        (Inr \<lparr>triggered = 0, skipped = 0, failed = length due\<rparr>, d')
    \<and> schedules (tables d') = schedules (tables d)
    \<and> audit_log (tables d') = audit_log (tables d)
    \<and> length (trows (transactions (tables d'))) = length (trows (transactions (tables d))) + length due
    \<and> fst (get_schedules_due (to_iso now) d') = Inr due"
proof -
  obtain d' where r: "run_due simulate date_parse now due \<lparr>triggered = 0, skipped = 0, failed = 0\<rparr> d =
      (Inr \<lparr>triggered = 0, skipped = 0, failed = length due\<rparr>, d')"
    "tables d' = fold (after_failed_step now) due (tables d)"
    using run_due_all_fail [of simulate date_parse now due "\<lparr>triggered = 0, skipped = 0, failed = 0\<rparr>" d]
    by auto
  have "get_schedules_due (to_iso now) d = (Inr due, d)"
    using assms by (simp add: get_schedules_due_def op_read_def)
  then have "run_payment_schedules simulate date_parse now d =
      (Inr \<lparr>triggered = 0, skipped = 0, failed = length due\<rparr>, d')"
    by (simp add: run_payment_schedules_def op_bind_def r)
  moreover have "fst (get_schedules_due (to_iso now) d') = Inr due"
    using assms by (simp add: get_schedules_due_def op_read_def r(2) fold_failed_steps)
  ultimately show ?thesis using r(2) by (auto simp: fold_failed_steps)
qed

theorem scheduler_never_advances_witness:
  "\<exists>d'. run_payment_schedules (\<lambda>_. None) (\<lambda>_. None) 5 (counted_connection scheduled_ledger) =
      (Inr \<lparr>triggered = 0, skipped = 0, failed = 1\<rparr>, d')
    \<and> length (trows (transactions (tables d'))) = 1"
proof -
  have "to_iso 0 \<le> to_iso 5" using to_iso_less_iff(2) [OF four_digit_1970] by simp
  then have "fst (get_schedules_due (to_iso 5) (counted_connection scheduled_ledger)) = Inr [(1, weekly_schedule)]"
    by (simp add: get_schedules_due_def op_read_def t_select_def scheduled_rows is_due_def
        weekly_schedule_def order_asc_def)
  from scheduler_never_advances [OF this, of "\<lambda>_. None" "\<lambda>_. None"] show ?thesis
    by (simp add: scheduled_rows t_empty_def) blast
qed

end
