(* ===== verification/Finality.thy ===== *)
theory Finality
  imports AuditLog
begin

text \<open>
  Transaction finality: the table operations of \<open>src/backend/src/database/transaction-finality.js\<close>
  and the polling service \<open>src/backend/src/transaction-finality.js\<close>.

  The polling loop is a recursion over the rounds it makes; a round says what the environment does
  in it (the clock, the abort signal before and after the wait, the random number of the jitter, a
  hash another request stores meanwhile, the answer of Horizon).  The loop ends with a
  \<open>poll_end\<close>, or \<open>OutOfRounds\<close> when the list of rounds is used up; \<open>poll_loop_terminates\<close> shows that
  8001 rounds are always enough.  Horizon is a parameter of the rounds.
\<close>

section \<open>The table\<close>

definition fin_is :: "nat \<Rightarrow> nat \<times> finality_row \<Rightarrow> bool" where
  "fin_is tid x = (fin_transaction (snd x) = tid)"

definition set_fin :: "nat \<Rightarrow> (finality_row \<Rightarrow> finality_row) \<Rightarrow> ledger \<Rightarrow> unit \<times> ledger" where
  "set_fin tid f l = ((), l\<lparr>finality := t_update (fin_is tid) f (finality l)\<rparr>)"

definition new_finality :: "nat \<Rightarrow> string option \<Rightarrow> int \<Rightarrow> finality_row" where
  "new_finality tid h now =
     \<lparr>fin_transaction = tid, fin_tx_hash = h, fin_status = ''pending'', confirmations = 0,
      fee_paid = None, submission_at = sql_timestamp now, first_confirmation_at = None,
      final_status = None, final_status_at = None, fin_error = None, poll_attempts = 0,
      next_poll_at = None\<rparr>"

definition create_finality_record :: "nat \<Rightarrow> string option \<Rightarrow> int \<Rightarrow> nat ledger_op" where
  "create_finality_record tid h now d =
     (if t_get (fin_is tid) (finality (tables d)) \<noteq> None
      then op_raise (SqliteError ''UNIQUE constraint failed: transaction_finality.transaction_id'') d
      else if t_get (by_id tid) (transactions (tables d)) = None
      then op_raise (SqliteError ''FOREIGN KEY constraint failed'') d
      else counted_write (\<lambda>l. let (i, t) = t_insert (new_finality tid h now) (finality l)
                              in (i, l\<lparr>finality := t\<rparr>)) d)"

definition set_finality_tx_hash :: "nat \<Rightarrow> string \<Rightarrow> unit ledger_op" where
  "set_finality_tx_hash tid h = counted_write (set_fin tid (\<lambda>r. r\<lparr>fin_tx_hash := Some h\<rparr>))"

definition increment_poll_attempt :: "nat \<Rightarrow> int option \<Rightarrow> unit ledger_op" where
  "increment_poll_attempt tid nxt = counted_write (set_fin tid
     (\<lambda>r. r\<lparr>poll_attempts := poll_attempts r + 1, next_poll_at := map_option to_iso nxt\<rparr>))"

definition coalesce :: "'a option \<Rightarrow> 'a \<Rightarrow> 'a" where
  "coalesce a b = (case a of None \<Rightarrow> b | Some x \<Rightarrow> x)"

definition mark_finality_confirmed ::
  "nat \<Rightarrow> string option \<Rightarrow> string option \<Rightarrow> int \<Rightarrow> unit ledger_op" where
  "mark_finality_confirmed tid fee first now = counted_write (set_fin tid
     (\<lambda>r. r\<lparr>fin_status := ''confirmed'', confirmations := 1, fee_paid := fee,
            first_confirmation_at :=
              Some (coalesce (first_confirmation_at r) (coalesce first (to_iso now))),
            final_status := Some ''confirmed'', final_status_at := Some (to_iso now),
            next_poll_at := None\<rparr>))"

definition mark_finality_failed :: "nat \<Rightarrow> string option \<Rightarrow> int \<Rightarrow> unit ledger_op" where
  "mark_finality_failed tid msg now = counted_write (set_fin tid
     (\<lambda>r. r\<lparr>fin_status := ''failed'', final_status := Some ''failed'',
            final_status_at := Some (to_iso now), fin_error := msg, next_poll_at := None\<rparr>))"

definition window_expired :: string where
  "window_expired = ''Finality polling window (10 min) expired without confirmation''"

definition mark_finality_timeout :: "nat \<Rightarrow> int \<Rightarrow> unit ledger_op" where
  "mark_finality_timeout tid now = counted_write (set_fin tid
     (\<lambda>r. r\<lparr>fin_status := ''timeout'', final_status := Some ''timeout'',
            final_status_at := Some (to_iso now), fin_error := Some window_expired, next_poll_at := None\<rparr>))"

definition get_finality_by_transaction_id :: "nat \<Rightarrow> (nat \<times> finality_row) option ledger_op" where
  "get_finality_by_transaction_id tid = op_read (\<lambda>l. t_get (fin_is tid) (finality l))"

definition get_finality_by_tx_hash :: "string \<Rightarrow> (nat \<times> finality_row) option ledger_op" where
  "get_finality_by_tx_hash h = op_read (\<lambda>l. t_get (\<lambda>x. fin_tx_hash (snd x) = Some h) (finality l))"

definition get_pending_finality_records :: "int \<Rightarrow> (nat \<times> finality_row) list ledger_op" where
  "get_pending_finality_records now = op_read (\<lambda>l. order_asc (\<lambda>x. submission_at (snd x))
     (t_select (\<lambda>x. fin_status (snd x) = ''pending''
        \<and> (case next_poll_at (snd x) of None \<Rightarrow> True | Some t \<Rightarrow> t \<le> to_iso now)) (finality l)))"

definition older_than :: "int \<Rightarrow> nat \<times> finality_row \<Rightarrow> bool" where
  "older_than cutoff x = (submission_at (snd x) < to_iso cutoff)"

definition delete_old_finality_records :: "int \<Rightarrow> nat ledger_op" where
  "delete_old_finality_records cutoff =
     op_bind (op_write (\<lambda>l. (t_count (older_than cutoff) (finality l),
                             l\<lparr>finality := t_delete (older_than cutoff) (finality l)\<rparr>))) (\<lambda>changes.
     op_bind (if 0 < changes then count_write else op_return ()) (\<lambda>_. op_return changes))"

section \<open>The polling loop\<close>

record finality_config =
  base_poll_ms :: rat
  max_poll_ms :: rat
  max_poll_duration_ms :: int

definition default_finality_config :: finality_config where
  "default_finality_config = \<lparr>base_poll_ms = 100, max_poll_ms = 5000, max_poll_duration_ms = 600000\<rparr>"

definition compute_backoff_ms :: "finality_config \<Rightarrow> nat \<Rightarrow> rat \<Rightarrow> int" where
  "compute_backoff_ms cfg attempt u =
     (let base = min (base_poll_ms cfg * 2 ^ attempt) (max_poll_ms cfg);
          jitter = base * (1 / 4) * (u * 2 - 1)
      in floor (base + jitter + 1 / 2))"

datatype horizon_answer =
    HConfirmed "string option" "string option"   \<comment> \<open>created at, fee\<close>
  | HFailed "string option"
  | HNotFound
  | HThrew "nat option"                          \<comment> \<open>status of the error\<close>

record round =
  rd_now :: int
  rd_abort_before :: bool
  rd_random :: rat
  rd_hash_set :: "string option"
  rd_abort_after :: bool
  rd_answer :: horizon_answer
  rd_now_after :: int

datatype poll_end = Cancelled | SettledConfirmed | SettledFailed | TimedOut | Crashed js_error | OutOfRounds

record finality_update =
  up_transaction :: nat
  up_hash :: "string option"
  up_status :: string
  up_error :: "string option"

definition time_out ::
  "nat \<Rightarrow> string option \<Rightarrow> int \<Rightarrow> ledger db \<times> finality_update list \<Rightarrow> poll_end \<times> ledger db \<times> finality_update list" where
  "time_out tid h now s =
     (case mark_finality_timeout tid now (fst s) of
        (Inl e, d) \<Rightarrow> (Crashed e, d, snd s)
      | (Inr _, d) \<Rightarrow> (TimedOut, d, snd s @
          [\<lparr>up_transaction = tid, up_hash = h, up_status = ''timeout'', up_error = Some window_expired\<rparr>]))"

text \<open>The hash another request stores during the wait.\<close>

definition hash_set_meanwhile :: "nat \<Rightarrow> string option \<Rightarrow> ledger db \<Rightarrow> ledger db" where
  "hash_set_meanwhile tid h d =
     (case h of None \<Rightarrow> d | Some x \<Rightarrow> snd (set_finality_tx_hash tid x d))"

definition known_hash :: "nat \<Rightarrow> string option \<Rightarrow> ledger db \<Rightarrow> string option" where
  "known_hash tid h d =
     (if truthy h then h
      else case t_get (fin_is tid) (finality (tables d)) of
             None \<Rightarrow> None
           | Some x \<Rightarrow> if truthy (fin_tx_hash (snd x)) then fin_tx_hash (snd x) else None)"

text \<open>An error thrown while a result is recorded is caught like an error of Horizon: the loop goes on.\<close>

fun poll_loop ::
  "finality_config \<Rightarrow> nat \<Rightarrow> int \<Rightarrow> string option \<Rightarrow> nat \<Rightarrow> round list \<Rightarrow> ledger db \<times> finality_update list
    \<Rightarrow> poll_end \<times> ledger db \<times> finality_update list" where
  "poll_loop cfg tid deadline h attempt [] s = (OutOfRounds, s)"
| "poll_loop cfg tid deadline h attempt (r # rs) s =
     (if \<not> rd_now r < deadline then time_out tid h (rd_now r) s
      else if rd_abort_before r then (Cancelled, s)
      else case increment_poll_attempt tid
                  (Some (rd_now r + compute_backoff_ms cfg attempt (rd_random r))) (fst s) of
        (Inl e, d) \<Rightarrow> (Crashed e, d, snd s)
      | (Inr _, d0) \<Rightarrow>
          let d = hash_set_meanwhile tid (rd_hash_set r) d0
          in if rd_abort_after r then (Cancelled, d, snd s)
             else case known_hash tid h d of
               None \<Rightarrow> poll_loop cfg tid deadline None (Suc attempt) rs (d, snd s)
             | Some x \<Rightarrow>
                 (case rd_answer r of
                    HConfirmed created fee \<Rightarrow>
                      (case mark_finality_confirmed tid fee created (rd_now_after r) d of
                         (Inl e, d1) \<Rightarrow> poll_loop cfg tid deadline (Some x) (Suc attempt) rs (d1, snd s)
                       | (Inr _, d1) \<Rightarrow> (SettledConfirmed, d1, snd s @
                           [\<lparr>up_transaction = tid, up_hash = Some x, up_status = ''confirmed'', up_error = None\<rparr>]))
                  | HFailed msg \<Rightarrow>
                      (let m = coalesce msg ''Transaction failed on-chain'' in
                       case mark_finality_failed tid (Some m) (rd_now_after r) d of
                         (Inl e, d1) \<Rightarrow> poll_loop cfg tid deadline (Some x) (Suc attempt) rs (d1, snd s)
                       | (Inr _, d1) \<Rightarrow> (SettledFailed, d1, snd s @
                           [\<lparr>up_transaction = tid, up_hash = Some x, up_status = ''failed'', up_error = Some m\<rparr>]))
                  | HNotFound \<Rightarrow> poll_loop cfg tid deadline (Some x) (Suc attempt) rs (d, snd s)
                  | HThrew status \<Rightarrow>
                      if status = Some 504 \<and> \<not> rd_now_after r < deadline
                      then time_out tid (Some x) (rd_now_after r) (d, snd s)
                      else poll_loop cfg tid deadline (Some x) (Suc attempt) rs (d, snd s)))"

section \<open>The service\<close>

text \<open>The registry of active trackers, with the controllers that have been aborted.\<close>

record tracker_state =
  active_trackers :: "(nat, nat) jsmap"
  next_controller :: nat
  aborted :: "nat list"

definition is_tracking :: "nat \<Rightarrow> tracker_state \<Rightarrow> bool" where
  "is_tracking tid ts = map_has (active_trackers ts) tid"

definition cancel_tracking :: "nat \<Rightarrow> tracker_state \<Rightarrow> bool \<times> tracker_state" where
  "cancel_tracking tid ts =
     (case map_get (active_trackers ts) tid of
        None \<Rightarrow> (False, ts)
      | Some c \<Rightarrow> (True, ts\<lparr>aborted := aborted ts @ [c],
                             active_trackers := map_delete tid (active_trackers ts)\<rparr>))"

text \<open>\<open>startTracking\<close> up to the launch of the loop: the record id, or nothing for a duplicate.\<close>

definition start_tracking ::
  "nat \<Rightarrow> string option \<Rightarrow> int \<Rightarrow> ledger db \<times> tracker_state \<Rightarrow> nat option res \<times> ledger db \<times> tracker_state" where
  "start_tracking tid h now s =
     (if map_has (active_trackers (snd s)) tid then (Inr None, s)
      else case create_finality_record tid h now (fst s) of
             (Inl e, d) \<Rightarrow> (Inl e, d, snd s)
           | (Inr i, d) \<Rightarrow> (Inr (Some i), d, (snd s)
               \<lparr>active_trackers := map_set tid (next_controller (snd s)) (active_trackers (snd s)),
                next_controller := next_controller (snd s) + 1\<rparr>))"

text \<open>What the end of a loop does to the registry: only a timeout or a crash removes the entry.\<close>

definition after_loop :: "nat \<Rightarrow> poll_end \<Rightarrow> tracker_state \<Rightarrow> tracker_state" where
  "after_loop tid e ts = (case e of
     TimedOut \<Rightarrow> ts\<lparr>active_trackers := map_delete tid (active_trackers ts)\<rparr>
   | Crashed _ \<Rightarrow> ts\<lparr>active_trackers := map_delete tid (active_trackers ts)\<rparr>
   | _ \<Rightarrow> ts)"

definition update_tx_hash :: "nat \<Rightarrow> string \<Rightarrow> unit ledger_op" where
  "update_tx_hash tid h = set_finality_tx_hash tid h"

section \<open>Backoff and termination\<close>

definition unit_rat :: "rat \<Rightarrow> bool" where
  "unit_rat u \<longleftrightarrow> 0 \<le> u \<and> u < 1"

lemma backoff_default_bounds:
  assumes "unit_rat u"
  shows "75 \<le> compute_backoff_ms default_finality_config a u"
    "compute_backoff_ms default_finality_config a u \<le> 6250"
proof -
  let ?b = "min (100 * 2 ^ a) (5000 :: rat)"
  have p: "(1::rat) \<le> 2 ^ a" by simp
  have b: "100 \<le> ?b" "?b \<le> 5000" using p by auto
  have u: "0 \<le> u" "u < 1" using assms by (simp_all add: unit_rat_def)
  have "x + x * (1 / 4) * (u * 2 - 1) = x * (3 / 4 + u / 2)" for x :: rat by (simp add: field_simps)
  then have e: "?b + ?b * (1 / 4) * (u * 2 - 1) = ?b * (3 / 4 + u / 2)" .
  have lo: "?b * (3 / 4) \<le> ?b * (3 / 4 + u / 2)" using b u by (intro mult_left_mono) simp_all
  have hi: "?b * (3 / 4 + u / 2) \<le> ?b * (5 / 4)" using b u by (intro mult_left_mono) simp_all
  have "75 \<le> ?b * (3 / 4 + u / 2) + 1 / 2" "?b * (3 / 4 + u / 2) + 1 / 2 < 6251"
    using lo hi b by linarith+
  then have "75 \<le> floor (?b * (3 / 4 + u / 2) + 1 / 2)" "floor (?b * (3 / 4 + u / 2) + 1 / 2) \<le> 6250"
    by (simp_all add: le_floor_iff floor_le_iff)
  moreover have "compute_backoff_ms default_finality_config a u = floor (?b * (3 / 4 + u / 2) + 1 / 2)"
    by (simp only: compute_backoff_ms_def default_finality_config_def Let_def finality_config.select_convs e)
  ultimately show "75 \<le> compute_backoff_ms default_finality_config a u"
    "compute_backoff_ms default_finality_config a u \<le> 6250" by simp_all
qed

text \<open>Rounds in real time: each starts when the one before has waited out its backoff, or later.\<close>

fun timed :: "finality_config \<Rightarrow> nat \<Rightarrow> int \<Rightarrow> round list \<Rightarrow> bool" where
  "timed cfg a t [] = True"
| "timed cfg a t (r # rs) \<longleftrightarrow> t \<le> rd_now r \<and> unit_rat (rd_random r)
     \<and> timed cfg (Suc a) (rd_now r + compute_backoff_ms cfg a (rd_random r)) rs"

lemma time_out_ends: "time_out tid h now s \<noteq> (OutOfRounds, s')"
  by (auto simp: time_out_def split: prod.splits sum.splits)

lemma out_of_rounds_time:
  assumes "poll_loop default_finality_config tid deadline h a rs s = (OutOfRounds, s')"
    and "timed default_finality_config a t rs" and "rs \<noteq> []"
  shows "t + 75 * (int (length rs) - 1) < deadline"
  using assms
proof (induction rs arbitrary: h a s t)
  case Nil
  then show ?case by simp
next
  case (Cons r rs)
  let ?w = "compute_backoff_ms default_finality_config a (rd_random r)"
  have t: "t \<le> rd_now r" "unit_rat (rd_random r)"
    "timed default_finality_config (Suc a) (rd_now r + ?w) rs" using Cons.prems(2) by simp_all
  have now: "rd_now r < deadline"
    using Cons.prems(1) time_out_ends by (auto split: if_splits)
  have "\<exists>h2 s2. poll_loop default_finality_config tid deadline h2 (Suc a) rs s2 = (OutOfRounds, s')"
    using Cons.prems(1) time_out_ends
    by (auto simp: Let_def split: if_splits prod.splits sum.splits option.splits horizon_answer.splits)
  then obtain h2 s2 where rec: "poll_loop default_finality_config tid deadline h2 (Suc a) rs s2 = (OutOfRounds, s')"
    by blast
  show ?case
  proof (cases "rs = []")
    case True
    then show ?thesis using t(1) now by simp
  next
    case False
    have "rd_now r + ?w + 75 * (int (length rs) - 1) < deadline"
      by (rule Cons.IH [OF rec t(3) False])
    then show ?thesis using t(1) backoff_default_bounds(1) [OF t(2), of a] by simp
  qed
qed

text \<open>C37: polling ends: with the default configuration a tracker makes at most 8001 rounds before it
  settles, is cancelled, crashes or times out, because every wait lasts at least 75 ms and the window
  is ten minutes.\<close>

theorem poll_loop_terminates:
  assumes "timed default_finality_config 0 start rs" and "8001 \<le> length rs"
  shows "fst (poll_loop default_finality_config tid
    (start + max_poll_duration_ms default_finality_config) h 0 rs s) \<noteq> OutOfRounds"
proof
  let ?r = "poll_loop default_finality_config tid (start + max_poll_duration_ms default_finality_config) h 0 rs s"
  assume "fst ?r = OutOfRounds"
  then have "?r = (OutOfRounds, snd ?r)" by (metis prod.collapse)
  moreover have "rs \<noteq> []" using assms(2) by auto
  ultimately have "start + 75 * (int (length rs) - 1) < start + max_poll_duration_ms default_finality_config"
    by (rule out_of_rounds_time [OF _ assms(1)])
  then have "start + 75 * (int (length rs) - 1) < start + 600000"
    by (simp add: default_finality_config_def)
  moreover have "75 * 8000 \<le> 75 * (int (length rs) - 1)"
    using assms(2) by (intro mult_left_mono) simp_all
  ultimately show False by linarith
qed

definition idle_round :: "int \<Rightarrow> round" where
  "idle_round t = \<lparr>rd_now = t, rd_abort_before = False, rd_random = 0, rd_hash_set = None,
     rd_abort_after = False, rd_answer = HNotFound, rd_now_after = t\<rparr>"

fun idle_rounds :: "nat \<Rightarrow> nat \<Rightarrow> int \<Rightarrow> round list" where
  "idle_rounds 0 a t = []"
| "idle_rounds (Suc n) a t =
     idle_round t # idle_rounds n (Suc a) (t + compute_backoff_ms default_finality_config a 0)"

lemma timed_idle: "timed default_finality_config a t (idle_rounds n a t)"
  by (induction n arbitrary: a t) (simp_all add: idle_round_def unit_rat_def)

lemma length_idle: "length (idle_rounds n a t) = n"
  by (induction n arbitrary: a t) simp_all

theorem poll_loop_terminates_witness:
  "fst (poll_loop default_finality_config 1 600000 None 0 (idle_rounds 8001 0 0)
      (counted_connection empty_ledger, [])) \<noteq> OutOfRounds"
  using poll_loop_terminates [OF timed_idle, of 8001 0 1 None "(counted_connection empty_ledger, [])"]
  by (simp add: length_idle default_finality_config_def)

section \<open>Settling\<close>

definition fin_has :: "nat \<Rightarrow> string \<Rightarrow> ledger db \<Rightarrow> bool" where
  "fin_has tid st d \<longleftrightarrow> (\<exists>i r. t_get (fin_is tid) (finality (tables d)) = Some (i, r) \<and> fin_status r = st
     \<and> (st = ''pending'' \<longrightarrow> final_status r = None)
     \<and> (st \<noteq> ''pending'' \<longrightarrow> final_status r = Some st \<and> next_poll_at r = None))"

lemma set_fin_get:
  assumes "t_get (fin_is tid) (finality l) = Some (i, r)" and "\<And>r. fin_transaction (f r) = fin_transaction r"
  shows "t_get (fin_is tid) (finality (snd (set_fin tid f l))) = Some (i, f r)"
  using t_get_update_where [OF assms(1), of f] assms(2) by (simp add: set_fin_def fin_is_def)

lemma fin_has_change:
  assumes "fin_has tid st d" and "\<And>r. fin_transaction (f r) = fin_transaction r"
    and "\<And>r. fin_status r = st \<and> (st = ''pending'' \<longrightarrow> final_status r = None)
          \<and> (st \<noteq> ''pending'' \<longrightarrow> final_status r = Some st \<and> next_poll_at r = None) \<Longrightarrow>
         fin_status (f r) = st' \<and> (st' = ''pending'' \<longrightarrow> final_status (f r) = None)
          \<and> (st' \<noteq> ''pending'' \<longrightarrow> final_status (f r) = Some st' \<and> next_poll_at (f r) = None)"
  shows "fin_has tid st' (snd (counted_write (set_fin tid f) d))"
proof -
  obtain i r where g: "t_get (fin_is tid) (finality (tables d)) = Some (i, r)"
    and r: "fin_status r = st \<and> (st = ''pending'' \<longrightarrow> final_status r = None)
          \<and> (st \<noteq> ''pending'' \<longrightarrow> final_status r = Some st \<and> next_poll_at r = None)"
    using assms(1) unfolding fin_has_def by blast
  from set_fin_get [OF g, of f] assms(2) assms(3) [OF r] show ?thesis
    by (auto simp: fin_has_def counted_write_tables)
qed

lemma fin_has_increment: "fin_has tid ''pending'' d \<Longrightarrow> fin_has tid ''pending'' (snd (increment_poll_attempt tid t d))"
  unfolding increment_poll_attempt_def by (erule fin_has_change) simp_all

lemma fin_has_meanwhile: "fin_has tid ''pending'' d \<Longrightarrow> fin_has tid ''pending'' (hash_set_meanwhile tid h d)"
  unfolding hash_set_meanwhile_def set_finality_tx_hash_def
  by (cases h) (auto elim!: fin_has_change)

lemma fin_has_marks:
  assumes "fin_has tid ''pending'' d"
  shows "fin_has tid ''confirmed'' (snd (mark_finality_confirmed tid fee first now d))"
    "fin_has tid ''failed'' (snd (mark_finality_failed tid msg now d))"
    "fin_has tid ''timeout'' (snd (mark_finality_timeout tid now d))"
  using assms
  unfolding mark_finality_confirmed_def mark_finality_failed_def mark_finality_timeout_def
  by (auto elim!: fin_has_change)

definition end_status :: "poll_end \<Rightarrow> string" where
  "end_status e = (case e of SettledConfirmed \<Rightarrow> ''confirmed'' | SettledFailed \<Rightarrow> ''failed''
     | TimedOut \<Rightarrow> ''timeout'' | _ \<Rightarrow> ''pending'')"

definition settles :: "nat \<Rightarrow> finality_update list \<Rightarrow> poll_end \<times> ledger db \<times> finality_update list \<Rightarrow> bool" where
  "settles tid us res \<longleftrightarrow> (case res of (e, d, us') \<Rightarrow>
     (\<forall>x. e \<noteq> Crashed x) \<and> fin_has tid (end_status e) d
     \<and> (if end_status e = ''pending'' then us' = us
        else \<exists>u. us' = us @ [u] \<and> up_transaction u = tid \<and> up_status u = end_status e))"

lemma counting_counted_write [simp]: "counting d \<Longrightarrow> counting (snd (counted_write f d))"
  by (simp add: counted_write_ok)

lemma counting_meanwhile: "counting d \<Longrightarrow> counting (hash_set_meanwhile tid h d)"
  by (cases h) (simp_all add: hash_set_meanwhile_def set_finality_tx_hash_def)

lemma settles_time_out:
  assumes "counting d" "fin_has tid ''pending'' d"
  shows "settles tid us (time_out tid h now (d, us))"
proof -
  have "fst (mark_finality_timeout tid now d) = Inr ()"
    by (simp add: mark_finality_timeout_def counted_write_ok assms(1))
  then obtain d1 where m: "mark_finality_timeout tid now d = (Inr (), d1)" by (metis prod.collapse)
  have "fin_has tid ''timeout'' d1" using fin_has_marks(3) [OF assms(2), of now] m by simp
  then show ?thesis by (simp add: settles_def time_out_def m end_status_def)
qed

lemma marks_ok:
  assumes "counting d"
  shows "fst (increment_poll_attempt tid t d) = Inr ()"
    "fst (mark_finality_confirmed tid fee first now d) = Inr ()"
    "fst (mark_finality_failed tid msg now d) = Inr ()"
  using assms
  by (simp_all add: increment_poll_attempt_def mark_finality_confirmed_def mark_finality_failed_def
      counted_write_ok set_fin_def)

lemma counting_increment: "counting d \<Longrightarrow> counting (snd (increment_poll_attempt tid t d))"
  by (simp add: increment_poll_attempt_def)

lemma settles_answer:
  assumes c: "counting d" and f: "fin_has tid ''pending'' d"
    and cont: "\<And>h. settles tid us (poll_loop cfg tid deadline h a rs (d, us))"
  shows "settles tid us
    (case rd_answer r of
       HConfirmed created fee \<Rightarrow>
         (case mark_finality_confirmed tid fee created (rd_now_after r) d of
            (Inl e, d1) \<Rightarrow> poll_loop cfg tid deadline (Some x) a rs (d1, us)
          | (Inr _, d1) \<Rightarrow> (SettledConfirmed, d1, us @
              [\<lparr>up_transaction = tid, up_hash = Some x, up_status = ''confirmed'', up_error = None\<rparr>]))
     | HFailed msg \<Rightarrow>
         (let m = coalesce msg ''Transaction failed on-chain'' in
          case mark_finality_failed tid (Some m) (rd_now_after r) d of
            (Inl e, d1) \<Rightarrow> poll_loop cfg tid deadline (Some x) a rs (d1, us)
          | (Inr _, d1) \<Rightarrow> (SettledFailed, d1, us @
              [\<lparr>up_transaction = tid, up_hash = Some x, up_status = ''failed'', up_error = Some m\<rparr>]))
     | HNotFound \<Rightarrow> poll_loop cfg tid deadline (Some x) a rs (d, us)
     | HThrew status \<Rightarrow>
         if status = Some 504 \<and> \<not> rd_now_after r < deadline
         then time_out tid (Some x) (rd_now_after r) (d, us)
         else poll_loop cfg tid deadline (Some x) a rs (d, us))"
proof (cases "rd_answer r")
  case (HConfirmed created fee)
  have "mark_finality_confirmed tid fee created (rd_now_after r) d =
      (Inr (), snd (mark_finality_confirmed tid fee created (rd_now_after r) d))"
    using marks_ok(2) [OF c] by (metis prod.collapse)
  then obtain d1 where m: "mark_finality_confirmed tid fee created (rd_now_after r) d = (Inr (), d1)" ..
  then show ?thesis using fin_has_marks(1) [OF f, of fee created "rd_now_after r"]
    by (simp add: HConfirmed settles_def end_status_def)
next
  case (HFailed msg)
  let ?m = "coalesce msg ''Transaction failed on-chain''"
  have "mark_finality_failed tid (Some ?m) (rd_now_after r) d =
      (Inr (), snd (mark_finality_failed tid (Some ?m) (rd_now_after r) d))"
    using marks_ok(3) [OF c] by (metis prod.collapse)
  then obtain d1 where m: "mark_finality_failed tid (Some ?m) (rd_now_after r) d = (Inr (), d1)" ..
  then show ?thesis using fin_has_marks(2) [OF f, of "Some ?m" "rd_now_after r"]
    by (simp add: HFailed settles_def end_status_def Let_def)
next
  case HNotFound
  then show ?thesis using cont by simp
next
  case (HThrew status)
  then show ?thesis using cont settles_time_out [OF c f, of us "Some x" "rd_now_after r"] by simp
qed

lemma poll_loop_settles:
  assumes "counting d" "fin_has tid ''pending'' d"
  shows "settles tid us (poll_loop cfg tid deadline h a rs (d, us))"
  using assms
proof (induction rs arbitrary: h a d)
  case Nil
  then show ?case by (simp add: settles_def end_status_def)
next
  case (Cons r rs)
  let ?t = "Some (rd_now r + compute_backoff_ms cfg a (rd_random r))"
  define d0 where "d0 = snd (increment_poll_attempt tid ?t d)"
  define d1 where "d1 = hash_set_meanwhile tid (rd_hash_set r) d0"
  have inc: "increment_poll_attempt tid ?t d = (Inr (), d0)"
    unfolding d0_def using marks_ok(1) [OF Cons.prems(1)] by (metis prod.collapse)
  have c1: "counting d1"
    unfolding d1_def d0_def by (intro counting_meanwhile counting_increment Cons.prems)
  have f1: "fin_has tid ''pending'' d1"
    unfolding d1_def d0_def by (intro fin_has_meanwhile fin_has_increment Cons.prems)
  have cont: "settles tid us (poll_loop cfg tid deadline h' (Suc a) rs (d1, us))" for h'
    by (rule Cons.IH [OF c1 f1])
  have pend: "settles tid us (Cancelled, x, us)" if "fin_has tid ''pending'' x" for x
    using that by (simp add: settles_def end_status_def)
  have late: "settles tid us (case known_hash tid h d1 of
      None \<Rightarrow> poll_loop cfg tid deadline None (Suc a) rs (d1, us)
    | Some x \<Rightarrow> (case rd_answer r of
       HConfirmed created fee \<Rightarrow>
         (case mark_finality_confirmed tid fee created (rd_now_after r) d1 of
            (Inl e, d1) \<Rightarrow> poll_loop cfg tid deadline (Some x) (Suc a) rs (d1, us)
          | (Inr _, d1) \<Rightarrow> (SettledConfirmed, d1, us @
              [\<lparr>up_transaction = tid, up_hash = Some x, up_status = ''confirmed'', up_error = None\<rparr>]))
     | HFailed msg \<Rightarrow>
         (let m = coalesce msg ''Transaction failed on-chain'' in
          case mark_finality_failed tid (Some m) (rd_now_after r) d1 of
            (Inl e, d1) \<Rightarrow> poll_loop cfg tid deadline (Some x) (Suc a) rs (d1, us)
          | (Inr _, d1) \<Rightarrow> (SettledFailed, d1, us @
              [\<lparr>up_transaction = tid, up_hash = Some x, up_status = ''failed'', up_error = Some m\<rparr>]))
     | HNotFound \<Rightarrow> poll_loop cfg tid deadline (Some x) (Suc a) rs (d1, us)
     | HThrew status \<Rightarrow>
         if status = Some 504 \<and> \<not> rd_now_after r < deadline
         then time_out tid (Some x) (rd_now_after r) (d1, us)
         else poll_loop cfg tid deadline (Some x) (Suc a) rs (d1, us)))"
    (is "settles tid us ?late")
  proof (cases "known_hash tid h d1")
    case None
    then show ?thesis using cont by simp
  next
    case (Some x)
    show ?thesis unfolding Some option.case by (rule settles_answer [OF c1 f1 cont])
  qed
  have "poll_loop cfg tid deadline h a (r # rs) (d, us) =
      (if \<not> rd_now r < deadline then time_out tid h (rd_now r) (d, us)
       else if rd_abort_before r then (Cancelled, d, us)
       else if rd_abort_after r then (Cancelled, d1, us) else ?late)"
    by (simp only: poll_loop.simps(2) fst_conv snd_conv inc prod.case sum.case d1_def Let_def)
  then show ?case
    using settles_time_out [OF Cons.prems, of us h "rd_now r"] pend [OF Cons.prems(2)] pend [OF f1] late
    by (simp only: split: if_split) blast
qed


definition tracked_db :: "ledger db" where
  "tracked_db = counted_connection (empty_ledger\<lparr>finality := snd (t_insert (new_finality 1 None 0) t_empty)\<rparr>)"

lemma tracked_pending: "fin_has 1 ''pending'' tracked_db" "counting tracked_db"
  by (simp_all add: fin_has_def tracked_db_def t_get_def t_insert_def t_empty_def fin_is_def new_finality_def)


text \<open>The registry keeps trackers of settled transactions.  After a loop that ended confirmed or
  failed the transaction still counts as tracked, and starting it again is ignored as a duplicate.\<close>

theorem settled_tracker_stays_registered:
  assumes "start_tracking tid h now (d, ts) = (Inr (Some i), d1, ts1)"
    and "e = SettledConfirmed \<or> e = SettledFailed"
  shows "is_tracking tid (after_loop tid e ts1)
    \<and> start_tracking tid h2 now2 (d2, after_loop tid e ts1) = (Inr None, d2, after_loop tid e ts1)"
proof -
  have "map_has (active_trackers ts1) tid"
    using assms(1) by (auto simp: start_tracking_def map_has_def split: if_splits prod.splits sum.splits)
  then show ?thesis using assms(2) by (auto simp: is_tracking_def after_loop_def start_tracking_def)
qed

definition recorded_db :: "ledger db" where
  "recorded_db = counted_connection (snd (insert_tx (new_tx ''C1'' ''distribute'' ''G1'' None None 5) empty_ledger))"

definition no_trackers :: tracker_state where
  "no_trackers = \<lparr>active_trackers = [], next_controller = 0, aborted = []\<rparr>"

theorem settled_tracker_stays_registered_witness:
  "\<exists>d1 ts1. start_tracking 1 None 5 (recorded_db, no_trackers) = (Inr (Some 1), d1, ts1)
     \<and> is_tracking 1 (after_loop 1 SettledConfirmed ts1)"
proof -
  have "\<exists>d1 ts1. start_tracking 1 None 5 (recorded_db, no_trackers) = (Inr (Some 1), d1, ts1)"
    by (simp add: start_tracking_def no_trackers_def map_has_def create_finality_record_def recorded_db_def
        insert_tx_def t_insert_def t_get_def by_id_def empty_ledger_def t_empty_def Let_def counted_write_ok)
  then obtain d1 ts1 where s: "start_tracking 1 None 5 (recorded_db, no_trackers) = (Inr (Some 1), d1, ts1)"
    by blast
  from settled_tracker_stays_registered [OF s, of SettledConfirmed None 9 d1] s show ?thesis by blast
qed

text \<open>The cleanup compares timestamps of two formats: every record submitted on the UTC day of the
  cutoff is deleted, also one submitted after the cutoff.\<close>

theorem cleanup_deletes_whole_cutoff_day:
  assumes "(i, r) \<in> set (trows (finality (tables d)))" and "submission_at r = sql_timestamp t"
    and "day_of t = day_of cutoff"
  shows "(i, r) \<notin> set (trows (finality (tables (snd (delete_old_finality_records cutoff d)))))"
proof -
  have "older_than cutoff (i, r)"
    using sql_before_iso_same_day [OF assms(3)] by (simp add: older_than_def assms(2))
  moreover have "tables (snd (delete_old_finality_records cutoff d)) =
      (tables d)\<lparr>finality := t_delete (older_than cutoff) (finality (tables d))\<rparr>"
    by (cases "counting d")
      (simp_all add: delete_old_finality_records_def op_simps count_write_ok count_write_fails)
  ultimately show ?thesis by (simp add: t_delete_def)
qed

theorem cleanup_deletes_whole_cutoff_day_witness:
  "trows (finality (tables (snd (delete_old_finality_records 1000 (counted_connection
      (empty_ledger\<lparr>finality := snd (t_insert (new_finality 1 None 80000000) t_empty)\<rparr>)))))) = []"
proof -
  let ?d = "counted_connection (empty_ledger\<lparr>finality := snd (t_insert (new_finality 1 None 80000000) t_empty)\<rparr>)"
  have m: "(1, new_finality 1 None 80000000) \<in> set (trows (finality (tables ?d)))"
    "trows (finality (tables ?d)) = [(1, new_finality 1 None 80000000)]"
    by (simp_all add: t_insert_def t_empty_def)
  have "day_of 80000000 = day_of 1000" by (simp add: day_of_def ms_per_day_def)
  from cleanup_deletes_whole_cutoff_day [OF m(1) _ this]
  have n: "(1, new_finality 1 None 80000000) \<notin> set (trows (finality (tables (snd (delete_old_finality_records 1000 ?d)))))"
    by (simp add: new_finality_def)
  have "tables (snd (delete_old_finality_records 1000 ?d)) =
      (tables ?d)\<lparr>finality := t_delete (older_than 1000) (finality (tables ?d))\<rparr>"
    by (simp add: delete_old_finality_records_def op_simps count_write_ok)
  then have sub: "set (trows (finality (tables (snd (delete_old_finality_records 1000 ?d)))))
      \<subseteq> {(1, new_finality 1 None 80000000)}" using m(2) by (auto simp: t_delete_def)
  show ?thesis
  proof (rule ccontr)
    assume "trows (finality (tables (snd (delete_old_finality_records 1000 ?d)))) \<noteq> []"
    then obtain x where x: "x \<in> set (trows (finality (tables (snd (delete_old_finality_records 1000 ?d)))))"
      using list.set_intros(1) neq_Nil_conv by metis
    then have "x = (1, new_finality 1 None 80000000)" using sub by blast
    then show False using x n by metis
  qed
qed

end
