(* ===== verification/Webhooks.thy ===== *)
theory Webhooks
  imports Transactions
begin

text \<open>
  Webhooks for completed distributions: \<open>src/backend/src/database/webhooks.js\<close>, the first delivery
  in \<open>src/backend/src/webhook-delivery.js\<close> and the retry job
  \<open>src/backend/src/jobs/retry-failed-webhooks.js\<close>.  The HTTP request (\<open>fetch\<close> with its timeout) is
  the parameter \<open>post\<close>: it yields an error text or nothing.  The first deliveries run as separate
  promises that touch only their own rows; the model settles them in list order.
\<close>

section \<open>database/webhooks.js\<close>

definition set_webhook :: "(nat \<times> webhook_row \<Rightarrow> bool) \<Rightarrow> (webhook_row \<Rightarrow> webhook_row) \<Rightarrow> ledger \<Rightarrow> bool \<times> ledger" where
  "set_webhook P f l = (t_count P (webhooks l) \<noteq> 0, l\<lparr>webhooks := t_update P f (webhooks l)\<rparr>)"

definition same_target :: "string \<Rightarrow> string \<Rightarrow> nat \<times> webhook_row \<Rightarrow> bool" where
  "same_target contract url x \<longleftrightarrow> wh_contract (snd x) = contract \<and> wh_url (snd x) = url"

definition new_webhook :: "string \<Rightarrow> string \<Rightarrow> int \<Rightarrow> webhook_row" where
  "new_webhook contract url now = \<lparr>wh_contract = contract, wh_url = url, wh_enabled = True,
     wh_retry_count = 0, next_retry_time = None, wh_payload = None, wh_created_at = sql_timestamp now\<rparr>"

text \<open>
  An upsert that takes the update branch leaves the connection's last insert rowid alone, and its
  change count is 1: the function then returns \<open>last_rowid\<close>, the id of the last row inserted into
  any table, and its look-up of the existing id is dead code.
\<close>

definition register_webhook :: "nat \<Rightarrow> string \<Rightarrow> string \<Rightarrow> int \<Rightarrow> nat ledger_op" where
  "register_webhook last_rowid contract url now = counted_write (\<lambda>l.
     if t_get (same_target contract url) (webhooks l) \<noteq> None
     then (last_rowid, snd (set_webhook (same_target contract url)
             (\<lambda>r. r\<lparr>wh_enabled := True, wh_retry_count := 0, next_retry_time := None\<rparr>) l))
     else (let (i, t) = t_insert (new_webhook contract url now) (webhooks l) in (i, l\<lparr>webhooks := t\<rparr>)))"

definition list_webhooks :: "string \<Rightarrow> (nat \<times> webhook_row) list ledger_op" where
  "list_webhooks contract = op_read (\<lambda>l. order_asc (\<lambda>x. wh_created_at (snd x))
     (t_select (\<lambda>x. wh_contract (snd x) = contract \<and> wh_enabled (snd x)) (webhooks l)))"

definition delete_webhook :: "string \<Rightarrow> nat \<Rightarrow> bool ledger_op" where
  "delete_webhook contract i = counted_write (set_webhook
     (\<lambda>x. by_id i x \<and> wh_contract (snd x) = contract) (\<lambda>r. r\<lparr>wh_enabled := False\<rparr>))"

definition update_webhook_retry_state :: "nat \<Rightarrow> nat \<Rightarrow> string option \<Rightarrow> bool ledger_op" where
  "update_webhook_retry_state i n t = counted_write (set_webhook (by_id i)
     (\<lambda>r. r\<lparr>wh_retry_count := n, next_retry_time := t\<rparr>))"

definition update_webhook_retry_state_with_payload ::
  "nat \<Rightarrow> nat \<Rightarrow> string option \<Rightarrow> string option \<Rightarrow> bool ledger_op" where
  "update_webhook_retry_state_with_payload i n t p = counted_write (set_webhook (by_id i)
     (\<lambda>r. r\<lparr>wh_retry_count := n, next_retry_time := t, wh_payload := p\<rparr>))"

definition due_for_retry :: "int \<Rightarrow> nat \<times> webhook_row \<Rightarrow> bool" where
  "due_for_retry now x \<longleftrightarrow> wh_enabled (snd x) \<and> wh_retry_count (snd x) < 4
     \<and> (case next_retry_time (snd x) of None \<Rightarrow> False | Some t \<Rightarrow> t \<le> to_iso now)"

definition get_webhooks_due_for_retry :: "int \<Rightarrow> (nat \<times> webhook_row) list ledger_op" where
  "get_webhooks_due_for_retry now = op_read (\<lambda>l. t_select (due_for_retry now) (webhooks l))"

definition move_to_dlq ::
  "nat \<Rightarrow> string \<Rightarrow> string \<Rightarrow> string option \<Rightarrow> string option \<Rightarrow> nat \<Rightarrow> int \<Rightarrow> nat ledger_op" where
  "move_to_dlq i url contract payload err n now = counted_write (\<lambda>l.
     let (j, t) = t_insert \<lparr>dlq_webhook = i, dlq_url = url, dlq_contract = contract, dlq_payload = payload,
           dlq_error = err, dlq_retry_count = n, dlq_created_at = sql_timestamp now\<rparr> (webhook_dlq l)
     in (j, l\<lparr>webhook_dlq := t\<rparr>))"

definition reset_webhook_retry_count :: "nat \<Rightarrow> bool ledger_op" where
  "reset_webhook_retry_count i = counted_write (set_webhook (by_id i)
     (\<lambda>r. r\<lparr>wh_retry_count := 0, next_retry_time := None, wh_payload := None\<rparr>))"

section \<open>webhook-delivery.js\<close>

definition webhook_backoff_ms :: "int list" where
  "webhook_backoff_ms = [60000, 300000, 900000, 3600000]"

definition max_webhook_retries :: nat where
  "max_webhook_retries = 4"

definition retry_time :: "int \<Rightarrow> nat \<Rightarrow> string" where
  "retry_time now n = to_iso (now + webhook_backoff_ms ! min (n - 1) (length webhook_backoff_ms - 1))"

definition payout_json :: "payout_row \<Rightarrow> json" where
  "payout_json p = JObj [(''address'', JStr (po_collaborator p)), (''amount'', JStr (po_amount p))]"

definition nullable :: "string option \<Rightarrow> json" where
  "nullable s = (case s of None \<Rightarrow> JNull | Some x \<Rightarrow> JStr x)"

definition distribute_payload :: "tx_row \<Rightarrow> payout_row list \<Rightarrow> json" where
  "distribute_payload tx ps = JObj
     [(''event'', JStr ''distribute.confirmed''), (''transactionHash'', nullable (tx_hash tx)),
      (''contractId'', JStr (tx_contract tx)), (''tokenId'', nullable (token_id tx)),
      (''requestedAmount'', nullable (requested_amount tx)), (''status'', JStr (tx_status tx)),
      (''recipients'', JArr (map payout_json ps)),
      (''timestamp'', JStr (case block_time tx of Some t \<Rightarrow> t | None \<Rightarrow> tx_timestamp tx))]"

text \<open>One delivery: an exception while the success is recorded also counts as a failed delivery; an
  exception in the failure branch is an unhandled rejection and ends this delivery only.\<close>

definition deliver_one ::
  "(string \<Rightarrow> string \<Rightarrow> string option) \<Rightarrow> int \<Rightarrow> string \<Rightarrow> nat \<times> webhook_row \<Rightarrow> ledger db \<Rightarrow> ledger db" where
  "deliver_one post now payload w d =
     (let r = snd w;
          attempt = (case post (wh_url r) payload of
             None \<Rightarrow> op_bind (reset_webhook_retry_count (fst w)) (\<lambda>_. op_return ())
           | Some msg \<Rightarrow> op_raise (PlainError msg));
          failure = (\<lambda>e.
             let n = wh_retry_count r + 1 in
             op_bind (update_webhook_retry_state_with_payload (fst w) n (Some (retry_time now n)) (Some payload)) (\<lambda>_.
             if max_webhook_retries \<le> n then
               op_catch (op_bind (move_to_dlq (fst w) (wh_url r) (wh_contract r) (Some payload)
                           (Some (case e of PlainError m \<Rightarrow> m | ReferenceError m \<Rightarrow> m | _ \<Rightarrow> [])) n now)
                           (\<lambda>_. op_return ()))
                 (\<lambda>_. op_return ())
             else op_return ()))
      in snd (op_catch attempt failure d))"

definition deliver_distribute_webhooks ::
  "(string \<Rightarrow> string \<Rightarrow> string option) \<Rightarrow> int \<Rightarrow> tx_row \<Rightarrow> payout_row list \<Rightarrow> ledger db \<Rightarrow> ledger db" where
  "deliver_distribute_webhooks post now tx ps d =
     (case fst (list_webhooks (tx_contract tx) d) of
        Inl _ \<Rightarrow> d
      | Inr ws \<Rightarrow> fold (deliver_one post now (json_stringify (distribute_payload tx ps))) ws d)"

section \<open>retry-failed-webhooks.js\<close>

record retry_run =
  attempted :: nat
  succeeded :: nat
  run_failed :: nat
  exhausted :: nat

definition retry_one ::
  "(string \<Rightarrow> string option \<Rightarrow> string option) \<Rightarrow> (string option \<Rightarrow> bool) \<Rightarrow> int \<Rightarrow> nat \<times> webhook_row \<Rightarrow> retry_run
    \<Rightarrow> retry_run ledger_op" where
  "retry_one post valid_json now w c =
     (let r = snd w in
      if \<not> valid_json (wh_payload r) then op_return c
      else op_catch
        (case post (wh_url r) (wh_payload r) of
           None \<Rightarrow> op_bind (reset_webhook_retry_count (fst w)) (\<lambda>_. op_return (c\<lparr>succeeded := succeeded c + 1\<rparr>))
         | Some msg \<Rightarrow> op_raise (PlainError msg))
        (\<lambda>e. let n = wh_retry_count r + 1 in
             if max_webhook_retries \<le> n then
               op_bind (update_webhook_retry_state_with_payload (fst w) n None (wh_payload r)) (\<lambda>_.
               op_return (c\<lparr>exhausted := exhausted c + 1, run_failed := run_failed c + 1\<rparr>))
             else
               op_bind (update_webhook_retry_state_with_payload (fst w) n (Some (retry_time now n)) (wh_payload r)) (\<lambda>_.
               op_return (c\<lparr>run_failed := run_failed c + 1\<rparr>))))"

fun retry_each ::
  "(string \<Rightarrow> string option \<Rightarrow> string option) \<Rightarrow> (string option \<Rightarrow> bool) \<Rightarrow> int \<Rightarrow> (nat \<times> webhook_row) list \<Rightarrow> retry_run
    \<Rightarrow> retry_run ledger_op" where
  "retry_each post valid_json now [] c = op_return c"
| "retry_each post valid_json now (w # ws) c =
     op_bind (retry_one post valid_json now w c) (retry_each post valid_json now ws)"

definition execute_webhook_retry_run ::
  "(string \<Rightarrow> string option \<Rightarrow> string option) \<Rightarrow> (string option \<Rightarrow> bool) \<Rightarrow> int \<Rightarrow> retry_run ledger_op" where
  "execute_webhook_retry_run post valid_json now =
     op_bind (get_webhooks_due_for_retry now) (\<lambda>due.
       retry_each post valid_json now due
         \<lparr>attempted = length due, succeeded = 0, run_failed = 0, exhausted = 0\<rparr>)"

section \<open>Properties\<close>

text \<open>What a retry does to the row of a webhook.\<close>

definition after_retry ::
  "(string \<Rightarrow> string option \<Rightarrow> string option) \<Rightarrow> (string option \<Rightarrow> bool) \<Rightarrow> int \<Rightarrow> webhook_row \<Rightarrow> webhook_row" where
  "after_retry post valid_json now r =
     (if \<not> valid_json (wh_payload r) then r
      else case post (wh_url r) (wh_payload r) of
        None \<Rightarrow> r\<lparr>wh_retry_count := 0, next_retry_time := None, wh_payload := None\<rparr>
      | Some _ \<Rightarrow> r\<lparr>wh_retry_count := wh_retry_count r + 1,
            next_retry_time := (if 3 \<le> wh_retry_count r then None
                                else Some (retry_time now (wh_retry_count r + 1)))\<rparr>)"

lemma set_webhook_get:
  "t_get (by_id i) (webhooks l) = Some (i, r) \<Longrightarrow>
     t_get (by_id i) (webhooks (snd (set_webhook (by_id i) f l))) = Some (i, f r)"
  "j \<noteq> i \<Longrightarrow> t_get (by_id j) (webhooks (snd (set_webhook (by_id i) f l))) = t_get (by_id j) (webhooks l)"
  by (simp_all add: set_webhook_def t_get_updated t_get_not_updated)

lemma set_webhook_frame [simp]: "webhook_dlq (snd (set_webhook P f l)) = webhook_dlq l"
  by (simp add: set_webhook_def)

lemma retry_one_effect:
  assumes "counting d" and "t_get (by_id i) (webhooks (tables d)) = Some (i, r)"
  shows "\<exists>c' d'. retry_one post vj now (i, r) c d = (Inr c', d') \<and> counting d'
    \<and> webhook_dlq (tables d') = webhook_dlq (tables d)
    \<and> t_get (by_id i) (webhooks (tables d')) = Some (i, after_retry post vj now r)
    \<and> (\<forall>j. j \<noteq> i \<longrightarrow> t_get (by_id j) (webhooks (tables d')) = t_get (by_id j) (webhooks (tables d)))"
proof -
  have n: "max_webhook_retries \<le> Suc (wh_retry_count r) \<longleftrightarrow> 3 \<le> wh_retry_count r"
    by (auto simp: max_webhook_retries_def)
  show ?thesis
  proof (cases "vj (wh_payload r)")
    case False
    then show ?thesis using assms by (simp add: retry_one_def op_return_def after_retry_def)
  next
    case True
    show ?thesis
    proof (cases "post (wh_url r) (wh_payload r)")
      case None
      then show ?thesis using True assms set_webhook_get
        by (simp add: retry_one_def Let_def op_simps after_retry_def reset_webhook_retry_count_def counted_write_ok)
    next
      case (Some m)
      then show ?thesis using True assms set_webhook_get
        by (cases "3 \<le> wh_retry_count r")
          (simp_all add: retry_one_def Let_def op_simps after_retry_def n
            update_webhook_retry_state_with_payload_def counted_write_ok)
    qed
  qed
qed

lemma retry_each_effect:
  assumes "counting d" and "distinct (map fst ws)"
    and "\<forall>w \<in> set ws. t_get (by_id (fst w)) (webhooks (tables d)) = Some w"
  shows "\<exists>c' d'. retry_each post vj now ws c d = (Inr c', d') \<and> counting d'
    \<and> webhook_dlq (tables d') = webhook_dlq (tables d)
    \<and> (\<forall>w \<in> set ws. t_get (by_id (fst w)) (webhooks (tables d')) = Some (fst w, after_retry post vj now (snd w)))
    \<and> (\<forall>j. j \<notin> fst ` set ws \<longrightarrow> t_get (by_id j) (webhooks (tables d')) = t_get (by_id j) (webhooks (tables d)))"
  using assms
proof (induction ws arbitrary: c d)
  case Nil
  then show ?case by (simp add: op_return_def)
next
  case (Cons w ws)
  obtain i r where w: "w = (i, r)" by (cases w)
  have "t_get (by_id i) (webhooks (tables d)) = Some (i, r)" using Cons.prems(3) w by simp
  from retry_one_effect [OF Cons.prems(1) this, of post vj now c] obtain c1 d1 where
    one: "retry_one post vj now w c d = (Inr c1, d1)" "counting d1"
      "webhook_dlq (tables d1) = webhook_dlq (tables d)"
      "t_get (by_id i) (webhooks (tables d1)) = Some (i, after_retry post vj now r)"
      "\<forall>j. j \<noteq> i \<longrightarrow> t_get (by_id j) (webhooks (tables d1)) = t_get (by_id j) (webhooks (tables d))"
    using w by blast
  have dist: "distinct (map fst ws)" "i \<notin> fst ` set ws" using Cons.prems(2) w by auto
  have "\<forall>v \<in> set ws. t_get (by_id (fst v)) (webhooks (tables d1)) = Some v"
    using Cons.prems(3) one(5) dist(2) by (metis image_eqI list.set_intros(2))
  from Cons.IH [OF one(2) dist(1) this, of c1] obtain c2 d2 where
    rest: "retry_each post vj now ws c1 d1 = (Inr c2, d2)" "counting d2"
      "webhook_dlq (tables d2) = webhook_dlq (tables d1)"
      "\<forall>v \<in> set ws. t_get (by_id (fst v)) (webhooks (tables d2)) = Some (fst v, after_retry post vj now (snd v))"
      "\<forall>j. j \<notin> fst ` set ws \<longrightarrow> t_get (by_id j) (webhooks (tables d2)) = t_get (by_id j) (webhooks (tables d1))"
    by blast
  show ?case
    using one rest dist(2) by (intro exI [of _ c2] exI [of _ d2]) (auto simp: op_bind_def w)
qed

lemma retry_run_effect:
  assumes "counting d" and "t_ok (webhooks (tables d))"
  shows "\<exists>c' d'. execute_webhook_retry_run post vj now d = (Inr c', d')
    \<and> webhook_dlq (tables d') = webhook_dlq (tables d)
    \<and> (\<forall>i r. t_get (by_id i) (webhooks (tables d)) = Some (i, r) \<longrightarrow>
         t_get (by_id i) (webhooks (tables d')) =
           Some (i, if due_for_retry now (i, r) then after_retry post vj now r else r))"
proof -
  let ?ws = "t_select (due_for_retry now) (webhooks (tables d))"
  have dist: "distinct (map fst ?ws)"
    using tb.ok_distinct [OF assms(2)] by (simp add: t_select_def distinct_map_filter)
  have all: "\<forall>w \<in> set ?ws. t_get (by_id (fst w)) (webhooks (tables d)) = Some w"
    using t_get_mem [OF assms(2)] by (auto simp: t_select_def)
  obtain c' d' where e: "retry_each post vj now ?ws
        \<lparr>attempted = length ?ws, succeeded = 0, run_failed = 0, exhausted = 0\<rparr> d = (Inr c', d')"
    "webhook_dlq (tables d') = webhook_dlq (tables d)"
    "\<forall>w \<in> set ?ws. t_get (by_id (fst w)) (webhooks (tables d')) = Some (fst w, after_retry post vj now (snd w))"
    "\<forall>j. j \<notin> fst ` set ?ws \<longrightarrow> t_get (by_id j) (webhooks (tables d')) = t_get (by_id j) (webhooks (tables d))"
    using retry_each_effect [OF assms(1) dist all] by blast
  have "t_get (by_id i) (webhooks (tables d')) = Some (i, if due_for_retry now (i, r) then after_retry post vj now r else r)"
    if g: "t_get (by_id i) (webhooks (tables d)) = Some (i, r)" for i r
  proof (cases "due_for_retry now (i, r)")
    case True
    then have "(i, r) \<in> set ?ws" using t_get_Some [OF g] by (simp add: t_select_def)
    then show ?thesis using e(3) True by fastforce
  next
    case False
    have "i \<notin> fst ` set ?ws"
    proof
      assume "i \<in> fst ` set ?ws"
      then obtain r2 where m: "(i, r2) \<in> set ?ws" by auto
      then have "t_get (by_id i) (webhooks (tables d)) = Some (i, r2)" using all by fastforce
      then show False using g False m by (simp add: t_select_def)
    qed
    then show ?thesis using e(4) g False by simp
  qed
  then show ?thesis using e(1,2)
    by (intro exI [of _ c'] exI [of _ d'])
      (simp add: execute_webhook_retry_run_def op_bind_def get_webhooks_due_for_retry_def op_read_def)
qed

text \<open>Retries are bounded and spaced.  In a pass of the job a webhook is tried only if it is
  enabled, due and has failed fewer than four times; a failure is counted and postpones the next try
  by 1, 5, or 15 minutes; the fourth failure ends the tries for good, and a success clears the state.
  Webhooks that are not due are not touched.\<close>

theorem webhook_retries_bounded:
  assumes "counting d" and "t_ok (webhooks (tables d))"
    and "t_get (by_id i) (webhooks (tables d)) = Some (i, r)" and "vj (wh_payload r)"
    and "execute_webhook_retry_run post vj now d = (res, d')"
  shows "\<exists>r'. t_get (by_id i) (webhooks (tables d')) = Some (i, r')
    \<and> (\<not> due_for_retry now (i, r) \<longrightarrow> r' = r)
    \<and> (due_for_retry now (i, r) \<and> post (wh_url r) (wh_payload r) = None \<longrightarrow>
         wh_retry_count r' = 0 \<and> next_retry_time r' = None)
    \<and> (due_for_retry now (i, r) \<and> post (wh_url r) (wh_payload r) \<noteq> None \<longrightarrow>
         wh_retry_count r' = wh_retry_count r + 1 \<and> wh_retry_count r' \<le> 4
         \<and> (wh_retry_count r' < 4 \<longrightarrow> next_retry_time r' =
               Some (to_iso (now + [60000, 300000, 900000] ! wh_retry_count r)))
         \<and> (wh_retry_count r' = 4 \<longrightarrow> (\<forall>later. \<not> due_for_retry later (i, r'))))"
proof -
  let ?r = "if due_for_retry now (i, r) then after_retry post vj now r else r"
  obtain c' d2 where e: "execute_webhook_retry_run post vj now d = (Inr c', d2)"
    "t_get (by_id i) (webhooks (tables d2)) = Some (i, ?r)"
    using retry_run_effect [OF assms(1,2), of post vj now] assms(3) by blast
  have d2: "d2 = d'" using e(1) assms(5) by simp
  have b: "retry_time now (Suc n) = to_iso (now + [60000, 300000, 900000] ! n)" if "n < 3" for n
  proof -
    have "n = 0 \<or> n = 1 \<or> n = 2" using that by auto
    then show ?thesis by (auto simp: retry_time_def webhook_backoff_ms_def)
  qed
  have lt: "due_for_retry now (i, r) \<Longrightarrow> wh_retry_count r < 4" by (simp add: due_for_retry_def)
  show ?thesis
    using e(2) d2 assms(4) lt b [of "wh_retry_count r"]
    by (intro exI [of _ ?r]) (auto simp: after_retry_def due_for_retry_def)
qed

definition failing_webhook :: webhook_row where
  "failing_webhook = (new_webhook ''C1'' ''https://a'' 0)\<lparr>wh_retry_count := 3, next_retry_time := Some (to_iso 0),
     wh_payload := Some ''{}''\<rparr>"

definition webhook_db :: "ledger db" where
  "webhook_db = counted_connection (empty_ledger\<lparr>webhooks := snd (t_insert failing_webhook t_empty)\<rparr>)"

lemma webhook_db_facts: "counting webhook_db" "t_ok (webhooks (tables webhook_db))"
  "t_get (by_id 1) (webhooks (tables webhook_db)) = Some (1, failing_webhook)"
  by (simp_all add: webhook_db_def t_get_def t_insert_def t_empty_def by_id_def t_ok_def)

theorem webhook_retries_bounded_witness:
  "\<exists>r'. t_get (by_id 1) (webhooks (tables (snd (execute_webhook_retry_run (\<lambda>_ _. Some ''HTTP 500'') (\<lambda>_. True) 0
      webhook_db)))) = Some (1, r') \<and> wh_retry_count r' = 4"
proof -
  have due: "due_for_retry 0 (1, failing_webhook)"
    by (simp add: due_for_retry_def failing_webhook_def new_webhook_def)
  have "wh_retry_count failing_webhook = 3" by (simp add: failing_webhook_def)
  with webhook_retries_bounded [OF webhook_db_facts, of "\<lambda>_. True" "\<lambda>_ _. Some ''HTTP 500''" 0,
      OF _ surjective_pairing] due
  show ?thesis by auto
qed

text \<open>The retry job never fills the dead letter queue: whatever the deliveries do, also when a
  webhook fails for the last time, its pass leaves the queue as it was.\<close>

theorem retry_job_never_dead_letters:
  assumes "counting d" and "t_ok (webhooks (tables d))"
  shows "webhook_dlq (tables (snd (execute_webhook_retry_run post vj now d))) = webhook_dlq (tables d)"
  using retry_run_effect [OF assms, of post vj now] by auto

theorem retry_job_never_dead_letters_witness:
  "webhook_dlq (tables (snd (execute_webhook_retry_run (\<lambda>_ _. Some ''HTTP 500'') (\<lambda>_. True) 0 webhook_db))) =
     webhook_dlq (tables webhook_db)"
  by (rule retry_job_never_dead_letters [OF webhook_db_facts(1,2)])

text \<open>Registering a target twice keeps one row, enables it again and forgets its failures.\<close>

lemma register_webhook_again:
  assumes "counting d" and "t_get (same_target contract url) (webhooks (tables d)) = Some (i, r)"
  shows "fst (register_webhook lst contract url now d) = Inr lst"
    and "t_get (same_target contract url) (webhooks (tables (snd (register_webhook lst contract url now d)))) =
      Some (i, r\<lparr>wh_enabled := True, wh_retry_count := 0, next_retry_time := None\<rparr>)"
    and "length (trows (webhooks (tables (snd (register_webhook lst contract url now d))))) =
      length (trows (webhooks (tables d)))"
proof -
  let ?f = "\<lambda>r. r\<lparr>wh_enabled := True, wh_retry_count := 0, next_retry_time := None\<rparr>"
  have u: "webhooks (tables (snd (register_webhook lst contract url now d))) =
      t_update (same_target contract url) ?f (webhooks (tables d))"
    using assms by (simp add: register_webhook_def counted_write_tables set_webhook_def)
  show "fst (register_webhook lst contract url now d) = Inr lst"
    using assms by (simp add: register_webhook_def counted_write_ok)
  show "t_get (same_target contract url) (webhooks (tables (snd (register_webhook lst contract url now d)))) =
      Some (i, ?f r)"
    unfolding u by (rule t_get_update_where [OF assms(2)]) (simp add: same_target_def)
  show "length (trows (webhooks (tables (snd (register_webhook lst contract url now d))))) =
      length (trows (webhooks (tables d)))"
    unfolding u by (simp add: t_update_def)
qed

end
