(* ===== verification/Pool.thy ===== *)
theory Pool
  imports OrderedMap "HOL-Library.Multiset"
begin

text \<open>
  \<open>src/backend/src/database/pool.js\<close>: the pool of SQLite connections.  Requests and connections are
  numbered; the state holds the private fields and metrics of the class, the armed timers, the
  promises that were rejected by their timer (\<open>pl_expired\<close>) and the connections in the hands of a
  caller (\<open>pl_held\<close>, pairs of request and connection).  A connection passed to a promise that is
  already settled reaches nobody: \<open>pl_lost\<close> records it.

  A waiter in the queue is the wrapper function of its request; the timer looks for the inner
  \<open>resolve\<close> function of the promise, which is another object.
\<close>

datatype resolver = Wrapper nat | Inner nat

record pool =
  pl_size :: nat
  pl_available :: "nat list"
  pl_waiters :: "resolver list"
  pl_draining :: bool
  pl_closed :: bool
  pl_active :: int
  pl_queue_length :: int
  pl_total_wait :: int
  pl_timeouts :: nat
  pl_acquires :: nat
  pl_next :: nat
  pl_started :: "(nat, int) jsmap"
  pl_timers :: "nat list"
  pl_expired :: "nat list"
  pl_refused :: "nat list"
  pl_held :: "(nat \<times> nat) list"
  pl_lost :: "nat list"

definition pool_init :: "nat \<Rightarrow> pool" where
  "pool_init n = \<lparr>pl_size = n, pl_available = [0..<n], pl_waiters = [], pl_draining = False,
     pl_closed = False, pl_active = 0, pl_queue_length = 0, pl_total_wait = 0, pl_timeouts = 0,
     pl_acquires = 0, pl_next = 0, pl_started = [], pl_timers = [], pl_expired = [], pl_refused = [],
     pl_held = [], pl_lost = []\<rparr>"

text \<open>Resolving the promise of a request: only an unsettled promise hands the connection over.\<close>

definition resolve_promise :: "nat \<Rightarrow> nat \<Rightarrow> pool \<Rightarrow> pool" where
  "resolve_promise i c p =
     (if i \<in> set (pl_expired p) then p\<lparr>pl_lost := c # pl_lost p\<rparr>
      else p\<lparr>pl_held := (i, c) # pl_held p\<rparr>)"

definition pool_acquire :: "int \<Rightarrow> pool \<Rightarrow> pool" where
  "pool_acquire now p0 =
     (let i = pl_next p0; p = p0\<lparr>pl_next := Suc i\<rparr> in
      if pl_draining p then p\<lparr>pl_refused := i # pl_refused p\<rparr>
      else
        let p1 = p\<lparr>pl_acquires := pl_acquires p + 1\<rparr>
        in if pl_available p1 \<noteq> [] then
             resolve_promise i (last (pl_available p1))
               (p1\<lparr>pl_available := butlast (pl_available p1), pl_active := pl_active p1 + 1\<rparr>)
           else p1\<lparr>pl_queue_length := pl_queue_length p1 + 1, pl_started := map_set i now (pl_started p1),
                   pl_timers := i # pl_timers p1, pl_waiters := pl_waiters p1 @ [Wrapper i]\<rparr>)"

text \<open>\<open>waiters.findIndex(w => w.resolve === resolve)\<close> and the \<open>splice\<close> of what it finds.\<close>

fun remove_first :: "resolver \<Rightarrow> resolver list \<Rightarrow> resolver list" where
  "remove_first r [] = []"
| "remove_first r (w # ws) = (if w = r then ws else w # remove_first r ws)"

definition pool_timeout :: "nat \<Rightarrow> pool \<Rightarrow> pool" where
  "pool_timeout i p = p\<lparr>pl_waiters := remove_first (Inner i) (pl_waiters p),
     pl_queue_length := pl_queue_length p - 1, pl_timeouts := pl_timeouts p + 1,
     pl_timers := filter (\<lambda>j. j \<noteq> i) (pl_timers p), pl_expired := i # pl_expired p\<rparr>"

text \<open>Calling the wrapper of a waiter.\<close>

definition call_waiter :: "resolver \<Rightarrow> nat \<Rightarrow> int \<Rightarrow> pool \<Rightarrow> pool" where
  "call_waiter w c now p =
     (case w of
        Wrapper i \<Rightarrow>
          let waited = (case map_get (pl_started p) i of Some t \<Rightarrow> now - t | None \<Rightarrow> 0)
          in resolve_promise i c (p\<lparr>pl_timers := filter (\<lambda>j. j \<noteq> i) (pl_timers p),
               pl_queue_length := pl_queue_length p - 1, pl_total_wait := pl_total_wait p + waited,
               pl_active := pl_active p + 1\<rparr>)
      | Inner i \<Rightarrow> resolve_promise i c p)"

definition pool_release :: "nat \<Rightarrow> int \<Rightarrow> pool \<Rightarrow> pool" where
  "pool_release c now p0 =
     (let p = p0\<lparr>pl_active := pl_active p0 - 1\<rparr> in
      case pl_waiters p of
        w # ws \<Rightarrow> call_waiter w c now (p\<lparr>pl_waiters := ws\<rparr>)
      | [] \<Rightarrow> p\<lparr>pl_available := pl_available p @ [c]\<rparr>)"

definition pool_drain :: "pool \<Rightarrow> pool" where
  "pool_drain p = p\<lparr>pl_draining := True\<rparr>"

text \<open>One check of \<open>drain\<close>: the connections are closed when none is counted as active.\<close>

definition drain_check :: "pool \<Rightarrow> pool" where
  "drain_check p = (if pl_active p = 0 then p\<lparr>pl_closed := True\<rparr> else p)"

text \<open>A caller gives its connection back once, in the \<open>finally\<close> of \<open>run\<close>.\<close>

definition return_connection :: "nat \<times> nat \<Rightarrow> int \<Rightarrow> pool \<Rightarrow> pool" where
  "return_connection h now p = pool_release (snd h) now (p\<lparr>pl_held := remove1 h (pl_held p)\<rparr>)"

inductive pool_step :: "pool \<Rightarrow> pool \<Rightarrow> bool" where
  step_acquire: "pool_step p (pool_acquire now p)"
| step_timeout: "i \<in> set (pl_timers p) \<Longrightarrow> pool_step p (pool_timeout i p)"
| step_return: "h \<in> set (pl_held p) \<Longrightarrow> pool_step p (return_connection h now p)"
| step_drain: "pool_step p (pool_drain p)"
| step_check: "pl_draining p \<Longrightarrow> pool_step p (drain_check p)"

inductive pool_reach :: "nat \<Rightarrow> pool \<Rightarrow> bool" for n where
  reach_start: "pool_reach n (pool_init n)"
| reach_step: "pool_reach n p \<Longrightarrow> pool_step p p' \<Longrightarrow> pool_reach n p'"

section \<open>The invariant\<close>

definition pool_inv :: "nat \<Rightarrow> pool \<Rightarrow> bool" where
  "pool_inv n p \<longleftrightarrow>
     mset (pl_available p) + mset (map snd (pl_held p)) + mset (pl_lost p) = mset [0..<n]
   \<and> pl_active p = int (length (pl_held p)) + int (length (pl_lost p))
   \<and> (\<forall>w \<in> set (pl_waiters p). \<exists>i < pl_next p. w = Wrapper i)
   \<and> (\<forall>i \<in> set (pl_timers p) \<union> set (pl_expired p). i < pl_next p)
   \<and> (pl_waiters p \<noteq> [] \<longrightarrow> pl_available p = [])"

lemma remove_first_notin: "r \<notin> set ws \<Longrightarrow> remove_first r ws = ws"
  by (induction ws) auto

lemma mset_butlast_last: "xs \<noteq> [] \<Longrightarrow> mset xs = add_mset (last xs) (mset (butlast xs))"
  by (metis append_butlast_last_id mset.simps(1,2) mset_append union_mset_add_mset_right add.right_neutral)

lemma pool_inv_init: "pool_inv n (pool_init n)"
  by (simp add: pool_inv_def pool_init_def)

lemma pool_inv_acquire: "pool_inv n p \<Longrightarrow> pool_inv n (pool_acquire now p)"
  using mset_butlast_last [of "pl_available p"]
  by (auto simp: pool_inv_def pool_acquire_def resolve_promise_def Let_def less_Suc_eq)

lemma pool_inv_timeout: "i \<in> set (pl_timers p) \<Longrightarrow> pool_inv n p \<Longrightarrow> pool_inv n (pool_timeout i p)"
  using remove_first_notin [of "Inner i" "pl_waiters p"]
  by (fastforce simp: pool_inv_def pool_timeout_def)

lemma pool_inv_return:
  assumes "pool_inv n p" "h \<in> set (pl_held p)"
  shows "pool_inv n (return_connection h now p)"
proof -
  have m: "add_mset (snd h) (mset (map snd (remove1 h (pl_held p)))) = mset (map snd (pl_held p))"
    using assms(2) by (simp add: image_mset_Diff multiset.map_comp)
  have l: "int (length (remove1 h (pl_held p))) = int (length (pl_held p)) - 1"
    using assms(2) by (cases "length (pl_held p)") (auto simp: length_remove1)
  let ?r = "return_connection h now p"
  show ?thesis
  proof (cases "pl_waiters p")
    case Nil
    then have "?r = p\<lparr>pl_held := remove1 h (pl_held p), pl_active := pl_active p - 1,
        pl_available := pl_available p @ [snd h]\<rparr>"
      by (simp add: return_connection_def pool_release_def Let_def)
    then show ?thesis using assms(1) m l Nil unfolding pool_inv_def
      by (simp del: mset_remove1) (metis add_mset_add_single union_mset_add_mset_left union_mset_add_mset_right)
  next
    case (Cons w ws)
    then obtain i where i: "w = Wrapper i" "i < pl_next p" using assms(1) by (auto simp: pool_inv_def)
    have frame: "pl_available ?r = pl_available p" "pl_next ?r = pl_next p" "pl_waiters ?r = ws"
      "set (pl_timers ?r) \<subseteq> set (pl_timers p)" "pl_expired ?r = pl_expired p"
      "pl_active ?r = pl_active p"
      using Cons i by (auto simp: return_connection_def pool_release_def call_waiter_def
          resolve_promise_def Let_def)
    have moved: "mset (map snd (pl_held ?r)) + mset (pl_lost ?r) =
        add_mset (snd h) (mset (map snd (remove1 h (pl_held p)))) + mset (pl_lost p)"
      "int (length (pl_held ?r)) + int (length (pl_lost ?r)) =
        int (length (remove1 h (pl_held p))) + 1 + int (length (pl_lost p))"
      using Cons i by (simp_all add: return_connection_def pool_release_def call_waiter_def
          resolve_promise_def Let_def)
    show ?thesis
      using assms(1) moved frame Cons unfolding pool_inv_def m l
      by (auto simp: add.assoc)
  qed
qed

lemma pool_inv_step: "pool_step p p' \<Longrightarrow> pool_inv n p \<Longrightarrow> pool_inv n p'"
proof (induction rule: pool_step.induct)
  case (step_acquire p now)
  then show ?case by (rule pool_inv_acquire)
next
  case (step_timeout i p)
  then show ?case by (intro pool_inv_timeout)
next
  case (step_return h p now)
  then show ?case by (intro pool_inv_return)
qed (simp_all add: pool_drain_def drain_check_def pool_inv_def)

lemma pool_reach_inv: "pool_reach n p \<Longrightarrow> pool_inv n p"
  by (induction rule: pool_reach.induct) (auto intro: pool_inv_init pool_inv_step)

section \<open>The specification\<close>

text \<open>
  A resource pool as a caller sees it: the free connections and who holds which.  A step takes a
  free connection, gives one back, hands one over to another request, or changes nothing.
\<close>

type_synonym pool_spec = "nat multiset \<times> (nat \<times> nat) multiset"

inductive spec_step :: "pool_spec \<Rightarrow> pool_spec \<Rightarrow> bool" where
  spec_idle: "spec_step (F, H) (F, H)"
| spec_take: "spec_step (add_mset c F, H) (F, add_mset (i, c) H)"
| spec_give: "spec_step (F, add_mset (i, c) H) (add_mset c F, H)"
| spec_pass: "spec_step (F, add_mset (i, c) H) (F, add_mset (j, c) H)"

definition pool_abs :: "pool \<Rightarrow> pool_spec" where
  "pool_abs p = (mset (pl_available p), mset (pl_held p))"

definition no_expired_waiter :: "pool \<Rightarrow> bool" where
  "no_expired_waiter p \<longleftrightarrow> (\<forall>i \<in> set (pl_expired p). Wrapper i \<notin> set (pl_waiters p))"

lemma acquire_refines:
  assumes "pool_inv n p"
  shows "spec_step (pool_abs p) (pool_abs (pool_acquire now p))"
proof (cases "pl_draining p \<or> pl_available p = []")
  case True
  then have "pool_abs (pool_acquire now p) = pool_abs p"
    by (auto simp: pool_abs_def pool_acquire_def Let_def)
  then show ?thesis by (cases "pool_abs p") (simp add: spec_idle)
next
  case False
  let ?c = "last (pl_available p)"
  have "pl_next p \<notin> set (pl_expired p)" using assms by (auto simp: pool_inv_def)
  then have "pool_abs (pool_acquire now p) =
      (mset (butlast (pl_available p)), add_mset (pl_next p, ?c) (mset (pl_held p)))"
    using False by (simp add: pool_abs_def pool_acquire_def Let_def resolve_promise_def)
  moreover have "pool_abs p = (add_mset ?c (mset (butlast (pl_available p))), mset (pl_held p))"
    using False mset_butlast_last [of "pl_available p"] by (simp add: pool_abs_def)
  ultimately show ?thesis by (simp add: spec_take)
qed

lemma return_refines:
  assumes "pool_inv n p" "no_expired_waiter p" "h \<in> set (pl_held p)"
  shows "spec_step (pool_abs p) (pool_abs (return_connection h now p))"
proof -
  obtain i c where h: "h = (i, c)" by fastforce
  let ?H = "mset (remove1 h (pl_held p))"
  have abs: "pool_abs p = (mset (pl_available p), add_mset (i, c) ?H)"
    using assms(3) h by (simp add: pool_abs_def)
  show ?thesis
  proof (cases "pl_waiters p")
    case Nil
    then have "pool_abs (return_connection h now p) = (add_mset c (mset (pl_available p)), ?H)"
      by (simp add: pool_abs_def return_connection_def pool_release_def Let_def h)
    then show ?thesis unfolding abs by (simp add: spec_give)
  next
    case (Cons w ws)
    then obtain j where j: "w = Wrapper j" using assms(1) by (auto simp: pool_inv_def)
    then have "j \<notin> set (pl_expired p)" using assms(2) Cons by (auto simp: no_expired_waiter_def)
    then have "pool_abs (return_connection h now p) = (mset (pl_available p), add_mset (j, c) ?H)"
      using Cons j by (simp add: pool_abs_def return_connection_def pool_release_def Let_def h
          call_waiter_def resolve_promise_def)
    then show ?thesis unfolding abs by (simp add: spec_pass)
  qed
qed

section \<open>Properties\<close>

text \<open>C9: as long as no request that timed out is still queued, every step of the pool is a step of
  the resource-pool specification: connections are taken, given back and handed over, never
  duplicated or lost.\<close>

theorem pool_refines_spec:
  assumes "pool_reach n p" "no_expired_waiter p" "pool_step p p'"
  shows "spec_step (pool_abs p) (pool_abs p')"
proof -
  have inv: "pool_inv n p" by (rule pool_reach_inv [OF assms(1)])
  from assms(3) show ?thesis
  proof (cases rule: pool_step.cases)
    case (step_acquire now)
    then show ?thesis using acquire_refines [OF inv] by simp
  next
    case (step_return h now)
    then show ?thesis using return_refines [OF inv assms(2)] by simp
  qed (auto intro!: spec_idle simp: pool_abs_def pool_timeout_def pool_drain_def drain_check_def)
qed

definition busy_pool :: pool where
  "busy_pool = pool_acquire 0 (pool_acquire 0 (pool_init 1))"

lemma busy_pool_reach: "pool_reach 1 busy_pool"
  unfolding busy_pool_def by (blast intro: reach_start reach_step step_acquire)

lemma busy_pool_fields: "pl_held busy_pool = [(0, 0)]" "pl_waiters busy_pool = [Wrapper 1]"
  "pl_timers busy_pool = [1]" "pl_expired busy_pool = []" "pl_available busy_pool = []"
  by (simp_all add: busy_pool_def pool_acquire_def pool_init_def resolve_promise_def Let_def)

theorem pool_refines_spec_witness:
  "spec_step ({#}, {#(0, 0)#}) (pool_abs (return_connection (0, 0) 5 busy_pool))"
proof -
  have "pool_step busy_pool (return_connection (0, 0) 5 busy_pool)"
    by (rule step_return) (simp add: busy_pool_fields)
  from pool_refines_spec [OF busy_pool_reach _ this] show ?thesis
    by (simp add: no_expired_waiter_def busy_pool_fields pool_abs_def)
qed

text \<open>Whatever happens, no connection is in two places: the free connections and the ones in the
  hands of callers are different connections of the pool, and the count of active connections is
  never below the number of holders.\<close>

theorem pool_connections_exclusive:
  assumes "pool_reach n p"
  shows "distinct (pl_available p @ map snd (pl_held p))
    \<and> set (pl_available p @ map snd (pl_held p)) \<subseteq> {0..<n} \<and> int (length (pl_held p)) \<le> pl_active p"
proof -
  have inv: "pool_inv n p" by (rule pool_reach_inv [OF assms])
  let ?xs = "pl_available p @ map snd (pl_held p) @ pl_lost p"
  have m: "mset ?xs = mset [0..<n]" using inv by (simp add: pool_inv_def add.assoc)
  then have "distinct ?xs" by (metis distinct_upt mset_eq_imp_distinct_iff)
  moreover have "set ?xs = {0..<n}" using m by (metis set_mset_mset set_upt)
  ultimately show ?thesis using inv by (auto simp: pool_inv_def)
qed

theorem pool_connections_exclusive_witness:
  "distinct (pl_available busy_pool @ map snd (pl_held busy_pool))"
  using pool_connections_exclusive [OF busy_pool_reach] by blast

lemma lost_stays: "pool_step p p' \<Longrightarrow> set (pl_lost p) \<subseteq> set (pl_lost p')"
  by (induction rule: pool_step.induct)
    (auto simp: pool_acquire_def pool_timeout_def return_connection_def pool_release_def
      call_waiter_def resolve_promise_def pool_drain_def drain_check_def Let_def
      split: list.splits resolver.splits)

lemma lost_blocks_drain:
  "pool_step p p' \<Longrightarrow> pl_active p > 0 \<Longrightarrow> pl_closed p' = pl_closed p"
  by (induction rule: pool_step.induct)
    (auto simp: pool_acquire_def pool_timeout_def return_connection_def pool_release_def
      call_waiter_def resolve_promise_def pool_drain_def drain_check_def Let_def
      split: list.splits resolver.splits)

lemma lost_forever:
  assumes "pool_step\<^sup>*\<^sup>* p q" "pool_reach n p" "c \<in> set (pl_lost p)"
  shows "pool_reach n q \<and> c \<in> set (pl_lost q) \<and> pl_closed q = pl_closed p"
  using assms(1)
proof (induction rule: rtranclp_induct)
  case base
  then show ?case using assms by simp
next
  case (step q r)
  then have q: "pool_reach n q" "c \<in> set (pl_lost q)" by simp_all
  then have "pl_active q > 0"
    using pool_reach_inv [OF q(1)] by (cases "pl_lost q") (auto simp: pool_inv_def)
  then show ?case using step q lost_stays lost_blocks_drain by (blast intro: reach_step)
qed

text \<open>A request that timed out stays in the queue, because its timer looks for another function
  object; the connection returned while it is at the head goes to its settled promise: from then on
  no caller can ever hold it, it is never free again, and a drain never closes the pool.\<close>

theorem timed_out_waiter_leaks_connection:
  assumes "pool_reach n p" "pl_waiters p = Wrapper i # ws" "i \<in> set (pl_expired p)"
    and "h \<in> set (pl_held p)" "pool_step\<^sup>*\<^sup>* (return_connection h now p) q"
  shows "snd h \<notin> set (pl_available q) \<and> snd h \<notin> snd ` set (pl_held q) \<and> pl_closed q = pl_closed p"
proof -
  let ?p1 = "return_connection h now p"
  have r: "pool_reach n ?p1" using assms(1,4) by (blast intro: reach_step step_return)
  have "snd h \<in> set (pl_lost ?p1)" and c: "pl_closed ?p1 = pl_closed p"
    using assms(2,3) by (simp_all add: return_connection_def pool_release_def call_waiter_def
        resolve_promise_def Let_def)
  from lost_forever [OF assms(5) r this(1)] have q: "pool_reach n q" "snd h \<in> set (pl_lost q)"
    "pl_closed q = pl_closed p" using c by simp_all
  let ?xs = "pl_available q @ map snd (pl_held q) @ pl_lost q"
  have "mset ?xs = mset [0..<n]" using pool_reach_inv [OF q(1)] by (simp add: pool_inv_def add.assoc)
  then have "distinct ?xs" by (metis distinct_upt mset_eq_imp_distinct_iff)
  then show ?thesis using q by auto
qed

text \<open>Also a timed-out request that times out is counted twice when its wrapper runs.\<close>

lemma timed_out_queue_length:
  assumes "pl_waiters p = Wrapper i # ws" "i \<in> set (pl_expired p)"
  shows "pl_queue_length (pool_release c now p) = pl_queue_length p - 1"
  using assms by (simp add: pool_release_def call_waiter_def resolve_promise_def Let_def)

theorem timed_out_waiter_leaks_connection_witness:
  "0 \<notin> set (pl_available (pool_drain (return_connection (0, 0) 6000 (pool_timeout 1 busy_pool))))"
proof -
  let ?p = "pool_timeout 1 busy_pool"
  have r: "pool_reach 1 ?p"
    using busy_pool_reach by (rule reach_step) (simp add: step_timeout busy_pool_fields)
  have f: "pl_waiters ?p = [Wrapper 1]" "1 \<in> set (pl_expired ?p)" "(0, 0) \<in> set (pl_held ?p)"
    by (simp_all add: pool_timeout_def busy_pool_fields)
  have "pool_step\<^sup>*\<^sup>* (return_connection (0, 0) 6000 ?p) (pool_drain (return_connection (0, 0) 6000 ?p))"
    by (rule r_into_rtranclp) (rule step_drain)
  from timed_out_waiter_leaks_connection [OF r f this] show ?thesis by simp
qed

end
