(* ===== verification/Websocket.thy ===== *)
theory Websocket
  imports Http
begin

text \<open>
  \<open>src/backend/src/websocket.js\<close>: the registry of WebSocket subscriptions.  \<open>clients\<close> maps a key (a
  wallet address, \<open>txn:<id>\<close> or \<open>finality:<id>\<close>) to a set of sockets, kept as a list in insertion
  order.  A socket object keeps the properties the code puts on it; it stays referenced after it is
  closed if a set still holds it.  The messages sent are collected as pairs of socket and JSON.
  The fields of a client message are the strings they print as.
\<close>

record socket =
  so_connected :: bool       \<comment> \<open>member of \<open>wss.clients\<close>\<close>
  so_open :: bool            \<comment> \<open>\<open>readyState === 1\<close>\<close>
  so_alive :: bool
  so_wallet :: "string option"
  so_txn :: "string list"
  so_fin :: "string list"

record ws_state =
  ws_sockets :: "(nat, socket) jsmap"
  ws_clients :: "(string, nat list) jsmap"
  ws_sent :: "(nat \<times> json) list"

definition ws_init :: ws_state where
  "ws_init = \<lparr>ws_sockets = [], ws_clients = [], ws_sent = []\<rparr>"

record client_message =
  cm_type :: string
  cm_wallet :: "string option"
  cm_id :: "string option"
  cm_transaction :: "string option"

definition set_add :: "'a \<Rightarrow> 'a list \<Rightarrow> 'a list" where
  "set_add x xs = (if x \<in> set xs then xs else xs @ [x])"

definition members :: "string \<Rightarrow> (string, nat list) jsmap \<Rightarrow> nat list" where
  "members k cl = (case map_get cl k of None \<Rightarrow> [] | Some s \<Rightarrow> s)"

definition add_client :: "string \<Rightarrow> nat \<Rightarrow> (string, nat list) jsmap \<Rightarrow> (string, nat list) jsmap" where
  "add_client k i cl = map_set k (set_add i (members k cl)) cl"

definition drop_client :: "nat \<Rightarrow> string \<Rightarrow> (string, nat list) jsmap \<Rightarrow> (string, nat list) jsmap" where
  "drop_client i k cl =
     (case map_get cl k of
        None \<Rightarrow> cl
      | Some s \<Rightarrow>
          let s' = filter (\<lambda>j. j \<noteq> i) s in if s' = [] then map_delete k cl else map_set k s' cl)"

definition update_socket :: "nat \<Rightarrow> (socket \<Rightarrow> socket) \<Rightarrow> ws_state \<Rightarrow> ws_state" where
  "update_socket i f st =
     (case map_get (ws_sockets st) i of
        None \<Rightarrow> st
      | Some s \<Rightarrow> st\<lparr>ws_sockets := map_set i (f s) (ws_sockets st)\<rparr>)"

definition ws_send :: "nat \<Rightarrow> json \<Rightarrow> ws_state \<Rightarrow> ws_state" where
  "ws_send i m st = st\<lparr>ws_sent := ws_sent st @ [(i, m)]\<rparr>"

section \<open>Events\<close>

definition ws_connect :: "nat \<Rightarrow> ws_state \<Rightarrow> ws_state" where
  "ws_connect i st = st\<lparr>ws_sockets := map_set i \<lparr>so_connected = True, so_open = True,
     so_alive = True, so_wallet = None, so_txn = [], so_fin = []\<rparr> (ws_sockets st)\<rparr>"

definition subscribe_wallet :: "nat \<Rightarrow> string \<Rightarrow> ws_state \<Rightarrow> ws_state" where
  "subscribe_wallet i w st =
     (let st1 = update_socket i (\<lambda>s. s\<lparr>so_wallet := Some w\<rparr>) st;
          st2 = st1\<lparr>ws_clients := add_client w i (ws_clients st1)\<rparr>
      in ws_send i (JObj [(''type'', JStr ''subscribed''), (''walletAddress'', JStr w)]) st2)"

definition txn_key :: "string \<Rightarrow> string" where
  "txn_key x = ''txn:'' @ x"

definition finality_key :: "string \<Rightarrow> string" where
  "finality_key x = ''finality:'' @ x"

definition subscribe_txn :: "nat \<Rightarrow> string \<Rightarrow> ws_state \<Rightarrow> ws_state" where
  "subscribe_txn i x st =
     (let st1 = st\<lparr>ws_clients := add_client (txn_key x) i (ws_clients st)\<rparr>;
          st2 = update_socket i (\<lambda>s. s\<lparr>so_txn := set_add (txn_key x) (so_txn s)\<rparr>) st1
      in ws_send i (JObj [(''type'', JStr ''subscribed''), (''id'', JStr x)]) st2)"

definition subscribe_finality :: "nat \<Rightarrow> string \<Rightarrow> ws_state \<Rightarrow> ws_state" where
  "subscribe_finality i x st =
     (let st1 = st\<lparr>ws_clients := add_client (finality_key x) i (ws_clients st)\<rparr>;
          st2 = update_socket i (\<lambda>s. s\<lparr>so_fin := set_add (finality_key x) (so_fin s)\<rparr>) st1
      in ws_send i (JObj [(''type'', JStr ''subscribed_finality''), (''transactionId'', JStr x)]) st2)"

definition on_message :: "nat \<Rightarrow> client_message \<Rightarrow> ws_state \<Rightarrow> ws_state" where
  "on_message i m st =
     (let st1 = (if cm_type m = ''subscribe'' \<and> truthy (cm_wallet m)
                 then subscribe_wallet i (the (cm_wallet m)) st else st);
          st2 = (if cm_type m = ''subscribe'' \<and> truthy (cm_id m)
                 then subscribe_txn i (the (cm_id m)) st1 else st1);
          st3 = (if cm_type m = ''subscribe_finality'' \<and> truthy (cm_transaction m)
                 then subscribe_finality i (the (cm_transaction m)) st2 else st2)
      in if cm_type m = ''ping'' then ws_send i (JObj [(''type'', JStr ''pong'')]) st3 else st3)"

definition on_close :: "nat \<Rightarrow> ws_state \<Rightarrow> ws_state" where
  "on_close i st =
     (case map_get (ws_sockets st) i of
        None \<Rightarrow> st
      | Some s \<Rightarrow>
          let cl1 = (case so_wallet s of None \<Rightarrow> ws_clients st | Some w \<Rightarrow> drop_client i w (ws_clients st));
              cl2 = fold (drop_client i) (so_txn s) cl1;
              cl3 = fold (drop_client i) (so_fin s) cl2
          in update_socket i (\<lambda>s. s\<lparr>so_connected := False, so_open := False\<rparr>)
               (st\<lparr>ws_clients := cl3\<rparr>))"

text \<open>The auto-disconnect timer, a pong, and the heartbeat over all connected sockets.\<close>

definition ws_terminate :: "socket \<Rightarrow> socket" where
  "ws_terminate s = s\<lparr>so_open := False\<rparr>"

definition auto_disconnect :: "nat \<Rightarrow> ws_state \<Rightarrow> ws_state" where
  "auto_disconnect i = update_socket i (\<lambda>s. if so_open s then ws_terminate s else s)"

definition on_pong :: "nat \<Rightarrow> ws_state \<Rightarrow> ws_state" where
  "on_pong i = update_socket i (\<lambda>s. s\<lparr>so_alive := True\<rparr>)"

definition heartbeat_one :: "socket \<Rightarrow> socket" where
  "heartbeat_one s =
     (if \<not> so_connected s then s
      else if \<not> so_alive s then ws_terminate s else s\<lparr>so_alive := False\<rparr>)"

definition heartbeat :: "ws_state \<Rightarrow> ws_state" where
  "heartbeat st = st\<lparr>ws_sockets := map (\<lambda>p. (fst p, heartbeat_one (snd p))) (ws_sockets st)\<rparr>"

section \<open>Sending\<close>

definition is_open :: "ws_state \<Rightarrow> nat \<Rightarrow> bool" where
  "is_open st i = (case map_get (ws_sockets st) i of None \<Rightarrow> False | Some s \<Rightarrow> so_open s)"

definition has_wallet :: "ws_state \<Rightarrow> nat \<Rightarrow> bool" where
  "has_wallet st i = (case map_get (ws_sockets st) i of None \<Rightarrow> False | Some s \<Rightarrow> truthy (so_wallet s))"

definition send_all :: "nat list \<Rightarrow> json \<Rightarrow> ws_state \<Rightarrow> nat \<times> ws_state" where
  "send_all is m st = (length is, st\<lparr>ws_sent := ws_sent st @ map (\<lambda>i. (i, m)) is\<rparr>)"

definition notification_json :: "json \<Rightarrow> json" where
  "notification_json d = JObj [(''type'', JStr ''notification''), (''data'', d)]"

definition send_notification :: "string \<Rightarrow> json \<Rightarrow> ws_state \<Rightarrow> bool \<times> ws_state" where
  "send_notification w d st =
     (if \<not> map_has (ws_clients st) w then (False, st)
      else let (n, st1) = send_all (filter (is_open st) (members w (ws_clients st))) (notification_json d) st
           in (0 < n, st1))"

definition broadcast_to_contract :: "string \<Rightarrow> (string \<times> json) list \<Rightarrow> ws_state \<Rightarrow> nat \<times> ws_state" where
  "broadcast_to_contract c n st =
     send_all
       (concat (map (\<lambda>p. filter (\<lambda>i. is_open st i \<and> has_wallet st i) (snd p)) (ws_clients st)))
       (notification_json (JObj (obj_spread n [(''contractId'', JStr c)]))) st"

definition finality_targets :: "string \<Rightarrow> ws_state \<Rightarrow> nat list" where
  "finality_targets x st =
     filter (is_open st) (members (finality_key x) (ws_clients st)) @
     concat (map (\<lambda>p. if starts_with (fst p) ''finality:'' then []
                      else filter (\<lambda>i. is_open st i \<and> has_wallet st i) (snd p)) (ws_clients st))"

definition broadcast_finality_update :: "string \<Rightarrow> json \<Rightarrow> ws_state \<Rightarrow> nat \<times> ws_state" where
  "broadcast_finality_update x u st =
     send_all (finality_targets x st)
       (JObj [(''type'', JStr ''finality_update''), (''data'', u)]) st"

definition broadcast_transaction_status :: "string \<Rightarrow> json \<Rightarrow> ws_state \<Rightarrow> nat \<times> ws_state" where
  "broadcast_transaction_status x u st =
     send_all (filter (is_open st) (members (txn_key x) (ws_clients st)))
       (JObj [(''type'', JStr ''transaction_status''), (''data'', u)]) st"

section \<open>The registry\<close>

lemma members_add:
  "members k (add_client k' i cl) = (if k = k' then set_add i (members k cl) else members k cl)"
  by (simp add: members_def add_client_def)

lemma members_drop:
  "members k (drop_client i k' cl) = (if k = k' then filter (\<lambda>j. j \<noteq> i) (members k cl) else members k cl)"
  by (auto simp: members_def drop_client_def Let_def split: option.split)

lemma set_add_set [simp]: "set (set_add x xs) = insert x (set xs)"
  by (auto simp: set_add_def)

lemma members_drop_all:
  "set (members k (fold (drop_client i) ks cl)) =
     (if k \<in> set ks then set (members k cl) - {i} else set (members k cl))"
  by (induction ks arbitrary: cl) (auto simp: members_drop)

definition tracked :: "socket \<Rightarrow> string \<Rightarrow> bool" where
  "tracked s k \<longleftrightarrow> so_wallet s = Some k \<or> k \<in> set (so_txn s) \<or> k \<in> set (so_fin s)"

text \<open>Every member of a set is a socket that remembers the key of the set.\<close>

definition registered :: "ws_state \<Rightarrow> bool" where
  "registered st \<longleftrightarrow> (\<forall>k i. i \<in> set (members k (ws_clients st)) \<longrightarrow>
     (\<exists>s. map_get (ws_sockets st) i = Some s \<and> tracked s k))"

text \<open>A message that does not move its socket from one wallet to another.\<close>

definition keeps_wallet :: "nat \<Rightarrow> client_message \<Rightarrow> ws_state \<Rightarrow> bool" where
  "keeps_wallet i m st \<longleftrightarrow> (cm_type m = ''subscribe'' \<and> truthy (cm_wallet m) \<longrightarrow>
     (\<forall>s. map_get (ws_sockets st) i = Some s \<longrightarrow> so_wallet s = None \<or> so_wallet s = cm_wallet m))"

inductive ws_reach :: "ws_state \<Rightarrow> bool" where
  reach_start: "ws_reach ws_init"
| reach_connect: "ws_reach st \<Longrightarrow> map_get (ws_sockets st) i = None \<Longrightarrow> ws_reach (ws_connect i st)"
| reach_message: "ws_reach st \<Longrightarrow> is_open st i \<Longrightarrow> keeps_wallet i m st \<Longrightarrow> ws_reach (on_message i m st)"
| reach_close: "ws_reach st \<Longrightarrow> ws_reach (on_close i st)"
| reach_pong: "ws_reach st \<Longrightarrow> ws_reach (on_pong i st)"
| reach_auto: "ws_reach st \<Longrightarrow> ws_reach (auto_disconnect i st)"
| reach_heartbeat: "ws_reach st \<Longrightarrow> ws_reach (heartbeat st)"

lemma sockets_update:
  "map_get (ws_sockets (update_socket i f st)) j =
     (if j = i then map_option f (map_get (ws_sockets st) i) else map_get (ws_sockets st) j)"
  by (auto simp: update_socket_def split: option.split)

lemma clients_update [simp]: "ws_clients (update_socket i f st) = ws_clients st"
  by (simp add: update_socket_def split: option.split)

lemma send_fields [simp]: "ws_clients (ws_send i m st) = ws_clients st"
  "ws_sockets (ws_send i m st) = ws_sockets st"
  by (simp_all add: ws_send_def)

lemma registeredD:
  "registered st \<Longrightarrow> i \<in> set (members k (ws_clients st)) \<Longrightarrow>
   \<exists>s. map_get (ws_sockets st) i = Some s \<and> tracked s k"
  unfolding registered_def by blast

lemma registeredI:
  "(\<And>k i. i \<in> set (members k (ws_clients st)) \<Longrightarrow> \<exists>s. map_get (ws_sockets st) i = Some s \<and> tracked s k)
   \<Longrightarrow> registered st"
  unfolding registered_def by blast

text \<open>Adding a key to a set and to the memory of the socket keeps the registry.\<close>

lemma registered_subscribe:
  assumes "registered st" "map_get (ws_sockets st) i = Some s"
    and "\<And>k'. tracked s k' \<Longrightarrow> tracked (f s) k'" "tracked (f s) k"
    and "ws_clients st' = add_client k i (ws_clients st)"
    and "\<And>j. map_get (ws_sockets st') j = (if j = i then Some (f s) else map_get (ws_sockets st) j)"
  shows "registered st'"
  unfolding registered_def
proof (intro allI impI)
  fix k' j assume "j \<in> set (members k' (ws_clients st'))"
  then have "j = i \<and> k' = k \<or> j \<in> set (members k' (ws_clients st))"
    by (auto simp: assms(5) members_add split: if_splits)
  then show "\<exists>s. map_get (ws_sockets st') j = Some s \<and> tracked s k'"
    using registeredD [OF assms(1), of j k'] assms(2,3,4) by (auto simp: assms(6))
qed

lemma registered_wallet:
  assumes "registered st" "map_get (ws_sockets st) i = Some s" "so_wallet s = None \<or> so_wallet s = Some w"
  shows "registered (subscribe_wallet i w st)"
  by (rule registered_subscribe [OF assms(1,2), where f = "\<lambda>s. s\<lparr>so_wallet := Some w\<rparr>" and k = w])
    (use assms(2,3) in \<open>auto simp: tracked_def subscribe_wallet_def Let_def sockets_update\<close>)

lemma registered_txn:
  assumes "registered st" "map_get (ws_sockets st) i = Some s"
  shows "registered (subscribe_txn i x st)"
  by (rule registered_subscribe [OF assms, where f = "\<lambda>s. s\<lparr>so_txn := set_add (txn_key x) (so_txn s)\<rparr>"
        and k = "txn_key x"])
    (use assms(2) in \<open>auto simp: tracked_def subscribe_txn_def Let_def sockets_update\<close>)

lemma registered_finality:
  assumes "registered st" "map_get (ws_sockets st) i = Some s"
  shows "registered (subscribe_finality i x st)"
  by (rule registered_subscribe [OF assms, where f = "\<lambda>s. s\<lparr>so_fin := set_add (finality_key x) (so_fin s)\<rparr>"
        and k = "finality_key x"])
    (use assms(2) in \<open>auto simp: tracked_def subscribe_finality_def Let_def sockets_update\<close>)

lemma registered_message:
  assumes "registered st" "is_open st i" "keeps_wallet i m st"
  shows "registered (on_message i m st)"
proof -
  obtain s where s: "map_get (ws_sockets st) i = Some s"
    using assms(2) by (auto simp: is_open_def split: option.splits)
  define st1 where "st1 = (if cm_type m = ''subscribe'' \<and> truthy (cm_wallet m)
    then subscribe_wallet i (the (cm_wallet m)) st else st)"
  define st2 where "st2 = (if cm_type m = ''subscribe'' \<and> truthy (cm_id m)
    then subscribe_txn i (the (cm_id m)) st1 else st1)"
  define st3 where "st3 = (if cm_type m = ''subscribe_finality'' \<and> truthy (cm_transaction m)
    then subscribe_finality i (the (cm_transaction m)) st2 else st2)"
  have "registered st1"
    using assms(1,3) s registered_wallet [OF assms(1) s]
    by (auto simp: st1_def keeps_wallet_def truthy_iff)
  moreover obtain s1 where s1: "map_get (ws_sockets st1) i = Some s1"
    using s by (cases "cm_type m = ''subscribe'' \<and> truthy (cm_wallet m)")
      (auto simp: st1_def subscribe_wallet_def Let_def sockets_update)
  ultimately have "registered st2" using registered_txn by (simp add: st2_def)
  moreover obtain s2 where "map_get (ws_sockets st2) i = Some s2"
    using s1 by (cases "cm_type m = ''subscribe'' \<and> truthy (cm_id m)")
      (auto simp: st2_def subscribe_txn_def Let_def sockets_update)
  ultimately have "registered st3" using registered_finality by (simp add: st3_def)
  then have "registered (ws_send i x st3)" for x by (simp add: registered_def)
  moreover have "on_message i m st =
      (if cm_type m = ''ping'' then ws_send i (JObj [(''type'', JStr ''pong'')]) st3 else st3)"
    by (simp only: on_message_def Let_def st1_def st2_def st3_def)
  ultimately show ?thesis using \<open>registered st3\<close> by simp
qed

lemma clients_close:
  assumes "map_get (ws_sockets st) i = Some s"
  shows "set (members k (ws_clients (on_close i st))) =
    (if tracked s k then set (members k (ws_clients st)) - {i} else set (members k (ws_clients st)))"
  using assms by (auto simp: on_close_def Let_def members_drop_all members_drop tracked_def split: option.splits)

lemma registered_update:
  assumes "registered st" "\<And>s k. tracked s k \<Longrightarrow> tracked (f s) k"
  shows "registered (update_socket i f st)"
proof (rule registeredI)
  fix k j assume "j \<in> set (members k (ws_clients (update_socket i f st)))"
  then show "\<exists>s. map_get (ws_sockets (update_socket i f st)) j = Some s \<and> tracked s k"
    using registeredD [OF assms(1), of j k] assms(2) by (auto simp: sockets_update)
qed

lemma sockets_close:
  "map_get (ws_sockets (on_close i st)) j =
     (if j = i then map_option (\<lambda>s. s\<lparr>so_connected := False, so_open := False\<rparr>) (map_get (ws_sockets st) i)
      else map_get (ws_sockets st) j)"
  by (simp add: on_close_def Let_def sockets_update split: option.split)

lemma registered_close:
  assumes "registered st"
  shows "registered (on_close i st)"
proof (cases "map_get (ws_sockets st) i")
  case None
  then show ?thesis using assms by (simp add: on_close_def)
next
  case (Some s)
  show ?thesis
  proof (rule registeredI)
    fix k j assume "j \<in> set (members k (ws_clients (on_close i st)))"
    then have "j \<in> set (members k (ws_clients st))"
      by (auto simp: clients_close [OF Some] split: if_splits)
    from registeredD [OF assms this]
    show "\<exists>s. map_get (ws_sockets (on_close i st)) j = Some s \<and> tracked s k"
      by (auto simp: sockets_close tracked_def)
  qed
qed

lemma registered_heartbeat:
  assumes "registered st"
  shows "registered (heartbeat st)"
proof (rule registeredI)
  fix k i assume "i \<in> set (members k (ws_clients (heartbeat st)))"
  then obtain s where "map_get (ws_sockets st) i = Some s" "tracked s k"
    using registeredD [OF assms, of i k] by (auto simp: heartbeat_def)
  moreover have "map_of (map (\<lambda>p. (fst p, f (snd p))) xs) i = map_option f (map_of xs i)"
    for f :: "socket \<Rightarrow> socket" and xs by (induction xs) auto
  moreover have "tracked (heartbeat_one s) k = tracked s k"
    by (simp add: heartbeat_one_def ws_terminate_def tracked_def)
  ultimately show "\<exists>s. map_get (ws_sockets (heartbeat st)) i = Some s \<and> tracked s k"
    by (auto simp: heartbeat_def)
qed

lemma registered_connect:
  assumes "registered st" "map_get (ws_sockets st) i = None"
  shows "registered (ws_connect i st)"
proof (rule registeredI)
  fix k j assume "j \<in> set (members k (ws_clients (ws_connect i st)))"
  then have "j \<in> set (members k (ws_clients st))" by (simp add: ws_connect_def)
  from registeredD [OF assms(1) this] show "\<exists>s. map_get (ws_sockets (ws_connect i st)) j = Some s \<and> tracked s k"
    using assms(2) by (auto simp: ws_connect_def)
qed

lemma ws_reach_registered: "ws_reach st \<Longrightarrow> registered st"
proof (induction rule: ws_reach.induct)
  case reach_start
  show ?case by (rule registeredI) (simp add: ws_init_def members_def)
next
  case (reach_pong st i)
  then show ?case unfolding on_pong_def by (intro registered_update) (simp_all add: tracked_def)
next
  case (reach_auto st i)
  then show ?case unfolding auto_disconnect_def
    by (intro registered_update) (simp_all add: tracked_def ws_terminate_def)
qed (auto intro: registered_message registered_close registered_heartbeat registered_connect)

section \<open>Properties\<close>

text \<open>As long as no socket switches wallets, closing a socket removes it from every subscription:
  no later notification or broadcast can address it.\<close>

theorem ws_close_removes_everywhere:
  assumes "ws_reach st"
  shows "i \<notin> set (members k (ws_clients (on_close i st)))"
proof (cases "map_get (ws_sockets st) i")
  case None
  then have "i \<notin> set (members k (ws_clients st))"
    using registeredD [OF ws_reach_registered [OF assms]] by fastforce
  then show ?thesis using None by (simp add: on_close_def)
next
  case (Some s)
  then show ?thesis using registeredD [OF ws_reach_registered [OF assms], of i k]
    by (auto simp: clients_close [OF Some])
qed

definition wallet_message :: "string \<Rightarrow> client_message" where
  "wallet_message w = \<lparr>cm_type = ''subscribe'', cm_wallet = Some w, cm_id = Some ''9'', cm_transaction = None\<rparr>"

theorem ws_close_removes_everywhere_witness:
  "1 \<notin> set (members ''txn:9'' (ws_clients (on_close 1 (on_message 1 (wallet_message ''GA'') (ws_connect 1 ws_init)))))"
proof (rule ws_close_removes_everywhere)
  show "ws_reach (on_message 1 (wallet_message ''GA'') (ws_connect 1 ws_init))"
  proof (rule reach_message)
    show "ws_reach (ws_connect 1 ws_init)"
      by (rule reach_connect [OF reach_start]) (simp add: ws_init_def)
  qed (simp_all add: is_open_def keeps_wallet_def ws_connect_def ws_init_def)
qed

text \<open>A socket that subscribes to a second wallet stays in the set of the first one for ever: its
  closing only leaves the second, so the closed socket is kept and addressed under the first.\<close>

theorem resubscribed_socket_leaks:
  assumes "map_get (ws_sockets st) i = Some s" "so_wallet s = Some v" "v \<noteq> w" "w \<noteq> []"
    and "i \<in> set (members v (ws_clients st))" "v \<notin> set (so_txn s)" "v \<notin> set (so_fin s)"
  shows "i \<in> set (members v (ws_clients (on_close i (subscribe_wallet i w st))))
    \<and> \<not> is_open (on_close i (subscribe_wallet i w st)) i"
proof -
  let ?st = "subscribe_wallet i w st"
  have s: "map_get (ws_sockets ?st) i = Some (s\<lparr>so_wallet := Some w\<rparr>)"
    using assms(1) by (simp add: subscribe_wallet_def Let_def sockets_update)
  have "set (members v (ws_clients ?st)) = set (members v (ws_clients st))"
    using assms(3) by (simp add: subscribe_wallet_def Let_def members_add)
  then have "i \<in> set (members v (ws_clients (on_close i ?st)))"
    using assms by (simp add: clients_close [OF s] tracked_def)
  moreover have "\<not> is_open (on_close i ?st) i" by (simp add: is_open_def sockets_close s)
  ultimately show ?thesis by blast
qed

theorem resubscribed_socket_leaks_witness:
  "1 \<in> set (members ''GA'' (ws_clients (on_close 1 (subscribe_wallet 1 ''GB''
     (subscribe_wallet 1 ''GA'' (ws_connect 1 ws_init))))))"
  using resubscribed_socket_leaks [of "subscribe_wallet 1 ''GA'' (ws_connect 1 ws_init)" 1
      "\<lparr>so_connected = True, so_open = True, so_alive = True, so_wallet = Some ''GA'', so_txn = [], so_fin = []\<rparr>"
      "''GA''" "''GB''"]
  by (simp add: subscribe_wallet_def Let_def sockets_update ws_connect_def ws_init_def members_add)

text \<open>A finality update reaches a socket once for each subscription it has: an open socket that
  subscribed to its wallet and to the transaction gets the same update twice.\<close>

theorem finality_update_sent_twice:
  assumes "map_get (ws_clients st) (finality_key x) = Some (a @ i # b)"
    and "(w, c @ i # d) \<in> set (ws_clients st)" "\<not> starts_with w ''finality:''"
    and "is_open st i" "has_wallet st i"
  shows "2 \<le> length (filter (\<lambda>p. p = (i, JObj [(''type'', JStr ''finality_update''), (''data'', u)]))
    (drop (length (ws_sent st)) (ws_sent (snd (broadcast_finality_update x u st)))))"
proof -
  let ?m = "JObj [(''type'', JStr ''finality_update''), (''data'', u)]"
  let ?P = "\<lambda>i. is_open st i \<and> has_wallet st i"
  obtain l r where lr: "ws_clients st = l @ (w, c @ i # d) # r" using assms(2) by (meson split_list)
  have "finality_targets x st = filter (is_open st) a @ i # filter (is_open st) b @
      concat (map (\<lambda>p. if starts_with (fst p) ''finality:'' then [] else filter ?P (snd p)) l) @
      filter ?P c @ i # filter ?P d @
      concat (map (\<lambda>p. if starts_with (fst p) ''finality:'' then [] else filter ?P (snd p)) r)"
    using assms(1,3,4,5) unfolding finality_targets_def by (simp add: members_def) (simp add: lr)
  then show ?thesis by (simp add: broadcast_finality_update_def send_all_def)
qed

theorem finality_update_sent_twice_witness:
  "let st = subscribe_finality 1 ''7'' (subscribe_wallet 1 ''GA'' (ws_connect 1 ws_init)) in
   2 \<le> length (filter (\<lambda>p. p = (1, JObj [(''type'', JStr ''finality_update''), (''data'', JNull)]))
    (drop (length (ws_sent st)) (ws_sent (snd (broadcast_finality_update ''7'' JNull st)))))"
  unfolding Let_def
  apply (rule finality_update_sent_twice [of _ "''7''" "[]" 1 "[]" "''GA''" "[]" "[]" JNull])
  by (simp_all add: subscribe_finality_def subscribe_wallet_def Let_def ws_connect_def ws_init_def
      add_client_def members_def set_add_def update_socket_def ws_send_def finality_key_def
      is_open_def has_wallet_def starts_with_def)

text \<open>A contract broadcast addresses every open socket with a wallet, whatever the contract.\<close>

lemma contract_broadcast_ignores_contract:
  "map fst (drop (length (ws_sent st)) (ws_sent (snd (broadcast_to_contract c n st)))) =
   map fst (drop (length (ws_sent st)) (ws_sent (snd (broadcast_to_contract c' n' st))))"
  by (simp add: broadcast_to_contract_def send_all_def comp_def)

end
