(* ===== verification/CsvImport.thy ===== *)
theory CsvImport
  imports AuditLog
begin

text \<open>
  \<open>src/backend/src/routes/csv-import.js\<close> and \<open>database/csv-import.js\<close>: parsing an uploaded list of
  collaborators, validating its rows, and importing it.  The content is the text of the file (a byte
  order mark, which both \<open>trim\<close> and the \<open>replace\<close> of \<open>parseCsv\<close> drop, is left out).  The upload itself
  is \<open>multer\<close>'s: a request carries the stored file or none, and a response comes with whether the
  stored file is still on disk.  The tables of the module are created nowhere in the repository; the
  model takes them as given.
\<close>

section \<open>parseCsv\<close>

fun cons_first :: "char \<Rightarrow> string list \<Rightarrow> string list" where
  "cons_first c [] = [[c]]"
| "cons_first c (l # ls) = (c # l) # ls"

text \<open>\<open>content.split(/\r?\n/)\<close>\<close>

fun split_lines :: "string \<Rightarrow> string list" where
  "split_lines [] = [[]]"
| "split_lines (c # s) =
     (if c = CHR 0x0A then [] # split_lines s
      else if c = CHR 0x0D \<and> s \<noteq> [] \<and> hd s = CHR 0x0A then split_lines s
      else cons_first c (split_lines s))"

text \<open>\<open>line.split(",")\<close>\<close>

fun split_commas :: "string \<Rightarrow> string list" where
  "split_commas [] = [[]]"
| "split_commas (c # s) =
     (if c = CHR '','' then [] # split_commas s
      else cons_first c (split_commas s))"

fun index_of :: "'a \<Rightarrow> 'a list \<Rightarrow> nat option" where
  "index_of x [] = None"
| "index_of x (y # ys) = (if x = y then Some 0 else map_option Suc (index_of x ys))"

record csv_row =
  cr_index :: nat
  cr_address :: string
  cr_share :: string

definition col_at :: "string list \<Rightarrow> nat \<Rightarrow> string" where
  "col_at cols i = (if i < length cols then cols ! i else [])"

definition csv_columns :: "string \<Rightarrow> string list" where
  "csv_columns l = map trim (split_commas l)"

definition parse_csv :: "string \<Rightarrow> csv_row list res" where
  "parse_csv content =
     (let ls = filter (\<lambda>l. trim l \<noteq> []) (split_lines content) in
      if length ls < 2 then Inr []
      else
        let headers = csv_columns (trim (to_lower (hd ls))) in
        case (index_of ''address'' headers, index_of ''share_percentage'' headers) of
          (Some a, Some b) \<Rightarrow>
            Inr (map (\<lambda>i. let cols = csv_columns (ls ! i)
                         in \<lparr>cr_index = i, cr_address = col_at cols a, cr_share = col_at cols b\<rparr>)
                   [1..<length ls])
        | _ \<Rightarrow> Inl (PlainError ''CSV must have 'address' and 'share_percentage' columns''))"

section \<open>validateCsvRows\<close>

record valid_row =
  vr_index :: nat
  vr_address :: string
  vr_share :: int

record error_row =
  er_index :: nat
  er_address :: string
  er_share :: json
  er_error :: string

definition address_issues :: "csv_row \<Rightarrow> string list" where
  "address_issues r =
     (if cr_address r = [] then [''Address is required'']
      else if \<not> starts_with (cr_address r) ''G'' \<or> length (cr_address r) \<noteq> 56
      then [''Invalid Stellar address (must start with G and be 56 characters)''] else [])"

definition share_issues :: "csv_row \<Rightarrow> string list" where
  "share_issues r =
     (case parse_int10 (cr_share r) of
        None \<Rightarrow> [''Share must be a number between 0 and 100'']
      | Some n \<Rightarrow> if n < 0 \<or> 100 < n then [''Share must be a number between 0 and 100''] else [])"

fun join_with :: "string \<Rightarrow> string list \<Rightarrow> string" where
  "join_with sep [] = []"
| "join_with sep [x] = x"
| "join_with sep (x # xs) = x @ sep @ join_with sep xs"

definition row_issues :: "csv_row \<Rightarrow> string list" where
  "row_issues r = address_issues r @ share_issues r"

definition accepted_rows :: "csv_row list \<Rightarrow> valid_row list" where
  "accepted_rows rows =
     map (\<lambda>r. \<lparr>vr_index = cr_index r, vr_address = cr_address r, vr_share = the (parse_int10 (cr_share r))\<rparr>)
       (filter (\<lambda>r. row_issues r = []) rows)"

definition refused_rows :: "csv_row list \<Rightarrow> error_row list" where
  "refused_rows rows =
     map (\<lambda>r. \<lparr>er_index = cr_index r, er_address = cr_address r, er_share = JStr (cr_share r),
                er_error = join_with ''; '' (row_issues r)\<rparr>)
       (filter (\<lambda>r. row_issues r \<noteq> []) rows)"

definition validate_csv_rows :: "csv_row list \<Rightarrow> valid_row list \<times> error_row list" where
  "validate_csv_rows rows =
     (let v = accepted_rows rows; e = refused_rows rows; total = sum_list (map vr_share v)
      in if v \<noteq> [] \<and> total \<noteq> 100
         then ([], e @ map (\<lambda>r. \<lparr>er_index = vr_index r, er_address = vr_address r,
                   er_share = JNum (vr_share r),
                   er_error = ''Shares sum to '' @ int_str total @ ''%, must sum to exactly 100%''\<rparr>) v)
         else (v, e))"

section \<open>database/csv-import.js\<close>

record import_row =
  im_contract :: string
  im_file :: string
  im_rows :: nat
  im_by :: string
  im_status :: "string option"
  im_error :: "string option"
  im_created :: int
  im_completed :: "int option"

record result_row =
  ir_import :: nat
  ir_index :: nat
  ir_address :: string
  ir_share :: json
  ir_status :: string
  ir_error :: "string option"

record csv_tables =
  csv_imports :: "import_row table"
  csv_results :: "result_row table"
  csv_ledger :: ledger

type_synonym 'a csv_op = "(csv_tables, 'a) db_op"

text \<open>The default of the \<open>status\<close> column is part of the missing table definition: \<open>None\<close>.\<close>

definition create_csv_import :: "string \<Rightarrow> string \<Rightarrow> nat \<Rightarrow> string \<Rightarrow> int \<Rightarrow> nat csv_op" where
  "create_csv_import contract file n user now =
     counted_write (\<lambda>t.
       let (i, ims) = t_insert \<lparr>im_contract = contract, im_file = file, im_rows = n, im_by = user,
             im_status = None, im_error = None, im_created = now, im_completed = None\<rparr> (csv_imports t)
       in (i, t\<lparr>csv_imports := ims\<rparr>))"

definition mark_import_success :: "nat \<Rightarrow> int \<Rightarrow> unit csv_op" where
  "mark_import_success i now =
     counted_write (\<lambda>t. ((), t\<lparr>csv_imports := t_update (by_id i)
       (\<lambda>r. r\<lparr>im_status := Some ''completed'', im_completed := Some now\<rparr>) (csv_imports t)\<rparr>))"

definition mark_import_failed :: "nat \<Rightarrow> string \<Rightarrow> int \<Rightarrow> unit csv_op" where
  "mark_import_failed i msg now =
     counted_write (\<lambda>t. ((), t\<lparr>csv_imports := t_update (by_id i)
       (\<lambda>r. r\<lparr>im_status := Some ''failed'', im_error := Some msg, im_completed := Some now\<rparr>)
       (csv_imports t)\<rparr>))"

definition get_csv_import :: "nat \<Rightarrow> (nat \<times> import_row) option csv_op" where
  "get_csv_import i = op_read (\<lambda>t. t_get (by_id i) (csv_imports t))"

definition get_csv_imports_by_contract :: "string \<Rightarrow> (nat \<times> import_row) list csv_op" where
  "get_csv_imports_by_contract contract =
     op_read (\<lambda>t. order_desc (\<lambda>x. im_created (snd x))
       (t_select (\<lambda>x. im_contract (snd x) = contract) (csv_imports t)))"

definition add_import_result :: "nat \<Rightarrow> nat \<Rightarrow> string \<Rightarrow> json \<Rightarrow> string \<Rightarrow> string option \<Rightarrow> unit csv_op" where
  "add_import_result i ix addr share status err =
     counted_write (\<lambda>t. ((), t\<lparr>csv_results := snd (t_insert \<lparr>ir_import = i, ir_index = ix,
       ir_address = addr, ir_share = share, ir_status = status, ir_error = err\<rparr> (csv_results t))\<rparr>))"

definition get_import_results :: "nat \<Rightarrow> (nat \<times> result_row) list csv_op" where
  "get_import_results i =
     op_read (\<lambda>t. order_asc (\<lambda>x. ir_index (snd x)) (t_select (\<lambda>x. ir_import (snd x) = i) (csv_results t)))"

text \<open>\<open>COUNT\<close> and the two \<open>SUM\<close>s, which are \<open>NULL\<close> over no rows.\<close>

definition get_import_summary :: "nat \<Rightarrow> (nat \<times> nat option \<times> nat option) csv_op" where
  "get_import_summary i = op_read (\<lambda>t.
     let rs = t_select (\<lambda>x. ir_import (snd x) = i) (csv_results t);
         count = (\<lambda>s. if rs = [] then None else Some (length (filter (\<lambda>x. ir_status (snd x) = s) rs)))
     in (length rs, count ''success'', count ''error''))"

section \<open>The routes\<close>

record upload_request =
  up_file :: "(string \<times> string) option"    \<comment> \<open>original name and content\<close>
  up_contract :: "string option"
  up_by :: "string option"

definition valid_json :: "valid_row \<Rightarrow> json" where
  "valid_json r = JObj [(''rowIndex'', JNum (int (vr_index r))), (''address'', JStr (vr_address r)),
     (''share'', JNum (vr_share r))]"

definition error_json :: "error_row \<Rightarrow> json" where
  "error_json r = JObj [(''rowIndex'', JNum (int (er_index r))), (''address'', JStr (er_address r)),
     (''share'', er_share r), (''error'', JStr (er_error r))]"

definition success_response :: "json \<Rightarrow> response" where
  "success_response d = \<lparr>rstatus = 200, rbody = JObj [(''success'', JBool True), (''data'', d)]\<rparr>"

definition no_file :: response where
  "no_file = send_error 400 (Some ''upload_error'') ''No CSV file uploaded'' []"

text \<open>The second component is whether the uploaded file stays on disk.\<close>

definition validate_route :: "upload_request \<Rightarrow> response \<times> bool" where
  "validate_route req =
     (case up_file req of
        None \<Rightarrow> (no_file, False)
      | Some (_, content) \<Rightarrow>
          (case parse_csv content of
             Inl e \<Rightarrow> (send_error 500 (Some ''validation_error'') (error_message e) [], True)
           | Inr rows \<Rightarrow>
               (success_response (JObj
                  [(''valid'', JArr (map valid_json (fst (validate_csv_rows rows)))),
                   (''errors'', JArr (map error_json (snd (validate_csv_rows rows))))]), False)))"

definition preview_route :: "upload_request \<Rightarrow> int \<Rightarrow> response \<times> bool" where
  "preview_route req now =
     (case up_file req of
        None \<Rightarrow> (no_file, False)
      | Some (name, content) \<Rightarrow>
          (case parse_csv content of
             Inl e \<Rightarrow> (send_error 500 (Some ''preview_error'') (error_message e) [], True)
           | Inr rows \<Rightarrow>
               let (v, e) = validate_csv_rows rows; total = JNum (int (length v + length e)) in
               (success_response (JObj
                  [(''importId'', if truthy (up_contract req) then JStr (int_str now) else JNull),
                   (''fileName'', JStr name), (''totalRows'', total),
                   (''validRows'', JArr (map valid_json v)), (''errorRows'', JArr (map error_json e)),
                   (''summary'', JObj [(''total'', total), (''valid'', JNum (int (length v))),
                      (''errors'', JNum (int (length e)))])]), False)))"

definition store_import ::
  "string \<Rightarrow> string \<Rightarrow> string \<Rightarrow> valid_row list \<Rightarrow> error_row list \<Rightarrow> int \<Rightarrow> nat csv_op" where
  "store_import contract name user v e now =
     op_bind (create_csv_import contract name (length v + length e) user now) (\<lambda>i.
     op_bind (op_each (\<lambda>r. add_import_result i (vr_index r) (vr_address r) (JNum (vr_share r)) ''success'' None) v) (\<lambda>_.
     op_bind (op_each (\<lambda>r. add_import_result i (er_index r) (er_address r) (er_share r) ''error'' (Some (er_error r))) e) (\<lambda>_.
     op_bind (if e = [] then mark_import_success i now
              else mark_import_failed i (nat_str (length e) @ '' row(s) had errors'') now) (\<lambda>_.
     op_return i))))"

definition import_audit :: "string \<Rightarrow> string \<Rightarrow> string \<Rightarrow> nat \<Rightarrow> nat \<Rightarrow> nat \<Rightarrow> int \<Rightarrow> unit csv_op" where
  "import_audit contract name user ok bad i now =
     op_within csv_ledger (\<lambda>l t. t\<lparr>csv_ledger := l\<rparr>)
       (add_audit_log contract ''csv_import'' (Some user)
         (JStr (json_stringify (JObj [(''fileName'', JStr name), (''totalRows'', JNum (int (ok + bad))),
            (''successCount'', JNum (int ok)), (''errorCount'', JNum (int bad)),
            (''importId'', JNum (int i))]))) now)"

definition run_import ::
  "string \<Rightarrow> string \<Rightarrow> string \<Rightarrow> valid_row list \<Rightarrow> error_row list \<Rightarrow> int \<Rightarrow> nat csv_op" where
  "run_import contract name user v e now =
     op_bind (store_import contract name user v e now) (\<lambda>i.
     op_bind (import_audit contract name user (length v) (length e) i now) (\<lambda>_. op_return i))"

definition import_route :: "upload_request \<Rightarrow> int \<Rightarrow> csv_tables db \<Rightarrow> (response \<times> bool) \<times> csv_tables db" where
  "import_route req now d =
     (case up_file req of
        None \<Rightarrow> ((no_file, False), d)
      | Some (name, content) \<Rightarrow>
          if \<not> truthy (up_contract req) then
            ((send_error 400 (Some ''validation_error'') ''contractId is required'' [], True), d)
          else
            let failed = (\<lambda>e. (send_error 500 (Some ''import_error'') (error_message e) [], True));
                user = (case up_by req of None \<Rightarrow> ''unknown'' | Some u \<Rightarrow> u)
            in case parse_csv content of
                 Inl e \<Rightarrow> (failed e, d)
               | Inr rows \<Rightarrow>
                   let (v, e) = validate_csv_rows rows
                   in case run_import (the (up_contract req)) name user v e now d of
                        (Inl er, d') \<Rightarrow> (failed er, d')
                      | (Inr i, d') \<Rightarrow>
                          ((success_response (JObj [(''importId'', JNum (int i)), (''fileName'', JStr name),
                             (''summary'', JObj [(''total'', JNum (int (length v + length e))),
                                (''successCount'', JNum (int (length v))),
                                (''errorCount'', JNum (int (length e)))])]), False), d'))"

section \<open>Parsing reads back what is printed\<close>

text \<open>A list of collaborators as a spreadsheet saves it: the header and one line for each row.\<close>

definition csv_head :: string where
  "csv_head = ''address,share_percentage''"

definition print_csv :: "(string \<times> string) list \<Rightarrow> string" where
  "print_csv rows = csv_head @
     concat (map (\<lambda>r. CHR 0x0A # fst r @ '','' @ snd r) rows)"

definition csv_cell :: "string \<Rightarrow> bool" where
  "csv_cell s \<longleftrightarrow> trim s = s \<and> list_all (\<lambda>c. c \<notin> {CHR '','', CHR 0x0A, CHR 0x0D}) s"

definition csv_line :: "string \<times> string \<Rightarrow> string" where
  "csv_line r = fst r @ '','' @ snd r"

lemma split_lines_line: "CHR 0x0A \<notin> set l \<Longrightarrow> CHR 0x0D \<notin> set l \<Longrightarrow> split_lines l = [l]"
  by (induction l) auto

lemma split_lines_append:
  "CHR 0x0A \<notin> set l \<Longrightarrow> CHR 0x0D \<notin> set l \<Longrightarrow> split_lines (l @ CHR 0x0A # s) = l # split_lines s"
  by (induction l) auto

lemma split_lines_print:
  assumes "\<forall>l \<in> set (h # ls). CHR 0x0A \<notin> set l \<and> CHR 0x0D \<notin> set l"
  shows "split_lines (h @ concat (map (\<lambda>l. CHR 0x0A # l) ls)) = h # ls"
  using assms by (induction ls arbitrary: h) (auto simp: split_lines_line split_lines_append)

lemma split_commas_cell: "CHR '','' \<notin> set l \<Longrightarrow> split_commas l = [l]"
  by (induction l) auto

lemma split_commas_append: "CHR '','' \<notin> set l \<Longrightarrow> split_commas (l @ '','' @ s) = l # split_commas s"
  by (induction l) auto

lemma csv_columns_line:
  assumes "csv_cell (fst r)" "csv_cell (snd r)"
  shows "csv_columns (csv_line r) = [fst r, snd r]"
proof -
  have n: "CHR '','' \<notin> set (fst r)" "CHR '','' \<notin> set (snd r)" and t: "trim (fst r) = fst r" "trim (snd r) = snd r"
    using assms by (auto simp: csv_cell_def list_all_iff)
  show ?thesis unfolding csv_columns_def csv_line_def split_commas_append [OF n(1)] split_commas_cell [OF n(2)]
    by (simp add: t)
qed

lemma trim_Nil_iff: "trim s = [] \<longleftrightarrow> (\<forall>c \<in> set s. is_space c)"
proof (cases "dropWhile is_space s")
  case Nil
  then have "\<forall>c \<in> set s. is_space c" by (simp add: dropWhile_eq_Nil_conv)
  moreover have "trim s = []" by (simp only: trim_def Nil) simp
  ultimately show ?thesis by blast
next
  case (Cons c r)
  then have "\<not> is_space c" using hd_dropWhile [of is_space s] by simp
  moreover have "c \<in> set s" using Cons set_dropWhileD [of c is_space s] by simp
  moreover have "trim s \<noteq> []" using Cons \<open>\<not> is_space c\<close> by (simp add: trim_def dropWhile_append3)
  ultimately show ?thesis by blast
qed

lemma csv_line_kept: "trim (csv_line r) \<noteq> []"
proof -
  have "CHR '','' \<in> set (csv_line r)" by (simp add: csv_line_def)
  moreover have "\<not> is_space (CHR '','')" by (simp add: is_space_def)
  ultimately show ?thesis unfolding trim_Nil_iff by blast
qed

lemma csv_head_chars: "CHR 0x0A \<notin> set csv_head \<and> CHR 0x0D \<notin> set csv_head"
  by (simp add: csv_head_def)

lemma csv_head_trim: "trim csv_head = csv_head" "csv_head \<noteq> []"
  by (simp_all add: csv_head_def trim_def is_space_def)

lemma csv_head_columns: "csv_columns (trim (to_lower csv_head)) = [''address'', ''share_percentage'']"
proof -
  have "to_lower csv_head = csv_head"
    by (simp add: csv_head_def to_lower_def lower_char_def)
  moreover have "split_commas csv_head = [''address'', ''share_percentage'']"
    by (simp add: csv_head_def)
  ultimately show ?thesis
    by (simp add: csv_columns_def csv_head_trim) (simp add: trim_def is_space_def)
qed

text \<open>Parsing reads back a printed list of collaborators: every row, in order, with its line number.\<close>

theorem parse_csv_print:
  assumes "rows \<noteq> []" "\<forall>r \<in> set rows. csv_cell (fst r) \<and> csv_cell (snd r)"
  shows "parse_csv (print_csv rows) =
    Inr (map (\<lambda>i. \<lparr>cr_index = i, cr_address = fst (rows ! (i - 1)), cr_share = snd (rows ! (i - 1))\<rparr>)
           [1..<Suc (length rows)])"
proof -
  have "CHR 0x0A \<notin> set (csv_line r) \<and> CHR 0x0D \<notin> set (csv_line r)" if "r \<in> set rows" for r
  proof -
    have "list_all (\<lambda>c. c \<notin> {CHR '','', CHR 0x0A, CHR 0x0D}) (fst r @ snd r)"
      using assms(2) that by (simp add: csv_cell_def)
    then have "\<forall>c \<in> set (fst r @ snd r). c \<noteq> CHR 0x0A \<and> c \<noteq> CHR 0x0D" by (simp add: list_all_iff)
    then show ?thesis unfolding csv_line_def by fastforce
  qed
  then have "split_lines (print_csv rows) = csv_head # map csv_line rows"
    using split_lines_print [of csv_head "map csv_line rows"] csv_head_chars
    by (simp add: print_csv_def comp_def csv_line_def)
  then have ls: "filter (\<lambda>l. trim l \<noteq> []) (split_lines (print_csv rows)) = csv_head # map csv_line rows"
    by (simp add: csv_line_kept comp_def filter_map csv_head_trim)
  have idx: "index_of ''address'' [''address'', ''share_percentage''] = Some 0"
    "index_of ''share_percentage'' [''address'', ''share_percentage''] = Some 1" by simp_all
  have row: "csv_columns ((csv_head # map csv_line rows) ! i) = [fst (rows ! (i - 1)), snd (rows ! (i - 1))]"
    if "i \<in> set [1..<Suc (length rows)]" for i
  proof -
    from that obtain k where "i = Suc k" "k < length rows" by (cases i rule: nat.exhaust) auto
    then show ?thesis using assms(2) by (simp add: csv_columns_line)
  qed
  show ?thesis
    unfolding parse_csv_def ls Let_def list.sel(1) csv_head_columns idx
    using assms(1) row by (simp add: col_at_def del: upt_Suc cong: map_cong)
qed

theorem parse_csv_print_witness:
  "parse_csv (print_csv [(''GA'', ''60''), (''GB'', ''40'')]) =
     Inr [\<lparr>cr_index = 1, cr_address = ''GA'', cr_share = ''60''\<rparr>,
          \<lparr>cr_index = 2, cr_address = ''GB'', cr_share = ''40''\<rparr>]"
  using parse_csv_print [of "[(''GA'', ''60''), (''GB'', ''40'')]"]
  by (simp add: csv_cell_def trim_def is_space_def upt_rec)

text \<open>The rows a validation accepts are exactly the well-formed ones and their shares sum to
  100%; when the sum is anything else every row is reported as an error, so no row is lost.\<close>


theorem csv_validation:
  assumes "validate_csv_rows rows = (v, e)" "v \<noteq> []"
  shows "sum_list (map vr_share v) = 100 \<and> mset (map er_index e @ map vr_index v) = mset (map cr_index rows)
    \<and> list_all (\<lambda>r. 0 \<le> vr_share r \<and> vr_share r \<le> 100 \<and> starts_with (vr_address r) ''G''
                   \<and> length (vr_address r) = 56) v"
proof -
  have v: "v = accepted_rows rows" "e = refused_rows rows" "sum_list (map vr_share (accepted_rows rows)) = 100"
    using assms by (auto simp: validate_csv_rows_def Let_def split: if_splits)
  have "mset (map f (filter P xs)) + mset (map f (filter (\<lambda>x. \<not> P x) xs)) = mset (map f xs)"
    for f :: "csv_row \<Rightarrow> nat" and P xs by (induction xs) auto
  from this [of cr_index "\<lambda>r. row_issues r = []" rows]
  have "mset (map er_index e @ map vr_index v) = mset (map cr_index rows)"
    by (simp add: v accepted_rows_def refused_rows_def comp_def union_commute)
  moreover have "list_all (\<lambda>r. 0 \<le> vr_share r \<and> vr_share r \<le> 100 \<and> starts_with (vr_address r) ''G''
      \<and> length (vr_address r) = 56) v"
    by (auto simp: v list_all_iff accepted_rows_def row_issues_def address_issues_def share_issues_def
        split: if_splits option.splits)
  ultimately show ?thesis using v by simp
qed

definition address56 :: "char \<Rightarrow> string" where
  "address56 c = CHR ''G'' # replicate 55 c"

text \<open>The share column is read by \<open>parseInt\<close>: trailing garbage is ignored.\<close>

theorem csv_validation_witness:
  "sum_list (map vr_share (fst (validate_csv_rows
      [\<lparr>cr_index = 1, cr_address = address56 (CHR ''A''), cr_share = ''60%''\<rparr>,
       \<lparr>cr_index = 2, cr_address = address56 (CHR ''B''), cr_share = ''40''\<rparr>]))) = 100"
proof -
  have i: "row_issues \<lparr>cr_index = i, cr_address = address56 c, cr_share = s\<rparr> = []"
    if "parse_int10 s = Some n" "0 \<le> n" "n \<le> 100" for i c s n
    using that by (simp add: row_issues_def address_issues_def share_issues_def address56_def starts_with_def)
  have p: "parse_int10 ''60%'' = Some 60" "parse_int10 ''40'' = Some 40"
    by (simp_all add: parse_int10_def parse_digits_def is_space_def is_digit_def digits_val_def digit_val_def)
  from csv_validation [OF prod.collapse [symmetric], of
      "[\<lparr>cr_index = 1, cr_address = address56 (CHR ''A''), cr_share = ''60%''\<rparr>,
        \<lparr>cr_index = 2, cr_address = address56 (CHR ''B''), cr_share = ''40''\<rparr>]"]
  show ?thesis
    by (simp add: validate_csv_rows_def accepted_rows_def refused_rows_def i [OF p(1)] i [OF p(2)] p)
qed

lemma run_import_fails: "\<exists>e d'. run_import contract name user v er now d = (Inl e, d')"
proof -
  have a: "\<exists>e d'. import_audit c n u ok bad i now d = (Inl e, d')" for c n u ok bad i d
    by (simp add: import_audit_def op_within_def add_audit_log_def audit_actions_def op_raise_def)
  show ?thesis
  proof (cases "store_import contract name user v er now d")
    case (Pair r d1)
    show ?thesis
    proof (cases r)
      case (Inr i)
      from a [of contract name user "length v" "length er" i d1] Inr Pair show ?thesis
        by (auto simp: run_import_def op_bind_def)
    qed (use Pair in \<open>simp add: run_import_def op_bind_def\<close>)
  qed
qed

text \<open>No import ever answers with success: the audit action it records is not an allowed one (and
  where \<open>countWrite\<close> throws, the first insert already fails), so the route answers 500 after the
  rows were stored, and the uploaded file stays on disk.\<close>

theorem csv_import_always_fails:
  "rstatus (fst (fst (import_route req now d))) \<in> {400, 500}
   \<and> (up_file req \<noteq> None \<longrightarrow> snd (fst (import_route req now d)))"
proof (cases "up_file req")
  case None
  then show ?thesis by (simp add: import_route_def no_file_def send_error_def)
next
  case (Some f)
  obtain name content where f: "f = (name, content)" by fastforce
  show ?thesis
  proof (cases "truthy (up_contract req)")
    case True
    show ?thesis
    proof (cases "parse_csv content")
      case (Inr rows)
      obtain v e where ve: "validate_csv_rows rows = (v, e)" by fastforce
      obtain er d' where "run_import (the (up_contract req)) name
          (case up_by req of None \<Rightarrow> ''unknown'' | Some u \<Rightarrow> u) v e now d = (Inl er, d')"
        using run_import_fails by blast
      then show ?thesis using Some f True Inr ve by (simp add: import_route_def send_error_def Let_def)
    qed (use Some f True in \<open>simp add: import_route_def send_error_def Let_def\<close>)
  qed (use Some f in \<open>simp add: import_route_def send_error_def\<close>)
qed

theorem csv_import_always_fails_witness:
  "snd (fst (import_route \<lparr>up_file = Some (''a.csv'', []), up_contract = Some ''C'', up_by = None\<rparr> 0
     (counted_connection \<lparr>csv_imports = t_empty, csv_results = t_empty, csv_ledger = empty_ledger\<rparr>)))"
  using csv_import_always_fails [of "\<lparr>up_file = Some (''a.csv'', []), up_contract = Some ''C'', up_by = None\<rparr>" 0
    "counted_connection \<lparr>csv_imports = t_empty, csv_results = t_empty, csv_ledger = empty_ledger\<rparr>"]
  by simp

end
