(* ===== verification/Json.thy ===== *)
theory Json
  imports Http JsNumber
begin

text \<open>
  \<open>JSON.parse\<close> of the JavaScript standard library, into the values a program meets in an untrusted
  request (numbers may be fractions, and a property may be \<open>undefined\<close>), with the proof that it reads
  back what \<open>JSON.stringify\<close> writes.  Of a repeated key the last value counts.  Strings are lists of
  8-bit characters, so an escape of a code point above 255 is not read.
\<close>

datatype js_value =
    VUndef
  | VNull
  | VBool bool
  | VNum js_number
  | VStr string
  | VArr "js_value list"
  | VObj "(string \<times> js_value) list"

section \<open>JSON.parse\<close>

definition json_ws :: "string \<Rightarrow> string" where
  "json_ws s = dropWhile (\<lambda>c. c \<in> {CHR 0x20, CHR 0x09, CHR 0x0A, CHR 0x0D}) s"

definition hex4 :: "char \<Rightarrow> char \<Rightarrow> char \<Rightarrow> char \<Rightarrow> char option" where
  "hex4 a b c d =
     (case (hex_val a, hex_val b, hex_val c, hex_val d) of
        (Some w, Some x, Some y, Some z) \<Rightarrow>
          if w = 0 \<and> x = 0 then Some (char_of (16 * y + z)) else None
      | _ \<Rightarrow> None)"

definition json_unescape :: "char \<Rightarrow> char option" where
  "json_unescape c =
     map_of [(CHR 0x22, CHR 0x22), (CHR 0x5C, CHR 0x5C), (CHR 0x2F, CHR 0x2F), (CHR ''b'', CHR 0x08),
       (CHR ''t'', CHR 0x09), (CHR ''n'', CHR 0x0A), (CHR ''f'', CHR 0x0C), (CHR ''r'', CHR 0x0D)] c"

text \<open>The rest of a string after its opening quote.\<close>

fun json_string :: "string \<Rightarrow> (string \<times> string) option" where
  "json_string [] = None"
| "json_string (c # r) =
     (if c = CHR 0x22 then Some ([], r)
      else if c = CHR 0x5C then
        (case r of
           [] \<Rightarrow> None
         | e # r2 \<Rightarrow>
             if e = CHR ''u'' then
               (case r2 of
                  h1 # h2 # h3 # h4 # r3 \<Rightarrow>
                    (case hex4 h1 h2 h3 h4 of
                       None \<Rightarrow> None
                     | Some x \<Rightarrow> map_option (\<lambda>p. (x # fst p, snd p)) (json_string r3))
                | _ \<Rightarrow> None)
             else
               (case json_unescape e of
                  None \<Rightarrow> None
                | Some x \<Rightarrow> map_option (\<lambda>p. (x # fst p, snd p)) (json_string r2)))
      else if (of_char c :: nat) < 32 then None
      else map_option (\<lambda>p. (c # fst p, snd p)) (json_string r))"

definition number_char :: "char \<Rightarrow> bool" where
  "number_char c \<longleftrightarrow> is_digit c \<or> c \<in> {CHR ''-'', CHR ''+'', CHR ''.'', CHR ''e'', CHR ''E''}"

text \<open>The number grammar of JSON: no leading zeros, digits after the point and in the exponent.\<close>

definition all_digits :: "string \<Rightarrow> bool" where
  "all_digits s \<longleftrightarrow> s \<noteq> [] \<and> list_all is_digit s"

definition json_exponent_ok :: "string \<Rightarrow> bool" where
  "json_exponent_ok s =
     (case s of
        [] \<Rightarrow> True
      | c # r \<Rightarrow> (c = CHR ''e'' \<or> c = CHR ''E'') \<and>
          all_digits (if r \<noteq> [] \<and> (hd r = CHR ''+'' \<or> hd r = CHR ''-'') then tl r else r))"

definition json_fraction_ok :: "string \<Rightarrow> bool" where
  "json_fraction_ok s =
     (case s of
        [] \<Rightarrow> True
      | c # r \<Rightarrow> if c = CHR ''.'' then takeWhile is_digit r \<noteq> [] \<and> json_exponent_ok (dropWhile is_digit r)
                else json_exponent_ok s)"

definition json_number_ok :: "string \<Rightarrow> bool" where
  "json_number_ok t =
     (let u = (if t \<noteq> [] \<and> hd t = CHR ''-'' then tl t else t); ds = takeWhile is_digit u
      in ds \<noteq> [] \<and> (hd ds = CHR ''0'' \<longrightarrow> length ds = 1) \<and> json_fraction_ok (dropWhile is_digit u))"

definition json_number :: "string \<Rightarrow> (js_value \<times> string) option" where
  "json_number s =
     (let t = takeWhile number_char s
      in if json_number_ok t then Some (VNum (string_to_number t), dropWhile number_char s) else None)"

definition json_literal :: "string \<Rightarrow> js_value \<Rightarrow> string \<Rightarrow> (js_value \<times> string) option" where
  "json_literal w v s = (if starts_with s w then Some (v, drop (length w) s) else None)"

definition obj_of :: "(string \<times> 'v) list \<Rightarrow> (string \<times> 'v) list" where
  "obj_of ps = foldl (\<lambda>acc p. map_set (fst p) (snd p) acc) [] ps"

text \<open>The fuel bounds the recursion; \<open>json_parse\<close> gives one unit more than the length of the text,
  and \<open>json_parse_stringify\<close> below shows it is enough.\<close>

fun json_value :: "nat \<Rightarrow> string \<Rightarrow> (js_value \<times> string) option"
  and json_elements :: "nat \<Rightarrow> string \<Rightarrow> (js_value list \<times> string) option"
  and json_members :: "nat \<Rightarrow> string \<Rightarrow> ((string \<times> js_value) list \<times> string) option" where
  "json_value 0 s = None"
| "json_value (Suc n) s0 =
     (let s = json_ws s0 in
      if s = [] then None
      else if hd s = CHR 0x22 then map_option (\<lambda>p. (VStr (fst p), snd p)) (json_string (tl s))
      else if hd s = CHR ''['' then
        (if starts_with (json_ws (tl s)) '']'' then Some (VArr [], tl (json_ws (tl s)))
         else map_option (\<lambda>p. (VArr (fst p), snd p)) (json_elements n (tl s)))
      else if hd s = CHR ''{'' then
        (if starts_with (json_ws (tl s)) ''}'' then Some (VObj [], tl (json_ws (tl s)))
         else map_option (\<lambda>p. (VObj (obj_of (fst p)), snd p)) (json_members n (tl s)))
      else if hd s = CHR ''n'' then json_literal ''null'' VNull s
      else if hd s = CHR ''t'' then json_literal ''true'' (VBool True) s
      else if hd s = CHR ''f'' then json_literal ''false'' (VBool False) s
      else json_number s)"
| "json_elements 0 s = None"
| "json_elements (Suc n) s =
     (case json_value n s of
        None \<Rightarrow> None
      | Some (v, r0) \<Rightarrow>
          let r = json_ws r0 in
          if r = [] then None
          else if hd r = CHR '','' then map_option (\<lambda>p. (v # fst p, snd p)) (json_elements n (tl r))
          else if hd r = CHR '']'' then Some ([v], tl r) else None)"
| "json_members 0 s = None"
| "json_members (Suc n) s0 =
     (let s = json_ws s0 in
      if s = [] \<or> hd s \<noteq> CHR 0x22 then None
      else case json_string (tl s) of
             None \<Rightarrow> None
           | Some (k, r0) \<Rightarrow>
               let r = json_ws r0 in
               if r = [] \<or> hd r \<noteq> CHR '':'' then None
               else case json_value n (tl r) of
                      None \<Rightarrow> None
                    | Some (v, q0) \<Rightarrow>
                        let q = json_ws q0 in
                        if q = [] then None
                        else if hd q = CHR '','' then
                          map_option (\<lambda>p. ((k, v) # fst p, snd p)) (json_members n (tl q))
                        else if hd q = CHR ''}'' then Some ([(k, v)], tl q) else None)"

definition json_parse :: "string \<Rightarrow> js_value option" where
  "json_parse s =
     (case json_value (Suc (length s)) s of
        None \<Rightarrow> None
      | Some (v, r) \<Rightarrow> if json_ws r = [] then Some v else None)"

section \<open>Reading back what JSON.stringify writes\<close>

fun to_value :: "json \<Rightarrow> js_value" where
  "to_value JNull = VNull"
| "to_value (JBool b) = VBool b"
| "to_value (JNum n) = VNum (Finite (of_int n))"
| "to_value (JStr s) = VStr s"
| "to_value (JArr xs) = VArr (map to_value xs)"
| "to_value (JObj fs) = VObj (map (\<lambda>p. (fst p, to_value (snd p))) fs)"

text \<open>An object has each key once.\<close>

fun json_wf :: "json \<Rightarrow> bool" where
  "json_wf (JArr xs) = list_all json_wf xs"
| "json_wf (JObj fs) = (distinct (map fst fs) \<and> list_all (\<lambda>p. json_wf (snd p)) fs)"
| "json_wf _ = True"

lemma hex_digits:
  "n < 16 \<Longrightarrow> hex_val (if n < 10 then digit_char n else char_of (87 + n)) = Some n"
proof -
  assume n: "n < 16"
  show ?thesis
  proof (cases "n < 10")
    case True
    then have "(48 + n) mod 256 = 48 + n" by simp
    then show ?thesis using True by (simp add: hex_val_def digit_char_def Let_def)
  next
    case False
    then have "(87 + n) mod 256 = 87 + n" using n by simp
    then show ?thesis using False n by (simp add: hex_val_def Let_def)
  qed
qed

lemma escaped_chars:
  "char_of (34::nat) = CHR 0x22" "char_of (92::nat) = CHR 0x5C" "char_of (8::nat) = CHR 0x08"
  "char_of (9::nat) = CHR 0x09" "char_of (10::nat) = CHR 0x0A" "char_of (12::nat) = CHR 0x0C"
  "char_of (13::nat) = CHR 0x0D"
  by code_simp+

lemma json_string_escape:
  "json_string (json_escape_char c @ s) = map_option (\<lambda>p. (c # fst p, snd p)) (json_string s)"
proof -
  define n where "n = (of_char c :: nat)"
  have c: "c = char_of n" by (simp add: n_def)
  show ?thesis
  proof (cases "n \<in> {34, 92, 8, 9, 10, 12, 13}")
    case True
    then show ?thesis using c
      by (elim insertE emptyE) (simp_all only: escaped_chars, simp_all add: json_escape_char_def json_unescape_def Let_def)
  next
    case False
    show ?thesis
    proof (cases "n < 32")
      case True
      have h: "hex_val (digit_char (n div 16)) = Some (n div 16)"
      proof -
        have "n div 16 < 2" using True by (simp add: less_mult_imp_div_less)
        then show ?thesis using hex_digits [of "n div 16"] by simp
      qed
      have l: "hex_val (if n mod 16 < 10 then digit_char (n mod 16) else char_of (87 + n mod 16)) = Some (n mod 16)"
        using hex_digits [of "n mod 16"] by simp
      have z: "hex_val (CHR ''0'') = Some 0" by (simp add: hex_val_def)
      have "hex4 (CHR ''0'') (CHR ''0'') (digit_char (n div 16))
          (if n mod 16 < 10 then digit_char (n mod 16) else char_of (87 + n mod 16)) = Some c"
        unfolding hex4_def h l z by (simp add: c)
      moreover have "json_escape_char c = CHR 0x5C # ''u00'' @ [digit_char (n div 16),
          (if n mod 16 < 10 then digit_char (n mod 16) else char_of (87 + n mod 16))]"
        using False True unfolding json_escape_char_def Let_def n_def [symmetric] by simp
      ultimately show ?thesis by (simp del: if_split)
    next
      case nl: False
      then have "json_escape_char c = [c]"
        using False unfolding json_escape_char_def Let_def n_def [symmetric] by simp
      moreover have "c \<noteq> CHR 0x22" "c \<noteq> CHR 0x5C" using False by (auto simp: n_def)
      ultimately show ?thesis using nl by (simp add: n_def)
    qed
  qed
qed

lemma json_string_quote: "json_string (tl (json_quote s @ rest)) = Some (s, rest)"
proof -
  have "json_string (concat (map json_escape_char s) @ CHR 0x22 # rest) = Some (s, rest)"
    by (induction s) (simp_all add: json_string_escape del: json_string.simps(2),
        simp_all add: json_string_escape)
  then show ?thesis by (simp add: json_quote_def)
qed

text \<open>What may follow a value inside a text.\<close>

definition ends_value :: "string \<Rightarrow> bool" where
  "ends_value r \<longleftrightarrow> r = [] \<or> hd r \<in> {CHR '','', CHR '']'', CHR ''}''}"

lemma ends_value_simps [simp]: "ends_value []" "ends_value (CHR '','' # r)" "ends_value (CHR '']'' # r)"
  "ends_value (CHR ''}'' # r)"
  by (simp_all add: ends_value_def)

lemma nat_str_head: "hd (nat_str n) = CHR ''0'' \<Longrightarrow> length (nat_str n) = 1"
proof (induction n rule: nat_str.induct)
  case (1 n)
  show ?case
  proof (cases "n < 10")
    case True
    then show ?thesis by (subst nat_str.simps) simp
  next
    case False
    have s: "nat_str n = nat_str (n div 10) @ [digit_char n]" using False by (subst nat_str.simps) simp
    then have h: "hd (nat_str (n div 10)) = CHR ''0''" using 1 by simp
    then have "length (nat_str (n div 10)) = 1" using 1 False by blast
    then have "nat_str (n div 10) = ''0''" using h by (cases "nat_str (n div 10)") auto
    moreover have "nat_str 0 = ''0''" by code_simp
    ultimately have "nat_str (n div 10) = nat_str 0" by simp
    then have "n div 10 = 0" by simp
    then show ?thesis using False by simp
  qed
qed

lemma json_number_int:
  assumes "ends_value rest"
  shows "json_number (int_str i @ rest) = Some (VNum (Finite (of_int i)), rest)"
proof -
  define ds where "ds = nat_str (nat \<bar>i\<bar>)"
  have d: "\<forall>c \<in> set ds. is_digit c" "ds \<noteq> []" by (simp_all add: ds_def all_digits_nat_str)
  have t: "int_str i = (if i < 0 then CHR ''-'' # ds else ds)"
    by (simp add: int_str_def ds_def)
  have "\<forall>c \<in> set (int_str i). number_char c" using d by (auto simp: t number_char_def)
  moreover have "\<not> number_char (hd rest)" if "rest \<noteq> []"
    using assms that by (auto simp: ends_value_def number_char_def is_digit_def)
  ultimately have tk: "takeWhile number_char (int_str i @ rest) = int_str i"
    "dropWhile number_char (int_str i @ rest) = rest"
    by (cases rest; simp)+
  have "takeWhile is_digit ds = ds" "dropWhile is_digit ds = []" using d by auto
  moreover have "hd ds \<noteq> CHR ''-''" using d by (cases ds) auto
  ultimately have ok: "json_number_ok (int_str i)"
    using nat_str_head [of "nat \<bar>i\<bar>"] d(2) unfolding json_number_ok_def Let_def t ds_def
    by (auto simp: json_fraction_ok_def)
  have "string_to_number (int_str i) = Finite (of_int i)"
    by (simp add: string_to_number_int_str)
  then show ?thesis using ok by (simp add: json_number_def tk)
qed

subsection \<open>The first character of a value\<close>

definition opens_value :: "string \<Rightarrow> bool" where
  "opens_value s \<longleftrightarrow> s \<noteq> [] \<and> hd s \<notin> {CHR 0x20, CHR 0x09, CHR 0x0A, CHR 0x0D, CHR '']'', CHR ''}''}"

lemma json_ws_opens: "opens_value s \<Longrightarrow> json_ws (s @ r) = s @ r"
  by (cases s) (auto simp: json_ws_def opens_value_def)

lemma json_ws_ends: "ends_value r \<Longrightarrow> json_ws r = r"
  by (cases r) (auto simp: json_ws_def ends_value_def)

lemma json_ws_colon [simp]: "json_ws (CHR '':'' # r) = CHR '':'' # r" "json_ws [] = []"
  by (simp_all add: json_ws_def)

definition number_start :: "char \<Rightarrow> bool" where
  "number_start c \<longleftrightarrow> is_digit c \<or> c = CHR ''-''"

lemma number_start_not: "number_start c \<Longrightarrow> c \<notin> {CHR 0x20, CHR 0x09, CHR 0x0A, CHR 0x0D, CHR '']'',
    CHR ''}'', CHR 0x22, CHR ''['', CHR ''{'', CHR ''n'', CHR ''t'', CHR ''f''}"
  by (auto simp: number_start_def is_digit_def)

lemma int_str_start: "int_str i \<noteq> []" "number_start (hd (int_str i))"
proof -
  have "is_digit (hd (nat_str n))" for n
    using all_digits_nat_str [of n] by (cases "nat_str n") (auto dest: arg_cong [of _ _ length])
  then show "number_start (hd (int_str i))" by (simp add: int_str_def number_start_def)
qed (simp add: int_str_def)

lemma json_stringify_opens: "opens_value (json_stringify j)"
  by (cases j) (use int_str_start number_start_not in \<open>auto simp: opens_value_def json_quote_def\<close>)

lemma json_quote_opens: "json_quote s @ r = CHR 0x22 # tl (json_quote s @ r)"
  by (simp add: json_quote_def)

lemma starts_with_single: "starts_with s [c] \<longleftrightarrow> s \<noteq> [] \<and> hd s = c"
  by (cases s) (auto simp: starts_with_def)

subsection \<open>Arrays and objects\<close>

definition reads_back :: "json \<Rightarrow> bool" where
  "reads_back j \<longleftrightarrow> (\<forall>n rest. ends_value rest \<longrightarrow> length (json_stringify j) \<le> n \<longrightarrow>
     json_value (Suc n) (json_stringify j @ rest) = Some (to_value j, rest))"

lemma reads_backD:
  "reads_back j \<Longrightarrow> ends_value rest \<Longrightarrow> length (json_stringify j) < n \<Longrightarrow>
     json_value n (json_stringify j @ rest) = Some (to_value j, rest)"
  by (cases n) (auto simp: reads_back_def)

lemma reads_elements:
  assumes "xs \<noteq> []" "\<forall>x \<in> set xs. reads_back x"
    and "length (json_commas (map json_stringify xs)) + 2 \<le> n"
  shows "json_elements n (json_commas (map json_stringify xs) @ CHR '']'' # rest) = Some (map to_value xs, rest)"
  using assms
proof (induction xs arbitrary: n)
  case Nil
  then show ?case by simp
next
  case (Cons x xs)
  then obtain m where n: "n = Suc m" by (cases n) auto
  show ?case
  proof (cases xs)
    case Nil
    have "json_value m (json_stringify x @ CHR '']'' # rest) = Some (to_value x, CHR '']'' # rest)"
      using Cons.prems Nil n by (intro reads_backD) auto
    then show ?thesis by (simp add: n Nil json_ws_ends)
  next
    case (Cons y ys)
    let ?cs = "json_commas (map json_stringify xs)"
    have c: "json_commas (map json_stringify (x # xs)) = json_stringify x @ CHR '','' # ?cs"
      using \<open>xs = y # ys\<close> by simp
    have v: "json_value m (json_stringify x @ CHR '','' # ?cs @ CHR '']'' # rest) =
        Some (to_value x, CHR '','' # ?cs @ CHR '']'' # rest)"
      using Cons.prems c n by (intro reads_backD) auto
    have "json_elements m (?cs @ CHR '']'' # rest) = Some (map to_value xs, rest)"
      using Cons.prems Cons c n by (intro Cons.IH) auto
    then show ?thesis using v by (simp only: c n json_elements.simps) (simp add: json_ws_ends)
  qed
qed

lemma reads_members:
  assumes "fs \<noteq> []" "\<forall>p \<in> set fs. reads_back (snd p)"
    and "length (json_commas (map (\<lambda>p. json_quote (fst p) @ '':'' @ json_stringify (snd p)) fs)) + 2 \<le> n"
  shows "json_members n (json_commas (map (\<lambda>p. json_quote (fst p) @ '':'' @ json_stringify (snd p)) fs)
      @ CHR ''}'' # rest) = Some (map (\<lambda>p. (fst p, to_value (snd p))) fs, rest)"
  using assms
proof (induction fs arbitrary: n)
  case Nil
  then show ?case by simp
next
  case (Cons p fs)
  then obtain m where n: "n = Suc m" by (cases n) auto
  let ?str = "\<lambda>p. json_quote (fst p) @ '':'' @ json_stringify (snd p)"
  have member: "json_members (Suc m) (json_quote (fst p) @ CHR '':'' # json_stringify (snd p) @ r) =
      (if hd r = CHR '','' then map_option (\<lambda>q. ((fst p, to_value (snd p)) # fst q, snd q)) (json_members m (tl r))
       else Some ([(fst p, to_value (snd p))], tl r))"
    if "length (json_stringify (snd p)) < m" "r = CHR '','' # r' \<or> r = CHR ''}'' # r'" for r r'
  proof -
    have r: "ends_value r" "json_ws r = r" using that(2) by (auto simp: json_ws_ends)
    have "json_value m (json_stringify (snd p) @ r) = Some (to_value (snd p), r)"
      using Cons.prems that(1) r by (intro reads_backD) auto
    moreover have "json_ws (json_quote (fst p) @ s) = json_quote (fst p) @ s" for s
      by (simp add: json_quote_def json_ws_def)
    moreover have "hd (json_quote (fst p) @ s) = CHR 0x22" "json_quote (fst p) @ s \<noteq> []" for s
      by (simp_all add: json_quote_def)
    ultimately show ?thesis using that(2) r
      by (simp only: json_members.simps Let_def) (auto simp: json_string_quote)
  qed
  show ?case
  proof (cases fs)
    case Nil
    then show ?thesis using member [of "CHR ''}'' # rest"] Cons.prems n by simp
  next
    case (Cons y ys)
    let ?cs = "json_commas (map ?str fs)"
    have c: "json_commas (map ?str (p # fs)) = ?str p @ CHR '','' # ?cs"
      using \<open>fs = y # ys\<close> by simp
    have "json_members m (?cs @ CHR ''}'' # rest) = Some (map (\<lambda>p. (fst p, to_value (snd p))) fs, rest)"
      using Cons.prems Cons c n by (intro Cons.IH) auto
    then show ?thesis
      using member [of "CHR '','' # ?cs @ CHR ''}'' # rest"] Cons.prems(3) unfolding c n by simp
  qed
qed

lemma obj_of_distinct: "distinct (map fst ps) \<Longrightarrow> obj_of ps = ps"
proof -
  have "distinct (map fst (acc @ ps)) \<Longrightarrow> foldl (\<lambda>acc p. map_set (fst p) (snd p) acc) acc ps = acc @ ps" for acc
  proof (induction ps arbitrary: acc)
    case (Cons p ps)
    then have "fst p \<notin> fst ` set acc" by auto
    then have "map_set (fst p) (snd p) acc = acc @ [p]" by (induction acc) auto
    then show ?case using Cons.IH [of "acc @ [p]"] Cons.prems by simp
  qed simp
  from this [of "[]"] show "distinct (map fst ps) \<Longrightarrow> obj_of ps = ps" by (simp add: obj_of_def)
qed

lemma reads_back_string: "reads_back (JStr s)"
proof -
  have "json_value (Suc n) (json_quote s @ rest) = Some (VStr s, rest)" for n rest
  proof -
    have "json_ws (json_quote s @ rest) = json_quote s @ rest"
      by (simp add: json_quote_def json_ws_def)
    moreover have "hd (json_quote s @ rest) = CHR 0x22" "json_quote s @ rest \<noteq> []"
      by (simp_all add: json_quote_def)
    ultimately show ?thesis by (simp add: json_string_quote Let_def)
  qed
  then show ?thesis by (simp add: reads_back_def)
qed

lemma reads_back_literal: "reads_back JNull" "reads_back (JBool b)"
  by (auto simp: reads_back_def json_ws_def json_literal_def starts_with_def)

lemma reads_back_number: "reads_back (JNum i)"
proof -
  have "json_value (Suc n) (int_str i @ rest) = Some (VNum (Finite (of_int i)), rest)"
    if "ends_value rest" for n rest
  proof -
    have h: "hd (int_str i @ rest) = hd (int_str i)" "int_str i @ rest \<noteq> []"
      using int_str_start by simp_all
    have "json_ws (int_str i @ rest) = int_str i @ rest"
      using json_stringify_opens [of "JNum i"] by (simp add: json_ws_opens)
    then show ?thesis
      using number_start_not [OF int_str_start(2) [of i]] json_number_int [OF that]
      by (simp add: h Let_def int_str_start(1))
  qed
  then show ?thesis by (simp add: reads_back_def)
qed

lemma json_reads_back: "json_wf j \<Longrightarrow> reads_back j"
proof (induction j rule: json_wf.induct)
  case (1 xs)
  then have IH: "\<forall>x \<in> set xs. reads_back x" by (auto simp: list_all_iff)
  show ?case
    unfolding reads_back_def
  proof (intro allI impI)
    fix n rest assume n: "length (json_stringify (JArr xs)) \<le> n"
    show "json_value (Suc n) (json_stringify (JArr xs) @ rest) = Some (to_value (JArr xs), rest)"
    proof (cases xs)
      case Nil
      then show ?thesis by (simp add: json_ws_def starts_with_def)
    next
      case (Cons x ys)
      let ?c = "json_commas (map json_stringify xs)"
      have "opens_value ?c"
        using json_stringify_opens [of x] Cons by (cases ys) (auto simp: opens_value_def hd_append)
      then have w: "\<not> starts_with (json_ws (?c @ CHR '']'' # rest)) '']''"
        by (simp add: json_ws_opens starts_with_single) (auto simp: opens_value_def)
      have e: "json_elements n (?c @ CHR '']'' # rest) = Some (map to_value xs, rest)"
        using IH Cons n by (intro reads_elements) auto
      have s: "json_ws (CHR ''['' # s) = CHR ''['' # s" for s by (simp add: json_ws_def)
      show ?thesis using w e by (simp add: s)
    qed
  qed
next
  case (2 fs)
  then have IH: "\<forall>p \<in> set fs. reads_back (snd p)" by (auto simp: list_all_iff)
  let ?str = "\<lambda>p. json_quote (fst p) @ '':'' @ json_stringify (snd p)"
  show ?case
    unfolding reads_back_def
  proof (intro allI impI)
    fix n rest assume n: "length (json_stringify (JObj fs)) \<le> n"
    show "json_value (Suc n) (json_stringify (JObj fs) @ rest) = Some (to_value (JObj fs), rest)"
    proof (cases fs)
      case Nil
      then show ?thesis by (simp add: json_ws_def starts_with_def)
    next
      case (Cons x ys)
      let ?c = "json_commas (map ?str fs)"
      have "opens_value ?c"
        using Cons by (cases ys) (auto simp: opens_value_def hd_append json_quote_def)
      then have w: "\<not> starts_with (json_ws (?c @ CHR ''}'' # rest)) ''}''"
        by (simp add: json_ws_opens starts_with_single) (auto simp: opens_value_def)
      have e: "json_members n (?c @ CHR ''}'' # rest) = Some (map (\<lambda>p. (fst p, to_value (snd p))) fs, rest)"
        using IH Cons n by (intro reads_members) auto
      have s: "json_ws (CHR ''{'' # s) = CHR ''{'' # s" for s by (simp add: json_ws_def)
      have "obj_of (map (\<lambda>p. (fst p, to_value (snd p))) fs) = map (\<lambda>p. (fst p, to_value (snd p))) fs"
        using 2 by (intro obj_of_distinct) (simp add: comp_def)
      then show ?thesis using w e by (simp add: s)
    qed
  qed
qed (simp_all add: reads_back_number reads_back_literal reads_back_string)

lemma json_parse_stringify_all: "json_wf j \<Longrightarrow> json_parse (json_stringify j) = Some (to_value j)"
  using reads_backD [OF json_reads_back, of j "[]" "Suc (length (json_stringify j))"]
  by (simp add: json_parse_def)

text \<open>\<open>JSON.parse(JSON.stringify(j))\<close> gives \<open>j\<close> back, for every value whose objects have each key
  once.\<close>

theorem json_parse_stringify:
  assumes "json_wf j"
  shows "json_parse (json_stringify j) = Some (to_value j)"
  using assms by (rule json_parse_stringify_all)

theorem json_parse_stringify_witness:
  "json_parse (json_stringify (JObj [(''a'', JArr [JNum (- 12), JStr [CHR 0x22, CHR 0x1F]]), (''b'', JNull)])) =
     Some (VObj [(''a'', VArr [VNum (Finite (- 12)), VStr [CHR 0x22, CHR 0x1F]]), (''b'', VNull)])"
  by (subst json_parse_stringify) simp_all

end
