(* ===== verification/Base64.thy ===== *)
theory Base64
  imports Prelude
begin

text \<open>
  Base64 as Node's \<open>Buffer\<close> writes and reads it: \<open>b64_encode\<close> is \<open>Buffer.from(s).toString("base64")\<close> of
  a string of bytes, \<open>b64_decode\<close> is \<open>Buffer.from(s, "base64").toString()\<close>, which stops at padding,
  accepts the URL alphabet as well, ignores every other character and drops an incomplete last byte.
\<close>

definition b64_char :: "nat \<Rightarrow> char" where
  "b64_char n =
     (if n < 26 then char_of (65 + n) else if n < 52 then char_of (71 + n)
      else if n < 62 then char_of (n - 4) else if n = 62 then CHR ''+'' else CHR ''/'')"

definition b64_val :: "char \<Rightarrow> nat option" where
  "b64_val c =
     (let n = of_char c :: nat in
      if 65 \<le> n \<and> n \<le> 90 then Some (n - 65) else if 97 \<le> n \<and> n \<le> 122 then Some (n - 71)
      else if 48 \<le> n \<and> n \<le> 57 then Some (n + 4)
      else if n = 43 \<or> n = 45 then Some 62 else if n = 47 \<or> n = 95 then Some 63 else None)"

fun b64_groups :: "nat list \<Rightarrow> string" where
  "b64_groups [] = []"
| "b64_groups [a] = [b64_char (a div 4), b64_char (a mod 4 * 16)] @ ''==''"
| "b64_groups [a, b] = [b64_char (a div 4), b64_char (a mod 4 * 16 + b div 16), b64_char (b mod 16 * 4)] @ ''=''"
| "b64_groups (a # b # c # r) =
     [b64_char (a div 4), b64_char (a mod 4 * 16 + b div 16), b64_char (b mod 16 * 4 + c div 64),
      b64_char (c mod 64)] @ b64_groups r"

fun b64_bytes :: "nat list \<Rightarrow> nat list" where
  "b64_bytes (a # b # c # d # r) =
     [a * 4 + b div 16, b mod 16 * 16 + c div 4, c mod 4 * 64 + d] @ b64_bytes r"
| "b64_bytes [a, b, c] = [a * 4 + b div 16, b mod 16 * 16 + c div 4]"
| "b64_bytes [a, b] = [a * 4 + b div 16]"
| "b64_bytes _ = []"

definition b64_encode :: "string \<Rightarrow> string" where
  "b64_encode s = b64_groups (map of_char s)"

definition b64_decode :: "string \<Rightarrow> string" where
  "b64_decode s = map char_of (b64_bytes (List.map_filter b64_val (takeWhile (\<lambda>c. c \<noteq> CHR ''='') s)))"

lemma b64_val_char: "n < 64 \<Longrightarrow> b64_val (b64_char n) = Some n \<and> b64_char n \<noteq> CHR ''=''"
proof -
  assume n: "n < 64"
  have eq: "c \<noteq> CHR ''=''" if "(of_char c :: nat) \<noteq> 61" for c using that by auto
  consider "n < 26" | "26 \<le> n" "n < 52" | "52 \<le> n" "n < 62" | "n = 62" | "n = 63" using n by linarith
  then show ?thesis
  proof cases
    case 1
    then have "(65 + n) mod 256 = 65 + n" by simp
    then show ?thesis using 1 eq [of "char_of (65 + n)"] by (simp add: b64_char_def b64_val_def)
  next
    case 2
    then have "(71 + n) mod 256 = 71 + n" by simp
    then show ?thesis using 2 eq [of "char_of (71 + n)"] by (simp add: b64_char_def b64_val_def)
  next
    case 3
    then obtain k where "n = k + 4" "48 \<le> k" "k < 58" by (intro that [of "n - 4"]) auto
    moreover have "k mod 256 = k" if "k < 58" for k :: nat using that by simp
    ultimately show ?thesis using eq [of "char_of k"] by (simp add: b64_char_def b64_val_def Let_def)
  qed (simp_all add: b64_char_def b64_val_def)
qed

lemma filter_group:
  "n < 64 \<Longrightarrow> List.map_filter b64_val (takeWhile (\<lambda>c. c \<noteq> CHR ''='') (b64_char n # s)) =
     n # List.map_filter b64_val (takeWhile (\<lambda>c. c \<noteq> CHR ''='') s)"
  using b64_val_char [of n] by (simp add: List.map_filter_simps)

lemma b64_bytes_groups:
  "\<forall>x \<in> set xs. x < 256 \<Longrightarrow>
     b64_bytes (List.map_filter b64_val (takeWhile (\<lambda>c. c \<noteq> CHR ''='') (b64_groups xs))) = xs"
proof (induction xs rule: b64_groups.induct)
  case 1
  then show ?case by (simp add: List.map_filter_simps)
next
  case (2 a)
  have "a div 4 < 64" "a mod 4 * 16 < 64" using 2 by auto
  then show ?case by (simp add: filter_group del: takeWhile.simps) (simp add: List.map_filter_simps)
next
  case (3 a b)
  have "a div 4 < 64" "a mod 4 * 16 + b div 16 < 64" "b mod 16 * 4 < 64" "b div 16 < 16"
    "b div 16 * 16 + b mod 16 = b" using 3 by auto
  then show ?case
    by (simp add: filter_group del: takeWhile.simps) (simp add: List.map_filter_simps)
next
  case (4 a b c r)
  have "a div 4 < 64" "a mod 4 * 16 + b div 16 < 64" "b mod 16 * 4 + c div 64 < 64" "c mod 64 < 64"
    using 4 by auto
  moreover have "(b mod 16 * 4 + c div 64) mod 4 * 64 + c mod 64 = c" "(b mod 16 * 4 + c div 64) div 4 = b mod 16"
    "(a mod 4 * 16 + b div 16) div 16 = a mod 4" "(a mod 4 * 16 + b div 16) mod 16 = b div 16"
    using 4 by auto
  ultimately show ?case using 4 by (simp add: filter_group del: takeWhile.simps)
qed

lemma b64_decode_encode: "b64_decode (b64_encode s) = s"
proof -
  have "\<forall>x \<in> set (map of_char s). x < (256 :: nat)" by auto
  then show ?thesis by (simp add: b64_decode_def b64_encode_def b64_bytes_groups comp_def)
qed

end
