(* ===== verification/Validation.thy ===== *)
theory Validation
  imports Json Base64
begin

text \<open>
  \<open>src/backend/src/validation.js\<close> and \<open>src/shared/stellar-address.js\<close>: the request schemas, the
  middlewares built on them and the two paginations.  A schema is a function from an untrusted value
  to the parsed value, or \<open>None\<close> when it has issues; the combinators are what the sources use of
  \<open>zod\<close>: an object keeps the declared keys only, an absent property is \<open>VUndef\<close>.  The wording of the
  issues, the e-mail and URL checks, \<open>StrKey\<close> of the Stellar SDK (the checksum of an address) and
  \<open>Date\<close> parsing are parameters.  A query parameter is a string or absent.
\<close>

type_synonym schema = "js_value \<Rightarrow> js_value option"

section \<open>The combinators\<close>

definition z_string :: "(string \<Rightarrow> bool) \<Rightarrow> schema" where
  "z_string P v = (case v of VStr s \<Rightarrow> if P s then Some v else None | _ \<Rightarrow> None)"

definition z_number :: "(js_number \<Rightarrow> bool) \<Rightarrow> schema" where
  "z_number P v = (case v of VNum n \<Rightarrow> if n \<noteq> NaN \<and> P n then Some v else None | _ \<Rightarrow> None)"

definition z_optional :: "schema \<Rightarrow> schema" where
  "z_optional s v = (if v = VUndef then Some VUndef else s v)"

definition z_default :: "js_value \<Rightarrow> schema \<Rightarrow> schema" where
  "z_default d s v = (if v = VUndef then Some d else s v)"

definition z_array :: "nat \<Rightarrow> nat \<Rightarrow> schema \<Rightarrow> schema" where
  "z_array lo hi s v =
     (case v of
        VArr xs \<Rightarrow> if lo \<le> length xs \<and> length xs \<le> hi then map_option VArr (those (map s xs)) else None
      | _ \<Rightarrow> None)"

definition prop_of :: "(string \<times> js_value) list \<Rightarrow> string \<Rightarrow> js_value" where
  "prop_of ps k = (case map_get ps k of None \<Rightarrow> VUndef | Some v \<Rightarrow> v)"

definition z_object :: "(string \<times> schema) list \<Rightarrow> schema" where
  "z_object fs v =
     (case v of
        VObj ps \<Rightarrow>
          map_option (\<lambda>qs. VObj (filter (\<lambda>q. snd q \<noteq> VUndef) qs))
            (those (map (\<lambda>f. map_option (Pair (fst f)) (snd f (prop_of ps (fst f)))) fs))
      | _ \<Rightarrow> None)"

definition z_refine :: "(js_value \<Rightarrow> bool) \<Rightarrow> schema \<Rightarrow> schema" where
  "z_refine P s v = (case s v of Some w \<Rightarrow> if P w then Some w else None | None \<Rightarrow> None)"

definition z_union :: "schema \<Rightarrow> schema \<Rightarrow> schema" where
  "z_union a b v = (case a v of Some w \<Rightarrow> Some w | None \<Rightarrow> b v)"

definition z_enum :: "string list \<Rightarrow> schema" where
  "z_enum xs = z_string (\<lambda>s. s \<in> set xs)"

definition text_between :: "nat \<Rightarrow> nat \<Rightarrow> schema" where
  "text_between lo hi = z_string (\<lambda>s. lo \<le> length s \<and> length s \<le> hi)"

text \<open>Tests on numbers: \<open>Number.isInteger\<close>, and the comparisons of \<open>min\<close>, \<open>max\<close> and \<open>positive\<close>.\<close>

definition is_integer :: "js_number \<Rightarrow> bool" where
  "is_integer n = (case n of Finite q \<Rightarrow> q = of_int \<lfloor>q\<rfloor> | _ \<Rightarrow> False)"

definition at_least :: "int \<Rightarrow> js_number \<Rightarrow> bool" where
  "at_least m n = (case n of Finite q \<Rightarrow> of_int m \<le> q | Infinite neg \<Rightarrow> \<not> neg | NaN \<Rightarrow> False)"

definition at_most :: "int \<Rightarrow> js_number \<Rightarrow> bool" where
  "at_most m n = (case n of Finite q \<Rightarrow> q \<le> of_int m | Infinite neg \<Rightarrow> neg | NaN \<Rightarrow> False)"

definition is_positive :: "js_number \<Rightarrow> bool" where
  "is_positive n = (case n of Finite q \<Rightarrow> 0 < q | Infinite neg \<Rightarrow> \<not> neg | NaN \<Rightarrow> False)"

definition is_finite_number :: "js_number \<Rightarrow> bool" where
  "is_finite_number n = (case n of Finite _ \<Rightarrow> True | _ \<Rightarrow> False)"

definition z_int :: "int \<Rightarrow> int \<Rightarrow> schema" where
  "z_int lo hi = z_number (\<lambda>n. is_integer n \<and> at_least lo n \<and> at_most hi n)"

definition z_positive_int :: schema where
  "z_positive_int = z_number (\<lambda>n. is_integer n \<and> is_positive n)"

section \<open>Addresses\<close>

definition base32_char :: "char \<Rightarrow> bool" where
  "base32_char c \<longleftrightarrow> is_upper c \<or> c \<in> set ''234567''"

definition strkey_shape :: "char \<Rightarrow> string \<Rightarrow> bool" where
  "strkey_shape t s = (case s of [] \<Rightarrow> False | c # r \<Rightarrow> c = t \<and> length r = 55 \<and> list_all base32_char r)"

text \<open>\<open>/^G[A-Z2-7]{55}$/\<close> and \<open>/^C[A-Z2-7]{55}$/\<close>.\<close>

definition account_regex :: "string \<Rightarrow> bool" where
  "account_regex = strkey_shape (CHR ''G'')"

definition contract_regex :: "string \<Rightarrow> bool" where
  "contract_regex = strkey_shape (CHR ''C'')"

definition normalize_stellar_account_address :: "js_value \<Rightarrow> string" where
  "normalize_stellar_account_address v = (case v of VStr s \<Rightarrow> trim s | _ \<Rightarrow> [])"

definition is_valid_stellar_account_address :: "(string \<Rightarrow> bool) \<Rightarrow> js_value \<Rightarrow> bool" where
  "is_valid_stellar_account_address strkey v =
     (let address = normalize_stellar_account_address v
      in if \<not> account_regex address then False else strkey address)"

definition get_stellar_account_address_error :: "(string \<Rightarrow> bool) \<Rightarrow> js_value \<Rightarrow> string option" where
  "get_stellar_account_address_error strkey v =
     (if normalize_stellar_account_address v = [] then None
      else if is_valid_stellar_account_address strkey v then None
      else Some ''Must be a valid Stellar account address (G..., 56 chars)'')"

definition stellar_address :: "(string \<Rightarrow> bool) \<Rightarrow> schema" where
  "stellar_address strkey = z_string (\<lambda>s. is_valid_stellar_account_address strkey (VStr s))"

definition contract_address :: schema where
  "contract_address = z_string contract_regex"

section \<open>The schemas\<close>

definition max_collaborators :: nat where "max_collaborators = 10"

definition max_nft_id_length :: nat where "max_nft_id_length = 256"

definition max_sale_price :: int where "max_sale_price = 9007199254740991"

definition max_batch_operations :: nat where "max_batch_operations = 50"

definition basis_points :: schema where
  "basis_points = z_int 0 10000"

definition arr_of :: "js_value \<Rightarrow> js_value list" where
  "arr_of v = (case v of VArr xs \<Rightarrow> xs | _ \<Rightarrow> [])"

definition field :: "string \<Rightarrow> js_value \<Rightarrow> js_value" where
  "field k v = (case v of VObj ps \<Rightarrow> prop_of ps k | _ \<Rightarrow> VUndef)"

definition num_of :: "js_value \<Rightarrow> rat" where
  "num_of v = (case v of VNum (Finite q) \<Rightarrow> q | _ \<Rightarrow> 0)"

definition initialize_schema :: "(string \<Rightarrow> bool) \<Rightarrow> schema" where
  "initialize_schema strkey =
     z_refine (\<lambda>d. sum_list (map num_of (arr_of (field ''shares'' d))) = 10000)
       (z_refine (\<lambda>d. length (arr_of (field ''collaborators'' d)) = length (arr_of (field ''shares'' d)))
         (z_object
            [(''contractId'', contract_address), (''walletAddress'', stellar_address strkey),
             (''collaborators'', z_array 1 max_collaborators (stellar_address strkey)),
             (''shares'', z_array 1 max_collaborators basis_points)]))"

text \<open>\<open>/^[1-9]\d*$/\<close>\<close>

definition positive_numeral :: "string \<Rightarrow> bool" where
  "positive_numeral s = (case s of [] \<Rightarrow> False | c # r \<Rightarrow> is_digit c \<and> c \<noteq> CHR ''0'' \<and> list_all is_digit r)"

definition amount_schema :: schema where
  "amount_schema = z_union (z_number (\<lambda>n. is_finite_number n \<and> is_positive n)) (z_string positive_numeral)"

definition distribute_schema :: "(string \<Rightarrow> bool) \<Rightarrow> schema" where
  "distribute_schema strkey =
     z_object
       [(''contractId'', contract_address), (''walletAddress'', stellar_address strkey),
        (''tokenId'', contract_address), (''amount'', z_optional amount_schema)]"

definition batch_distribute_schema :: "(string \<Rightarrow> bool) \<Rightarrow> schema" where
  "batch_distribute_schema strkey =
     z_object
       [(''walletAddress'', stellar_address strkey),
        (''operations'', z_array 1 max_batch_operations
           (z_object [(''contractId'', contract_address), (''tokenId'', contract_address),
              (''amount'', z_optional amount_schema)]))]"

definition set_royalty_rate_schema :: "(string \<Rightarrow> bool) \<Rightarrow> schema" where
  "set_royalty_rate_schema strkey =
     z_object [(''contractId'', contract_address), (''walletAddress'', stellar_address strkey),
       (''royaltyRate'', basis_points)]"

definition record_secondary_sale_schema :: "(string \<Rightarrow> bool) \<Rightarrow> schema" where
  "record_secondary_sale_schema strkey =
     z_object
       [(''contractId'', contract_address), (''walletAddress'', stellar_address strkey),
        (''nftId'', text_between 1 max_nft_id_length),
        (''previousOwner'', stellar_address strkey), (''newOwner'', stellar_address strkey),
        (''salePrice'', z_number (\<lambda>n. is_integer n \<and> is_positive n \<and> at_most max_sale_price n)),
        (''saleToken'', contract_address), (''royaltyRate'', basis_points)]"

definition distribute_secondary_schema :: "(string \<Rightarrow> bool) \<Rightarrow> schema" where
  "distribute_secondary_schema strkey =
     z_object
       [(''contractId'', contract_address), (''walletAddress'', stellar_address strkey),
        (''tokenId'', contract_address), (''amount'', z_optional amount_schema)]"

definition email_digest_subscribe_schema :: "(string \<Rightarrow> bool) \<Rightarrow> (string \<Rightarrow> bool) \<Rightarrow> schema" where
  "email_digest_subscribe_schema strkey is_email =
     z_object
       [(''walletAddress'', stellar_address strkey), (''email'', z_string is_email),
        (''timezone'', z_default (VStr ''UTC'') (text_between 1 50)),
        (''dayOfWeek'', z_default (VNum (Finite 0)) (z_int 0 6)),
        (''hourOfDay'', z_default (VNum (Finite 9)) (z_int 0 23))]"

definition email_digest_preferences_schema :: "(string \<Rightarrow> bool) \<Rightarrow> (string \<Rightarrow> bool) \<Rightarrow> schema" where
  "email_digest_preferences_schema strkey is_email =
     z_object
       [(''walletAddress'', stellar_address strkey), (''email'', z_optional (z_string is_email)),
        (''timezone'', z_optional (text_between 1 50)), (''dayOfWeek'', z_optional (z_int 0 6)),
        (''hourOfDay'', z_optional (z_int 0 23))]"

definition webhook_register_schema :: "(string \<Rightarrow> bool) \<Rightarrow> schema" where
  "webhook_register_schema is_url =
     z_object [(''url'', z_string (\<lambda>s. is_url s \<and> starts_with s ''https://''))]"

definition transaction_confirm_schema :: schema where
  "transaction_confirm_schema =
     z_object
       [(''transactionId'', z_optional z_positive_int), (''blockTime'', z_optional (z_string (\<lambda>_. True))),
        (''errorMessage'', z_optional (z_string (\<lambda>_. True))),
        (''status'', z_optional (z_enum [''pending'', ''confirmed'', ''failed'']))]"

definition dispute_categories :: "string list" where
  "dispute_categories = [''wrong_amount'', ''missing_payment'', ''other'']"

definition dispute_statuses :: "string list" where
  "dispute_statuses = [''open'', ''under_review'', ''resolved'', ''closed'']"

definition dispute_submit_schema :: "(string \<Rightarrow> bool) \<Rightarrow> schema" where
  "dispute_submit_schema strkey =
     z_object
       [(''walletAddress'', stellar_address strkey), (''contractId'', z_optional contract_address),
        (''category'', z_enum [''wrong_amount'', ''missing_payment'', ''other'']),
        (''description'', text_between 10 2000)]"

definition dispute_contributor_comment_schema :: "(string \<Rightarrow> bool) \<Rightarrow> schema" where
  "dispute_contributor_comment_schema strkey =
     z_object [(''walletAddress'', stellar_address strkey), (''message'', text_between 1 2000)]"

definition dispute_admin_review_schema :: schema where
  "dispute_admin_review_schema =
     z_object
       [(''status'', z_enum [''open'', ''under_review'', ''resolved'', ''closed'']),
        (''adminNote'', z_optional (text_between 0 2000))]"

definition dispute_admin_comment_schema :: schema where
  "dispute_admin_comment_schema = z_object [(''message'', text_between 1 2000)]"

text \<open>\<open>/^REF-[0-9A-F]{12}$/\<close>\<close>

definition referral_code_regex :: "string \<Rightarrow> bool" where
  "referral_code_regex s \<longleftrightarrow> take 4 s = ''REF-'' \<and> length (drop 4 s) = 12
     \<and> list_all (\<lambda>c. is_digit c \<or> c \<in> set ''ABCDEF'') (drop 4 s)"

definition referral_code :: schema where
  "referral_code = z_string referral_code_regex"

definition referral_generate_link_schema :: "(string \<Rightarrow> bool) \<Rightarrow> schema" where
  "referral_generate_link_schema strkey = z_object [(''walletAddress'', stellar_address strkey)]"

definition referral_register_schema :: "(string \<Rightarrow> bool) \<Rightarrow> schema" where
  "referral_register_schema strkey =
     z_object [(''referralCode'', referral_code), (''referredAddress'', stellar_address strkey)]"

definition referral_activate_schema :: "(string \<Rightarrow> bool) \<Rightarrow> schema" where
  "referral_activate_schema strkey =
     z_object
       [(''referredAddress'', stellar_address strkey), (''bonusAmountStroops'', z_optional z_positive_int),
        (''reason'', z_optional (text_between 1 500))]"

definition referral_award_bonus_schema :: "(string \<Rightarrow> bool) \<Rightarrow> schema" where
  "referral_award_bonus_schema strkey =
     z_object
       [(''referralId'', z_positive_int), (''referrerAddress'', stellar_address strkey),
        (''bonusAmountStroops'', z_positive_int), (''reason'', text_between 1 500)]"

section \<open>The middlewares\<close>

definition validate :: "schema \<Rightarrow> (js_value \<Rightarrow> (string \<times> string) list) \<Rightarrow> js_value \<Rightarrow> js_value outcome" where
  "validate s issues b =
     (case s b of None \<Rightarrow> Respond (send_validation_error (issues b)) | Some d \<Rightarrow> Next d)"

definition initialize_payload_limit_bytes :: nat where "initialize_payload_limit_bytes = 10 * 1024"

definition initialize_collaborators_payload_limit_bytes :: nat where
  "initialize_collaborators_payload_limit_bytes = 8 * 1024"

text \<open>The body is the parsed JSON; \<open>value ?? ""\<close> turns \<open>null\<close> into the empty string.\<close>

definition get_json_byte_length :: "json \<Rightarrow> nat" where
  "get_json_byte_length v = length (json_stringify (if v = JNull then JStr [] else v))"

definition validate_initialize_payload_size :: "json \<Rightarrow> json outcome" where
  "validate_initialize_payload_size b =
     (if initialize_payload_limit_bytes < get_json_byte_length b
      then Respond (send_error 413 (Some ''payload_too_large'') ''Payload too large'' [])
      else case b of
             JObj ps \<Rightarrow>
               (case map_get ps ''collaborators'' of
                  Some (JArr xs) \<Rightarrow>
                    if initialize_collaborators_payload_limit_bytes < get_json_byte_length (JArr xs)
                    then Respond (send_error 413 (Some ''payload_too_large'') ''Collaborators payload too large'' [])
                    else Next b
                | _ \<Rightarrow> Next b)
           | _ \<Rightarrow> Next b)"

definition invalid_contract_id :: response where
  "invalid_contract_id = send_error 400 (Some ''invalid_contract_id'') ''Invalid contract ID format'' []"

definition validate_contract_id_middleware :: "js_value \<Rightarrow> js_value outcome" where
  "validate_contract_id_middleware v =
     (case v of
        VStr s \<Rightarrow> if contract_regex s then Next v else Respond invalid_contract_id
      | _ \<Rightarrow> Respond invalid_contract_id)"

text \<open>The functions that answer themselves return the response they sent, or \<open>None\<close>.\<close>

definition validate_contract_id :: "js_value \<Rightarrow> response option" where
  "validate_contract_id v =
     (case v of VStr s \<Rightarrow> if contract_regex s then None else Some invalid_contract_id
      | _ \<Rightarrow> Some invalid_contract_id)"

definition validate_stellar_address :: "(string \<Rightarrow> bool) \<Rightarrow> js_value \<Rightarrow> response option" where
  "validate_stellar_address strkey v =
     (case v of
        VStr s \<Rightarrow> if is_valid_stellar_account_address strkey v then None
                 else Some (send_error 400 (Some ''invalid_stellar_address'') ''Invalid Stellar address format'' [])
      | _ \<Rightarrow> Some (send_error 400 (Some ''invalid_stellar_address'') ''Invalid Stellar address format'' []))"

section \<open>Query parameters\<close>

text \<open>\<open>z.coerce.number()\<close> on a query string.\<close>

definition z_coerce_int :: "int \<Rightarrow> int option \<Rightarrow> schema" where
  "z_coerce_int lo hi v =
     (case v of
        VStr s \<Rightarrow> z_number (\<lambda>n. is_integer n \<and> at_least lo n \<and> (case hi of None \<Rightarrow> True | Some h \<Rightarrow> at_most h n))
                   (VNum (string_to_number s))
      | _ \<Rightarrow> None)"

definition pagination_schema :: schema where
  "pagination_schema =
     z_object
       [(''limit'', z_default (VNum (Finite 10)) (z_coerce_int 1 (Some 100))),
        (''offset'', z_default (VNum (Finite 0)) (z_coerce_int 0 None))]"

definition date_of_field :: "(string \<Rightarrow> int option) \<Rightarrow> js_value \<Rightarrow> int option option" where
  "date_of_field date v = (case v of VStr s \<Rightarrow> if s = [] then None else Some (date s) | _ \<Rightarrow> None)"

definition analytics_query_schema :: "(string \<Rightarrow> int option) \<Rightarrow> schema" where
  "analytics_query_schema date =
     z_refine (\<lambda>d.
         let s = date_of_field date (field ''start'' d); e = date_of_field date (field ''end'' d)
         in s \<noteq> Some None \<and> e \<noteq> Some None
            \<and> (case (s, e) of (Some (Some a), Some (Some b)) \<Rightarrow> a \<le> b | _ \<Rightarrow> True))
       (z_object
          [(''start'', z_optional (z_string (\<lambda>_. True))), (''end'', z_optional (z_string (\<lambda>_. True))),
           (''topLimit'', z_default (VNum (Finite 10)) (z_coerce_int 1 (Some 100)))])"

text \<open>\<open>parseInt(s)\<close> without a radix reads a hexadecimal literal too.\<close>

definition parse_hex :: "string \<Rightarrow> int option" where
  "parse_hex s =
     (let ds = takeWhile (\<lambda>c. hex_val c \<noteq> None) s
      in if ds = [] then None else Some (int (foldl (\<lambda>a c. 16 * a + the (hex_val c)) 0 ds)))"

definition hex_prefix :: "string \<Rightarrow> bool" where
  "hex_prefix s \<longleftrightarrow> starts_with s ''0x'' \<or> starts_with s ''0X''"

definition parse_int :: "string \<Rightarrow> int option" where
  "parse_int s0 =
     (let s = dropWhile is_space s0 in
      if starts_with s ''-'' \<and> hex_prefix (tl s) then map_option uminus (parse_hex (drop 3 s))
      else if starts_with s ''+'' \<and> hex_prefix (tl s) then parse_hex (drop 3 s)
      else if hex_prefix s then parse_hex (drop 2 s)
      else parse_int10 s)"

definition query_int :: "string option \<Rightarrow> int option" where
  "query_int q = (case q of None \<Rightarrow> None | Some s \<Rightarrow> parse_int s)"

text \<open>\<open>parseInt(q) || d\<close>\<close>

definition int_or :: "string option \<Rightarrow> int \<Rightarrow> int" where
  "int_or q d = (case query_int q of None \<Rightarrow> d | Some n \<Rightarrow> if n = 0 then d else n)"

definition bad_query :: "string \<Rightarrow> response" where
  "bad_query m = send_error 400 (Some ''invalid_query_parameter'') m []"

definition parse_pagination :: "string option \<Rightarrow> string option \<Rightarrow> int \<Rightarrow> int \<Rightarrow> response + int \<times> int" where
  "parse_pagination qlimit qoffset default_limit max_limit =
     (if qlimit \<noteq> None \<and> query_int qlimit = None then Inl (bad_query ''limit must be a number'')
      else if qoffset \<noteq> None \<and> query_int qoffset = None then Inl (bad_query ''offset must be a number'')
      else Inr (min (max (int_or qlimit default_limit) 1) max_limit, max (int_or qoffset 0) 0))"

definition value_truthy :: "js_value \<Rightarrow> bool" where
  "value_truthy v =
     (case v of
        VUndef \<Rightarrow> False | VNull \<Rightarrow> False | VBool b \<Rightarrow> b | VStr s \<Rightarrow> s \<noteq> []
      | VNum n \<Rightarrow> n \<noteq> NaN \<and> n \<noteq> Finite 0 | _ \<Rightarrow> True)"

text \<open>A cursor is the pair of timestamp and id.  Reading a property of \<open>null\<close> throws and is caught.\<close>

definition parse_cursor_pagination ::
  "string option \<Rightarrow> string option \<Rightarrow> int \<Rightarrow> int \<Rightarrow> response + int \<times> (js_value \<times> js_value) option" where
  "parse_cursor_pagination qlimit cur default_limit max_limit =
     (if qlimit \<noteq> None \<and> query_int qlimit = None then Inl (bad_query ''limit must be a number'')
      else
        let l = min (max (int_or qlimit default_limit) 1) max_limit in
        if \<not> truthy cur then Inr (l, None)
        else case json_parse (b64_decode (the cur)) of
               None \<Rightarrow> Inl (bad_query ''Invalid cursor format'')
             | Some v \<Rightarrow>
                 if v = VNull \<or> \<not> value_truthy (field ''timestamp'' v) \<or> \<not> value_truthy (field ''id'' v)
                 then Inl (bad_query ''Invalid cursor format'')
                 else Inr (l, Some (field ''timestamp'' v, field ''id'' v)))"

definition encode_cursor :: "json \<Rightarrow> json \<Rightarrow> string" where
  "encode_cursor timestamp ident =
     b64_encode (json_stringify (JObj [(''timestamp'', timestamp), (''id'', ident)]))"

section \<open>Properties\<close>

lemma those_Some: "those xs = Some ys \<longleftrightarrow> xs = map Some ys"
  by (induction xs arbitrary: ys) (auto split: option.splits simp: Cons_eq_map_conv)

lemma z_array_elems:
  assumes "z_array lo hi s v = Some w"
  shows "lo \<le> length (arr_of w) \<and> length (arr_of w) \<le> hi \<and> (\<forall>y \<in> set (arr_of w). \<exists>x. s x = Some y)"
proof -
  obtain xs ys where "lo \<le> length xs" "length xs \<le> hi" "map s xs = map Some ys" "w = VArr ys"
    using assms by (auto simp: z_array_def those_Some split: js_value.splits if_splits)
  then show ?thesis by (auto simp: arr_of_def dest: map_eq_imp_length_eq)
      (metis (no_types, lifting) imageE list.set_map image_eqI)
qed

lemma z_string_value: "z_string P v = Some w \<Longrightarrow> \<exists>s. w = VStr s \<and> v = VStr s \<and> P s"
  by (auto simp: z_string_def split: js_value.splits if_splits)

lemma z_int_value:
  assumes "z_int lo hi v = Some w"
  shows "\<exists>n. w = VNum (Finite (of_int n)) \<and> lo \<le> n \<and> n \<le> hi"
proof -
  obtain q where q: "w = VNum (Finite q)" "q = of_int \<lfloor>q\<rfloor>" "of_int lo \<le> q" "q \<le> of_int hi"
    using assms by (auto simp: z_int_def z_number_def is_integer_def at_least_def at_most_def
        split: js_value.splits if_splits js_number.splits)
  then have "lo \<le> \<lfloor>q\<rfloor>" "\<lfloor>q\<rfloor> \<le> hi" by (metis of_int_le_iff)+
  then show ?thesis using q by metis
qed

lemma z_object_field:
  assumes "z_object fs v = Some w" "distinct (map fst fs)" "(k, s) \<in> set fs"
  shows "\<exists>x y. s x = Some y \<and> field k w = y"
proof -
  obtain ps qs where v: "v = VObj ps"
    and m: "map (\<lambda>f. map_option (Pair (fst f)) (snd f (prop_of ps (fst f)))) fs = map Some qs"
    and w: "w = VObj (filter (\<lambda>q. snd q \<noteq> VUndef) qs)"
    using assms(1) by (auto simp: z_object_def those_Some split: js_value.splits)
  have keys: "map fst qs = map fst fs"
    using m by (induction fs arbitrary: qs) (auto simp: Cons_eq_map_conv map_option_case split: option.splits)
  obtain i where i: "i < length fs" "fs ! i = (k, s)" using assms(3) by (auto simp: in_set_conv_nth)
  then have li: "i < length qs" using keys by (metis length_map)
  have "map_option (Pair k) (s (prop_of ps k)) = Some (qs ! i)"
    using arg_cong [OF m, of "\<lambda>xs. xs ! i"] i li by simp
  then obtain y where y: "s (prop_of ps k) = Some y" "qs ! i = (k, y)" by auto
  have d: "distinct (map fst qs)" using assms(2) keys by simp
  have "(k, y) \<in> set qs" using y li by (metis nth_mem)
  then have g: "map_of qs k = Some y" using d by (rule map_of_is_SomeI [rotated])
  have "map_of (filter (\<lambda>q. snd q \<noteq> VUndef) xs) k = (case map_of xs k of None \<Rightarrow> None
      | Some z \<Rightarrow> if z = VUndef then None else Some z)" if "distinct (map fst xs)" for xs
    using that
  proof (induction xs)
    case (Cons p xs)
    have "map_of xs (fst p) = None" using Cons.prems by (simp add: map_of_eq_None_iff)
    then show ?case using Cons by auto
  qed simp
  from this [OF d] g have "field k w = y" by (simp add: w field_def prop_of_def)
  then show ?thesis using y by blast
qed

lemma z_object_other_field:
  assumes "z_object fs v = Some w" "k \<notin> fst ` set fs"
  shows "field k w = VUndef"
proof -
  obtain qs ps where m: "map (\<lambda>f. map_option (Pair (fst f)) (snd f (prop_of ps (fst f)))) fs = map Some qs"
    and w: "w = VObj (filter (\<lambda>q. snd q \<noteq> VUndef) qs)"
    using assms(1) by (auto simp: z_object_def those_Some split: js_value.splits)
  have "map fst qs = map fst fs"
    using m by (induction fs arbitrary: qs) (auto simp: Cons_eq_map_conv map_option_case split: option.splits)
  then have "k \<notin> fst ` set qs" using assms(2) by (metis list.set_map)
  then have "map_of (filter (\<lambda>q. snd q \<noteq> VUndef) qs) k = None" by (auto simp: map_of_eq_None_iff)
  then show ?thesis by (simp add: w field_def prop_of_def)
qed

lemma trim_padding:
  assumes "list_all is_space sp"
  shows "trim (sp @ a @ sp) = trim a"
proof -
  have p: "dropWhile is_space (sp @ s) = dropWhile is_space s" for s
    using assms by (induction sp) auto
  have q: "dropWhile is_space (rev sp @ s) = dropWhile is_space s" for s
    by (rule dropWhile_append2) (use assms in \<open>simp add: list_all_iff\<close>)
  show ?thesis
  proof (cases "dropWhile is_space a")
    case Nil
    then have "\<forall>x \<in> set a. is_space x" by (simp add: dropWhile_eq_Nil_conv)
    then have "\<forall>x \<in> set (a @ sp). is_space x" using assms by (auto simp: list_all_iff)
    then have d: "dropWhile is_space (a @ sp) = []"
      using dropWhile_eq_Nil_conv [of is_space "a @ sp"] by blast
    show ?thesis by (simp only: trim_def p Nil d)
  next
    case (Cons c r)
    then have "dropWhile is_space (a @ sp) = (c # r) @ sp"
      by (metis dropWhile_append3 dropWhile_append hd_dropWhile list.distinct(1) dropWhile_eq_Nil_conv dropWhile_append1)
    then show ?thesis using Cons by (simp add: trim_def p q)
  qed
qed

lemma list_of_images: "\<forall>w \<in> set ws. \<exists>a. w = F a \<and> P a \<Longrightarrow> \<exists>as. ws = map F as \<and> list_all P as"
proof (induction ws)
  case (Cons w ws)
  then obtain a as where "w = F a" "P a" "ws = map F as" "list_all P as" by auto
  then show ?case by (intro exI [of _ "a # as"]) simp
qed simp

lemma of_int_sum_list: "of_int (sum_list ns) = (sum_list (map of_int ns) :: rat)"
  by (induction ns) simp_all

text \<open>C40: a body the initialize schema accepts has one share for each of one to ten collaborators,
  every collaborator is a valid account address, and the shares are integers from 0 to 10000 that
  sum to exactly 10000 basis points.\<close>

theorem initialize_schema_sound:
  assumes "initialize_schema strkey v = Some d"
  shows "\<exists>cs ns. arr_of (field ''collaborators'' d) = map VStr cs
    \<and> arr_of (field ''shares'' d) = map (\<lambda>n. VNum (Finite (of_int n))) ns
    \<and> length cs = length ns \<and> 1 \<le> length cs \<and> length cs \<le> 10 \<and> sum_list ns = 10000
    \<and> list_all (\<lambda>c. account_regex (trim c) \<and> strkey (trim c)) cs
    \<and> list_all (\<lambda>n. 0 \<le> n \<and> n \<le> 10000) ns"
proof -
  let ?fs = "[(''contractId'', contract_address), (''walletAddress'', stellar_address strkey),
    (''collaborators'', z_array 1 max_collaborators (stellar_address strkey)),
    (''shares'', z_array 1 max_collaborators basis_points)]"
  have ob: "z_object ?fs v = Some d"
    and len: "length (arr_of (field ''collaborators'' d)) = length (arr_of (field ''shares'' d))"
    and total: "sum_list (map num_of (arr_of (field ''shares'' d))) = 10000"
    using assms by (auto simp: initialize_schema_def z_refine_def split: option.splits if_splits)
  have dist: "distinct (map fst ?fs)" by simp
  obtain x where "z_array 1 max_collaborators (stellar_address strkey) x = Some (field ''collaborators'' d)"
    using z_object_field [OF ob dist, of "''collaborators''"] by auto
  note c = z_array_elems [OF this]
  obtain y where "z_array 1 max_collaborators basis_points y = Some (field ''shares'' d)"
    using z_object_field [OF ob dist, of "''shares''"] by auto
  note s = z_array_elems [OF this]
  have "\<forall>w \<in> set (arr_of (field ''collaborators'' d)).
      \<exists>a. w = VStr a \<and> (account_regex (trim a) \<and> strkey (trim a))"
  proof
    fix w assume "w \<in> set (arr_of (field ''collaborators'' d))"
    then obtain x where "stellar_address strkey x = Some w" using c by blast
    from z_string_value [OF this [unfolded stellar_address_def]]
    show "\<exists>a. w = VStr a \<and> (account_regex (trim a) \<and> strkey (trim a))"
      by (auto simp: is_valid_stellar_account_address_def normalize_stellar_account_address_def Let_def
          split: if_splits)
  qed
  from list_of_images [OF this] obtain cs where cs: "arr_of (field ''collaborators'' d) = map VStr cs"
    "list_all (\<lambda>c. account_regex (trim c) \<and> strkey (trim c)) cs" by blast
  have "\<forall>w \<in> set (arr_of (field ''shares'' d)). \<exists>n. w = VNum (Finite (of_int n)) \<and> (0 \<le> n \<and> n \<le> 10000)"
    using s z_int_value unfolding basis_points_def by blast
  from list_of_images [OF this] obtain ns where ns:
    "arr_of (field ''shares'' d) = map (\<lambda>n. VNum (Finite (of_int n))) ns"
    "list_all (\<lambda>n. 0 \<le> n \<and> n \<le> 10000) ns" by blast
  have "map num_of (arr_of (field ''shares'' d)) = map of_int ns"
    by (simp add: ns(1) num_of_def)
  then have "of_int (sum_list ns) = (10000 :: rat)" using total by (simp add: of_int_sum_list)
  then have "sum_list ns = 10000" by linarith
  then show ?thesis using cs ns len c by (intro exI [of _ cs] exI [of _ ns]) (simp add: max_collaborators_def)
qed

definition sample_account :: "char \<Rightarrow> string" where
  "sample_account c = CHR ''G'' # replicate 55 c"

definition sample_contract :: string where
  "sample_contract = CHR ''C'' # replicate 55 (CHR ''A'')"

lemma sample_account_regex:
  "base32_char c \<Longrightarrow> account_regex (sample_account c)" "contract_regex sample_contract"
  by (simp_all add: account_regex_def contract_regex_def strkey_shape_def sample_account_def
      sample_contract_def base32_char_def is_upper_def list_all_iff)

lemma sample_account_trim: "base32_char c \<Longrightarrow> trim (sample_account c) = sample_account c"
proof -
  assume "base32_char c"
  then have "\<not> is_space c" by (auto simp: base32_char_def is_upper_def is_space_def Let_def)
  then have "\<forall>x \<in> set (sample_account c). \<not> is_space x" by (simp add: sample_account_def is_space_def)
  then show ?thesis by (rule trim_no_space)
qed

lemma stellar_address_sample:
  "base32_char c \<Longrightarrow> stellar_address (\<lambda>_. True) (VStr (sample_account c)) = Some (VStr (sample_account c))"
  by (simp add: stellar_address_def z_string_def is_valid_stellar_account_address_def Let_def
      normalize_stellar_account_address_def sample_account_trim sample_account_regex)

definition sample_initialize :: js_value where
  "sample_initialize = VObj
     [(''contractId'', VStr sample_contract), (''walletAddress'', VStr (sample_account (CHR ''A''))),
      (''collaborators'', VArr [VStr (sample_account (CHR ''A'')), VStr (sample_account (CHR ''B''))]),
      (''shares'', VArr [VNum (Finite 6000), VNum (Finite 4000)]), (''extra'', VNull)]"

lemma basis_points_nat: "n \<le> 10000 \<Longrightarrow> basis_points (VNum (Finite (of_nat n))) = Some (VNum (Finite (of_nat n)))"
  by (simp add: basis_points_def z_int_def z_number_def is_integer_def at_least_def at_most_def)

theorem initialize_schema_sound_witness:
  "\<exists>cs ns. initialize_schema (\<lambda>_. True) sample_initialize \<noteq> None
    \<and> arr_of (field ''collaborators'' (the (initialize_schema (\<lambda>_. True) sample_initialize))) = map VStr cs
    \<and> length cs = length ns \<and> sum_list ns = (10000 :: int)"
proof -
  have a: "base32_char (CHR ''A'')" "base32_char (CHR ''B'')" by (simp_all add: base32_char_def is_upper_def)
  have b: "basis_points (VNum (Finite 6000)) = Some (VNum (Finite 6000))"
    "basis_points (VNum (Finite 4000)) = Some (VNum (Finite 4000))"
    using basis_points_nat [of 6000] basis_points_nat [of 4000] by simp_all
  have "\<exists>d. initialize_schema (\<lambda>_. True) sample_initialize = Some d"
    by (simp add: initialize_schema_def z_refine_def z_object_def sample_initialize_def prop_of_def
        contract_address_def z_string_def [of contract_regex] sample_account_regex stellar_address_sample a b
        z_array_def max_collaborators_def field_def arr_of_def num_of_def)
  then obtain d where d: "initialize_schema (\<lambda>_. True) sample_initialize = Some d" by blast
  from initialize_schema_sound [OF d] show ?thesis using d by auto
qed

text \<open>Whatever the query says, an accepted page asks for between one and the maximal number of rows
  and never starts before the first row; a parameter that is not a number is refused with 400.\<close>

theorem parse_pagination_bounds:
  assumes "1 \<le> max_limit"
  shows "case parse_pagination l n default_limit max_limit of
      Inr (a, b) \<Rightarrow> 1 \<le> a \<and> a \<le> max_limit \<and> 0 \<le> b
    | Inl r \<Rightarrow> rstatus r = 400 \<and> {l, n} \<inter> {q. q \<noteq> None \<and> query_int q = None} \<noteq> {}"
  using assms by (auto simp: parse_pagination_def bad_query_def send_error_def)

theorem parse_pagination_bounds_witness:
  "case parse_pagination (Some ''0x1F'') (Some ''-7'') 50 100 of
     Inr (a, b) \<Rightarrow> 1 \<le> a \<and> a \<le> 100 \<and> 0 \<le> b
   | Inl r \<Rightarrow> rstatus r = 400 \<and> {Some ''0x1F'', Some ''-7''} \<inter> {q. q \<noteq> None \<and> query_int q = None} \<noteq> {}"
  by (rule parse_pagination_bounds) simp

lemma encoded_cursor:
  assumes "ts \<noteq> []" "i \<noteq> 0" and "qlimit = None \<or> query_int qlimit \<noteq> None"
  shows "parse_cursor_pagination qlimit (Some (encode_cursor (JStr ts) (JNum i))) default_limit max_limit =
    Inr (min (max (int_or qlimit default_limit) 1) max_limit, Some (VStr ts, VNum (Finite (of_int i))))"
    and "encode_cursor (JStr ts) (JNum i) \<noteq> []"
proof -
  let ?j = "JObj [(''timestamp'', JStr ts), (''id'', JNum i)]"
  have "json_stringify ?j \<noteq> []" by simp
  then show ne: "encode_cursor (JStr ts) (JNum i) \<noteq> []"
    unfolding encode_cursor_def by (metis b64_decode_encode b64_decode_encode [of "[]"] b64_encode_def
        b64_groups.simps(1) list.simps(8))
  moreover have "json_parse (json_stringify ?j) = Some (to_value ?j)"
    by (rule json_parse_stringify_all) simp
  ultimately show "parse_cursor_pagination qlimit (Some (encode_cursor (JStr ts) (JNum i))) default_limit max_limit =
    Inr (min (max (int_or qlimit default_limit) 1) max_limit, Some (VStr ts, VNum (Finite (of_int i))))"
    using assms by (auto simp: parse_cursor_pagination_def encode_cursor_def b64_decode_encode field_def
        prop_of_def value_truthy_def del: json_stringify.simps)
qed

text \<open>The cursor of a page, sent back by the client, is read as the timestamp and id it was built
  from.\<close>

theorem cursor_round_trip:
  assumes "ts \<noteq> []" "i \<noteq> 0" and "qlimit = None"
  shows "parse_cursor_pagination qlimit (Some (encode_cursor (JStr ts) (JNum i))) default_limit max_limit =
    Inr (min (max default_limit 1) max_limit, Some (VStr ts, VNum (Finite (of_int i))))"
  using encoded_cursor(1) [OF assms(1,2), of qlimit default_limit max_limit] assms(3)
  by (simp add: int_or_def query_int_def)

theorem cursor_round_trip_witness:
  "parse_cursor_pagination None (Some (encode_cursor (JStr ''2024-05-01 00:00:00'') (JNum 42))) 50 100 =
     Inr (50, Some (VStr ''2024-05-01 00:00:00'', VNum (Finite 42)))"
  using cursor_round_trip [of "''2024-05-01 00:00:00''" 42 None 50 100] by simp

text \<open>An address with white space around it is accepted and handed on with the white space: the
  check trims, the value does not.\<close>

theorem padded_address_accepted:
  assumes "trim a = a" "account_regex a" "strkey a" "list_all is_space sp"
  shows "stellar_address strkey (VStr (sp @ a @ sp)) = Some (VStr (sp @ a @ sp))"
proof -
  have "a \<noteq> []" using assms(2) by (auto simp: account_regex_def strkey_shape_def)
  then have "trim (sp @ a @ sp) = trim a"
    using assms(4) by (simp add: trim_padding)
  then show ?thesis using assms
    by (simp add: stellar_address_def z_string_def is_valid_stellar_account_address_def Let_def
        normalize_stellar_account_address_def)
qed

theorem padded_address_accepted_witness:
  "stellar_address (\<lambda>_. True) (VStr ('' '' @ sample_account (CHR ''A'') @ '' '')) =
     Some (VStr ('' '' @ sample_account (CHR ''A'') @ '' ''))"
  by (rule padded_address_accepted)
    (simp_all add: sample_account_trim sample_account_regex base32_char_def is_upper_def is_space_def)

text \<open>An accepted amount is positive, and finite when it is a number; but a number need not be an
  integer, although the amount of a distribution is one.\<close>

theorem amount_schema_accepts:
  "amount_schema v \<noteq> None \<longleftrightarrow> (\<exists>q > 0. v = VNum (Finite q)) \<or> (\<exists>s. v = VStr s \<and> positive_numeral s)"
  by (auto simp: amount_schema_def z_union_def z_number_def z_string_def is_finite_number_def is_positive_def
      split: js_value.splits js_number.splits option.splits if_splits)

lemma fractional_amount_accepted: "amount_schema (VNum (Finite (3 / 2))) = Some (VNum (Finite (3 / 2)))"
  by (simp add: amount_schema_def z_union_def z_number_def is_finite_number_def is_positive_def)

end
