(* ===== verification/Routes.thy ===== *)
theory Routes
  imports Database Validation
begin

text \<open>
  What the route modules share: the success and page responses, handing an error to the central
  handler, and the bearer token that guards the admin routes of \<open>routes/disputes.js\<close> and
  \<open>routes/referrals.js\<close>.
\<close>

definition opt_json :: "string option \<Rightarrow> json" where
  "opt_json s = (case s of None \<Rightarrow> JNull | Some x \<Rightarrow> JStr x)"

definition data_response :: "nat \<Rightarrow> json \<Rightarrow> response" where
  "data_response s d = \<lparr>rstatus = s, rbody = JObj [(''success'', JBool True), (''data'', d)]\<rparr>"

definition page_response :: "json list \<Rightarrow> nat \<Rightarrow> int \<Rightarrow> int \<Rightarrow> response" where
  "page_response items tot l n = \<lparr>rstatus = 200, rbody = JObj
     [(''success'', JBool True), (''data'', JArr items),
      (''pagination'', JObj [(''total'', JNum (int tot)), (''limit'', JNum l), (''offset'', JNum n)])]\<rparr>"

text \<open>\<open>next(err)\<close> hands the error to the central handler.\<close>

definition thrown_of :: "js_error \<Rightarrow> thrown" where
  "thrown_of e = \<lparr>err_type = None, err_status = (case e of HttpError s _ _ \<Rightarrow> s | _ \<Rightarrow> 0),
     err_code = (case e of HttpError _ c _ \<Rightarrow> c | _ \<Rightarrow> None), err_message = Some (error_message e),
     err_detail = None, err_stack = []\<rparr>"

definition or_next :: "('t, response) db_op \<Rightarrow> 't db \<Rightarrow> response \<times> 't db" where
  "or_next m d = (case m d of (Inl e, d') \<Rightarrow> (error_handler (thrown_of e), d') | (Inr r, d') \<Rightarrow> (r, d'))"

definition bearer_token :: "string option \<Rightarrow> string option" where
  "bearer_token h =
     (case h of
        None \<Rightarrow> None
      | Some s \<Rightarrow> if starts_with s ''Bearer '' then Some (trim (drop 7 s)) else None)"

definition require_admin_token :: "string option \<Rightarrow> string option \<Rightarrow> response option" where
  "require_admin_token env h =
     (if \<not> truthy env
      then Some (send_error 503 (Some ''service_unavailable'') ''Admin operations are not configured on this server'' [])
      else if \<not> truthy (bearer_token h) \<or> bearer_token h \<noteq> env
      then Some (send_error 401 (Some ''unauthorized'') ''Unauthorized'' [])
      else None)"

definition str_of :: "js_value \<Rightarrow> string option" where
  "str_of v = (case v of VStr s \<Rightarrow> Some s | _ \<Rightarrow> None)"

lemma require_admin_token_passes:
  "require_admin_token env h = None \<longleftrightarrow> (\<exists>s t. env = Some t \<and> t \<noteq> [] \<and> h = Some s
     \<and> starts_with s ''Bearer '' \<and> trim (drop 7 s) = t)"
  by (auto simp: require_admin_token_def bearer_token_def truthy_iff split: option.splits if_splits)

end
