(* ===== verification/Disputes.thy ===== *)
theory Disputes
  imports Routes
begin

text \<open>
  \<open>src/backend/src/database/disputes.js\<close> and \<open>routes/disputes.js\<close>: dispute tickets with their comment
  threads.  The tables are created nowhere in the repository; the status of a new row is the \<open>open\<close>
  that \<open>createDispute\<close> reports.  Ticket ids are random, so the new id is an argument.  A route is
  modelled from the parsed body on, with the e-mails it sends; the address book (\<open>getSubscriberByWallet\<close>)
  and whether mail is configured are parameters.
\<close>

record dispute_row =
  di_ticket :: string
  di_wallet :: string
  di_contract :: "string option"
  di_category :: string
  di_description :: string
  di_status :: string
  di_note :: "string option"
  di_created :: string
  di_updated :: string

record comment_row =
  co_dispute :: nat
  co_author :: string
  co_message :: string
  co_created :: string

record dispute_store =
  disputes :: "dispute_row table"
  comments :: "comment_row table"

type_synonym 'a dispute_op = "(dispute_store, 'a) db_op"

type_synonym dispute_view = "(nat \<times> dispute_row) \<times> (nat \<times> comment_row) list"

section \<open>database/disputes.js\<close>

definition get_dispute_comments :: "nat \<Rightarrow> (nat \<times> comment_row) list dispute_op" where
  "get_dispute_comments i = op_read (\<lambda>t.
     order_asc (\<lambda>x. co_created (snd x)) (t_select (\<lambda>x. co_dispute (snd x) = i) (comments t)))"

definition with_comments :: "(nat \<times> dispute_row) option \<Rightarrow> dispute_view option dispute_op" where
  "with_comments row =
     (case row of
        None \<Rightarrow> op_return None
      | Some x \<Rightarrow> op_bind (get_dispute_comments (fst x)) (\<lambda>cs. op_return (Some (x, cs))))"

definition create_dispute ::
  "string \<Rightarrow> string \<Rightarrow> string option \<Rightarrow> string \<Rightarrow> string \<Rightarrow> int \<Rightarrow> dispute_view dispute_op" where
  "create_dispute ticket wallet contract category description now =
     counted_write (\<lambda>t.
       let r = \<lparr>di_ticket = ticket, di_wallet = wallet, di_contract = contract, di_category = category,
                 di_description = description, di_status = ''open'', di_note = None,
                 di_created = to_iso now, di_updated = to_iso now\<rparr>;
           (i, ds) = t_insert r (disputes t)
       in (((i, r), []), t\<lparr>disputes := ds\<rparr>))"

definition get_dispute_by_ticket_id :: "string \<Rightarrow> dispute_view option dispute_op" where
  "get_dispute_by_ticket_id ticket =
     op_bind (op_read (\<lambda>t. t_get (\<lambda>x. di_ticket (snd x) = ticket) (disputes t))) with_comments"

definition get_disputes_by_wallet :: "string \<Rightarrow> int \<Rightarrow> int \<Rightarrow> (nat \<times> dispute_row) list dispute_op" where
  "get_disputes_by_wallet wallet l n = op_read (\<lambda>t.
     limit_offset l n (order_desc (\<lambda>x. di_created (snd x))
       (t_select (\<lambda>x. di_wallet (snd x) = wallet) (disputes t))))"

definition count_disputes_by_wallet :: "string \<Rightarrow> nat dispute_op" where
  "count_disputes_by_wallet wallet = op_read (\<lambda>t. t_count (\<lambda>x. di_wallet (snd x) = wallet) (disputes t))"

definition status_filter :: "string option \<Rightarrow> nat \<times> dispute_row \<Rightarrow> bool" where
  "status_filter s x \<longleftrightarrow> (if truthy s then di_status (snd x) = the s else True)"

definition get_all_disputes :: "string option \<Rightarrow> int \<Rightarrow> int \<Rightarrow> (nat \<times> dispute_row) list dispute_op" where
  "get_all_disputes s l n = op_read (\<lambda>t.
     limit_offset l n (order_desc (\<lambda>x. di_created (snd x)) (t_select (status_filter s) (disputes t))))"

definition count_all_disputes :: "string option \<Rightarrow> nat dispute_op" where
  "count_all_disputes s = op_read (\<lambda>t. t_count (status_filter s) (disputes t))"

definition set_dispute_status :: "string \<Rightarrow> string option \<Rightarrow> int \<Rightarrow> dispute_row \<Rightarrow> dispute_row" where
  "set_dispute_status s note now r =
     (case note of
        None \<Rightarrow> r\<lparr>di_status := s, di_updated := to_iso now\<rparr>
      | Some n \<Rightarrow> r\<lparr>di_status := s, di_note := Some n, di_updated := to_iso now\<rparr>)"

text \<open>Nothing is counted when no row changes.\<close>

definition update_dispute_status ::
  "nat \<Rightarrow> string \<Rightarrow> string option \<Rightarrow> int \<Rightarrow> dispute_view option dispute_op" where
  "update_dispute_status i s note now =
     op_bind (op_write (\<lambda>t. (t_count (by_id i) (disputes t),
                t\<lparr>disputes := t_update (by_id i) (set_dispute_status s note now) (disputes t)\<rparr>)))
       (\<lambda>changes. if changes = 0 then op_return None
         else op_bind count_write (\<lambda>_.
                op_bind (op_read (\<lambda>t. t_get (by_id i) (disputes t))) with_comments))"

definition add_dispute_comment :: "nat \<Rightarrow> string \<Rightarrow> string \<Rightarrow> int \<Rightarrow> (nat \<times> comment_row) dispute_op" where
  "add_dispute_comment i author message now =
     counted_write (\<lambda>t.
       let r = \<lparr>co_dispute = i, co_author = author, co_message = message, co_created = to_iso now\<rparr>;
           (j, cs) = t_insert r (comments t)
       in ((j, r), t\<lparr>comments := cs\<rparr>))"

section \<open>routes/disputes.js\<close>

definition comment_json :: "nat \<times> comment_row \<Rightarrow> json" where
  "comment_json c = JObj
     [(''id'', JNum (int (fst c))), (''disputeId'', JNum (int (co_dispute (snd c)))),
      (''author'', JStr (co_author (snd c))), (''message'', JStr (co_message (snd c))),
      (''createdAt'', JStr (co_created (snd c)))]"

definition dispute_fields :: "nat \<times> dispute_row \<Rightarrow> (string \<times> json) list" where
  "dispute_fields x =
     [(''id'', JNum (int (fst x))), (''ticketId'', JStr (di_ticket (snd x))),
      (''walletAddress'', JStr (di_wallet (snd x))), (''contractId'', opt_json (di_contract (snd x))),
      (''category'', JStr (di_category (snd x))), (''description'', JStr (di_description (snd x))),
      (''status'', JStr (di_status (snd x))), (''adminNote'', opt_json (di_note (snd x))),
      (''createdAt'', JStr (di_created (snd x))), (''updatedAt'', JStr (di_updated (snd x)))]"

definition dispute_json :: "dispute_view option \<Rightarrow> json" where
  "dispute_json v =
     (case v of
        None \<Rightarrow> JNull
      | Some (x, cs) \<Rightarrow> JObj (dispute_fields x @ [(''comments'', JArr (map comment_json cs))]))"

definition dispute_not_found :: "string \<Rightarrow> response" where
  "dispute_not_found ticket =
     send_error 404 (Some ''dispute_not_found'') (''No dispute found with ticket ID '' @ ticket) []"

record dispute_mail =
  dm_to :: string
  dm_ticket :: string
  dm_status :: string
  dm_note :: "string option"
  dm_comment :: "string option"

definition notify_contributor :: "bool \<Rightarrow> string option \<Rightarrow> (string \<Rightarrow> dispute_mail) \<Rightarrow> dispute_mail list" where
  "notify_contributor configured to mail =
     (if \<not> truthy to \<or> \<not> configured then [] else [mail (the to)])"

text \<open>The parsed body of a submission has no \<open>email\<close>: the schema drops it.\<close>

definition submit_dispute ::
  "bool \<Rightarrow> js_value \<Rightarrow> string \<Rightarrow> int \<Rightarrow> dispute_store db \<Rightarrow> (response \<times> dispute_mail list) \<times> dispute_store db" where
  "submit_dispute configured b ticket now d =
     (case create_dispute ticket (the (str_of (field ''walletAddress'' b))) (str_of (field ''contractId'' b))
             (the (str_of (field ''category'' b))) (the (str_of (field ''description'' b))) now d of
        (Inl e, d') \<Rightarrow> ((error_handler (thrown_of e), []), d')
      | (Inr v, d') \<Rightarrow>
          ((data_response 201 (dispute_json (Some v)),
            notify_contributor configured (str_of (field ''email'' b))
              (\<lambda>to. \<lparr>dm_to = to, dm_ticket = ticket, dm_status = ''open'', dm_note = None, dm_comment = None\<rparr>)), d'))"

definition list_disputes_route ::
  "string option \<Rightarrow> string option \<Rightarrow> string option \<Rightarrow> dispute_store db \<Rightarrow> response \<times> dispute_store db" where
  "list_disputes_route wallet qlimit qoffset d =
     (if \<not> truthy wallet
      then (send_error 400 (Some ''missing_wallet_address'') ''walletAddress query parameter is required'' [], d)
      else if \<not> account_regex (the wallet)
      then (send_error 400 (Some ''invalid_stellar_address'') ''Invalid Stellar address format'' [], d)
      else case parse_pagination qlimit qoffset 50 100 of
             Inl r \<Rightarrow> (r, d)
           | Inr (l, n) \<Rightarrow>
               or_next (op_bind (get_disputes_by_wallet (the wallet) l n) (\<lambda>items.
                 op_bind (count_disputes_by_wallet (the wallet)) (\<lambda>tot.
                 op_return (page_response (map (\<lambda>x. JObj (dispute_fields x)) items) tot l n)))) d)"

definition admin_list_disputes_route ::
  "string option \<Rightarrow> string option \<Rightarrow> string option \<Rightarrow> dispute_store db \<Rightarrow> response \<times> dispute_store db" where
  "admin_list_disputes_route s qlimit qoffset d =
     (if truthy s \<and> the s \<notin> set dispute_statuses
      then (send_error 400 (Some ''invalid_status'')
              ''status must be one of: open, under_review, resolved, closed'' [], d)
      else case parse_pagination qlimit qoffset 50 100 of
             Inl r \<Rightarrow> (r, d)
           | Inr (l, n) \<Rightarrow>
               or_next (op_bind (get_all_disputes s l n) (\<lambda>items.
                 op_bind (count_all_disputes s) (\<lambda>tot.
                 op_return (page_response (map (\<lambda>x. JObj (dispute_fields x)) items) tot l n)))) d)"

definition review_dispute ::
  "(string \<Rightarrow> string option) \<Rightarrow> bool \<Rightarrow> string \<Rightarrow> string \<Rightarrow> string option \<Rightarrow> int \<Rightarrow> dispute_store db
    \<Rightarrow> (response \<times> dispute_mail list) \<times> dispute_store db" where
  "review_dispute email_of configured ticket s note now d =
     (case get_dispute_by_ticket_id ticket d of
        (Inl e, d1) \<Rightarrow> ((error_handler (thrown_of e), []), d1)
      | (Inr None, d1) \<Rightarrow> ((dispute_not_found ticket, []), d1)
      | (Inr (Some (x, _)), d1) \<Rightarrow>
          (case update_dispute_status (fst x) s note now d1 of
             (Inl e, d2) \<Rightarrow> ((error_handler (thrown_of e), []), d2)
           | (Inr v, d2) \<Rightarrow>
               ((data_response 200 (dispute_json v),
                 notify_contributor configured (email_of (di_wallet (snd x)))
                   (\<lambda>to. \<lparr>dm_to = to, dm_ticket = ticket, dm_status = s, dm_note = note, dm_comment = None\<rparr>)), d2)))"

definition admin_comment ::
  "(string \<Rightarrow> string option) \<Rightarrow> bool \<Rightarrow> string \<Rightarrow> string \<Rightarrow> int \<Rightarrow> dispute_store db
    \<Rightarrow> (response \<times> dispute_mail list) \<times> dispute_store db" where
  "admin_comment email_of configured ticket message now d =
     (case get_dispute_by_ticket_id ticket d of
        (Inl e, d1) \<Rightarrow> ((error_handler (thrown_of e), []), d1)
      | (Inr None, d1) \<Rightarrow> ((dispute_not_found ticket, []), d1)
      | (Inr (Some (x, _)), d1) \<Rightarrow>
          (case add_dispute_comment (fst x) ''admin'' message now d1 of
             (Inl e, d2) \<Rightarrow> ((error_handler (thrown_of e), []), d2)
           | (Inr c, d2) \<Rightarrow>
               ((data_response 201 (comment_json c),
                 notify_contributor configured (email_of (di_wallet (snd x)))
                   (\<lambda>to. \<lparr>dm_to = to, dm_ticket = ticket, dm_status = di_status (snd x), dm_note = None,
                          dm_comment = Some message\<rparr>)), d2)))"

definition get_dispute_route :: "string \<Rightarrow> dispute_store db \<Rightarrow> response \<times> dispute_store db" where
  "get_dispute_route ticket =
     or_next (op_bind (get_dispute_by_ticket_id ticket) (\<lambda>v.
       op_return (if v = None then dispute_not_found ticket else data_response 200 (dispute_json v))))"

definition contributor_comment ::
  "string \<Rightarrow> string \<Rightarrow> string \<Rightarrow> int \<Rightarrow> dispute_store db \<Rightarrow> response \<times> dispute_store db" where
  "contributor_comment ticket wallet message now =
     or_next (op_bind (get_dispute_by_ticket_id ticket) (\<lambda>v.
       case v of
         None \<Rightarrow> op_return (dispute_not_found ticket)
       | Some (x, _) \<Rightarrow>
           if di_wallet (snd x) \<noteq> wallet
           then op_return (send_error 403 (Some ''forbidden'')
                  ''You do not have permission to comment on this dispute'' [])
           else if di_status (snd x) = ''closed'' \<or> di_status (snd x) = ''resolved''
           then op_return (send_error 409 (Some ''dispute_closed'')
                  ''Cannot add comments to a resolved or closed dispute'' [])
           else op_bind (add_dispute_comment (fst x) ''contributor'' message now)
                  (\<lambda>c. op_return (data_response 201 (comment_json c)))))"

section \<open>The tickets\<close>

text \<open>Abstractly the desk maps a ticket id to its owner, status, note and thread of messages.\<close>

record ticket =
  tk_owner :: string
  tk_status :: string
  tk_note :: "string option"
  tk_thread :: "(string \<times> string) list"

type_synonym desk = "string \<Rightarrow> ticket option"

datatype command =
    Submit string string "string option" string string
  | Comment string string string
  | Review string string "string option"
  | AdminComment string string

text \<open>What a command does to the desk, with the HTTP status it is answered with.\<close>

definition thread_add :: "string \<Rightarrow> string \<Rightarrow> ticket \<Rightarrow> ticket" where
  "thread_add author m k = k\<lparr>tk_thread := tk_thread k @ [(author, m)]\<rparr>"

fun desk_step :: "command \<Rightarrow> desk \<Rightarrow> nat \<times> desk" where
  "desk_step (Submit x w c cat desc) D =
     (201, D(x \<mapsto> \<lparr>tk_owner = w, tk_status = ''open'', tk_note = None, tk_thread = []\<rparr>))"
| "desk_step (Comment x w m) D =
     (case D x of
        None \<Rightarrow> (404, D)
      | Some k \<Rightarrow>
          if tk_owner k \<noteq> w then (403, D)
          else if tk_status k \<in> {''closed'', ''resolved''} then (409, D)
          else (201, D(x \<mapsto> thread_add ''contributor'' m k)))"
| "desk_step (Review x s n) D =
     (case D x of
        None \<Rightarrow> (404, D)
      | Some k \<Rightarrow> (200, D(x \<mapsto> k\<lparr>tk_status := s, tk_note := if n = None then tk_note k else n\<rparr>)))"
| "desk_step (AdminComment x m) D =
     (case D x of None \<Rightarrow> (404, D) | Some k \<Rightarrow> (201, D(x \<mapsto> thread_add ''admin'' m k)))"

text \<open>The same command through the routes.\<close>

definition submit_body :: "string \<Rightarrow> string option \<Rightarrow> string \<Rightarrow> string \<Rightarrow> js_value" where
  "submit_body w c cat desc = VObj
     ([(''walletAddress'', VStr w), (''category'', VStr cat), (''description'', VStr desc)] @
      (case c of None \<Rightarrow> [] | Some x \<Rightarrow> [(''contractId'', VStr x)]))"

fun run_command ::
  "(string \<Rightarrow> string option) \<Rightarrow> bool \<Rightarrow> int \<Rightarrow> command \<Rightarrow> dispute_store db \<Rightarrow> response \<times> dispute_store db" where
  "run_command em cfg now (Submit x w c cat desc) d =
     (case submit_dispute cfg (submit_body w c cat desc) x now d of ((r, _), d') \<Rightarrow> (r, d'))"
| "run_command em cfg now (Comment x w m) d = contributor_comment x w m now d"
| "run_command em cfg now (Review x s n) d =
     (case review_dispute em cfg x s n now d of ((r, _), d') \<Rightarrow> (r, d'))"
| "run_command em cfg now (AdminComment x m) d =
     (case admin_comment em cfg x m now d of ((r, _), d') \<Rightarrow> (r, d'))"

definition thread_of :: "dispute_store \<Rightarrow> nat \<Rightarrow> (string \<times> string) list" where
  "thread_of t i = map (\<lambda>c. (co_author (snd c), co_message (snd c)))
     (t_select (\<lambda>x. co_dispute (snd x) = i) (comments t))"

definition ticket_of :: "dispute_store \<Rightarrow> nat \<times> dispute_row \<Rightarrow> ticket" where
  "ticket_of t x = \<lparr>tk_owner = di_wallet (snd x), tk_status = di_status (snd x), tk_note = di_note (snd x),
     tk_thread = thread_of t (fst x)\<rparr>"

definition by_ticket :: "string \<Rightarrow> nat \<times> dispute_row \<Rightarrow> bool" where
  "by_ticket k = (\<lambda>x. di_ticket (snd x) = k)"

definition desk_of :: "dispute_store \<Rightarrow> desk" where
  "desk_of t k = map_option (ticket_of t) (t_get (by_ticket k) (disputes t))"

text \<open>Rows have distinct ids, tickets distinct names, and a comment belongs to an id already given out.\<close>

definition disputes_ok :: "dispute_store \<Rightarrow> bool" where
  "disputes_ok t \<longleftrightarrow> t_ok (disputes t) \<and> distinct (map (\<lambda>x. di_ticket (snd x)) (trows (disputes t)))
     \<and> (\<forall>c \<in> set (trows (comments t)). co_dispute (snd c) \<le> tseq (disputes t))"

lemma get_by_ticket:
  "get_dispute_by_ticket_id k d =
     (Inr (map_option (\<lambda>x. (x, order_asc (\<lambda>x. co_created (snd x))
        (t_select (\<lambda>c. co_dispute (snd c) = fst x) (comments (tables d)))))
        (t_get (by_ticket k) (disputes (tables d)))), d)"
  by (simp add: get_dispute_by_ticket_id_def with_comments_def get_dispute_comments_def op_simps by_ticket_def
      split: option.split)

lemma ticket_ids_differ:
  assumes "disputes_ok t" "t_get (by_ticket k) (disputes t) = Some x" "t_get (by_ticket k') (disputes t) = Some y"
    and "k \<noteq> k'"
  shows "fst x \<noteq> fst y"
proof
  assume eq: "fst x = fst y"
  obtain i r s where x: "x = (i, r)" and y: "y = (i, s)" using eq by (cases x; cases y) auto
  have "(i, r) \<in> set (trows (disputes t))" "di_ticket r = k" "(i, s) \<in> set (trows (disputes t))" "di_ticket s = k'"
    using t_get_Some [OF assms(2)] t_get_Some [OF assms(3)] by (simp_all add: x y by_ticket_def)
  moreover have "t_ok (disputes t)" using assms(1) by (simp add: disputes_ok_def)
  ultimately have "r = s" by (intro tb.row_unique)
  then show False using assms(4) \<open>di_ticket r = k\<close> \<open>di_ticket s = k'\<close> by simp
qed

text \<open>Appending a comment to one dispute changes the thread of its ticket only.\<close>

lemma desk_comment:
  assumes "disputes_ok t" "t_get (by_ticket k) (disputes t) = Some x" "co_dispute c = fst x"
  shows "desk_of (t\<lparr>comments := snd (t_insert c (comments t))\<rparr>) =
    (desk_of t)(k \<mapsto> thread_add (co_author c) (co_message c) (ticket_of t x))"
proof
  fix k'
  have "thread_of (t\<lparr>comments := snd (t_insert c (comments t))\<rparr>) i =
      thread_of t i @ (if i = fst x then [(co_author c, co_message c)] else [])" for i
    using assms(3) by (simp add: thread_of_def t_select_insert)
  then show "desk_of (t\<lparr>comments := snd (t_insert c (comments t))\<rparr>) k' =
      ((desk_of t)(k \<mapsto> thread_add (co_author c) (co_message c) (ticket_of t x))) k'"
    using ticket_ids_differ [OF assms(1,2), of k'] assms(2)
    by (cases "k = k'"; cases "t_get (by_ticket k') (disputes t)")
      (auto simp: desk_of_def ticket_of_def thread_add_def)
qed

lemma set_dispute_status_ticket [simp]: "di_ticket (set_dispute_status s n now r) = di_ticket r"
  by (simp add: set_dispute_status_def split: option.split)

lemma desk_review:
  assumes "disputes_ok t" "t_get (by_ticket k) (disputes t) = Some x"
  shows "desk_of (t\<lparr>disputes := t_update (by_id (fst x)) (set_dispute_status s n now) (disputes t)\<rparr>) =
    (desk_of t)(k \<mapsto> (ticket_of t x)\<lparr>tk_status := s, tk_note := if n = None then di_note (snd x) else n\<rparr>)"
proof
  fix k'
  have st: "t_get (by_ticket k') (t_update Q (set_dispute_status s n now) (disputes t)) =
      map_option (\<lambda>x. if Q x then (fst x, set_dispute_status s n now (snd x)) else x)
        (t_get (by_ticket k') (disputes t))" for k' Q
    by (rule t_get_update_stable) (simp add: by_ticket_def)
  show "desk_of (t\<lparr>disputes := t_update (by_id (fst x)) (set_dispute_status s n now) (disputes t)\<rparr>) k' =
      ((desk_of t)(k \<mapsto> (ticket_of t x)\<lparr>tk_status := s, tk_note := if n = None then di_note (snd x) else n\<rparr>)) k'"
    using ticket_ids_differ [OF assms, of k'] assms(2)
    using st [of k']
    by (cases "k = k'"; cases "t_get (by_ticket k') (disputes t)")
      (auto simp: desk_of_def by_id_def ticket_of_def thread_of_def set_dispute_status_def split: option.split)
qed

lemma desk_submit:
  assumes "disputes_ok t" "desk_of t (di_ticket r) = None"
  shows "desk_of (t\<lparr>disputes := snd (t_insert r (disputes t))\<rparr>) =
    (desk_of t)(di_ticket r \<mapsto> \<lparr>tk_owner = di_wallet r, tk_status = di_status r, tk_note = di_note r, tk_thread = []\<rparr>)"
proof
  fix k'
  have "t_select (\<lambda>c. co_dispute (snd c) = Suc (tseq (disputes t))) (comments t) = []"
    using assms(1) by (auto simp: disputes_ok_def t_select_def filter_empty_conv)
  moreover have "fst (t_insert r (disputes t)) = Suc (tseq (disputes t))" by (simp add: t_insert_def)
  ultimately show "desk_of (t\<lparr>disputes := snd (t_insert r (disputes t))\<rparr>) k' =
      ((desk_of t)(di_ticket r \<mapsto> \<lparr>tk_owner = di_wallet r, tk_status = di_status r, tk_note = di_note r, tk_thread = []\<rparr>)) k'"
    using assms(2) by (cases "t_get (by_ticket k') (disputes t)")
      (auto simp: desk_of_def t_get_insert by_ticket_def ticket_of_def thread_of_def)
qed

lemma disputes_ok_comment:
  assumes "disputes_ok t" "t_get (by_ticket k) (disputes t) = Some x" "co_dispute c = fst x"
  shows "disputes_ok (t\<lparr>comments := snd (t_insert c (comments t))\<rparr>)"
proof -
  have "x \<in> set (trows (disputes t))" using t_get_Some [OF assms(2)] by blast
  then have "fst x \<le> tseq (disputes t)" using assms(1) by (auto simp: disputes_ok_def t_ok_def)
  then show ?thesis using assms by (auto simp: disputes_ok_def t_insert_def)
qed

lemma disputes_ok_submit:
  assumes "disputes_ok t" "t_get (by_ticket (di_ticket r)) (disputes t) = None"
  shows "disputes_ok (t\<lparr>disputes := snd (t_insert r (disputes t))\<rparr>)"
proof -
  have "di_ticket r \<notin> (\<lambda>x. di_ticket (snd x)) ` set (trows (disputes t))"
    using assms(2) by (auto simp: t_get_None by_ticket_def)
  moreover have "t_ok (snd (t_insert r (disputes t)))" using assms(1) by (auto simp: disputes_ok_def intro: tb.ok_ins)
  ultimately show ?thesis using assms(1) by (auto simp: disputes_ok_def t_insert_def intro: le_SucI)
qed

lemma disputes_ok_review:
  assumes "disputes_ok t"
  shows "disputes_ok (t\<lparr>disputes := t_update Q (set_dispute_status s n now) (disputes t)\<rparr>)"
proof -
  have "map (\<lambda>x. di_ticket (snd x)) (trows (t_update Q (set_dispute_status s n now) (disputes t))) =
      map (\<lambda>x. di_ticket (snd x)) (trows (disputes t))"
    by (simp add: t_update_def)
  moreover have "t_ok (t_update Q (set_dispute_status s n now) (disputes t))"
    using assms by (auto simp: disputes_ok_def intro: tb.ok_upd)
  moreover have "tseq (t_update Q f u) = tseq u" for Q f and u :: "dispute_row table"
    by (simp add: t_update_def)
  ultimately show ?thesis using assms by (simp add: disputes_ok_def)
qed

lemma create_counted:
  assumes "counting d"
  shows "create_dispute x w c cat desc now d =
    (let r = \<lparr>di_ticket = x, di_wallet = w, di_contract = c, di_category = cat, di_description = desc,
               di_status = ''open'', di_note = None, di_created = to_iso now, di_updated = to_iso now\<rparr>
     in (Inr ((fst (t_insert r (disputes (tables d))), r), []),
         (bump d)\<lparr>tables := (tables d)\<lparr>disputes := snd (t_insert r (disputes (tables d)))\<rparr>\<rparr>))"
  using assms by (simp add: create_dispute_def counted_write_ok Let_def split: prod.split)

lemma add_comment_counted:
  assumes "counting d"
  shows "add_dispute_comment i a m now d =
    (let c = \<lparr>co_dispute = i, co_author = a, co_message = m, co_created = to_iso now\<rparr>
     in (Inr (fst (t_insert c (comments (tables d))), c),
         (bump d)\<lparr>tables := (tables d)\<lparr>comments := snd (t_insert c (comments (tables d)))\<rparr>\<rparr>))"
  using assms by (simp add: add_dispute_comment_def counted_write_ok Let_def split: prod.split)

lemma update_status_counted:
  assumes "counting d" "t_get (by_ticket k) (disputes (tables d)) = Some x"
  shows "\<exists>v. update_dispute_status (fst x) s n now d =
    (Inr v, (bump d)\<lparr>tables := (tables d)\<lparr>disputes :=
       t_update (by_id (fst x)) (set_dispute_status s n now) (disputes (tables d))\<rparr>\<rparr>)"
proof -
  have "x \<in> set (trows (disputes (tables d)))" using t_get_Some [OF assms(2)] by blast
  then have "t_count (by_id (fst x)) (disputes (tables d)) \<noteq> 0"
    by (auto simp: t_count_def filter_empty_conv by_id_def)
  then show ?thesis using assms(1)
    by (simp add: update_dispute_status_def op_simps count_write_ok with_comments_def get_dispute_comments_def
        split: option.split)
qed

text \<open>A command that opens a ticket brings a new name for it.\<close>

fun fresh_command :: "command \<Rightarrow> desk \<Rightarrow> bool" where
  "fresh_command (Submit x w c cat desc) D = (D x = None)"
| "fresh_command _ D = True"

text \<open>The outcome of a route is the step of the desk, and the tables stay well-formed.\<close>

definition simulates :: "command \<Rightarrow> dispute_store db \<Rightarrow> response \<times> dispute_store db \<Rightarrow> bool" where
  "simulates cmd d res \<longleftrightarrow> desk_step cmd (desk_of (tables d)) = (rstatus (fst res), desk_of (tables (snd res)))
     \<and> disputes_ok (tables (snd res)) \<and> counting (snd res)"

lemmas unknown_ticket_simps = get_by_ticket op_bind_def or_next_def op_return_def dispute_not_found_def
  send_error_def desk_of_def simulates_def

lemma submit_simulates:
  assumes "disputes_ok (tables d)" "counting d" "desk_of (tables d) x = None"
  shows "simulates (Submit x w c cat desc) d (run_command em cfg now (Submit x w c cat desc) d)"
proof -
  have f: "str_of (field ''walletAddress'' (submit_body w c cat desc)) = Some w"
    "str_of (field ''category'' (submit_body w c cat desc)) = Some cat"
    "str_of (field ''description'' (submit_body w c cat desc)) = Some desc"
    by (simp_all add: submit_body_def field_def prop_of_def str_of_def)
  let ?row = "\<lparr>di_ticket = x, di_wallet = w, di_contract = str_of (field ''contractId'' (submit_body w c cat desc)),
    di_category = cat, di_description = desc, di_status = ''open'', di_note = None,
    di_created = to_iso now, di_updated = to_iso now\<rparr>"
  have "t_get (by_ticket x) (disputes (tables d)) = None" using assms(3) by (simp add: desk_of_def)
  then show ?thesis
    using assms(2,3) desk_submit [OF assms(1), of ?row] disputes_ok_submit [OF assms(1), of ?row]
    by (simp add: simulates_def submit_dispute_def create_counted f data_response_def Let_def)
qed

lemma comment_simulates:
  assumes "disputes_ok (tables d)" "counting d"
  shows "simulates (Comment x w m) d (run_command em cfg now (Comment x w m) d)"
proof (cases "t_get (by_ticket x) (disputes (tables d))")
  case None
  then show ?thesis using assms by (simp add: contributor_comment_def unknown_ticket_simps)
next
  case (Some y)
  then have D: "desk_of (tables d) x = Some (ticket_of (tables d) y)" by (simp add: desk_of_def)
  have t: "tk_owner (ticket_of (tables d) y) = di_wallet (snd y)"
    "tk_status (ticket_of (tables d) y) = di_status (snd y)" by (simp_all add: ticket_of_def)
  show ?thesis
    using assms desk_comment [OF assms(1) Some] disputes_ok_comment [OF assms(1) Some]
    by (auto simp: simulates_def contributor_comment_def get_by_ticket op_bind_def or_next_def op_return_def
        send_error_def Some D t add_comment_counted Let_def data_response_def)
qed

lemma review_simulates:
  assumes "disputes_ok (tables d)" "counting d"
  shows "simulates (Review x s n) d (run_command em cfg now (Review x s n) d)"
proof (cases "t_get (by_ticket x) (disputes (tables d))")
  case None
  then show ?thesis using assms by (simp add: review_dispute_def unknown_ticket_simps)
next
  case (Some y)
  then have D: "desk_of (tables d) x = Some (ticket_of (tables d) y)" by (simp add: desk_of_def)
  obtain v where "update_dispute_status (fst y) s n now d = (Inr v, (bump d)\<lparr>tables := (tables d)\<lparr>disputes :=
     t_update (by_id (fst y)) (set_dispute_status s n now) (disputes (tables d))\<rparr>\<rparr>)"
    using update_status_counted [OF assms(2) Some] by blast
  then show ?thesis
    using assms(2) desk_review [OF assms(1) Some] disputes_ok_review [OF assms(1)]
    by (auto simp: simulates_def review_dispute_def get_by_ticket Some D data_response_def ticket_of_def)
qed

lemma admin_comment_simulates:
  assumes "disputes_ok (tables d)" "counting d"
  shows "simulates (AdminComment x m) d (run_command em cfg now (AdminComment x m) d)"
proof (cases "t_get (by_ticket x) (disputes (tables d))")
  case None
  then show ?thesis using assms by (simp add: admin_comment_def unknown_ticket_simps)
next
  case (Some y)
  then have D: "desk_of (tables d) x = Some (ticket_of (tables d) y)" by (simp add: desk_of_def)
  show ?thesis
    using assms desk_comment [OF assms(1) Some] disputes_ok_comment [OF assms(1) Some]
    by (auto simp: simulates_def admin_comment_def get_by_ticket Some D add_comment_counted Let_def
        data_response_def)
qed

section \<open>Properties\<close>


definition one_dispute :: dispute_store where
  "one_dispute = \<lparr>disputes = \<lparr>tseq = 1, trows = [(1, \<lparr>di_ticket = ''DSP-1'', di_wallet = ''GA'',
     di_contract = None, di_category = ''other'', di_description = ''d'', di_status = ''closed'', di_note = None,
     di_created = ''c'', di_updated = ''c''\<rparr>)]\<rparr>, comments = t_empty\<rparr>"


text \<open>The submission of a dispute never sends the confirmation e-mail it is meant to send: the
  schema in front of the route drops the address from the body.\<close>

theorem dispute_confirmation_never_sent:
  assumes "validate (dispute_submit_schema strkey) issues b = Next b'"
  shows "snd (fst (submit_dispute configured b' ticket now d)) = []"
proof -
  have "z_object [(''walletAddress'', stellar_address strkey), (''contractId'', z_optional contract_address),
      (''category'', z_enum [''wrong_amount'', ''missing_payment'', ''other'']),
      (''description'', text_between 10 2000)] b = Some b'"
    using assms by (simp add: validate_def dispute_submit_schema_def split: option.splits)
  then have "field ''email'' b' = VUndef" by (rule z_object_other_field) simp
  then show ?thesis
    by (simp add: submit_dispute_def str_of_def notify_contributor_def split: prod.splits sum.splits)
qed

definition valid_submission :: js_value where
  "valid_submission = VObj
     [(''walletAddress'', VStr (sample_account (CHR ''A''))), (''category'', VStr ''other''),
      (''description'', VStr ''a missing payment''), (''email'', VStr ''a@b.example'')]"

theorem dispute_confirmation_never_sent_witness:
  "\<exists>b'. validate (dispute_submit_schema (\<lambda>_. True)) (\<lambda>_. []) valid_submission = Next b'
    \<and> snd (fst (submit_dispute True b' ''DSP-1'' 0 (counted_connection one_dispute))) = []"
proof -
  have "base32_char (CHR ''A'')" by (simp add: base32_char_def is_upper_def)
  then have "\<exists>b'. validate (dispute_submit_schema (\<lambda>_. True)) (\<lambda>_. []) valid_submission = Next b'"
    by (simp add: validate_def dispute_submit_schema_def z_object_def valid_submission_def prop_of_def
        stellar_address_sample z_optional_def z_enum_def z_string_def text_between_def)
  then obtain b' where b: "validate (dispute_submit_schema (\<lambda>_. True)) (\<lambda>_. []) valid_submission = Next b'" by blast
  from dispute_confirmation_never_sent [OF b] b show ?thesis by blast
qed

section \<open>The lists\<close>

interpretation wallet_list: paged_query
  "\<lambda>t. order_desc (\<lambda>x. di_created (snd x)) (t_select (\<lambda>x. di_wallet (snd x) = w) (disputes t))"
  "\<lambda>l n t. the (case fst (get_disputes_by_wallet w l n (core_connection t)) of Inr x \<Rightarrow> Some x | Inl _ \<Rightarrow> None)"
  "\<lambda>t. the (case fst (count_disputes_by_wallet w (core_connection t)) of Inr x \<Rightarrow> Some x | Inl _ \<Rightarrow> None)"
  for w
  by unfold_locales
    (simp_all add: get_disputes_by_wallet_def count_disputes_by_wallet_def op_read_def t_count_def t_select_def)

interpretation admin_list: paged_query
  "\<lambda>t. order_desc (\<lambda>x. di_created (snd x)) (t_select (status_filter s) (disputes t))"
  "\<lambda>l n t. the (case fst (get_all_disputes s l n (core_connection t)) of Inr x \<Rightarrow> Some x | Inl _ \<Rightarrow> None)"
  "\<lambda>t. the (case fst (count_all_disputes s (core_connection t)) of Inr x \<Rightarrow> Some x | Inl _ \<Rightarrow> None)"
  for s
  by unfold_locales (simp_all add: get_all_disputes_def count_all_disputes_def op_read_def t_count_def t_select_def)

text \<open>Asking for page after page until the reported total is reached gives every dispute of the
  wallet, newest first.\<close>

theorem dispute_pages_complete:
  assumes "0 < l" "count_disputes_by_wallet w d = (Inr n, d)" "int n \<le> int m * l"
  shows "concat (map (\<lambda>k. case fst (get_disputes_by_wallet w l (int k * l) d) of Inr p \<Rightarrow> p | Inl _ \<Rightarrow> []) [0..<m]) =
    order_desc (\<lambda>x. di_created (snd x)) (t_select (\<lambda>x. di_wallet (snd x) = w) (disputes (tables d)))"
  using wallet_list.pages_complete [of l w "tables d" m] assms
  by (simp add: count_disputes_by_wallet_def get_disputes_by_wallet_def op_read_def)

theorem dispute_pages_complete_witness:
  "length (concat (map (\<lambda>k. case fst (get_disputes_by_wallet ''GA'' 2 (int k * 2) (counted_connection one_dispute)) of
     Inr p \<Rightarrow> p | Inl _ \<Rightarrow> []) [0..<3])) = 1"
  by (subst dispute_pages_complete [where n = 1])
    (simp_all add: count_disputes_by_wallet_def op_read_def one_dispute_def t_count_def t_select_def)

end
