(* ===== verification/Referrals.thy ===== *)
theory Referrals
  imports Routes
begin

text \<open>
  \<open>src/backend/src/database/referrals.js\<close> and \<open>routes/referrals.js\<close>: referral links, the referrals made
  with them, and the bonuses.  The tables are created nowhere in the repository; the model has the two
  constraints the code reacts to, unique referral codes and unique referred addresses.  Random codes
  are an argument: \<open>codes k\<close> is the one drawn in attempt \<open>k\<close>.
\<close>

record link_row =
  ln_wallet :: string
  ln_code :: string
  ln_created :: string

record referral_row =
  rf_referrer :: string
  rf_referred :: string
  rf_code :: string
  rf_status :: string
  rf_created :: string
  rf_activated :: "string option"

record bonus_row =
  bo_referral :: nat
  bo_referrer :: string
  bo_amount :: int
  bo_reason :: string
  bo_awarded :: string

record referral_store =
  ref_links :: "link_row table"
  referrals :: "referral_row table"
  bonuses :: "bonus_row table"

type_synonym 'a referral_op = "(referral_store, 'a) db_op"

section \<open>database/referrals.js\<close>

definition default_referral_bonus_stroops :: int where
  "default_referral_bonus_stroops = 5 * 10000000"

definition unique_error :: "js_error \<Rightarrow> bool" where
  "unique_error e = str_includes (error_message e) ''UNIQUE constraint failed''"

definition get_referral_link_by_wallet :: "string \<Rightarrow> (nat \<times> link_row) option referral_op" where
  "get_referral_link_by_wallet wallet = op_read (\<lambda>t. t_get (\<lambda>x. ln_wallet (snd x) = wallet) (ref_links t))"

definition get_referral_link_by_code :: "string \<Rightarrow> (nat \<times> link_row) option referral_op" where
  "get_referral_link_by_code code = op_read (\<lambda>t. t_get (\<lambda>x. ln_code (snd x) = code) (ref_links t))"

definition insert_link :: "link_row \<Rightarrow> nat referral_op" where
  "insert_link r d =
     (if t_get (\<lambda>x. ln_code (snd x) = ln_code r) (ref_links (tables d)) \<noteq> None
      then (Inl (SqliteError ''UNIQUE constraint failed: referral_links.referralCode''), d)
      else op_write (\<lambda>t. let (i, ls) = t_insert r (ref_links t) in (i, t\<lparr>ref_links := ls\<rparr>)) d)"

text \<open>The loop of at most five attempts: \<open>attempt\<close> counts them, \<open>left\<close> is \<open>4 - attempt\<close>.\<close>

fun link_attempts :: "nat \<Rightarrow> nat \<Rightarrow> (nat \<Rightarrow> string) \<Rightarrow> string \<Rightarrow> int \<Rightarrow> nat referral_op" where
  "link_attempts left attempt codes wallet now =
     op_catch (insert_link \<lparr>ln_wallet = wallet, ln_code = codes attempt, ln_created = to_iso now\<rparr>)
       (\<lambda>e. case left of
              0 \<Rightarrow> op_raise e
            | Suc n \<Rightarrow> if unique_error e then link_attempts n (Suc attempt) codes wallet now else op_raise e)"

declare link_attempts.simps [simp del]

definition generate_referral_link :: "string \<Rightarrow> (nat \<Rightarrow> string) \<Rightarrow> int \<Rightarrow> (nat \<times> link_row) referral_op" where
  "generate_referral_link wallet codes now =
     op_bind (get_referral_link_by_wallet wallet) (\<lambda>existing.
       case existing of
         Some x \<Rightarrow> op_return x
       | None \<Rightarrow>
           op_bind (link_attempts 4 0 codes wallet now) (\<lambda>i.
           op_bind count_write (\<lambda>_.
           op_bind (op_read (\<lambda>t. t_get (by_id i) (ref_links t))) (\<lambda>row.
             case row of
               None \<Rightarrow> op_raise (TypeErr ''Cannot read properties of undefined (reading 'referralCode')'')
             | Some x \<Rightarrow> op_return (i, \<lparr>ln_wallet = wallet, ln_code = ln_code (snd x), ln_created = to_iso now\<rparr>)))))"

definition get_referral_by_referred :: "string \<Rightarrow> (nat \<times> referral_row) option referral_op" where
  "get_referral_by_referred a = op_read (\<lambda>t. t_get (\<lambda>x. rf_referred (snd x) = a) (referrals t))"

text \<open>An error object with \<open>status\<close>, \<open>code\<close> and possibly \<open>data\<close>.\<close>

record api_error =
  ae_status :: nat
  ae_code :: string
  ae_message :: string
  ae_data :: "(nat \<times> referral_row) option option"

definition insert_referral :: "referral_row \<Rightarrow> nat referral_op" where
  "insert_referral r d =
     (if t_get (\<lambda>x. rf_referred (snd x) = rf_referred r) (referrals (tables d)) \<noteq> None
      then (Inl (SqliteError ''UNIQUE constraint failed: referrals.referredAddress''), d)
      else op_write (\<lambda>t. let (i, rs) = t_insert r (referrals t) in (i, t\<lparr>referrals := rs\<rparr>)) d)"

definition register_referral ::
  "string \<Rightarrow> string \<Rightarrow> int \<Rightarrow> (api_error + nat \<times> referral_row) referral_op" where
  "register_referral code a now =
     op_bind (get_referral_link_by_code code) (\<lambda>link.
       case link of
         None \<Rightarrow> op_return (Inl \<lparr>ae_status = 404, ae_code = ''referral_code_not_found'',
                    ae_message = ''Referral code not found'', ae_data = None\<rparr>)
       | Some l \<Rightarrow>
           if ln_wallet (snd l) = a
           then op_return (Inl \<lparr>ae_status = 400, ae_code = ''self_referral_not_allowed'',
                  ae_message = ''A contributor cannot refer themselves'', ae_data = None\<rparr>)
           else
             let row = \<lparr>rf_referrer = ln_wallet (snd l), rf_referred = a, rf_code = code,
                   rf_status = ''pending'', rf_created = to_iso now, rf_activated = None\<rparr>
             in op_bind (op_catch (op_bind (insert_referral row) (\<lambda>i. op_return (Inr i)))
                  (\<lambda>e. if unique_error e
                    then op_bind (get_referral_by_referred a) (\<lambda>x.
                           op_return (Inl \<lparr>ae_status = 409, ae_code = ''already_referred'',
                             ae_message = ''This contributor has already been referred'', ae_data = Some x\<rparr>))
                    else op_raise e))
                  (\<lambda>r. case r of
                     Inl e \<Rightarrow> op_return (Inl e)
                   | Inr i \<Rightarrow> op_bind count_write (\<lambda>_. op_return (Inr (i, row)))))"

definition insert_bonus :: "bonus_row \<Rightarrow> referral_store \<Rightarrow> nat \<times> referral_store" where
  "insert_bonus b t = (let (i, bs) = t_insert b (bonuses t) in (i, t\<lparr>bonuses := bs\<rparr>))"

definition activate_row :: "int \<Rightarrow> referral_row \<Rightarrow> referral_row" where
  "activate_row now r = r\<lparr>rf_status := ''active'', rf_activated := Some (to_iso now)\<rparr>"

definition activate_referral ::
  "string \<Rightarrow> int option \<Rightarrow> string option \<Rightarrow> int
    \<Rightarrow> (api_error + (nat \<times> referral_row) option \<times> (nat \<times> bonus_row) option) referral_op" where
  "activate_referral a amount reason now =
     op_bind (get_referral_by_referred a) (\<lambda>ref.
       case ref of
         None \<Rightarrow> op_return (Inl \<lparr>ae_status = 404, ae_code = ''referral_not_found'',
                    ae_message = ''No referral record found for this contributor'', ae_data = None\<rparr>)
       | Some x \<Rightarrow>
           if rf_status (snd x) \<noteq> ''pending'' then op_return (Inr (Some x, None))
           else
             op_bind (db_transaction
               (op_bind (op_write (\<lambda>t. ((), t\<lparr>referrals := t_update (by_id (fst x)) (activate_row now) (referrals t)\<rparr>))) (\<lambda>_.
                op_bind (op_write (insert_bonus \<lparr>bo_referral = fst x, bo_referrer = rf_referrer (snd x),
                  bo_amount = (case amount of None \<Rightarrow> default_referral_bonus_stroops | Some n \<Rightarrow> n),
                  bo_reason = (case reason of None \<Rightarrow> ''First distribution by referred contributor'' | Some s \<Rightarrow> s),
                  bo_awarded = to_iso now\<rparr>)) (\<lambda>b.
                op_bind count_write (\<lambda>_. op_return b)))))
               (\<lambda>b. op_bind (op_read (\<lambda>t. t_get (by_id (fst x)) (referrals t))) (\<lambda>updated.
                    op_bind (op_read (\<lambda>t. t_get (by_id b) (bonuses t))) (\<lambda>bonus.
                    op_return (Inr (updated, bonus))))))"

definition get_referrals_by_referrer :: "string \<Rightarrow> int \<Rightarrow> int \<Rightarrow> (nat \<times> referral_row) list referral_op" where
  "get_referrals_by_referrer a l n = op_read (\<lambda>t.
     limit_offset l n (order_desc (\<lambda>x. rf_created (snd x)) (t_select (\<lambda>x. rf_referrer (snd x) = a) (referrals t))))"

definition count_referrals_by_referrer :: "string \<Rightarrow> nat referral_op" where
  "count_referrals_by_referrer a = op_read (\<lambda>t. t_count (\<lambda>x. rf_referrer (snd x) = a) (referrals t))"

definition award_referral_bonus ::
  "nat \<Rightarrow> string \<Rightarrow> int \<Rightarrow> string \<Rightarrow> int \<Rightarrow> (nat \<times> bonus_row) referral_op" where
  "award_referral_bonus i a amount reason now =
     (let row = \<lparr>bo_referral = i, bo_referrer = a, bo_amount = amount, bo_reason = reason, bo_awarded = to_iso now\<rparr>
      in op_bind (counted_write (insert_bonus row)) (\<lambda>j. op_return (j, row)))"

definition get_bonuses_by_referrer :: "string \<Rightarrow> (nat \<times> bonus_row) list referral_op" where
  "get_bonuses_by_referrer a = op_read (\<lambda>t.
     order_desc (\<lambda>x. bo_awarded (snd x)) (t_select (\<lambda>x. bo_referrer (snd x) = a) (bonuses t)))"

record referral_dashboard =
  rd_code :: "string option"
  rd_total :: nat
  rd_pending :: nat
  rd_active :: nat
  rd_paid :: nat
  rd_stroops :: int
  rd_xlm :: string
  rd_referrals :: "(nat \<times> referral_row) list"

text \<open>\<open>(n / 10_000_000).toFixed(7)\<close> for a whole number of stroops.\<close>

definition xlm_string :: "int \<Rightarrow> string" where
  "xlm_string n =
     (if n < 0 then ''-'' else []) @ nat_str (nat \<bar>n\<bar> div 10000000) @ ''.'' @ pad 7 (nat \<bar>n\<bar> mod 10000000)"

definition count_status :: "string \<Rightarrow> string \<Rightarrow> referral_store \<Rightarrow> nat" where
  "count_status a s t = t_count (\<lambda>x. rf_referrer (snd x) = a \<and> rf_status (snd x) = s) (referrals t)"

definition get_referral_dashboard :: "string \<Rightarrow> int \<Rightarrow> int \<Rightarrow> referral_dashboard referral_op" where
  "get_referral_dashboard a l n =
     op_bind (get_referral_link_by_wallet a) (\<lambda>link.
     op_bind (op_read (\<lambda>t. (t_count (\<lambda>x. rf_referrer (snd x) = a) (referrals t), count_status a ''pending'' t,
                count_status a ''active'' t, count_status a ''bonus_paid'' t))) (\<lambda>(tot, p, ac, paid).
     op_bind (op_read (\<lambda>t. sum_list (map (\<lambda>x. bo_amount (snd x)) (t_select (\<lambda>x. bo_referrer (snd x) = a) (bonuses t))))) (\<lambda>s.
     op_bind (get_referrals_by_referrer a l n) (\<lambda>rs.
     op_return \<lparr>rd_code = map_option (\<lambda>x. ln_code (snd x)) link, rd_total = tot, rd_pending = p, rd_active = ac,
       rd_paid = paid, rd_stroops = s, rd_xlm = xlm_string s, rd_referrals = rs\<rparr>))))"

definition referral_status_filter :: "string option \<Rightarrow> nat \<times> referral_row \<Rightarrow> bool" where
  "referral_status_filter s x \<longleftrightarrow> (if truthy s then rf_status (snd x) = the s else True)"

definition get_all_referrals :: "string option \<Rightarrow> int \<Rightarrow> int \<Rightarrow> (nat \<times> referral_row) list referral_op" where
  "get_all_referrals s l n = op_read (\<lambda>t.
     limit_offset l n (order_desc (\<lambda>x. rf_created (snd x)) (t_select (referral_status_filter s) (referrals t))))"

definition count_all_referrals :: "string option \<Rightarrow> nat referral_op" where
  "count_all_referrals s = op_read (\<lambda>t. t_count (referral_status_filter s) (referrals t))"

section \<open>routes/referrals.js\<close>

definition link_json :: "nat \<times> link_row \<Rightarrow> (string \<times> json) list" where
  "link_json x = [(''id'', JNum (int (fst x))), (''walletAddress'', JStr (ln_wallet (snd x))),
     (''referralCode'', JStr (ln_code (snd x))), (''createdAt'', JStr (ln_created (snd x)))]"

definition referral_json :: "nat \<times> referral_row \<Rightarrow> json" where
  "referral_json x = JObj
     [(''id'', JNum (int (fst x))), (''referrerAddress'', JStr (rf_referrer (snd x))),
      (''referredAddress'', JStr (rf_referred (snd x))), (''referralCode'', JStr (rf_code (snd x))),
      (''status'', JStr (rf_status (snd x))), (''createdAt'', JStr (rf_created (snd x))),
      (''activatedAt'', opt_json (rf_activated (snd x)))]"

definition bonus_json :: "nat \<times> bonus_row \<Rightarrow> json" where
  "bonus_json x = JObj
     [(''id'', JNum (int (fst x))), (''referralId'', JNum (int (bo_referral (snd x)))),
      (''referrerAddress'', JStr (bo_referrer (snd x))), (''bonusAmountStroops'', JNum (bo_amount (snd x))),
      (''reason'', JStr (bo_reason (snd x))), (''awardedAt'', JStr (bo_awarded (snd x)))]"

definition json_or_null :: "('a \<Rightarrow> json) \<Rightarrow> 'a option \<Rightarrow> json" where
  "json_or_null f x = (case x of None \<Rightarrow> JNull | Some y \<Rightarrow> f y)"

definition referral_url :: "string \<Rightarrow> string \<Rightarrow> string" where
  "referral_url base code = base @ ''/join?ref='' @ code"

definition validate_wallet_param :: "string \<Rightarrow> response option" where
  "validate_wallet_param a =
     (if a = [] \<or> \<not> account_regex a
      then Some (send_error 400 (Some ''invalid_stellar_address'') ''Invalid Stellar address format'' []) else None)"

definition handle_db_error :: "api_error \<Rightarrow> response" where
  "handle_db_error e = send_error (ae_status e) (Some (ae_code e)) (ae_message e)
     (case ae_data e of None \<Rightarrow> [] | Some x \<Rightarrow> (case x of None \<Rightarrow> [] | Some y \<Rightarrow> [(''data'', referral_json y)]))"

definition link_route :: "string \<Rightarrow> string \<Rightarrow> (nat \<Rightarrow> string) \<Rightarrow> int \<Rightarrow> referral_store db \<Rightarrow> response \<times> referral_store db" where
  "link_route base wallet codes now =
     or_next (op_bind (generate_referral_link wallet codes now) (\<lambda>x.
       op_return (data_response 201 (JObj (link_json x @ [(''referralUrl'', JStr (referral_url base (ln_code (snd x))))])))))"

definition get_link_route :: "string \<Rightarrow> string \<Rightarrow> referral_store db \<Rightarrow> response \<times> referral_store db" where
  "get_link_route base wallet d =
     (case validate_wallet_param wallet of
        Some r \<Rightarrow> (r, d)
      | None \<Rightarrow> or_next (op_bind (get_referral_link_by_wallet wallet) (\<lambda>x.
          op_return (case x of
              None \<Rightarrow> send_error 404 (Some ''referral_link_not_found'')
                ''No referral link found for this wallet. Use POST /referrals/link to generate one.'' []
            | Some l \<Rightarrow> data_response 200 (JObj (link_json l @
                [(''referralUrl'', JStr (referral_url base (ln_code (snd l))))]))))) d)"

definition register_route :: "string \<Rightarrow> string \<Rightarrow> int \<Rightarrow> referral_store db \<Rightarrow> response \<times> referral_store db" where
  "register_route code a now =
     or_next (op_bind (register_referral code a now) (\<lambda>r.
       op_return (case r of Inl e \<Rightarrow> handle_db_error e | Inr x \<Rightarrow> data_response 201 (referral_json x))))"

definition dashboard_route ::
  "string \<Rightarrow> string \<Rightarrow> string option \<Rightarrow> string option \<Rightarrow> referral_store db \<Rightarrow> response \<times> referral_store db" where
  "dashboard_route base a qlimit qoffset d =
     (case validate_wallet_param a of
        Some r \<Rightarrow> (r, d)
      | None \<Rightarrow>
          (case parse_pagination qlimit qoffset 50 100 of
             Inl r \<Rightarrow> (r, d)
           | Inr (l, n) \<Rightarrow>
               or_next (op_bind (get_referral_dashboard a l n) (\<lambda>b.
                 op_return (data_response 200 (JObj
                   [(''referralCode'', opt_json (rd_code b)), (''totalReferrals'', JNum (int (rd_total b))),
                    (''pendingReferrals'', JNum (int (rd_pending b))), (''activeReferrals'', JNum (int (rd_active b))),
                    (''bonusPaidReferrals'', JNum (int (rd_paid b))), (''totalBonusStroops'', JNum (rd_stroops b)),
                    (''totalBonusXlm'', JStr (rd_xlm b)), (''referrals'', JArr (map referral_json (rd_referrals b))),
                    (''pagination'', JObj [(''total'', JNum (int (rd_total b))), (''limit'', JNum l), (''offset'', JNum n)]),
                    (''referralUrl'', if truthy (rd_code b) then JStr (referral_url base (the (rd_code b))) else JNull),
                    (''defaultBonusStroops'', JNum default_referral_bonus_stroops),
                    (''defaultBonusXlm'', JStr (xlm_string default_referral_bonus_stroops))])))) d))"

definition mine_route ::
  "string \<Rightarrow> string option \<Rightarrow> string option \<Rightarrow> referral_store db \<Rightarrow> response \<times> referral_store db" where
  "mine_route a qlimit qoffset d =
     (case validate_wallet_param a of
        Some r \<Rightarrow> (r, d)
      | None \<Rightarrow>
          (case parse_pagination qlimit qoffset 50 100 of
             Inl r \<Rightarrow> (r, d)
           | Inr (l, n) \<Rightarrow>
               or_next (op_bind (get_referrals_by_referrer a l n) (\<lambda>items.
                 op_bind (count_referrals_by_referrer a) (\<lambda>tot.
                 op_return (page_response (map referral_json items) tot l n)))) d))"

definition referral_status_route :: "string \<Rightarrow> referral_store db \<Rightarrow> response \<times> referral_store db" where
  "referral_status_route a d =
     (case validate_wallet_param a of
        Some r \<Rightarrow> (r, d)
      | None \<Rightarrow> or_next (op_bind (get_referral_by_referred a) (\<lambda>x.
          op_return (data_response 200 (JObj [(''wasReferred'', JBool (x \<noteq> None)),
            (''referral'', json_or_null referral_json x)])))) d)"

text \<open>The logger reads \<open>result.referral.referrerAddress\<close>, which is there: the row was just updated.\<close>

definition activate_route ::
  "string \<Rightarrow> int option \<Rightarrow> string option \<Rightarrow> int \<Rightarrow> referral_store db \<Rightarrow> response \<times> referral_store db" where
  "activate_route a amount reason now =
     or_next (op_bind (activate_referral a amount reason now) (\<lambda>r.
       case r of
         Inl e \<Rightarrow> op_return (handle_db_error e)
       | Inr (None, _) \<Rightarrow> op_raise (TypeErr ''Cannot read properties of undefined (reading 'referrerAddress')'')
       | Inr (Some x, b) \<Rightarrow> op_return (data_response 200 (JObj [(''referral'', referral_json x),
             (''bonus'', json_or_null bonus_json b)]))))"

definition bonus_route :: "nat \<Rightarrow> string \<Rightarrow> int \<Rightarrow> string \<Rightarrow> int \<Rightarrow> referral_store db \<Rightarrow> response \<times> referral_store db" where
  "bonus_route i a amount reason now =
     or_next (op_bind (award_referral_bonus i a amount reason now) (\<lambda>b. op_return (data_response 201 (bonus_json b))))"

definition all_referrals_route ::
  "string option \<Rightarrow> string option \<Rightarrow> string option \<Rightarrow> referral_store db \<Rightarrow> response \<times> referral_store db" where
  "all_referrals_route s qlimit qoffset d =
     (if truthy s \<and> the s \<notin> {''pending'', ''active'', ''bonus_paid''}
      then (send_error 400 (Some ''invalid_status'') ''status must be one of: pending, active, bonus_paid'' [], d)
      else case parse_pagination qlimit qoffset 50 100 of
             Inl r \<Rightarrow> (r, d)
           | Inr (l, n) \<Rightarrow>
               or_next (op_bind (get_all_referrals s l n) (\<lambda>items.
                 op_bind (count_all_referrals s) (\<lambda>tot.
                 op_return (page_response (map referral_json items) tot l n)))) d)"

section \<open>Invariants\<close>

text \<open>Codes and referred addresses are unique, nobody referred themselves, and a referral is either
  pending or active, active exactly with a date and with a bonus of its referrer.\<close>

definition links_ok :: "link_row table \<Rightarrow> bool" where
  "links_ok t \<longleftrightarrow> t_ok t \<and> distinct (map (\<lambda>x. ln_code (snd x)) (trows t))"

definition bonus_of :: "bonus_row table \<Rightarrow> nat \<times> referral_row \<Rightarrow> bool" where
  "bonus_of b x \<longleftrightarrow> (\<exists>y \<in> set (trows b). bo_referral (snd y) = fst x \<and> bo_referrer (snd y) = rf_referrer (snd x))"

definition referral_ok :: "bonus_row table \<Rightarrow> nat \<times> referral_row \<Rightarrow> bool" where
  "referral_ok b x \<longleftrightarrow> rf_referrer (snd x) \<noteq> rf_referred (snd x)
     \<and> (rf_status (snd x) = ''pending'' \<and> rf_activated (snd x) = None
        \<or> rf_status (snd x) = ''active'' \<and> rf_activated (snd x) \<noteq> None \<and> bonus_of b x)"

definition store_ok :: "referral_store \<Rightarrow> bool" where
  "store_ok t \<longleftrightarrow> links_ok (ref_links t) \<and> t_ok (referrals t) \<and> t_ok (bonuses t)
     \<and> distinct (map (\<lambda>x. rf_referred (snd x)) (trows (referrals t)))
     \<and> (\<forall>x \<in> set (trows (referrals t)). referral_ok (bonuses t) x)"

lemma bonus_of_mono: "set (trows b) \<subseteq> set (trows b') \<Longrightarrow> referral_ok b x \<Longrightarrow> referral_ok b' x"
  unfolding referral_ok_def bonus_of_def by blast

lemma rows_insert: "trows (snd (t_insert r t)) = trows t @ [(Suc (tseq t), r)]"
  "fst (t_insert r t) = Suc (tseq t)"
  by (simp_all add: t_insert_def)

lemma store_ok_bonus:
  assumes "store_ok t"
  shows "store_ok (t\<lparr>bonuses := snd (t_insert b (bonuses t))\<rparr>)"
  using assms bonus_of_mono [of "bonuses t" "snd (t_insert b (bonuses t))"]
  by (auto simp: store_ok_def rows_insert intro: tb.ok_ins)

lemma store_ok_link:
  assumes "store_ok t" "t_get (\<lambda>x. ln_code (snd x) = ln_code r) (ref_links t) = None"
  shows "store_ok (t\<lparr>ref_links := snd (t_insert r (ref_links t))\<rparr>)"
  using assms by (auto simp: store_ok_def links_ok_def rows_insert t_get_None intro: tb.ok_ins)

lemma store_ok_referral:
  assumes "store_ok t" "t_get (\<lambda>x. rf_referred (snd x) = rf_referred r) (referrals t) = None"
    and "rf_referrer r \<noteq> rf_referred r" "rf_status r = ''pending''" "rf_activated r = None"
  shows "store_ok (t\<lparr>referrals := snd (t_insert r (referrals t))\<rparr>)"
  using assms by (auto simp: store_ok_def rows_insert t_get_None referral_ok_def intro: tb.ok_ins)

lemma store_ok_activate:
  assumes "store_ok t" "x \<in> set (trows (referrals t))" "bo_referral b = fst x" "bo_referrer b = rf_referrer (snd x)"
  shows "store_ok (t\<lparr>referrals := t_update (by_id (fst x)) (activate_row now) (referrals t),
                    bonuses := snd (t_insert b (bonuses t))\<rparr>)"
proof -
  let ?b = "snd (t_insert b (bonuses t))"
  have m: "referral_ok ?b y" if "y \<in> set (trows (referrals t))" for y
    using assms(1) that bonus_of_mono [of "bonuses t" ?b y] by (auto simp: store_ok_def rows_insert)
  have u: "y = x" if "y \<in> set (trows (referrals t))" "fst y = fst x" for y
    using that assms(1,2) tb.row_unique [of "referrals t" "fst x" "snd y" "snd x"]
    by (cases x; cases y) (auto simp: store_ok_def)
  have a: "referral_ok ?b (fst x, activate_row now (snd x))"
    using m [OF assms(2)] assms(3,4)
    by (auto simp: referral_ok_def bonus_of_def activate_row_def rows_insert)
  have "referral_ok ?b y" if "y \<in> set (trows (t_update (by_id (fst x)) (activate_row now) (referrals t)))" for y
  proof -
    from that have "y \<in> (\<lambda>x'. if by_id (fst x) x' then (fst x', activate_row now (snd x')) else x') ` set (trows (referrals t))"
      by (simp add: t_update_def)
    then obtain z where z: "z \<in> set (trows (referrals t))"
      "y = (if by_id (fst x) z then (fst z, activate_row now (snd z)) else z)"
      by (rule imageE)
    show ?thesis
    proof (cases "fst z = fst x")
      case True
      then have "z = x" by (rule u [OF z(1)])
      then show ?thesis using a z(2) by (simp add: by_id_def)
    qed (use m [OF z(1)] z(2) in \<open>simp add: by_id_def\<close>)
  qed
  moreover have "map (\<lambda>x. rf_referred (snd x)) (trows (t_update (by_id (fst x)) (activate_row now) (referrals t))) =
      map (\<lambda>x. rf_referred (snd x)) (trows (referrals t))"
    by (simp add: t_update_def activate_row_def)
  ultimately show ?thesis using assms(1) by (auto simp: store_ok_def intro: tb.ok_ins tb.ok_upd)
qed

section \<open>The operations on the tables\<close>

lemma keeps_insert_link: "keeps store_ok (insert_link r)"
proof -
  have "store_ok (tables (snd (insert_link r d)))" if "store_ok (tables d)" for d
  proof (cases "t_get (\<lambda>x. ln_code (snd x) = ln_code r) (ref_links (tables d)) = None")
    case True
    from store_ok_link [OF that True] show ?thesis
      using True by (simp add: insert_link_def op_write_def Let_def case_prod_beta)
  qed (use that in \<open>simp add: insert_link_def\<close>)
  then show ?thesis by (simp add: keeps_def)
qed

lemma keeps_link_attempts: "keeps store_ok (link_attempts left k codes w now)"
proof (induction left arbitrary: k)
  case 0
  then show ?case by (subst link_attempts.simps) (auto intro: keeps_insert_link)
next
  case (Suc left)
  then show ?case by (subst link_attempts.simps) (auto intro: keeps_insert_link)
qed

lemma keeps_generate_link: "keeps store_ok (generate_referral_link w codes now)"
  unfolding generate_referral_link_def get_referral_link_by_wallet_def
  by (auto intro: keeps_link_attempts)

lemma keeps_insert_referral:
  assumes "rf_referrer r \<noteq> rf_referred r" "rf_status r = ''pending''" "rf_activated r = None"
  shows "keeps store_ok (insert_referral r)"
proof -
  have "store_ok (tables (snd (insert_referral r d)))" if "store_ok (tables d)" for d
  proof (cases "t_get (\<lambda>x. rf_referred (snd x) = rf_referred r) (referrals (tables d)) = None")
    case True
    from store_ok_referral [OF that True assms] show ?thesis
      using True by (simp add: insert_referral_def op_write_def Let_def case_prod_beta)
  qed (use that in \<open>simp add: insert_referral_def\<close>)
  then show ?thesis by (simp add: keeps_def)
qed

lemma keeps_register: "keeps store_ok (register_referral code a now)"
  unfolding register_referral_def get_referral_link_by_code_def get_referral_by_referred_def Let_def
  by (auto intro!: keeps_insert_referral split: sum.split)

lemma keeps_award: "keeps store_ok (award_referral_bonus i a n s now)"
  unfolding award_referral_bonus_def Let_def
  by (intro keeps_bind keeps_basic keeps_counted_write)
    (simp add: insert_bonus_def case_prod_beta store_ok_bonus)

definition activation_bonus :: "nat \<times> referral_row \<Rightarrow> int option \<Rightarrow> string option \<Rightarrow> int \<Rightarrow> bonus_row" where
  "activation_bonus x amount reason now = \<lparr>bo_referral = fst x, bo_referrer = rf_referrer (snd x),
     bo_amount = (case amount of None \<Rightarrow> default_referral_bonus_stroops | Some n \<Rightarrow> n),
     bo_reason = (case reason of None \<Rightarrow> ''First distribution by referred contributor'' | Some s \<Rightarrow> s),
     bo_awarded = to_iso now\<rparr>"

definition activated_store :: "nat \<times> referral_row \<Rightarrow> bonus_row \<Rightarrow> int \<Rightarrow> referral_store \<Rightarrow> referral_store" where
  "activated_store x b now t = t\<lparr>referrals := t_update (by_id (fst x)) (activate_row now) (referrals t),
     bonuses := snd (t_insert b (bonuses t))\<rparr>"

abbreviation referred_row :: "string \<Rightarrow> referral_store \<Rightarrow> (nat \<times> referral_row) option" where
  "referred_row a t \<equiv> t_get (\<lambda>x. rf_referred (snd x) = a) (referrals t)"

lemma activate_none:
  "referred_row a (tables d) = None \<Longrightarrow> \<exists>e. activate_referral a amount reason now d = (Inr (Inl e), d)"
  by (simp add: activate_referral_def get_referral_by_referred_def op_simps)

lemma activate_again:
  "referred_row a (tables d) = Some x \<Longrightarrow> rf_status (snd x) \<noteq> ''pending'' \<Longrightarrow>
     activate_referral a amount reason now d = (Inr (Inr (Some x, None)), d)"
  by (simp add: activate_referral_def get_referral_by_referred_def op_simps)

lemma activate_pending:
  assumes "referred_row a (tables d) = Some x" "rf_status (snd x) = ''pending''" "counting d"
  shows "activate_referral a amount reason now d = (let b = activation_bonus x amount reason now in
    (Inr (Inr (t_get (by_id (fst x)) (t_update (by_id (fst x)) (activate_row now) (referrals (tables d))),
               t_get (by_id (Suc (tseq (bonuses (tables d))))) (snd (t_insert b (bonuses (tables d)))))),
     (bump d)\<lparr>tables := activated_store x b now (tables d)\<rparr>))"
  using assms
  by (simp add: activate_referral_def get_referral_by_referred_def op_simps db_transaction_def insert_bonus_def
      case_prod_beta Let_def count_write_ok activated_store_def activation_bonus_def rows_insert)

lemma activate_core:
  assumes "referred_row a (tables d) = Some x" "rf_status (snd x) = ''pending''" "\<not> counting d"
  shows "activate_referral a amount reason now d = (Inl (ReferenceError ''_writeCount is not defined''), d)"
  using assms
  by (simp add: activate_referral_def get_referral_by_referred_def op_simps db_transaction_def insert_bonus_def
      case_prod_beta Let_def count_write_fails)

lemma keeps_activate: "keeps store_ok (activate_referral a amount reason now)"
  unfolding keeps_def
proof (intro allI impI)
  fix d :: "referral_store db" assume ok: "store_ok (tables d)"
  show "store_ok (tables (snd (activate_referral a amount reason now d)))"
  proof (cases "referred_row a (tables d)")
    case None
    then show ?thesis using ok activate_none [OF None, of amount reason now] by auto
  next
    case (Some x)
    show ?thesis
    proof (cases "rf_status (snd x) = ''pending''")
      case False
      then show ?thesis using ok by (simp add: activate_again [OF Some])
    next
      case True
      have x: "x \<in> set (trows (referrals (tables d)))" using t_get_Some [OF Some] by blast
      show ?thesis
      proof (cases "counting d")
        case c: True
        show ?thesis using store_ok_activate [OF ok x, of "activation_bonus x amount reason now" now]
          by (simp add: activate_pending [OF Some True c] Let_def activated_store_def activation_bonus_def)
      qed (use ok in \<open>simp add: activate_core [OF Some True]\<close>)
    qed
  qed
qed

text \<open>Any sequence of operations, on any connection.\<close>

definition empty_referrals :: referral_store where
  "empty_referrals = \<lparr>ref_links = t_empty, referrals = t_empty, bonuses = t_empty\<rparr>"

inductive referral_reach :: "referral_store db \<Rightarrow> referral_store db \<Rightarrow> bool" for d0 where
  start: "referral_reach d0 d0"
| link: "referral_reach d0 d \<Longrightarrow> referral_reach d0 (snd (generate_referral_link w codes now d))"
| register: "referral_reach d0 d \<Longrightarrow> referral_reach d0 (snd (register_referral code a now d))"
| activate: "referral_reach d0 d \<Longrightarrow> referral_reach d0 (snd (activate_referral a amount reason now d))"
| award: "referral_reach d0 d \<Longrightarrow> referral_reach d0 (snd (award_referral_bonus i w n s now d))"

lemma referral_reach_ok: "referral_reach d0 d \<Longrightarrow> store_ok (tables d0) \<Longrightarrow> store_ok (tables d)"
  by (induction rule: referral_reach.induct)
    (auto intro: keepsD [OF keeps_generate_link] keepsD [OF keeps_register] keepsD [OF keeps_activate] keepsD [OF keeps_award])

lemma store_ok_empty: "store_ok empty_referrals"
  by (simp add: store_ok_def empty_referrals_def links_ok_def) (simp add: t_empty_def)

section \<open>Properties\<close>

text \<open>After any sequence of operations on any connection, no contributor was referred twice or by
  themselves, and a referral is active exactly if it has an activation date, and then its referrer has
  a bonus for it.  The status \<open>bonus_paid\<close>, which the dashboard counts, is never reached.\<close>

theorem referrals_invariant:
  assumes "referral_reach d0 d" "tables d0 = empty_referrals" "(i, r) \<in> set (trows (referrals (tables d)))"
  shows "rf_referrer r \<noteq> rf_referred r \<and> referred_row (rf_referred r) (tables d) = Some (i, r)
    \<and> (rf_status r, rf_activated r \<noteq> None) \<in> {(''pending'', False), (''active'', True)}
    \<and> (rf_activated r = None \<or> list_ex (\<lambda>y. bo_referral (snd y) = i \<and> bo_referrer (snd y) = rf_referrer r)
         (trows (bonuses (tables d))))"
proof -
  have ok: "store_ok (tables d)"
    using referral_reach_ok [OF assms(1)] assms(2) store_ok_empty by simp
  then have r: "referral_ok (bonuses (tables d)) (i, r)" using assms(3) by (auto simp: store_ok_def)
  have "distinct (map (\<lambda>x. rf_referred (snd x)) (trows (referrals (tables d))))" using ok by (simp add: store_ok_def)
  then have "find (\<lambda>x. rf_referred (snd x) = rf_referred r) (trows (referrals (tables d))) = Some (i, r)"
    using assms(3) find_distinct [of "\<lambda>x. rf_referred (snd x)" _ "(i, r)"] by simp
  then show ?thesis using r
    by (auto simp: referral_ok_def t_get_def bonus_of_def list_ex_iff)
qed

definition sample_referral :: referral_row where
  "sample_referral = \<lparr>rf_referrer = ''GA'', rf_referred = ''GB'', rf_code = ''REF-1'', rf_status = ''pending'',
     rf_created = ''c'', rf_activated = None\<rparr>"

definition linked_store :: referral_store where
  "linked_store = empty_referrals\<lparr>ref_links := \<lparr>tseq = 1, trows = [(1, \<lparr>ln_wallet = ''GA'', ln_code = ''REF-1'',
     ln_created = ''c''\<rparr>)]\<rparr>\<rparr>"

definition referred_store :: referral_store where
  "referred_store = linked_store\<lparr>referrals := \<lparr>tseq = 1, trows = [(1, sample_referral)]\<rparr>\<rparr>"

lemma first_link:
  "generate_referral_link ''GA'' (\<lambda>_. ''REF-1'') 0 (counted_connection empty_referrals) =
     (Inr (1, \<lparr>ln_wallet = ''GA'', ln_code = ''REF-1'', ln_created = to_iso 0\<rparr>),
      (bump (counted_connection empty_referrals))\<lparr>tables := empty_referrals\<lparr>ref_links :=
         \<lparr>tseq = 1, trows = [(1, \<lparr>ln_wallet = ''GA'', ln_code = ''REF-1'', ln_created = to_iso 0\<rparr>)]\<rparr>\<rparr>\<rparr>)"
proof -
  have "link_attempts 4 0 (\<lambda>_. ''REF-1'') ''GA'' 0 (counted_connection empty_referrals) =
      (Inr 1, (counted_connection empty_referrals)\<lparr>tables := empty_referrals\<lparr>ref_links :=
         \<lparr>tseq = 1, trows = [(1, \<lparr>ln_wallet = ''GA'', ln_code = ''REF-1'', ln_created = to_iso 0\<rparr>)]\<rparr>\<rparr>\<rparr>)"
    by (subst link_attempts.simps)
      (simp add: op_catch_def insert_link_def empty_referrals_def t_empty_def t_get_def op_write_def t_insert_def)
  then show ?thesis
    by (simp add: generate_referral_link_def get_referral_link_by_wallet_def op_simps count_write_ok
        empty_referrals_def t_empty_def t_get_def by_id_def)
qed

theorem referrals_invariant_witness:
  "let d = snd (register_referral ''REF-1'' ''GB'' 5 (snd (generate_referral_link ''GA'' (\<lambda>_. ''REF-1'') 0
     (counted_connection empty_referrals))))
   in rf_referrer (snd (hd (trows (referrals (tables d))))) \<noteq> rf_referred (snd (hd (trows (referrals (tables d)))))"
proof -
  let ?init = "counted_connection empty_referrals"
  let ?d = "snd (register_referral ''REF-1'' ''GB'' 5 (snd (generate_referral_link ''GA'' (\<lambda>_. ''REF-1'') 0 ?init)))"
  have reach: "referral_reach ?init ?d" by (rule register, rule link, rule start)
  have "(1, snd (hd (trows (referrals (tables ?d))))) \<in> set (trows (referrals (tables ?d)))"
    unfolding first_link
    by (simp add: register_referral_def get_referral_link_by_code_def op_simps empty_referrals_def t_get_def
        insert_referral_def t_empty_def t_insert_def count_write_ok Let_def)
  from referrals_invariant [OF reach tables_connection(2) this] show ?thesis unfolding Let_def by blast
qed

text \<open>A referral pays its bonus once: an activation that succeeds leaves it active with one new
  bonus, and every later activation changes nothing and awards none.\<close>

theorem activation_awards_once:
  assumes "store_ok (tables d)" "referred_row a (tables d) = Some x" "rf_status (snd x) = ''pending''" "counting d"
    and "activate_referral a amount reason now d = (Inr (Inr (updated, bonus)), d')"
  shows "updated = Some (fst x, activate_row now (snd x))
    \<and> length (trows (bonuses (tables d'))) = Suc (length (trows (bonuses (tables d))))
    \<and> map_option (\<lambda>y. bo_referrer (snd y)) bonus = Some (rf_referrer (snd x))
    \<and> activate_referral a amount2 reason2 now2 d' = (Inr (Inr (updated, None)), d')"
proof -
  let ?b = "activation_bonus x amount reason now"
  have x: "x \<in> set (trows (referrals (tables d)))" using t_get_Some [OF assms(2)] by blast
  have id: "t_get (by_id (fst x)) (referrals (tables d)) = Some (fst x, snd x)"
    using assms(1) x by (intro t_get_mem) (simp_all add: store_ok_def)
  from activate_pending [OF assms(2-4), of amount reason now] assms(5)
  have d': "d' = (bump d)\<lparr>tables := activated_store x ?b now (tables d)\<rparr>"
    and u: "updated = t_get (by_id (fst x)) (t_update (by_id (fst x)) (activate_row now) (referrals (tables d)))"
    and b: "bonus = t_get (by_id (Suc (tseq (bonuses (tables d))))) (snd (t_insert ?b (bonuses (tables d))))"
    by (simp_all add: Let_def)
  have upd: "updated = Some (fst x, activate_row now (snd x))"
    unfolding u by (rule t_get_updated [OF id])
  have "t_ok (bonuses (tables d))" using assms(1) by (simp add: store_ok_def)
  from t_get_inserted [OF this, of ?b] have bn: "map_option (\<lambda>y. bo_referrer (snd y)) bonus = Some (rf_referrer (snd x))"
    unfolding b by (simp add: rows_insert activation_bonus_def)
  have "referred_row a (tables d') = map_option (\<lambda>y. if by_id (fst x) y then (fst y, activate_row now (snd y)) else y)
      (referred_row a (tables d))"
    unfolding d' activated_store_def by (simp add: t_get_update_stable activate_row_def)
  then have "referred_row a (tables d') = updated" using assms(2) by (simp add: upd by_id_def)
  then have "activate_referral a amount2 reason2 now2 d' = (Inr (Inr (updated, None)), d')"
    unfolding upd by (intro activate_again) (simp_all add: activate_row_def)
  then show ?thesis using upd bn by (simp add: d' activated_store_def rows_insert)
qed

theorem activation_awards_once_witness:
  "\<exists>u d'. activate_referral ''GB'' None None 7 (counted_connection referred_store) = (Inr (Inr (u, Some (1,
      activation_bonus (1, sample_referral) None None 7))), d')
    \<and> activate_referral ''GB'' (Some 9) None 8 d' = (Inr (Inr (u, None)), d')"
proof -
  let ?d = "counted_connection referred_store"
  have row: "referred_row ''GB'' (tables ?d) = Some (1, sample_referral)"
    by (simp add: referred_store_def t_get_def sample_referral_def)
  have pend: "rf_status (snd (1 :: nat, sample_referral)) = ''pending''" by (simp add: sample_referral_def)
  have ok: "store_ok (tables ?d)"
    by (simp add: store_ok_def referred_store_def linked_store_def links_ok_def t_ok_def empty_referrals_def
        t_empty_def referral_ok_def sample_referral_def)
  from activate_pending [OF row pend, of None None 7] obtain u d' where
    e: "activate_referral ''GB'' None None 7 ?d = (Inr (Inr (u, t_get (by_id (Suc (tseq (bonuses referred_store))))
      (snd (t_insert (activation_bonus (1, sample_referral) None None 7) (bonuses referred_store))))), d')"
    by (simp add: Let_def)
  from activation_awards_once [OF ok row pend _ e, of "Some 9" None 8] e show ?thesis
    by (simp add: referred_store_def linked_store_def empty_referrals_def t_empty_def t_insert_def t_get_def by_id_def)
qed

text \<open>On the connection of \<open>core.js\<close>, where \<open>countWrite\<close> throws, no activation ever takes effect:
  the transaction is rolled back and the route answers 500; a registration answers 500 although it was
  stored, so that the contributor who tries again is told 409.\<close>

theorem core_referrals_fail:
  assumes "referred_row a t = None" "t_get (\<lambda>x. ln_code (snd x) = code) (ref_links t) = Some l" "ln_wallet (snd l) \<noteq> a"
  shows "rstatus (fst (register_route code a now (core_connection t))) = 500
    \<and> rstatus (fst (register_route code a now2 (snd (register_route code a now (core_connection t))))) = 409
    \<and> activate_route a amount reason now3 (snd (register_route code a now (core_connection t))) =
        (error_handler (thrown_of (ReferenceError ''_writeCount is not defined'')),
         snd (register_route code a now (core_connection t)))"
proof -
  let ?row = "\<lparr>rf_referrer = ln_wallet (snd l), rf_referred = a, rf_code = code, rf_status = ''pending'',
    rf_created = to_iso now, rf_activated = None\<rparr>"
  let ?d = "core_connection (t\<lparr>referrals := snd (t_insert ?row (referrals t))\<rparr>)"
  have up: "(core_connection t)\<lparr>tables := u\<rparr> = core_connection u" for u by (simp add: core_connection_def)
  have reg: "register_referral code a now (core_connection t) =
      (Inl (ReferenceError ''_writeCount is not defined''), ?d)"
    using assms by (simp add: register_referral_def get_referral_link_by_code_def op_simps insert_referral_def
        Let_def case_prod_beta count_write_fails up)
  have row: "referred_row a (tables ?d) = Some (Suc (tseq (referrals t)), ?row)"
    using assms(1) by (simp add: t_get_insert rows_insert)
  have first: "register_route code a now (core_connection t) =
      (error_handler (thrown_of (ReferenceError ''_writeCount is not defined'')), ?d)"
    by (simp add: register_route_def or_next_def op_bind_def reg)
  have "unique_error (SqliteError ''UNIQUE constraint failed: referrals.referredAddress'')"
    by (simp add: unique_error_def prefix_def)
  then have "rstatus (fst (register_route code a now2 ?d)) = 409"
    using assms(2,3) row by (simp add: register_route_def or_next_def register_referral_def get_referral_link_by_code_def
        op_simps insert_referral_def get_referral_by_referred_def handle_db_error_def send_error_def Let_def)
  moreover have "activate_route a amount reason now3 ?d =
      (error_handler (thrown_of (ReferenceError ''_writeCount is not defined'')), ?d)"
    using activate_core [OF row] by (simp add: activate_route_def or_next_def op_bind_def)
  moreover have "rstatus (error_handler (thrown_of (ReferenceError ''_writeCount is not defined''))) = 500"
    by (simp add: error_handler_def thrown_of_def send_error_def)
  ultimately show ?thesis unfolding first by simp
qed

theorem core_referrals_fail_witness:
  "rstatus (fst (register_route ''REF-1'' ''GB'' 5 (core_connection linked_store))) = 500"
  using core_referrals_fail [of "''GB''" linked_store "''REF-1''" "(1, \<lparr>ln_wallet = ''GA'', ln_code = ''REF-1'', ln_created = ''c''\<rparr>)"]
  by (simp add: linked_store_def empty_referrals_def t_get_def t_empty_def)

section \<open>The lists\<close>

interpretation referrer_list: paged_query
  "\<lambda>t. order_desc (\<lambda>x. rf_created (snd x)) (t_select (\<lambda>x. rf_referrer (snd x) = a) (referrals t))"
  "\<lambda>l n t. the (case fst (get_referrals_by_referrer a l n (core_connection t)) of Inr x \<Rightarrow> Some x | Inl _ \<Rightarrow> None)"
  "\<lambda>t. the (case fst (count_referrals_by_referrer a (core_connection t)) of Inr x \<Rightarrow> Some x | Inl _ \<Rightarrow> None)"
  for a
  by unfold_locales
    (simp_all add: get_referrals_by_referrer_def count_referrals_by_referrer_def op_read_def t_count_def t_select_def)

interpretation all_referrals: paged_query
  "\<lambda>t. order_desc (\<lambda>x. rf_created (snd x)) (t_select (referral_status_filter s) (referrals t))"
  "\<lambda>l n t. the (case fst (get_all_referrals s l n (core_connection t)) of Inr x \<Rightarrow> Some x | Inl _ \<Rightarrow> None)"
  "\<lambda>t. the (case fst (count_all_referrals s (core_connection t)) of Inr x \<Rightarrow> Some x | Inl _ \<Rightarrow> None)"
  for s
  by unfold_locales (simp_all add: get_all_referrals_def count_all_referrals_def op_read_def t_count_def t_select_def)

text \<open>The dashboard counts every referral of a referrer once.\<close>

lemma dashboard_counts:
  assumes "store_ok t"
  shows "t_count (\<lambda>x. rf_referrer (snd x) = a) (referrals t) = count_status a ''pending'' t + count_status a ''active'' t"
proof -
  have "rf_status (snd x) = ''pending'' \<or> rf_status (snd x) = ''active''" if "x \<in> set (trows (referrals t))" for x
    using assms that by (auto simp: store_ok_def referral_ok_def)
  moreover have "length (filter P xs) = length (filter (\<lambda>x. P x \<and> f x = ''pending'') xs)
      + length (filter (\<lambda>x. P x \<and> f x = ''active'') xs)"
    if "\<forall>x \<in> set xs. f x = ''pending'' \<or> f x = ''active''" for P f and xs :: "(nat \<times> referral_row) list"
    using that by (induction xs) auto
  ultimately show ?thesis by (simp add: t_count_def count_status_def)
qed

end
