(* ===== verification/RateLimitUsage.thy ===== *)
theory RateLimitUsage
  imports Database
begin

text \<open>
  \<open>src/backend/src/database/rate-limit.js\<close>: API keys with their limits, and request counts kept per key
  and minute.  A minute is the first 16 characters of an ISO timestamp, on both sides of every
  comparison (\<open>toISOString().slice(0, 16)\<close> and \<open>strftime('%Y-%m-%dT%H:%M', ..)\<close>).  The columns the module
  uses of \<open>api_keys\<close>, and the table \<open>rate_limit_events\<close>, are created by no migration; the model takes
  the tables as the statements need them: unique key values, one event row for a key and a minute.
\<close>

record rl_key =
  rk_value :: string
  rk_label :: "string option"
  rk_limit :: "int option"
  rk_created :: string
  rk_seen :: "string option"

record rl_event =
  ev_key :: nat
  ev_bucket :: string
  ev_requests :: nat
  ev_blocked :: nat

record rl_store =
  rl_keys :: "rl_key table"
  rl_events :: "rl_event table"

type_synonym 'a rl_op = "(rl_store, 'a) db_op"

definition default_auth_limit_per_minute :: int where "default_auth_limit_per_minute = 1000"

definition alert_threshold_percent :: rat where "alert_threshold_percent = 80"

definition history_retention_minutes :: int where "history_retention_minutes = 60 * 24"

section \<open>The statements\<close>

definition bucket :: "int \<Rightarrow> string" where
  "bucket t = take 16 (to_iso t)"

definition minutes_before :: "int \<Rightarrow> int \<Rightarrow> string" where
  "minutes_before now m = bucket (now - m * 60000)"

definition get_key_by_value :: "string \<Rightarrow> rl_store \<Rightarrow> (nat \<times> rl_key) option" where
  "get_key_by_value v t = t_get (\<lambda>x. rk_value (snd x) = v) (rl_keys t)"

definition upsert_key :: "string \<Rightarrow> string option \<Rightarrow> int option \<Rightarrow> int \<Rightarrow> rl_store \<Rightarrow> rl_store" where
  "upsert_key v label lim_opt now t =
     (case get_key_by_value v t of
        None \<Rightarrow> t\<lparr>rl_keys := snd (t_insert \<lparr>rk_value = v, rk_label = label, rk_limit = lim_opt,
                  rk_created = sql_timestamp now, rk_seen = None\<rparr> (rl_keys t))\<rparr>
      | Some x \<Rightarrow> t\<lparr>rl_keys := t_update (by_id (fst x))
                  (\<lambda>r. r\<lparr>rk_label := label, rk_seen := Some (sql_timestamp now)\<rparr>) (rl_keys t)\<rparr>)"

definition touch_key :: "string \<Rightarrow> int \<Rightarrow> rl_store \<Rightarrow> rl_store" where
  "touch_key v now t = t\<lparr>rl_keys := t_update (\<lambda>x. rk_value (snd x) = v)
     (\<lambda>r. r\<lparr>rk_seen := Some (sql_timestamp now)\<rparr>) (rl_keys t)\<rparr>"

definition upsert_event :: "nat \<Rightarrow> string \<Rightarrow> nat \<Rightarrow> nat \<Rightarrow> rl_store \<Rightarrow> rl_store" where
  "upsert_event i b n k t =
     (case t_get (\<lambda>x. ev_key (snd x) = i \<and> ev_bucket (snd x) = b) (rl_events t) of
        None \<Rightarrow> t\<lparr>rl_events := snd (t_insert \<lparr>ev_key = i, ev_bucket = b, ev_requests = n, ev_blocked = k\<rparr>
                  (rl_events t))\<rparr>
      | Some x \<Rightarrow> t\<lparr>rl_events := t_update (by_id (fst x))
                  (\<lambda>r. r\<lparr>ev_requests := ev_requests r + n, ev_blocked := ev_blocked r + k\<rparr>) (rl_events t)\<rparr>)"

definition prune_old_events :: "int \<Rightarrow> int \<Rightarrow> rl_store \<Rightarrow> rl_store" where
  "prune_old_events m now t =
     t\<lparr>rl_events := t_delete (\<lambda>x. ev_bucket (snd x) < minutes_before now m) (rl_events t)\<rparr>"

text \<open>The events of a key from a minute on, and their sums.\<close>

definition window_events :: "nat \<Rightarrow> string \<Rightarrow> rl_store \<Rightarrow> rl_event list" where
  "window_events i b t = map snd (t_select (\<lambda>x. ev_key (snd x) = i \<and> b \<le> ev_bucket (snd x)) (rl_events t))"

definition window_sum :: "(rl_event \<Rightarrow> nat) \<Rightarrow> nat \<Rightarrow> string \<Rightarrow> rl_store \<Rightarrow> nat" where
  "window_sum f i b t = sum_list (map f (window_events i b t))"

section \<open>The functions\<close>

definition ensure_key_row :: "string \<Rightarrow> int \<Rightarrow> nat rl_op" where
  "ensure_key_row v now =
     op_bind (op_write (\<lambda>t. ((), upsert_key v None None now t))) (\<lambda>_.
     op_bind (op_read (get_key_by_value v)) (\<lambda>row.
       case row of None \<Rightarrow> op_raise (TypeErr ''Cannot read properties of undefined (reading 'id')'')
       | Some x \<Rightarrow> op_return (fst x)))"

definition record_api_key_request :: "string \<Rightarrow> bool \<Rightarrow> int \<Rightarrow> unit rl_op" where
  "record_api_key_request v blocked now =
     (if v = [] then op_return ()
      else op_bind (ensure_key_row v now) (\<lambda>i.
           op_bind (op_write (\<lambda>t. ((), upsert_event i (bucket now) 1 (if blocked then 1 else 0) t))) (\<lambda>_.
           op_bind (op_write (\<lambda>t. ((), touch_key v now t))) (\<lambda>_.
           op_bind (op_write (\<lambda>t. ((), prune_old_events history_retention_minutes now t))) (\<lambda>_.
           count_write)))))"

definition key_limit :: "rl_key \<Rightarrow> int" where
  "key_limit r = (case rk_limit r of None \<Rightarrow> default_auth_limit_per_minute | Some n \<Rightarrow> n)"

definition percent_used :: "int \<Rightarrow> nat \<Rightarrow> rat" where
  "percent_used l n = (if 0 < l then min (of_nat n / of_int l * 100) 100 else 0)"

text \<open>\<open>Math.round(p * 10) / 10\<close>\<close>

definition one_decimal :: "rat \<Rightarrow> rat" where
  "one_decimal p = of_int \<lfloor>p * 10 + 1 / 2\<rfloor> / 10"

record key_usage =
  ku_value :: string
  ku_label :: "string option"
  ku_requests :: nat
  ku_blocked :: nat
  ku_limit :: int
  ku_percent :: rat
  ku_approaching :: bool
  ku_seen :: "string option"
  ku_created :: string

definition usage_of :: "int \<Rightarrow> nat \<times> rl_key \<Rightarrow> rl_store \<Rightarrow> key_usage" where
  "usage_of now x t =
     (let b = minutes_before now 1; n = window_sum ev_requests (fst x) b t;
          p = percent_used (key_limit (snd x)) n
      in \<lparr>ku_value = rk_value (snd x), ku_label = rk_label (snd x), ku_requests = n,
          ku_blocked = window_sum ev_blocked (fst x) b t, ku_limit = key_limit (snd x),
          ku_percent = one_decimal p, ku_approaching = alert_threshold_percent \<le> p,
          ku_seen = rk_seen (snd x), ku_created = rk_created (snd x)\<rparr>)"

definition get_api_key_current_usage :: "string \<Rightarrow> int \<Rightarrow> key_usage option rl_op" where
  "get_api_key_current_usage v now =
     op_read (\<lambda>t. map_option (\<lambda>x. usage_of now x t) (get_key_by_value v t))"

record key_history =
  kh_value :: string
  kh_label :: "string option"
  kh_limit :: int
  kh_minutes :: int
  kh_history :: "(string \<times> nat \<times> nat) list"
  kh_requests :: nat
  kh_blocked :: nat
  kh_active :: nat

text \<open>\<open>minutes\<close> is a number or what \<open>parseInt\<close> reads of a string; \<open>parseInt(..) || 60\<close>.\<close>

definition clamp_minutes :: "int option \<Rightarrow> int" where
  "clamp_minutes m =
     min (max (case m of None \<Rightarrow> 60 | Some n \<Rightarrow> if n = 0 then 60 else n) 1) history_retention_minutes"

definition get_api_key_history :: "string \<Rightarrow> int option \<Rightarrow> int \<Rightarrow> key_history option rl_op" where
  "get_api_key_history v minutes now = op_read (\<lambda>t.
     map_option (\<lambda>x.
       let m = clamp_minutes minutes; es = window_events (fst x) (minutes_before now m) t
       in \<lparr>kh_value = rk_value (snd x), kh_label = rk_label (snd x), kh_limit = key_limit (snd x), kh_minutes = m,
           kh_history = map (\<lambda>e. (ev_bucket e, ev_requests e, ev_blocked e)) (order_asc ev_bucket es),
           kh_requests = sum_list (map ev_requests es), kh_blocked = sum_list (map ev_blocked es),
           kh_active = length (remdups (map ev_bucket es))\<rparr>)
       (get_key_by_value v t))"

definition get_all_api_keys_usage :: "int \<Rightarrow> key_usage list rl_op" where
  "get_all_api_keys_usage now = op_read (\<lambda>t.
     order_desc ku_requests (order_desc ku_created (map (\<lambda>x. usage_of now x t) (trows (rl_keys t)))))"

definition set_api_key_limit :: "string \<Rightarrow> int option \<Rightarrow> bool rl_op" where
  "set_api_key_limit v l =
     op_bind (op_write (\<lambda>t. (t_count (\<lambda>x. rk_value (snd x) = v) (rl_keys t),
         t\<lparr>rl_keys := t_update (\<lambda>x. rk_value (snd x) = v) (\<lambda>r. r\<lparr>rk_limit := l\<rparr>) (rl_keys t)\<rparr>)))
       (\<lambda>n. if n = 0 then op_return False else op_bind count_write (\<lambda>_. op_return True))"

definition register_api_key :: "string \<Rightarrow> string option \<Rightarrow> int \<Rightarrow> unit rl_op" where
  "register_api_key v label now = counted_write (\<lambda>t. ((), upsert_key v label None now t))"

definition get_approaching_limit_alerts :: "int \<Rightarrow> key_usage list rl_op" where
  "get_approaching_limit_alerts now =
     op_bind (get_all_api_keys_usage now) (\<lambda>xs. op_return (filter ku_approaching xs))"

section \<open>Minutes\<close>

lemma take_mono:
  fixes a b :: string
  assumes "length a = length b" "a \<le> b"
  shows "take n a \<le> take n b"
proof (rule ccontr)
  assume "\<not> take n a \<le> take n b"
  then have "take n b < take n a" by simp
  then have "take n b @ drop n b < take n a @ drop n a" using assms(1) by (subst lex_less_append) simp_all
  then show False using assms(2) by simp
qed

lemma bucket_mono:
  assumes "a \<le> b" "four_digit_year a" "four_digit_year b"
  shows "bucket a \<le> bucket b"
  unfolding bucket_def
proof (rule take_mono)
  show "length (to_iso a) = length (to_iso b)"
    using assms by (simp add: to_iso_def length_iso_date)
  show "to_iso a \<le> to_iso b" using assms by (simp add: to_iso_less_iff)
qed

text \<open>From the second day of 1970 to the year 9999, with the day before.\<close>

definition in_era :: "int \<Rightarrow> bool" where
  "in_era t \<longleftrightarrow> 86400000 \<le> t \<and> t < 253402300800000"

lemma in_era_year: "in_era t \<Longrightarrow> t - 86400000 \<le> u \<Longrightarrow> u \<le> t \<Longrightarrow> four_digit_year u"
proof -
  assume a: "in_era t" "t - 86400000 \<le> u" "u \<le> t"
  then have "0 \<le> u" "u < ms_per_day * 2932897" by (simp_all add: in_era_def ms_per_day_def)
  then have "0 \<le> day_of u" "day_of u \<le> 2932896"
    by (simp_all add: day_of_def ms_per_day_def) 
  then have "year_of_day 0 \<le> year_of_day (day_of u)" "year_of_day (day_of u) \<le> year_of_day 2932896"
    by (simp_all add: year_of_day_mono)
  moreover have "year_of_day 0 = 1970" "year_of_day 2932896 = 9999" by code_simp+
  ultimately show ?thesis by (simp add: four_digit_year_def)
qed

section \<open>The buckets count the requests\<close>

text \<open>What is counted: the log of the requests, each a key, a time and whether it was blocked.\<close>

type_synonym request_log = "(string \<times> int \<times> bool) list"

definition log_sum :: "(bool \<Rightarrow> nat) \<Rightarrow> string \<Rightarrow> string \<Rightarrow> request_log \<Rightarrow> nat" where
  "log_sum w k b xs = sum_list (map (\<lambda>x. w (snd (snd x))) (filter (\<lambda>x. fst x = k \<and> b \<le> bucket (fst (snd x))) xs))"

definition key_sum :: "(rl_event \<Rightarrow> nat) \<Rightarrow> string \<Rightarrow> string \<Rightarrow> rl_store \<Rightarrow> nat" where
  "key_sum f k b t = (case get_key_by_value k t of None \<Rightarrow> 0 | Some x \<Rightarrow> window_sum f (fst x) b t)"

definition keys_ok :: "rl_store \<Rightarrow> bool" where
  "keys_ok t \<longleftrightarrow> t_ok (rl_keys t) \<and> t_ok (rl_events t)
     \<and> (\<forall>e \<in> set (trows (rl_events t)). ev_key (snd e) \<le> tseq (rl_keys t))"

lemma table_parts [simp]:
  "tseq (snd (t_insert r u)) = Suc (tseq u)" "trows (snd (t_insert r u)) = trows u @ [(Suc (tseq u), r)]"
  "fst (t_insert r u) = Suc (tseq u)" "tseq (t_update Q g u) = tseq u" "tseq (t_delete Q u) = tseq u"
  by (simp_all add: t_insert_def t_update_def t_delete_def)

lemma window_sum_eq: "window_sum f i b t =
    sum_list (map (\<lambda>x. f (snd x)) (filter (\<lambda>x. ev_key (snd x) = i \<and> b \<le> ev_bucket (snd x)) (trows (rl_events t))))"
  by (simp add: window_sum_def window_events_def t_select_def comp_def)

lemma window_sum_keys [simp]: "window_sum f i b (t\<lparr>rl_keys := ks\<rparr>) = window_sum f i b t"
  by (simp add: window_sum_eq)

lemma get_key_touch [simp]:
  "map_option fst (get_key_by_value k (t\<lparr>rl_keys := t_update Q f ks\<rparr>)) = map_option fst (get_key_by_value k (t\<lparr>rl_keys := ks\<rparr>))"
  if "\<And>r. rk_value (f r) = rk_value r"
  by (simp add: get_key_by_value_def t_get_update_stable that option.map_comp comp_def if_distrib [of fst] cong: if_cong)

lemma key_sum_cong:
  assumes "map_option fst (get_key_by_value k t) = map_option fst (get_key_by_value k t')"
    and "\<And>i. window_sum f i b t = window_sum f i b t'"
  shows "key_sum f k b t = key_sum f k b t'"
  using assms by (auto simp: key_sum_def split: option.splits)

lemma get_key_same [simp]: "t\<lparr>rl_keys := rl_keys t\<rparr> = t"
  by simp

lemma key_sum_touch: "key_sum f k b (touch_key v now t) = key_sum f k b t"
  by (rule key_sum_cong) (simp_all add: touch_key_def)

lemma key_sum_upsert_key:
  assumes "keys_ok t"
  shows "key_sum f k b (upsert_key v l n now t) = key_sum f k b t"
proof (cases "get_key_by_value v t")
  case (Some x)
  then show ?thesis by (intro key_sum_cong) (simp_all add: upsert_key_def)
next
  case None
  have "window_sum f (Suc (tseq (rl_keys t))) b t = 0"
    using assms by (auto simp: window_sum_eq keys_ok_def filter_empty_conv)
  then show ?thesis using None
    by (cases "get_key_by_value k t")
      (auto simp: key_sum_def upsert_key_def get_key_by_value_def t_get_insert)
qed

lemma upsert_key_present:
  "\<exists>x. get_key_by_value v (upsert_key v l n now t) = Some x"
  by (auto simp: upsert_key_def get_key_by_value_def t_get_insert t_get_update_stable split: option.split)

lemma window_sum_upsert_event:
  assumes "t_ok (rl_events t)"
    and "f = ev_requests \<and> c = n \<or> f = ev_blocked \<and> c = m"
  shows "window_sum f j B (upsert_event i b n m t) = window_sum f j B t + (if j = i \<and> B \<le> b then c else 0)"
proof (cases "t_get (\<lambda>x. ev_key (snd x) = i \<and> ev_bucket (snd x) = b) (rl_events t)")
  case None
  then show ?thesis using assms(2)
    by (auto simp: window_sum_eq upsert_event_def t_insert_def)
next
  case (Some x)
  have x: "x \<in> set (trows (rl_events t))" "ev_key (snd x) = i" "ev_bucket (snd x) = b"
    using t_get_Some [OF Some] by auto
  let ?h = "\<lambda>r. r\<lparr>ev_requests := ev_requests r + n, ev_blocked := ev_blocked r + m\<rparr>"
  have "f (?h (snd x)) = f (snd x) + c" using assms(2) by auto
  from sum_update_row [where h = ?h and f = f and Q = "\<lambda>x. ev_key (snd x) = j \<and> B \<le> ev_bucket (snd x)",
      OF tb.ok_distinct [OF assms(1)] x(1) _ this]
  show ?thesis using Some x(2,3) by (auto simp: window_sum_eq upsert_event_def t_update_def)
qed

lemma key_ids_differ:
  assumes "t_ok (rl_keys t)" "get_key_by_value k t = Some x" "get_key_by_value v t = Some y" "k \<noteq> v"
  shows "fst x \<noteq> fst y"
proof
  assume eq: "fst x = fst y"
  obtain i r s where xy: "x = (i, r)" "y = (i, s)" using eq by (cases x; cases y) auto
  have "(i, r) \<in> set (trows (rl_keys t))" "rk_value r = k" "(i, s) \<in> set (trows (rl_keys t))" "rk_value s = v"
    using t_get_Some [OF assms(2) [unfolded get_key_by_value_def]] t_get_Some [OF assms(3) [unfolded get_key_by_value_def]]
    by (simp_all add: xy)
  moreover from this have "r = s" using tb.row_unique [OF assms(1)] by blast
  ultimately show False using assms(4) by simp
qed

lemma get_key_events [simp]: "get_key_by_value k (upsert_event i b n m t) = get_key_by_value k t"
  by (simp add: get_key_by_value_def upsert_event_def split: option.split)

lemma key_sum_upsert_event:
  assumes "keys_ok t" "get_key_by_value v t = Some x"
    and "f = ev_requests \<and> c = n \<or> f = ev_blocked \<and> c = m"
  shows "key_sum f k B (upsert_event (fst x) b n m t) = key_sum f k B t + (if k = v \<and> B \<le> b then c else 0)"
proof (cases "get_key_by_value k t")
  case None
  then have "k \<noteq> v" using assms(2) by auto
  then show ?thesis using None by (simp add: key_sum_def)
next
  case (Some y)
  have "t_ok (rl_keys t)" "t_ok (rl_events t)" using assms(1) by (simp_all add: keys_ok_def)
  then have "fst y = fst x \<longleftrightarrow> k = v"
    using key_ids_differ [of t k y v x] Some assms(2) by auto
  then show ?thesis
    using Some window_sum_upsert_event [OF \<open>t_ok (rl_events t)\<close> assms(3), of "fst y" B "fst x" b]
    by (simp add: key_sum_def)
qed

lemma key_sum_prune:
  assumes "minutes_before now m \<le> B"
  shows "key_sum f k B (prune_old_events m now t) = key_sum f k B t"
proof (rule key_sum_cong)
  fix i
  have eq: "filter (\<lambda>x. ev_key (snd x) = i \<and> B \<le> ev_bucket (snd x)) (filter (\<lambda>x. \<not> ev_bucket (snd x) < minutes_before now m) xs)
      = filter (\<lambda>x. ev_key (snd x) = i \<and> B \<le> ev_bucket (snd x)) xs" for xs
    using assms by (auto intro!: filter_cong)
  have "trows (rl_events (prune_old_events m now t)) =
      filter (\<lambda>x. \<not> ev_bucket (snd x) < minutes_before now m) (trows (rl_events t))"
    by (simp add: prune_old_events_def t_delete_def)
  then show "window_sum f i B (prune_old_events m now t) = window_sum f i B t"
    by (simp only: window_sum_eq eq)
qed (simp add: get_key_by_value_def prune_old_events_def)

lemma in_update: "e \<in> set (trows (t_update Q g u)) \<Longrightarrow> \<exists>e' \<in> set (trows u). snd e = snd e' \<or> snd e = g (snd e')"
  by (auto simp: t_update_def split: if_splits) force+

lemma keys_ok_keys:
  assumes "keys_ok t"
  shows "keys_ok (upsert_key v l n now t)" "keys_ok (touch_key v now t)"
  using assms
  by (auto simp: keys_ok_def upsert_key_def touch_key_def intro: tb.ok_ins tb.ok_upd le_SucI split: option.split)

lemma keys_ok_prune: "keys_ok t \<Longrightarrow> keys_ok (prune_old_events m now t)"
proof -
  assume "keys_ok t"
  then have "t_ok (t_delete Q (rl_events t))" for Q by (simp add: keys_ok_def tb.ok_del)
  moreover have "set (trows (t_delete Q (rl_events t))) \<subseteq> set (trows (rl_events t))" for Q by (auto simp: t_delete_def)
  ultimately show ?thesis using \<open>keys_ok t\<close> unfolding keys_ok_def prune_old_events_def by auto
qed

lemma keys_ok_event:
  assumes "keys_ok t" "i \<le> tseq (rl_keys t)"
  shows "keys_ok (upsert_event i b p q t)"
proof (cases "t_get (\<lambda>x. ev_key (snd x) = i \<and> ev_bucket (snd x) = b) (rl_events t)")
  case None
  have "t_ok (snd (t_insert r (rl_events t)))" for r using assms(1) by (intro tb.ok_ins) (simp add: keys_ok_def)
  then show ?thesis using None assms by (auto simp: keys_ok_def upsert_event_def)
next
  case (Some x)
  let ?u = "t_update (by_id (fst x)) (\<lambda>r. r\<lparr>ev_requests := ev_requests r + p, ev_blocked := ev_blocked r + q\<rparr>) (rl_events t)"
  have "t_ok ?u" using assms(1) by (intro tb.ok_upd) (simp add: keys_ok_def)
  moreover have "ev_key (snd e) \<le> tseq (rl_keys t)" if "e \<in> set (trows ?u)" for e
    using in_update [OF that] assms(1) by (auto simp: keys_ok_def)
  ultimately show ?thesis using Some assms(1) by (simp add: keys_ok_def upsert_event_def)
qed

text \<open>Everything from the minute \<open>h\<close> on is counted.\<close>

definition counts_log :: "string \<Rightarrow> request_log \<Rightarrow> rl_store \<Rightarrow> bool" where
  "counts_log h xs t \<longleftrightarrow> keys_ok t \<and> (\<forall>k B. h \<le> B \<longrightarrow>
     key_sum ev_requests k B t = log_sum (\<lambda>_. 1) k B xs \<and> key_sum ev_blocked k B t = log_sum of_bool k B xs)"

lemma log_sum_snoc: "log_sum w k B (xs @ [(v, now, bl)]) = log_sum w k B xs + (if k = v \<and> B \<le> bucket now then w bl else 0)"
  by (auto simp: log_sum_def)

definition recorded :: "string \<Rightarrow> bool \<Rightarrow> int \<Rightarrow> rl_store \<Rightarrow> rl_store" where
  "recorded v bl now t =
     (let t1 = upsert_key v None None now t; i = fst (the (get_key_by_value v t1))
      in prune_old_events history_retention_minutes now (touch_key v now (upsert_event i (bucket now) 1 (of_bool bl) t1)))"

lemma record_usage_eq:
  assumes "v \<noteq> []"
  shows "tables (snd (record_api_key_request v bl now d)) = recorded v bl now (tables d)"
proof -
  obtain x where "get_key_by_value v (upsert_key v None None now (tables d)) = Some x"
    using upsert_key_present by blast
  then show ?thesis using assms
    by (simp add: record_api_key_request_def ensure_key_row_def op_simps recorded_def Let_def of_bool_def)
qed

lemma counts_log_recorded:
  assumes "counts_log h xs t" "h \<le> minutes_before now history_retention_minutes"
  shows "counts_log (minutes_before now history_retention_minutes) (xs @ [(v, now, bl)]) (recorded v bl now t)"
proof -
  let ?h = "minutes_before now history_retention_minutes" and ?u = "upsert_key v None None now t"
  obtain x where x: "get_key_by_value v ?u = Some x" using upsert_key_present by blast
  have ok: "keys_ok t" "keys_ok ?u" using assms(1) by (simp_all add: counts_log_def keys_ok_keys)
  have "x \<in> set (trows (rl_keys ?u))" using t_get_Some [OF x [unfolded get_key_by_value_def]] by blast
  then have "fst x \<le> tseq (rl_keys ?u)" using ok(2) by (auto simp: keys_ok_def t_ok_def)
  then have ok3: "keys_ok (recorded v bl now t)"
    using ok(2) x by (simp add: recorded_def Let_def keys_ok_event keys_ok_keys keys_ok_prune)
  have s: "key_sum f k B (recorded v bl now t) = key_sum f k B t + (if k = v \<and> B \<le> bucket now then c else 0)"
    if "?h \<le> B" "f = ev_requests \<and> c = 1 \<or> f = ev_blocked \<and> c = of_bool bl" for f k B c
    using that x key_sum_upsert_event [OF ok(2) x that(2)]
    by (simp add: recorded_def Let_def key_sum_prune key_sum_touch key_sum_upsert_key ok(1))
  have "key_sum ev_requests k B t = log_sum (\<lambda>_. 1) k B xs \<and> key_sum ev_blocked k B t = log_sum of_bool k B xs"
    if "?h \<le> B" for k B
    using assms that unfolding counts_log_def by (meson order_trans)
  then show ?thesis using ok3 s [of _ ev_requests 1] s [of _ ev_blocked "of_bool bl"]
    by (simp add: counts_log_def log_sum_snoc)
qed

text \<open>Requests arriving in order, from a store without keys.\<close>

definition empty_usage :: rl_store where
  "empty_usage = \<lparr>rl_keys = t_empty, rl_events = t_empty\<rparr>"

definition record_all :: "request_log \<Rightarrow> rl_store db \<Rightarrow> rl_store db" where
  "record_all xs d = foldl (\<lambda>d x. snd (record_api_key_request (fst x) (snd (snd x)) (fst (snd x)) d)) d xs"

definition arrivals_ok :: "request_log \<Rightarrow> bool" where
  "arrivals_ok xs \<longleftrightarrow> sorted (map (\<lambda>x. fst (snd x)) xs) \<and> list_all (\<lambda>x. fst x \<noteq> [] \<and> in_era (fst (snd x))) xs"

lemma minutes_before_mono:
  assumes "in_era a" "in_era b" "a \<le> b" "0 \<le> m" "m \<le> n" "n \<le> 1440"
  shows "minutes_before a n \<le> minutes_before b m"
  unfolding minutes_before_def
proof (rule bucket_mono)
  show "a - n * 60000 \<le> b - m * 60000" using assms by linarith
  show "four_digit_year (a - n * 60000)" using assms by (intro in_era_year [of a]) linarith+
  show "four_digit_year (b - m * 60000)" using assms by (intro in_era_year [of b]) linarith+
qed

lemma record_all_counts:
  assumes "arrivals_ok xs" "tables d = empty_usage"
  shows "\<exists>h. counts_log h xs (tables (record_all xs d))
    \<and> (\<forall>t. in_era t \<and> (\<forall>x \<in> set xs. fst (snd x) \<le> t) \<longrightarrow> h \<le> minutes_before t history_retention_minutes)"
  using assms(1)
proof (induction xs rule: rev_induct)
  case Nil
  have "counts_log [] [] empty_usage"
    by (simp add: counts_log_def keys_ok_def empty_usage_def log_sum_def key_sum_def get_key_by_value_def)
      (simp add: t_get_def t_empty_def)
  then show ?case using assms(2) by (intro exI [of _ "[]"]) (simp add: record_all_def)
next
  case (snoc x xs)
  obtain v now bl where x: "x = (v, now, bl)" by (cases x) auto
  have pre: "arrivals_ok xs" "v \<noteq> []" "in_era now" "\<forall>y \<in> set xs. fst (snd y) \<le> now"
    using snoc.prems by (auto simp: arrivals_ok_def x sorted_append)
  from snoc.IH [OF pre(1)] pre(3,4) obtain h where h: "counts_log h xs (tables (record_all xs d))"
    "h \<le> minutes_before now history_retention_minutes" by blast
  have "tables (record_all (xs @ [x]) d) = recorded v bl now (tables (record_all xs d))"
    using pre(2) by (simp add: record_all_def x record_usage_eq)
  then have "counts_log (minutes_before now history_retention_minutes) (xs @ [x]) (tables (record_all (xs @ [x]) d))"
    using counts_log_recorded [OF h] by (simp add: x)
  moreover have "minutes_before now history_retention_minutes \<le> minutes_before t history_retention_minutes"
    if "in_era t" "now \<le> t" for t
    using minutes_before_mono [OF pre(3) that, of 1440 1440] by (simp add: history_retention_minutes_def)
  ultimately show ?case by (intro exI [of _ "minutes_before now history_retention_minutes"]) (auto simp: x)
qed

text \<open>The reference: the requests of a key in the window, straight from the log.\<close>

definition recent_requests :: "string \<Rightarrow> int \<Rightarrow> request_log \<Rightarrow> request_log" where
  "recent_requests v now xs = filter (\<lambda>x. fst x = v \<and> minutes_before now 1 \<le> bucket (fst (snd x))) xs"

section \<open>Properties\<close>

text \<open>C10: the usage reported for a key is what the requests say: after any requests in order of time, the
  current window counts exactly the requests (and the blocked ones) of the key since the minute before
  now, although the code only keeps sums per minute and prunes old minutes on every request.\<close>

theorem current_usage_counts_requests:
  assumes "arrivals_ok xs" "in_era now" "list_all (\<lambda>x. fst (snd x) \<le> now) xs" "tables d = empty_usage"
  shows "case fst (get_api_key_current_usage v now (record_all xs d)) of
      Inr (Some u) \<Rightarrow> ku_requests u = length (recent_requests v now xs) \<and> ku_blocked u = length (filter (\<lambda>x. snd (snd x)) (recent_requests v now xs))
    | Inr None \<Rightarrow> recent_requests v now xs = []
    | Inl e \<Rightarrow> False"
proof -
  let ?t = "tables (record_all xs d)" and ?B = "minutes_before now 1"
  obtain h where h: "counts_log h xs ?t" "h \<le> minutes_before now history_retention_minutes"
    using record_all_counts [OF assms(1,4)] assms(2,3) by (auto simp: list_all_iff)
  moreover have "minutes_before now history_retention_minutes \<le> ?B"
    using minutes_before_mono [OF assms(2,2), of 1 1440] by (simp add: history_retention_minutes_def)
  ultimately have s: "key_sum ev_requests v ?B ?t = log_sum (\<lambda>_. 1) v ?B xs"
    "key_sum ev_blocked v ?B ?t = log_sum of_bool v ?B xs"
    unfolding counts_log_def by (meson order_trans)+
  have r: "log_sum (\<lambda>_. 1) v ?B xs = length (recent_requests v now xs)"
    "log_sum of_bool v ?B xs = length (filter (\<lambda>x. snd (snd x)) (recent_requests v now xs))"
    unfolding log_sum_def recent_requests_def by (induction xs) auto
  show ?thesis
    using s [unfolded r] by (cases "get_key_by_value v ?t")
      (simp_all add: get_api_key_current_usage_def op_read_def key_sum_def usage_of_def Let_def)
qed

definition sample_log :: request_log where
  "sample_log = [(''k'', 1700000000000, False), (''j'', 1700000000000, True), (''k'', 1700000030000, True)]"

theorem current_usage_counts_requests_witness:
  "case fst (get_api_key_current_usage ''k'' 1700000040000 (record_all sample_log (core_connection empty_usage))) of
     Inr (Some u) \<Rightarrow> ku_requests u = length (recent_requests ''k'' 1700000040000 sample_log)
       \<and> ku_blocked u = length (filter (\<lambda>x. snd (snd x)) (recent_requests ''k'' 1700000040000 sample_log))
   | Inr None \<Rightarrow> recent_requests ''k'' 1700000040000 sample_log = []
   | Inl e \<Rightarrow> False"
  by (rule current_usage_counts_requests)
    (simp_all add: arrivals_ok_def sample_log_def in_era_def)

text \<open>Recording a request erases the label of its key: \<open>ensureKeyRow\<close> upserts the key with a null
  label, and the upsert overwrites the stored one.\<close>

theorem request_erases_label:
  assumes "v \<noteq> []" "get_key_by_value v (tables d) = Some x" "rk_label (snd x) = Some l"
  shows "map_option (\<lambda>x. rk_label (snd x)) (get_key_by_value v (tables (snd (record_api_key_request v bl now d)))) = Some None"
  using assms(2)
  by (simp add: record_usage_eq [OF assms(1)] recorded_def Let_def upsert_key_def get_key_by_value_def touch_key_def
      prune_old_events_def upsert_event_def t_get_update_stable option.map_comp comp_def by_id_def split: option.split)

theorem request_erases_label_witness:
  "map_option (\<lambda>x. rk_label (snd x)) (get_key_by_value ''k'' (tables (snd (record_api_key_request ''k'' False 1000
     (snd (register_api_key ''k'' (Some ''mobile app'') 0 (counted_connection empty_usage))))))) = Some None"
proof (rule request_erases_label)
  show "get_key_by_value ''k'' (tables (snd (register_api_key ''k'' (Some ''mobile app'') 0 (counted_connection empty_usage)))) =
      Some (1, \<lparr>rk_value = ''k'', rk_label = Some ''mobile app'', rk_limit = None, rk_created = sql_timestamp 0, rk_seen = None\<rparr>)"
    by (simp add: register_api_key_def counted_write_tables upsert_key_def get_key_by_value_def empty_usage_def
        t_get_def t_empty_def t_insert_def)
qed simp_all

text \<open>A custom limit survives; the percentage never exceeds 100.\<close>

lemma percent_used_bounds: "0 \<le> percent_used l n" "percent_used l n \<le> 100"
  by (auto simp: percent_used_def)

end
