(* ===== verification/Handlers.thy ===== *)
theory Handlers
  imports Routes Stellar
begin

text \<open>
  Asynchronous route handlers as functions of the world they run in: steps that throw or yield a
  value, their sequence, and the \<open>try .. catch\<close> around a handler that turns what was thrown into a
  response, after the parsed body has passed \<open>validate\<close>.  The handler of one request runs without
  another in between.
\<close>

text \<open>A step of an asynchronous handler: what it throws or yields, and the world after it.\<close>

type_synonym ('s, 'x) act = "'s \<Rightarrow> (thrown + 'x) \<times> 's"

definition act_return :: "'x \<Rightarrow> ('s, 'x) act" where
  "act_return x a = (Inr x, a)"

definition act_bind :: "('s, 'x) act \<Rightarrow> ('x \<Rightarrow> ('s, 'y) act) \<Rightarrow> ('s, 'y) act" where
  "act_bind m f a = (case m a of (Inl e, a') \<Rightarrow> (Inl e, a') | (Inr x, a') \<Rightarrow> f x a')"

definition rpc_thrown :: "rpc_error \<Rightarrow> thrown" where
  "rpc_thrown e = \<lparr>err_type = None, err_status = (case e_status e of None \<Rightarrow> 0 | Some s \<Rightarrow> s),
     err_code = e_code e, err_message = e_message e, err_detail = None, err_stack = []\<rparr>"

definition act_pure :: "rpc_error + 'x \<Rightarrow> ('s, 'x) act" where
  "act_pure r a = (case r of Inl e \<Rightarrow> (Inl (rpc_thrown e), a) | Inr x \<Rightarrow> (Inr x, a))"

definition act_js :: "'x res \<Rightarrow> ('s, 'x) act" where
  "act_js r a = (case r of Inl e \<Rightarrow> (Inl (thrown_of e), a) | Inr x \<Rightarrow> (Inr x, a))"

fun act_map :: "('x \<Rightarrow> ('s, 'y) act) \<Rightarrow> 'x list \<Rightarrow> ('s, 'y list) act" where
  "act_map f [] = act_return []"
| "act_map f (x # xs) = act_bind (f x) (\<lambda>y. act_bind (act_map f xs) (\<lambda>ys. act_return (y # ys)))"

text \<open>
  The \<open>catch\<close> of the routes: an error with a status is answered, any other goes to the central
  handler.  \<open>JSON.stringify\<close> leaves out an undefined message.
\<close>

definition answer_error :: "(thrown \<Rightarrow> string option) \<Rightarrow> thrown \<Rightarrow> response" where
  "answer_error code e =
     (if err_status e = 0 then error_handler e
      else case err_message e of
             Some m \<Rightarrow> send_error (err_status e) (code e) m []
           | None \<Rightarrow> \<lparr>rstatus = err_status e,
               rbody = JObj (filter (\<lambda>p. fst p \<notin> {''message'', ''error''})
                         (build_error_payload (err_status e) (code e) [] []))\<rparr>)"

definition handled :: "(thrown \<Rightarrow> string option) \<Rightarrow> ('s, response) act \<Rightarrow> 's \<Rightarrow> response \<times> 's" where
  "handled code m a = (case m a of (Inl e, a') \<Rightarrow> (answer_error code e, a') | (Inr r, a') \<Rightarrow> (r, a'))"

definition validated ::
  "schema \<Rightarrow> (js_value \<Rightarrow> (string \<times> string) list) \<Rightarrow> (js_value \<Rightarrow> 's \<Rightarrow> response \<times> 's)
    \<Rightarrow> js_value \<Rightarrow> 's \<Rightarrow> response \<times> 's" where
  "validated s issues h b a = (case validate s issues b of Respond r \<Rightarrow> (r, a) | Next d \<Rightarrow> h d a)"

definition no_code :: "thrown \<Rightarrow> string option" where
  "no_code e = None"

definition text_field :: "string \<Rightarrow> js_value \<Rightarrow> string" where
  "text_field k d = the (str_of (field k d))"

lemmas act_simps = act_return_def act_bind_def act_pure_def act_js_def

end
