(* ===== verification/TransactionRoutes.thy ===== *)
theory TransactionRoutes
  imports Handlers AuditLog Finality Websocket Idempotency
begin

text \<open>
  The routes that build transactions: \<open>routes/_shared.js\<close>, \<open>routes/distribute.js\<close>,
  \<open>routes/initialize.js\<close> and \<open>routes/batch-distribute.js\<close>, from the parsed body on.  A request runs in
  the world \<open>app\<close> of the modules it calls: the network and fee cache of the Stellar client, the
  database, the finality trackers, the WebSocket registry, and the contracts passed to
  \<open>invalidateContract\<close>, a function these modules import and no module exports.  The encoders of the SDK
  and \<open>sha256\<close> are the parameter \<open>host\<close>.  The request runs without another in between; the clock is
  read once.  Tracing, metrics and logging are left out.
\<close>

record 's app =
  net :: "'s world"
  store :: "ledger db"
  trackers :: tracker_state
  sockets :: ws_state
  invalidated :: "string list"

record 'a host =
  ho_address :: "string \<Rightarrow> rpc_error + 'a"
  ho_u32 :: "rat \<Rightarrow> 'a"
  ho_vec :: "'a list \<Rightarrow> 'a"
  ho_bytes :: "8 word list \<Rightarrow> 'a"
  ho_sha256_hex :: "'a \<Rightarrow> string"
  ho_bigint_error :: "js_value \<Rightarrow> string"    \<comment> \<open>message of a failing \<open>BigInt(v)\<close>\<close>

definition act_db :: "'x ledger_op \<Rightarrow> ('s app, 'x) act" where
  "act_db m a = (case m (store a) of
     (Inl e, d) \<Rightarrow> (Inl (thrown_of e), a\<lparr>store := d\<rparr>) | (Inr x, d) \<Rightarrow> (Inr x, a\<lparr>store := d\<rparr>))"

definition act_build ::
  "('s, 'a, 'c, 't) sdk \<Rightarrow> string \<Rightarrow> string \<Rightarrow> string \<Rightarrow> 'a list \<Rightarrow> ('s app, string) act" where
  "act_build sdk wallet contract meth args a =
     (case retry_build_tx sdk wallet contract meth args (net a) of
        (Inl e, _, w) \<Rightarrow> (Inl (rpc_thrown e), a\<lparr>net := w\<rparr>)
      | (Inr xdr, _, w) \<Rightarrow> (Inr xdr, a\<lparr>net := w\<rparr>))"

definition invalidate_contract :: "string \<Rightarrow> 's app \<Rightarrow> 's app" where
  "invalidate_contract c a = a\<lparr>invalidated := invalidated a @ [c]\<rparr>"

definition act_broadcast :: "string \<Rightarrow> (string \<times> json) list \<Rightarrow> 's app \<Rightarrow> 's app" where
  "act_broadcast c m a = a\<lparr>sockets := snd (broadcast_to_contract c m (sockets a))\<rparr>"

section \<open>routes/_shared.js\<close>

text \<open>Tracking is best effort: what \<open>startTracking\<close> throws is only logged.\<close>

definition act_track :: "nat \<Rightarrow> int \<Rightarrow> ('s app, unit) act" where
  "act_track i now a =
     (case start_tracking i None now (store a, trackers a) of
        (_, d, ts) \<Rightarrow> (Inr (), a\<lparr>store := d, trackers := ts\<rparr>))"

text \<open>The transaction is built twice; the result of the first build is not used.\<close>

definition build_and_record_transaction ::
  "('s, 'a, 'c, 't) sdk \<Rightarrow> string \<Rightarrow> string \<Rightarrow> string \<Rightarrow> 'a list \<Rightarrow> string \<Rightarrow> (string \<times> json) list
    \<Rightarrow> string option \<Rightarrow> string option \<Rightarrow> int \<Rightarrow> ('s app, string \<times> nat) act" where
  "build_and_record_transaction sdk contract wallet type args action meta amount token now =
     act_bind (act_build sdk wallet contract type args) (\<lambda>_.
     act_bind (act_db (record_transaction contract type wallet amount token now)) (\<lambda>i.
     act_bind (act_build sdk wallet contract type args) (\<lambda>xdr.
     act_bind (act_db (add_audit_log contract action (Some wallet)
        (JObj (obj_spread [(''transactionId'', JNum (int i))] meta)) now)) (\<lambda>_.
     act_bind (act_track i now) (\<lambda>_.
     act_return (xdr, i))))))"

definition xdr_response :: "string \<Rightarrow> nat \<Rightarrow> response" where
  "xdr_response xdr i = \<lparr>rstatus = 200, rbody = JObj [(''xdr'', JStr xdr), (''transactionId'', JNum (int i))]\<rparr>"

section \<open>routes/distribute.js\<close>

definition distribution_event :: "string \<Rightarrow> nat \<Rightarrow> int \<Rightarrow> js_value \<Rightarrow> (string \<times> json) list" where
  "distribution_event contract i now d =
     [(''type'', JStr ''distribution_completed''), (''contractId'', JStr contract),
      (''transactionId'', JNum (int i)), (''timestamp'', JStr (to_iso now)),
      (''requestedAmount'', opt_json (str_of (field ''requestedAmount'' d))),
      (''tokenId'', opt_json (str_of (field ''tokenId'' d)))]"

definition distribute_handler ::
  "('s, 'a, 'c, 't) sdk \<Rightarrow> 'a host \<Rightarrow> int \<Rightarrow> js_value \<Rightarrow> 's app \<Rightarrow> response \<times> 's app" where
  "distribute_handler sdk h now d =
     (let contract = text_field ''contractId'' d; wallet = text_field ''walletAddress'' d;
          token = text_field ''tokenId'' d
      in handled no_code
           (act_bind (act_pure (ho_address h token)) (\<lambda>t.
            act_bind (build_and_record_transaction sdk contract wallet ''distribute'' [t]
               ''distribution_initiated'' [(''tokenId'', JStr token)] None (Some token) now) (\<lambda>(xdr, i) a.
            (Inr (xdr_response xdr i),
             act_broadcast contract (distribution_event contract i now d) (invalidate_contract contract a))))))"

definition distribute_route ::
  "(string \<Rightarrow> bool) \<Rightarrow> (js_value \<Rightarrow> (string \<times> string) list) \<Rightarrow> ('s, 'a, 'c, 't) sdk \<Rightarrow> 'a host \<Rightarrow> int
    \<Rightarrow> js_value \<Rightarrow> 's app \<Rightarrow> response \<times> 's app" where
  "distribute_route strkey issues sdk h now =
     validated (distribute_schema strkey) issues (distribute_handler sdk h now)"

section \<open>routes/initialize.js\<close>

fun each_ok :: "('x \<Rightarrow> rpc_error + 'y) \<Rightarrow> 'x list \<Rightarrow> rpc_error + 'y list" where
  "each_ok f [] = Inr []"
| "each_ok f (x # xs) =
     (case f x of Inl e \<Rightarrow> Inl e
      | Inr y \<Rightarrow> (case each_ok f xs of Inl e \<Rightarrow> Inl e | Inr ys \<Rightarrow> Inr (y # ys)))"

definition collaborators_of :: "js_value \<Rightarrow> string list" where
  "collaborators_of d = map (\<lambda>v. the (str_of v)) (arr_of (field ''collaborators'' d))"

definition shares_of :: "js_value \<Rightarrow> rat list" where
  "shares_of d = map num_of (arr_of (field ''shares'' d))"

definition initialize_args :: "'a host \<Rightarrow> js_value \<Rightarrow> rpc_error + 'a list" where
  "initialize_args h d =
     (case each_ok (ho_address h) (collaborators_of d) of
        Inl e \<Rightarrow> Inl e
      | Inr cs \<Rightarrow> Inr [ho_vec h cs, ho_vec h (map (ho_u32 h) (shares_of d))])"

definition initialize_hashes :: "'a host \<Rightarrow> js_value \<Rightarrow> rpc_error + string list" where
  "initialize_hashes h d = (case initialize_args h d of Inl e \<Rightarrow> Inl e | Inr vs \<Rightarrow> Inr (map (ho_sha256_hex h) vs))"

definition shares_json :: "js_value \<Rightarrow> json" where
  "shares_json d = JArr (map (\<lambda>q. JNum (floor q)) (shares_of d))"

definition count_json :: "js_value \<Rightarrow> json" where
  "count_json d = JNum (int (length (collaborators_of d)))"

text \<open>The argument \<open>method\<close> is not used: the contract function called is \<open>type\<close>.\<close>

definition build_initialize_transaction ::
  "('s, 'a, 'c, 't) sdk \<Rightarrow> js_value \<Rightarrow> 'a list \<Rightarrow> string \<Rightarrow> (string \<times> json) list \<Rightarrow> int
    \<Rightarrow> ('s app, response) act" where
  "build_initialize_transaction sdk d args type meta now =
     (let contract = text_field ''contractId'' d
      in act_bind (build_and_record_transaction sdk contract (text_field ''walletAddress'' d) type args
             (if type = ''initialize_commit'' then ''initialization_committed'' else ''contract_initialized'')
             meta None None now) (\<lambda>(xdr, i) a.
           (Inr (xdr_response xdr i), invalidate_contract contract a)))"

definition act_initialized :: "('s, 'a, 'c, 't) sdk \<Rightarrow> string \<Rightarrow> ('s app, bool) act" where
  "act_initialized sdk contract a =
     (case on_network (is_contract_initialized sdk contract) (net a) of
        (Inl e, w) \<Rightarrow> (Inl (rpc_thrown e), a\<lparr>net := w\<rparr>)
      | (Inr b, w) \<Rightarrow> (Inr b, a\<lparr>net := w\<rparr>))"

definition commit_handler ::
  "('s, 'a, 'c, 't) sdk \<Rightarrow> 'a host \<Rightarrow> int \<Rightarrow> js_value \<Rightarrow> 's app \<Rightarrow> response \<times> 's app" where
  "commit_handler sdk h now d = handled err_code
     (act_bind (act_initialized sdk (text_field ''contractId'' d)) (\<lambda>b.
       if b then act_return (send_error 409 (Some ''already_initialized'') ''Contract is already initialized.'' [])
       else act_bind (act_pure (initialize_hashes h d)) (\<lambda>hs.
            act_bind (act_js (bytes32_to_scval (hs ! 0))) (\<lambda>b0.
            act_bind (act_js (bytes32_to_scval (hs ! 1))) (\<lambda>b1.
            build_initialize_transaction sdk d [ho_bytes h b0, ho_bytes h b1] ''initialize_commit''
              [(''collaboratorsHash'', JStr (hs ! 0)), (''sharesHash'', JStr (hs ! 1)),
               (''collaboratorCount'', count_json d)] now)))))"

text \<open>
  The arguments are evaluated outside any \<open>try\<close>: when the encoder throws, the promise of the handler is
  rejected, which Express 4 ignores, and no response is sent.
\<close>

definition reveal_handler ::
  "('s, 'a, 'c, 't) sdk \<Rightarrow> 'a host \<Rightarrow> int \<Rightarrow> js_value \<Rightarrow> 's app \<Rightarrow> response option \<times> 's app" where
  "reveal_handler sdk h now d a =
     (case initialize_args h d of
        Inl e \<Rightarrow> (None, a)
      | Inr args \<Rightarrow>
          (case handled err_code (build_initialize_transaction sdk d args ''initialize_reveal''
              [(''collaboratorCount'', count_json d), (''shares'', shares_json d)] now) a of
             (r, a') \<Rightarrow> (Some r, a')))"

definition initialize_handler ::
  "('s, 'a, 'c, 't) sdk \<Rightarrow> 'a host \<Rightarrow> int \<Rightarrow> js_value \<Rightarrow> 's app \<Rightarrow> response \<times> 's app" where
  "initialize_handler sdk h now d = handled err_code
     (act_bind (act_initialized sdk (text_field ''contractId'' d)) (\<lambda>b.
       if b then act_return (send_error 409 (Some ''already_initialized'')
         ''Contract is already initialized. Cannot re-initialize an existing contract.'' [])
       else act_bind (act_pure (initialize_args h d)) (\<lambda>args.
            build_initialize_transaction sdk d args ''initialize''
              [(''collaboratorCount'', count_json d), (''shares'', shares_json d)] now)))"

section \<open>routes/batch-distribute.js\<close>

record payment =
  pay_contract :: string
  pay_token :: string
  pay_amount :: js_value

definition payment_of :: "js_value \<Rightarrow> payment" where
  "payment_of v = \<lparr>pay_contract = text_field ''contractId'' v, pay_token = text_field ''tokenId'' v,
     pay_amount = field ''amount'' v\<rparr>"

text \<open>\<open>BigInt(v)\<close> on what the schema leaves: a number, or a string of digits.\<close>

definition big_int :: "'a host \<Rightarrow> js_value \<Rightarrow> int res" where
  "big_int h v =
     (case v of
        VNum (Finite q) \<Rightarrow> if of_int \<lfloor>q\<rfloor> = q then Inr (floor q) else Inl (RangeErr (ho_bigint_error h v))
      | VStr s \<Rightarrow> if positive_numeral s then Inr (int (digits_val s)) else Inl (PlainError (ho_bigint_error h v))
      | _ \<Rightarrow> Inl (TypeErr (ho_bigint_error h v)))"

fun total_amount :: "'a host \<Rightarrow> payment list \<Rightarrow> int \<Rightarrow> int res" where
  "total_amount h [] n = Inr n"
| "total_amount h (p # ps) n =
     (if pay_amount p = VUndef then total_amount h ps n
      else case big_int h (pay_amount p) of Inl e \<Rightarrow> Inl e | Inr k \<Rightarrow> total_amount h ps (n + k))"

text \<open>The contracts seen before, in the order in which they are seen again.\<close>

fun duplicate_contracts :: "string list \<Rightarrow> string list \<Rightarrow> payment list \<Rightarrow> string list" where
  "duplicate_contracts seen dup [] = dup"
| "duplicate_contracts seen dup (p # ps) =
     (let c = pay_contract p
      in duplicate_contracts (set_add c seen) (if c \<in> set seen then set_add c dup else dup) ps)"

definition record_payment ::
  "'a host \<Rightarrow> string \<Rightarrow> int \<Rightarrow> payment \<Rightarrow> ('s app, nat \<times> 'a batch_op) act" where
  "record_payment h wallet now p =
     act_bind (act_db (record_transaction (pay_contract p) ''distribute'' wallet None (Some (pay_token p)) now)) (\<lambda>i.
     act_bind (act_pure (ho_address h (pay_token p))) (\<lambda>t.
     act_return (i, \<lparr>bo_contract = pay_contract p, bo_method = ''distribute'', bo_args = [t]\<rparr>)))"

definition act_batch ::
  "('s, 'a, 'c, 't) sdk \<Rightarrow> string \<Rightarrow> 'a batch_op list \<Rightarrow> ('s app, batch_result list) act" where
  "act_batch sdk wallet bops a =
     (case batch_build sdk wallet bops (net a) of
        (Inl e, w) \<Rightarrow> (Inl (rpc_thrown e), a\<lparr>net := w\<rparr>)
      | (Inr rs, w) \<Rightarrow> (Inr rs, a\<lparr>net := w\<rparr>))"

record payment_result =
  pr_contract :: string
  pr_token :: string
  pr_transaction :: nat
  pr_xdr :: "string option"
  pr_error :: "string option"

definition batch_event :: "payment \<Rightarrow> nat \<Rightarrow> int \<Rightarrow> (string \<times> json) list" where
  "batch_event p i now =
     [(''type'', JStr ''distribution_completed''), (''contractId'', JStr (pay_contract p)),
      (''transactionId'', JNum (int i)), (''timestamp'', JStr (to_iso now)),
      (''tokenId'', JStr (pay_token p)), (''batch'', JBool True)]"

definition settle_payment ::
  "string \<Rightarrow> int \<Rightarrow> batch_result \<times> nat \<times> payment \<Rightarrow> ('s app, payment_result) act" where
  "settle_payment wallet now x =
     (case x of (r, i, p) \<Rightarrow>
       (case r of
          BatchOk xdr \<Rightarrow>
            act_bind (act_db (add_audit_log (pay_contract p) ''distribution_initiated'' (Some wallet)
               (JObj [(''transactionId'', JNum (int i)), (''tokenId'', JStr (pay_token p)), (''batch'', JBool True)])
               now)) (\<lambda>_ a.
            (Inr \<lparr>pr_contract = pay_contract p, pr_token = pay_token p, pr_transaction = i,
                  pr_xdr = Some xdr, pr_error = None\<rparr>,
             act_broadcast (pay_contract p) (batch_event p i now) (invalidate_contract (pay_contract p) a)))
        | BatchErr e \<Rightarrow>
            act_return \<lparr>pr_contract = pay_contract p, pr_token = pay_token p, pr_transaction = i,
              pr_xdr = None, pr_error = Some (pe_message e)\<rparr>))"

definition payment_result_json :: "payment_result \<Rightarrow> json" where
  "payment_result_json r = JObj
     ([(''contractId'', JStr (pr_contract r)), (''tokenId'', JStr (pr_token r)),
       (''transactionId'', JNum (int (pr_transaction r)))] @
      (case pr_xdr r of None \<Rightarrow> [] | Some x \<Rightarrow> [(''xdr'', JStr x)]) @
      (case pr_error r of None \<Rightarrow> [] | Some m \<Rightarrow> [(''error'', JStr m)]))"

text \<open>\<open>results.filter((r) => r.error)\<close>: an empty message is not counted.\<close>

definition batch_response :: "payment list \<Rightarrow> int \<Rightarrow> payment_result list \<Rightarrow> response" where
  "batch_response ps n rs =
     (let failures = length (filter (\<lambda>r. truthy (pr_error r)) rs)
      in \<lparr>rstatus = 200, rbody = JObj
           [(''success'', JBool (failures = 0)), (''totalOperations'', JNum (int (length ps))),
            (''totalAmount'', JStr (int_str n)), (''succeeded'', JNum (int (length rs) - int failures)),
            (''failed'', JNum (int failures)), (''maxBatchSize'', JNum (int max_batch_operations)),
            (''results'', JArr (map payment_result_json rs))]\<rparr>)"

definition run_batch ::
  "('s, 'a, 'c, 't) sdk \<Rightarrow> 'a host \<Rightarrow> int \<Rightarrow> string \<Rightarrow> payment list \<Rightarrow> ('s app, payment_result list) act" where
  "run_batch sdk h now wallet ps =
     act_bind (act_map (record_payment h wallet now) ps) (\<lambda>pending.
     act_bind (act_batch sdk wallet (map snd pending)) (\<lambda>built.
     act_map (settle_payment wallet now) (zip built (zip (map fst pending) ps))))"

definition batch_distribute_handler ::
  "('s, 'a, 'c, 't) sdk \<Rightarrow> 'a host \<Rightarrow> int \<Rightarrow> js_value \<Rightarrow> 's app \<Rightarrow> response \<times> 's app" where
  "batch_distribute_handler sdk h now d =
     (let wallet = text_field ''walletAddress'' d; ps = map payment_of (arr_of (field ''operations'' d));
          dup = duplicate_contracts [] [] ps
      in handled no_code
           (act_bind (act_js (total_amount h ps 0)) (\<lambda>n.
            if dup \<noteq> [] then act_return (send_error 400 (Some ''duplicate_contract_in_batch'')
                (''Batch contains duplicate contractId(s): '' @ join_comma dup) [])
            else act_bind (run_batch sdk h now wallet ps) (\<lambda>rs. act_return (batch_response ps n rs)))))"

definition batch_distribute_route ::
  "(string \<Rightarrow> bool) \<Rightarrow> (js_value \<Rightarrow> (string \<times> string) list) \<Rightarrow> ('s, 'a, 'c, 't) sdk \<Rightarrow> 'a host \<Rightarrow> int
    \<Rightarrow> js_value \<Rightarrow> 's app \<Rightarrow> response \<times> 's app" where
  "batch_distribute_route strkey issues sdk h now =
     validated (batch_distribute_schema strkey) issues (batch_distribute_handler sdk h now)"

text \<open>\<open>POST /tokens\<close> validates nothing but presence; the contract and the wallet are strings or absent.\<close>

definition batch_tokens_handler ::
  "string option \<Rightarrow> string option \<Rightarrow> js_value \<Rightarrow> string option \<Rightarrow> int \<Rightarrow> 's app \<Rightarrow> response \<times> 's app" where
  "batch_tokens_handler contract wallet tokens key now a =
     (if \<not> truthy contract \<or> \<not> truthy wallet \<or> (case tokens of VArr _ \<Rightarrow> False | _ \<Rightarrow> True)
      then (send_error 400 (Some ''invalid_request'') ''contractId, walletAddress, and tokens array are required'' [], a)
      else if arr_of tokens = [] then (send_error 400 (Some ''invalid_request'') ''tokens array cannot be empty'' [], a)
      else if 10 < length (arr_of tokens)
      then (send_error 400 (Some ''invalid_request'') ''maximum 10 tokens per batch_distribute call'' [], a)
      else handled no_code
        (act_bind (act_db (record_transaction (the contract) ''batch_distribute'' (the wallet) None None now)) (\<lambda>i.
         act_bind (act_db (add_audit_log (the contract) ''batch_distribution_initiated'' wallet
            (JObj ([(''transactionId'', JNum (int i)), (''tokens'', JArr (map (\<lambda>t. opt_json (str_of t)) (arr_of tokens)))] @
                   (case key of None \<Rightarrow> [] | Some k \<Rightarrow> [(''idempotencyKey'', JStr k)]))) now)) (\<lambda>_ a1.
         (Inr \<lparr>rstatus = 200, rbody = JObj
            [(''success'', JBool True), (''transactionId'', JNum (int i)), (''contractId'', JStr (the contract)),
             (''tokensIncluded'', JNum (int (length (arr_of tokens)))), (''xdr'', JStr ''AAAA...placeholder...''),
             (''gasEstimate'', JStr ''250000''), (''totalFee'', JStr ''100'')]\<rparr>,
          invalidate_contract (the contract) a1)))) a)"


section \<open>Running the steps\<close>

definition ledger_of :: "'s app \<Rightarrow> ledger" where
  "ledger_of a = tables (store a)"

lemma act_record_counted:
  assumes "counting (store a)" "type \<in> set tx_types"
  shows "act_db (record_transaction c type w amount token now) a =
    (Inr (Suc (tseq (transactions (ledger_of a)))),
     a\<lparr>store := (bump (store a))\<lparr>tables := (ledger_of a)\<lparr>transactions :=
       snd (t_insert (new_tx c type w amount token now) (transactions (ledger_of a)))\<rparr>\<rparr>\<rparr>)"
  using assms by (simp add: act_db_def record_transaction_def counted_write_ok insert_tx_def t_insert_def
      ledger_of_def split_beta Let_def)

lemma act_record_refused:
  "type \<notin> set tx_types \<Longrightarrow>
   act_db (record_transaction c type w amount token now) a = (Inl (thrown_of check_failed), a)"
  by (simp add: act_db_def record_transaction_def op_raise_def)

lemma act_audit_counted:
  assumes "counting (store a)" "action \<in> set audit_actions"
  shows "act_db (add_audit_log c action u details now) a =
    (Inr (), a\<lparr>store := (bump (store a))\<lparr>tables := (ledger_of a)\<lparr>audit_log :=
       snd (t_insert \<lparr>au_contract = c, au_action = action, au_user = u,
         au_details = strip_sensitive_details details, au_timestamp = sql_timestamp now\<rparr>
         (audit_log (ledger_of a)))\<rparr>\<rparr>\<rparr>)"
  using assms by (simp add: act_db_def accepted_audit counted_write_ok insert_audit_def ledger_of_def)

text \<open>A build touches the network only.\<close>

lemma act_build_frame:
  "act_build sdk w c m args a = (x, a') \<Longrightarrow> a' = a\<lparr>net := net a'\<rparr>
    \<and> (\<forall>e. x = Inl e \<longrightarrow> (\<exists>r. e = rpc_thrown r))"
  by (auto simp: act_build_def split: prod.splits sum.splits)

section \<open>Distributions\<close>

text \<open>What exists refers to what exists: ids of finality records and of trackers are ids in use.\<close>

definition up_to :: "nat \<Rightarrow> nat list \<Rightarrow> bool" where
  "up_to n = list_all (\<lambda>i. i \<le> n)"

definition app_ok :: "'s app \<Rightarrow> bool" where
  "app_ok a \<longleftrightarrow> t_ok (transactions (ledger_of a))
     \<and> up_to (tseq (transactions (ledger_of a))) (map (\<lambda>x. fin_transaction (snd x)) (trows (finality (ledger_of a))))
     \<and> up_to (tseq (transactions (ledger_of a))) (map fst (active_trackers (trackers a)))"

lemma up_to_simps [simp]: "up_to n []" "up_to n (x # xs) \<longleftrightarrow> x \<le> n \<and> up_to n xs"
  "up_to n (xs @ ys) \<longleftrightarrow> up_to n xs \<and> up_to n ys"
  by (simp_all add: up_to_def)

lemma up_to_mono: "up_to n xs \<Longrightarrow> n \<le> m \<Longrightarrow> up_to m xs"
  by (auto simp: up_to_def list_all_iff)

lemma up_to_fresh: "up_to n xs \<Longrightarrow> Suc n \<notin> set xs"
  by (auto simp: up_to_def list_all_iff)

definition distribution_row :: "js_value \<Rightarrow> int \<Rightarrow> tx_row" where
  "distribution_row d now = new_tx (text_field ''contractId'' d) ''distribute'' (text_field ''walletAddress'' d)
     None (Some (text_field ''tokenId'' d)) now"

definition distribution_audit :: "js_value \<Rightarrow> nat \<Rightarrow> int \<Rightarrow> audit_row" where
  "distribution_audit d i now = \<lparr>au_contract = text_field ''contractId'' d,
     au_action = ''distribution_initiated'', au_user = Some (text_field ''walletAddress'' d),
     au_details = JObj [(''transactionId'', JNum (int i))], au_timestamp = sql_timestamp now\<rparr>"

lemma distribution_details:
  "strip_sensitive_details (JObj (obj_spread [(''transactionId'', JNum (int i))] [(''tokenId'', JStr t)])) =
   JObj [(''transactionId'', JNum (int i))]"
proof -
  have "sensitive_detail_key ''tokenId''" "\<not> sensitive_detail_key ''transactionId''" by code_simp+
  then show ?thesis by (simp add: strip_sensitive_details_def obj_spread_def)
qed

lemma finality_record_counted:
  assumes "counting d" "t_get (fin_is i) (finality (tables d)) = None"
    and "t_get (by_id i) (transactions (tables d)) = Some x"
  shows "create_finality_record i h now d = (Inr (Suc (tseq (finality (tables d)))),
    (bump d)\<lparr>tables := (tables d)\<lparr>finality := snd (t_insert (new_finality i h now) (finality (tables d)))\<rparr>\<rparr>)"
  using assms by (simp add: create_finality_record_def counted_write_ok t_insert_def)

lemma act_track_fresh:
  assumes c: "counting (store a)" and m: "\<not> map_has (active_trackers (trackers a)) i"
    and f: "t_get (fin_is i) (finality (ledger_of a)) = None"
    and x: "t_get (by_id i) (transactions (ledger_of a)) = Some x"
  shows "act_track i now a = (Inr (), a\<lparr>store := (bump (store a))\<lparr>tables := (ledger_of a)\<lparr>finality :=
       snd (t_insert (new_finality i None now) (finality (ledger_of a)))\<rparr>\<rparr>,
     trackers := (trackers a)\<lparr>active_trackers := map_set i (next_controller (trackers a)) (active_trackers (trackers a)),
       next_controller := next_controller (trackers a) + 1\<rparr>\<rparr>)"
  unfolding act_track_def start_tracking_def fst_conv snd_conv
    finality_record_counted [OF c f [unfolded ledger_of_def] x [unfolded ledger_of_def]]
  using m by (simp add: ledger_of_def)

lemma fresh_transaction:
  assumes "app_ok a" "i = Suc (tseq (transactions (ledger_of a)))"
  shows "\<not> map_has (active_trackers (trackers a)) i"
    "t_get (fin_is i) (finality (ledger_of a)) = None"
    "t_get (by_id i) (snd (t_insert r (transactions (ledger_of a)))) = Some (i, r)"
proof -
  show "\<not> map_has (active_trackers (trackers a)) i"
    using assms up_to_fresh [of _ "map fst (active_trackers (trackers a))"]
    by (auto simp: app_ok_def map_has_def map_of_eq_None_iff)
  show "t_get (fin_is i) (finality (ledger_of a)) = None"
    using assms by (fastforce simp: app_ok_def t_get_def fin_is_def find_None_iff up_to_def list_all_iff)
  show "t_get (by_id i) (snd (t_insert r (transactions (ledger_of a)))) = Some (i, r)"
    using t_get_inserted [of "transactions (ledger_of a)" r] assms by (simp add: app_ok_def t_insert_def)
qed

text \<open>What a request did: at most one pending transaction, and all or nothing of the rest.\<close>

definition only_pending :: "tx_row \<Rightarrow> 's app \<Rightarrow> 's app \<Rightarrow> bool" where
  "only_pending row a a' \<longleftrightarrow>
     (\<exists>t. (t = transactions (ledger_of a) \<or> t = snd (t_insert row (transactions (ledger_of a))))
        \<and> ledger_of a' = (ledger_of a)\<lparr>transactions := t\<rparr>)
     \<and> trackers a' = trackers a \<and> sockets a' = sockets a \<and> invalidated a' = invalidated a"


definition recorded :: "tx_row \<Rightarrow> (nat \<Rightarrow> audit_row) \<Rightarrow> int \<Rightarrow> 's app \<Rightarrow> 's app \<Rightarrow> bool" where
  "recorded row audit now a a' \<longleftrightarrow>
     (let l = ledger_of a; i = Suc (tseq (transactions l))
      in ledger_of a' = l\<lparr>transactions := snd (t_insert row (transactions l)),
           audit_log := snd (t_insert (audit i) (audit_log l)),
           finality := snd (t_insert (new_finality i None now) (finality l))\<rparr>
         \<and> active_trackers (trackers a') = map_set i (next_controller (trackers a)) (active_trackers (trackers a)))"

lemma build_and_record_cases:
  assumes c: "counting (store a)" and ok: "app_ok a"
    and ty: "type \<in> set tx_types" "action \<in> set audit_actions"
    and run: "build_and_record_transaction sdk contract wallet type args action meta amount token now a = (x, a')"
  shows "(\<exists>xdr. x = Inr (xdr, Suc (tseq (transactions (ledger_of a))))
       \<and> recorded (new_tx contract type wallet amount token now) (\<lambda>i. \<lparr>au_contract = contract,
           au_action = action, au_user = Some wallet, au_details = strip_sensitive_details
             (JObj (obj_spread [(''transactionId'', JNum (int i))] meta)), au_timestamp = sql_timestamp now\<rparr>) now a a'
       \<and> sockets a' = sockets a \<and> invalidated a' = invalidated a)
    \<or> (\<exists>e. x = Inl e \<and> only_pending (new_tx contract type wallet amount token now) a a')"
proof -
  let ?row = "new_tx contract type wallet amount token now" and ?l = "ledger_of a"
  let ?i = "Suc (tseq (transactions (ledger_of a)))" and ?t = "snd (t_insert ?row (transactions (ledger_of a)))"
  obtain x1 a1 where b1: "act_build sdk wallet contract type args a = (x1, a1)" by fastforce
  from act_build_frame [OF b1] obtain w1 where a1: "a1 = a\<lparr>net := w1\<rparr>" by blast
  define a2 where "a2 = a1\<lparr>store := (bump (store a))\<lparr>tables := ?l\<lparr>transactions := ?t\<rparr>\<rparr>\<rparr>"
  have r: "act_db (record_transaction contract type wallet amount token now) a1 = (Inr ?i, a2)"
    using act_record_counted [of a1, OF _ ty(1)] c by (simp add: a1 a2_def ledger_of_def)
  obtain x3 a3 where b3: "act_build sdk wallet contract type args a2 = (x3, a3)" by fastforce
  from act_build_frame [OF b3] obtain w3 where a3: "a3 = a2\<lparr>net := w3\<rparr>" by blast
  show ?thesis
  proof (cases x1)
    case (Inl e)
    then have "only_pending ?row a a'" "x = Inl e"
      using run b1 by (auto simp: build_and_record_transaction_def act_bind_def a1 only_pending_def ledger_of_def)
    then show ?thesis by blast
  next
    case x1: (Inr y1)
    show ?thesis
    proof (cases x3)
      case (Inl e)
      then have "only_pending ?row a a'" "x = Inl e"
        using run b1 x1 r b3
        by (auto simp: build_and_record_transaction_def act_bind_def a1 a2_def a3 only_pending_def ledger_of_def)
      then show ?thesis by blast
    next
      case x3: (Inr xdr)
      have c3: "counting (store a3)" using c by (simp add: a3 a2_def)
      let ?au = "\<lparr>au_contract = contract, au_action = action, au_user = Some wallet,
        au_details = strip_sensitive_details (JObj (obj_spread [(''transactionId'', JNum (int ?i))] meta)),
        au_timestamp = sql_timestamp now\<rparr>"
      define a4 where "a4 = a3\<lparr>store := (bump (store a3))\<lparr>tables := (ledger_of a3)\<lparr>audit_log :=
        snd (t_insert ?au (audit_log (ledger_of a3)))\<rparr>\<rparr>\<rparr>"
      have au: "act_db (add_audit_log contract action (Some wallet)
          (JObj (obj_spread [(''transactionId'', JNum (int ?i))] meta)) now) a3 = (Inr (), a4)"
        unfolding a4_def by (rule act_audit_counted [OF c3 ty(2)])
      have l4: "ledger_of a4 = ?l\<lparr>transactions := ?t, audit_log := snd (t_insert ?au (audit_log ?l))\<rparr>"
        "trackers a4 = trackers a" "sockets a4 = sockets a" "invalidated a4 = invalidated a"
        by (simp_all add: a4_def a3 a2_def a1 ledger_of_def)
      have c4: "counting (store a4)" using c by (simp add: a4_def a3 a2_def)
      have "\<not> map_has (active_trackers (trackers a4)) ?i" "t_get (fin_is ?i) (finality (ledger_of a4)) = None"
        "t_get (by_id ?i) (transactions (ledger_of a4)) = Some (?i, ?row)"
        using fresh_transaction(1,2) [OF ok refl] fresh_transaction(3) [OF ok refl, of ?row] by (simp_all add: l4)
      note t = act_track_fresh [OF c4 this, of now]
      have "x = Inr (xdr, ?i)" "a' = snd (act_track ?i now a4)"
        using run b1 x1 r b3 x3 au t by (simp_all add: build_and_record_transaction_def act_bind_def act_return_def)
      moreover have "recorded ?row (\<lambda>i. \<lparr>au_contract = contract, au_action = action, au_user = Some wallet,
          au_details = strip_sensitive_details (JObj (obj_spread [(''transactionId'', JNum (int i))] meta)),
          au_timestamp = sql_timestamp now\<rparr>) now a (snd (act_track ?i now a4))"
        by (simp add: t recorded_def Let_def l4) (simp add: l4 ledger_of_def)
      moreover have "sockets (snd (act_track ?i now a4)) = sockets a" "invalidated (snd (act_track ?i now a4)) = invalidated a"
        by (simp_all add: t l4)
      ultimately show ?thesis by blast
    qed
  qed
qed


lemma app_ok_only_pending:
  assumes "app_ok a" "only_pending row a a'"
  shows "app_ok a'"
proof -
  have "t_ok (snd (t_insert row (transactions (ledger_of a))))"
    using assms(1) by (auto simp: app_ok_def intro: tb.ok_ins)
  then show ?thesis
    using assms by (auto simp: app_ok_def only_pending_def t_insert_def intro: up_to_mono)
qed

lemma app_ok_recorded:
  assumes "app_ok a" "recorded row audit now a a'"
  shows "app_ok a'"
proof -
  have "t_ok (snd (t_insert row (transactions (ledger_of a))))"
    using assms(1) by (auto simp: app_ok_def intro: tb.ok_ins)
  moreover have "up_to (tseq (transactions (ledger_of a))) xs \<Longrightarrow> up_to (Suc (tseq (transactions (ledger_of a)))) xs" for xs
    by (rule up_to_mono [OF _ le_SucI [OF le_refl]])
  ultimately show ?thesis using assms
    by (simp add: app_ok_def recorded_def Let_def t_insert_def keys_update new_finality_def)
qed

lemma distribute_handler_cases:
  assumes c: "counting (store a)" and ok: "app_ok a" and run: "distribute_handler sdk h now d a = (r, a')"
  shows "(\<exists>xdr. r = xdr_response xdr (Suc (tseq (transactions (ledger_of a))))
        \<and> recorded (distribution_row d now) (\<lambda>i. distribution_audit d i now) now a a'
        \<and> invalidated a' = invalidated a @ [text_field ''contractId'' d])
     \<or> (\<exists>e. r = answer_error no_code e \<and> only_pending (distribution_row d now) a a')"
proof (cases "ho_address h (text_field ''tokenId'' d)")
  case (Inl e)
  then show ?thesis using run
    by (auto simp: distribute_handler_def handled_def act_simps only_pending_def Let_def)
next
  case (Inr v)
  let ?c = "text_field ''contractId'' d" and ?w = "text_field ''walletAddress'' d" and ?t = "text_field ''tokenId'' d"
  obtain x a1 where br: "build_and_record_transaction sdk ?c ?w ''distribute'' [v] ''distribution_initiated''
      [(''tokenId'', JStr ?t)] None (Some ?t) now a = (x, a1)" by fastforce
  have ty: "''distribute'' \<in> set tx_types" "''distribution_initiated'' \<in> set audit_actions"
    by (simp_all add: tx_types_def audit_actions_def)
  from build_and_record_cases [OF c ok ty br] show ?thesis
    using run br Inr by (auto simp: distribute_handler_def handled_def act_simps Let_def
        distribution_row_def distribution_audit_def distribution_details recorded_def ledger_of_def
        invalidate_contract_def act_broadcast_def)
qed

lemma distribute_route_valid:
  "distribute_schema strkey b = Some d \<Longrightarrow>
   distribute_route strkey issues sdk h now b a = distribute_handler sdk h now d a"
  by (simp add: distribute_route_def validated_def validate_def)




text \<open>On the connection of \<open>core.js\<close> no distribution succeeds: the pending transaction is stored, the
  write counter throws, and the request is answered with 500 and never audited.\<close>

theorem core_distribution_fails:
  assumes c: "\<not> counting (store a)" and d: "distribute_schema strkey b = Some d"
    and v: "ho_address h (text_field ''tokenId'' d) = Inr v"
    and built: "retry_build_tx sdk (text_field ''walletAddress'' d) (text_field ''contractId'' d) ''distribute'' [v]
      (net a) = (Inr xdr, ds, w)"
    and run: "distribute_route strkey issues sdk h now b a = (r, a')"
  shows "rstatus r = 500 \<and> ledger_of a' = (ledger_of a)\<lparr>transactions :=
    snd (t_insert (distribution_row d now) (transactions (ledger_of a)))\<rparr>"
proof -
  have ty: "''distribute'' \<in> set tx_types" by (simp add: tx_types_def)
  have rec: "act_db (record_transaction c ''distribute'' u None t now) (a\<lparr>net := w\<rparr>) =
      (Inl (thrown_of (ReferenceError ''_writeCount is not defined'')), a\<lparr>net := w, store := (store a)\<lparr>tables :=
        (ledger_of a)\<lparr>transactions := snd (t_insert (new_tx c ''distribute'' u None t now)
          (transactions (ledger_of a)))\<rparr>\<rparr>\<rparr>)" for c u t
    using c ty by (simp add: act_db_def record_transaction_def counted_write_fails insert_tx_def ledger_of_def
        split_beta Let_def)
  show ?thesis using run
    by (simp add: distribute_route_valid [OF d] distribute_handler_def handled_def act_simps v
        build_and_record_transaction_def act_build_def built rec Let_def)
      (auto simp: answer_error_def thrown_of_def error_handler_def send_error_def ledger_of_def distribution_row_def)
qed


section \<open>Initialization\<close>

lemma act_initialized_fails:
  assumes "\<And>i q x. sdk_account sdk i q = Inr x \<Longrightarrow> length i = 56"
  shows "\<exists>e. act_initialized sdk c a = (Inl e, a)"
proof -
  have "length dummy_account_id \<noteq> 56" by (simp add: dummy_account_id_def)
  then have "\<exists>e. sdk_account sdk dummy_account_id 0 = Inl e" using assms by (metis sumE)
  then show ?thesis
    by (auto simp: act_initialized_def on_network_def is_contract_initialized_def simulate_call_def split: sum.split)
qed

lemma reveal_build_fails:
  "\<exists>e w. build_initialize_transaction sdk d args ''initialize_reveal'' meta now a = (Inl e, a\<lparr>net := w\<rparr>)"
proof -
  let ?c = "text_field ''contractId'' d" and ?w = "text_field ''walletAddress'' d"
  obtain x a1 where b: "act_build sdk ?w ?c ''initialize_reveal'' args a = (x, a1)" by fastforce
  from act_build_frame [OF b] obtain w where a1: "a1 = a\<lparr>net := w\<rparr>" by blast
  have "''initialize_reveal'' \<notin> set tx_types" by (simp add: tx_types_def)
  note r = act_record_refused [OF this]
  show ?thesis
    by (cases x) (auto simp: build_initialize_transaction_def act_bind_def build_and_record_transaction_def b a1 r Let_def)
qed

text \<open>No contract is ever initialized through the backend: the two routes that ask whether it already is
  never get an answer, and the transaction type of the third is refused by the database.  Nothing is
  recorded, audited, tracked or announced.\<close>

theorem initialization_never_succeeds:
  assumes "\<And>i q x. sdk_account sdk i q = Inr x \<Longrightarrow> length i = 56"
  shows "(\<exists>e. initialize_handler sdk h now d a = (answer_error err_code e, a))
    \<and> (\<exists>e. commit_handler sdk h now d a = (answer_error err_code e, a))
    \<and> (reveal_handler sdk h now d a = (None, a)
       \<or> (\<exists>e w. reveal_handler sdk h now d a = (Some (answer_error err_code e), a\<lparr>net := w\<rparr>)))"
proof -
  obtain e where e: "act_initialized sdk (text_field ''contractId'' d) a = (Inl e, a)"
    using act_initialized_fails [of sdk "text_field ''contractId'' d" a] assms by metis
  have "reveal_handler sdk h now d a = (None, a)
       \<or> (\<exists>e w. reveal_handler sdk h now d a = (Some (answer_error err_code e), a\<lparr>net := w\<rparr>))"
  proof (cases "initialize_args h d")
    case (Inr args)
    obtain e3 w where "build_initialize_transaction sdk d args ''initialize_reveal''
        [(''collaboratorCount'', count_json d), (''shares'', shares_json d)] now a = (Inl e3, a\<lparr>net := w\<rparr>)"
      using reveal_build_fails by blast
    then have "reveal_handler sdk h now d a = (Some (answer_error err_code e3), a\<lparr>net := w\<rparr>)"
      using Inr by (simp add: reveal_handler_def handled_def)
    then show ?thesis by blast
  qed (simp add: reveal_handler_def)
  moreover have "initialize_handler sdk h now d a = (answer_error err_code e, a)"
    "commit_handler sdk h now d a = (answer_error err_code e, a)"
    unfolding initialize_handler_def commit_handler_def handled_def act_bind_def e by simp_all
  ultimately show ?thesis by blast
qed

section \<open>Batches\<close>

text \<open>\<open>POST /batch-distribute/tokens\<close> refuses every request: the type \<open>batch_distribute\<close> fails the CHECK
  constraint, so a well-formed request is a 500 and leaves nothing behind.\<close>

theorem token_batches_refused:
  "(\<exists>m. batch_tokens_handler contract wallet tokens key now a = (send_error 400 (Some ''invalid_request'') m [], a))
   \<or> batch_tokens_handler contract wallet tokens key now a = (error_handler (thrown_of check_failed), a)"
proof -
  have "''batch_distribute'' \<notin> set tx_types" by (simp add: tx_types_def)
  note r = act_record_refused [OF this]
  show ?thesis unfolding batch_tokens_handler_def handled_def act_bind_def r
    by (auto simp: answer_error_def thrown_of_def check_failed_def)
qed

lemma set_add_contract [simp]: "set (set_add x xs) = insert x (set xs)"
  by (auto simp: set_add_def)

lemma duplicate_contracts_keep: "dup \<noteq> [] \<Longrightarrow> duplicate_contracts seen dup ps \<noteq> []"
  by (induction ps arbitrary: seen dup) (auto simp: Let_def set_add_def)

lemma duplicate_contracts_none:
  "duplicate_contracts seen [] ps = [] \<longleftrightarrow> distinct (map pay_contract ps) \<and> set seen \<inter> set (map pay_contract ps) = {}"
proof (induction ps arbitrary: seen)
  case (Cons p ps)
  have "set_add x [] \<noteq> []" for x :: string by (simp add: set_add_def)
  then show ?case
    using Cons.IH [of "set_add (pay_contract p) seen"] duplicate_contracts_keep [of "set_add (pay_contract p) []"]
    by (auto simp: Let_def)
qed simp


text \<open>Rows inserted one after the other.\<close>

definition insert_rows :: "'r list \<Rightarrow> 'r table \<Rightarrow> 'r table" where
  "insert_rows rs t = fold (\<lambda>r t. snd (t_insert r t)) rs t"

lemma insert_rows_simps [simp]:
  "insert_rows [] t = t" "insert_rows (r # rs) t = insert_rows rs (snd (t_insert r t))"
  by (simp_all add: insert_rows_def)

lemma upt_length_Cons: "[n..<n + length (x # xs)] = n # [Suc n..<Suc n + length xs]"
  using upt_conv_Cons [of n "n + length (x # xs)"] by (simp del: upt_Suc)

lemma trows_insert_rows:
  "trows (insert_rows rs t) = trows t @ zip [Suc (tseq t)..<Suc (tseq t) + length rs] rs"
proof (induction rs arbitrary: t)
  case (Cons r rs)
  show ?case unfolding upt_length_Cons using Cons.IH [of "snd (t_insert r t)"] by (simp add: t_insert_def del: upt_Suc)
qed simp

definition payment_row :: "string \<Rightarrow> int \<Rightarrow> payment \<Rightarrow> tx_row" where
  "payment_row wallet now p = new_tx (pay_contract p) ''distribute'' wallet None (Some (pay_token p)) now"

lemma record_payments_ok:
  assumes "counting (store a)" "act_map (record_payment h wallet now) ps a = (Inr pending, a')"
  shows "map fst pending = [Suc (tseq (transactions (ledger_of a)))..<Suc (tseq (transactions (ledger_of a))) + length ps]
    \<and> map (bo_contract \<circ> snd) pending = map pay_contract ps
    \<and> (\<exists>d. a' = a\<lparr>store := d\<rparr> \<and> counting d \<and> tables d = (ledger_of a)\<lparr>transactions :=
          insert_rows (map (payment_row wallet now) ps) (transactions (ledger_of a))\<rparr>)"
  using assms
proof (induction ps arbitrary: a pending)
  case Nil
  then show ?case by (auto simp: act_return_def ledger_of_def intro!: exI [of _ "store a"])
next
  case (Cons p ps)
  let ?t = "transactions (ledger_of a)" and ?r = "payment_row wallet now p"
  let ?a1 = "a\<lparr>store := (bump (store a))\<lparr>tables := (ledger_of a)\<lparr>transactions := snd (t_insert ?r ?t)\<rparr>\<rparr>\<rparr>"
  have ty: "''distribute'' \<in> set tx_types" by (simp add: tx_types_def)
  have step: "act_db (record_transaction (pay_contract p) ''distribute'' wallet None (Some (pay_token p)) now) a
      = (Inr (Suc (tseq ?t)), ?a1)"
    using act_record_counted [OF Cons.prems(1) ty] by (simp add: payment_row_def)
  have rp: "record_payment h wallet now p a = (case ho_address h (pay_token p) of
      Inl e \<Rightarrow> (Inl (rpc_thrown e), ?a1)
    | Inr t \<Rightarrow> (Inr (Suc (tseq ?t), \<lparr>bo_contract = pay_contract p, bo_method = ''distribute'', bo_args = [t]\<rparr>), ?a1))"
    unfolding record_payment_def act_bind_def step by (simp add: act_simps split: sum.split)
  from Cons.prems(2) obtain t rest where
    t: "ho_address h (pay_token p) = Inr t"
    and rest: "act_map (record_payment h wallet now) ps ?a1 = (Inr rest, a')"
    and pending: "pending = (Suc (tseq ?t), \<lparr>bo_contract = pay_contract p, bo_method = ''distribute'', bo_args = [t]\<rparr>) # rest"
    by (auto simp: act_bind_def rp act_return_def split: sum.splits prod.splits)
  have "counting (store ?a1)" using Cons.prems(1) by simp
  note IH = Cons.IH [OF this rest]
  show ?case using IH unfolding upt_length_Cons pending
    by (auto simp: ledger_of_def t_insert_def simp del: upt_Suc)
qed


definition payment_outcome :: "batch_result \<times> nat \<times> payment \<Rightarrow> payment_result" where
  "payment_outcome x = (case x of (r, i, p) \<Rightarrow> \<lparr>pr_contract = pay_contract p, pr_token = pay_token p,
     pr_transaction = i, pr_xdr = (case r of BatchOk xdr \<Rightarrow> Some xdr | BatchErr e \<Rightarrow> None),
     pr_error = (case r of BatchOk xdr \<Rightarrow> None | BatchErr e \<Rightarrow> Some (pe_message e))\<rparr>)"

definition payment_audit :: "string \<Rightarrow> int \<Rightarrow> payment_result \<Rightarrow> audit_row" where
  "payment_audit wallet now q = \<lparr>au_contract = pr_contract q, au_action = ''distribution_initiated'',
     au_user = Some wallet, au_details = JObj [(''transactionId'', JNum (int (pr_transaction q))), (''batch'', JBool True)],
     au_timestamp = sql_timestamp now\<rparr>"

definition built_ok :: "payment_result \<Rightarrow> bool" where
  "built_ok q \<longleftrightarrow> pr_xdr q \<noteq> None"

lemma batch_details:
  "strip_sensitive_details (JObj [(''transactionId'', JNum n), (''tokenId'', JStr t), (''batch'', JBool True)]) =
   JObj [(''transactionId'', JNum n), (''batch'', JBool True)]"
proof -
  have "sensitive_detail_key ''tokenId''" "\<not> sensitive_detail_key ''transactionId''"
    "\<not> sensitive_detail_key ''batch''" by code_simp+
  then show ?thesis by (simp add: strip_sensitive_details_def)
qed

lemma settle_payment_counted:
  assumes "counting (store a)"
  shows "\<exists>a1. settle_payment wallet now x a = (Inr (payment_outcome x), a1) \<and> counting (store a1)
    \<and> transactions (ledger_of a1) = transactions (ledger_of a)
    \<and> audit_log (ledger_of a1) = insert_rows (map (payment_audit wallet now) (filter built_ok [payment_outcome x]))
         (audit_log (ledger_of a))"
proof -
  obtain r i p where x: "x = (r, i, p)" by (cases x) auto
  have ty: "''distribution_initiated'' \<in> set audit_actions" by (simp add: audit_actions_def)
  note au = act_audit_counted [OF assms ty]
  show ?thesis
    by (cases r) (use assms in \<open>simp_all add: x settle_payment_def act_bind_def au batch_details payment_outcome_def
      built_ok_def payment_audit_def act_broadcast_def invalidate_contract_def ledger_of_def act_return_def\<close>)
qed

lemma insert_rows_append [simp]: "insert_rows (xs @ ys) t = insert_rows ys (insert_rows xs t)"
  by (simp add: insert_rows_def)

lemma settle_payments_counted:
  assumes "counting (store a)"
  shows "\<exists>a1. act_map (settle_payment wallet now) xs a = (Inr (map payment_outcome xs), a1) \<and> counting (store a1)
    \<and> transactions (ledger_of a1) = transactions (ledger_of a)
    \<and> audit_log (ledger_of a1) = insert_rows (map (payment_audit wallet now) (filter built_ok (map payment_outcome xs)))
         (audit_log (ledger_of a))"
  using assms
proof (induction xs arbitrary: a)
  case (Cons x xs)
  from settle_payment_counted [OF Cons.prems, of wallet now x] obtain a1 where
    a1: "settle_payment wallet now x a = (Inr (payment_outcome x), a1)" "counting (store a1)"
      "transactions (ledger_of a1) = transactions (ledger_of a)"
      "audit_log (ledger_of a1) = insert_rows (map (payment_audit wallet now) (filter built_ok [payment_outcome x]))
         (audit_log (ledger_of a))" by blast
  from Cons.IH [OF a1(2)] a1 show ?case by (auto simp: act_bind_def act_return_def)
qed (simp add: act_return_def)


text \<open>What a batch that is answered has done.\<close>

definition batch_settled ::
  "('s, 'a, 'c, 't) sdk \<Rightarrow> int \<Rightarrow> string \<Rightarrow> payment list \<Rightarrow> 's app \<Rightarrow> payment_result list \<Rightarrow> 's app \<Rightarrow> bool" where
  "batch_settled sdk now wallet ps a rs a' \<longleftrightarrow>
     (\<exists>bops built. map bo_contract bops = map pay_contract ps
        \<and> fst (batch_build sdk wallet bops (net a)) = Inr built \<and> length built = length ps
        \<and> rs = map payment_outcome (zip built (zip [Suc (tseq (transactions (ledger_of a)))..<
              Suc (tseq (transactions (ledger_of a))) + length ps] ps)))
     \<and> transactions (ledger_of a') = insert_rows (map (payment_row wallet now) ps) (transactions (ledger_of a))
     \<and> audit_log (ledger_of a') = insert_rows (map (payment_audit wallet now) (filter built_ok rs)) (audit_log (ledger_of a))"

lemma length_batch_build:
  "batch_build sdk wallet bops w = (Inr built, w') \<Longrightarrow> length built = length bops"
  by (auto simp: batch_build_def Let_def split: if_splits prod.splits sum.splits dest: arg_cong [where f = fst])
    (metis fst_conv length_batch_each)+

lemma run_batch_settled:
  assumes c: "counting (store a)" and run: "run_batch sdk h now wallet ps a = (Inr rs, a')"
  shows "batch_settled sdk now wallet ps a rs a'"
proof -
  from run obtain pending a1 where
    rec: "act_map (record_payment h wallet now) ps a = (Inr pending, a1)"
    by (auto simp: run_batch_def act_bind_def split: sum.splits prod.splits)
  from record_payments_ok [OF c rec] obtain d where
    pend: "map fst pending = [Suc (tseq (transactions (ledger_of a)))..<Suc (tseq (transactions (ledger_of a))) + length ps]"
      "map (bo_contract \<circ> snd) pending = map pay_contract ps"
    and a1: "a1 = a\<lparr>store := d\<rparr>" "counting d"
      "tables d = (ledger_of a)\<lparr>transactions := insert_rows (map (payment_row wallet now) ps) (transactions (ledger_of a))\<rparr>"
    by blast
  from run rec obtain built w where b: "batch_build sdk wallet (map snd pending) (net a) = (Inr built, w)"
    and settle: "act_map (settle_payment wallet now) (zip built (zip (map fst pending) ps)) (a1\<lparr>net := w\<rparr>) = (Inr rs, a')"
    by (auto simp: run_batch_def act_bind_def act_batch_def a1 split: sum.splits prod.splits)
  have "counting (store (a1\<lparr>net := w\<rparr>))" by (simp add: a1)
  from settle_payments_counted [OF this, of wallet now "zip built (zip (map fst pending) ps)"] settle
  have r: "rs = map payment_outcome (zip built (zip (map fst pending) ps))"
    "transactions (ledger_of a') = transactions (ledger_of a1)"
    "audit_log (ledger_of a') = insert_rows (map (payment_audit wallet now) (filter built_ok rs)) (audit_log (ledger_of a1))"
    by (auto simp: ledger_of_def)
  have l: "length pending = length ps" using arg_cong [OF pend(2), of length] by simp
  show ?thesis
    unfolding batch_settled_def
  proof (intro conjI exI)
    show "map bo_contract (map snd pending) = map pay_contract ps" using pend(2) by simp
    show "fst (batch_build sdk wallet (map snd pending) (net a)) = Inr built" by (simp add: b)
    show "length built = length ps" using length_batch_build [OF b] l by simp
    show "rs = map payment_outcome (zip built (zip [Suc (tseq (transactions (ledger_of a)))..<
        Suc (tseq (transactions (ledger_of a))) + length ps] ps))" unfolding pend(1) [symmetric] by (rule r(1))
    show "transactions (ledger_of a') = insert_rows (map (payment_row wallet now) ps) (transactions (ledger_of a))"
      using r(2) by (simp add: a1 ledger_of_def)
    show "audit_log (ledger_of a') = insert_rows (map (payment_audit wallet now) (filter built_ok rs)) (audit_log (ledger_of a))"
      using r(3) by (simp add: a1 ledger_of_def)
  qed
qed



section \<open>Examples\<close>

lemma demo_distribute:
  assumes "fee_cache w = Some \<lparr>fe_fee = f, fe_fetched_at = 0\<rparr>" "2 \<le> network w"
  shows "retry_build_tx demo_sdk u c ''distribute'' args w =
    (Inr (''distribute'' @ int_str 7), [], w\<lparr>network := network w + 2\<rparr>)"
proof -
  have "build_tx demo_sdk u c ''distribute'' args w = (Inr (''distribute'' @ int_str 7), w\<lparr>network := network w + 2\<rparr>)"
    using assms by (simp add: build_tx_def demo_account demo_fee assemble_and_prepare_def on_network_def)
      (simp add: demo_sdk_def on_network_def)
  then show ?thesis by (simp add: retry_build_tx_def numeral_3_eq_3)
qed

definition demo_host :: "unit host" where
  "demo_host = \<lparr>ho_address = (\<lambda>_. Inr ()), ho_u32 = (\<lambda>_. ()), ho_vec = (\<lambda>_. ()), ho_bytes = (\<lambda>_. ()),
     ho_sha256_hex = (\<lambda>_. []), ho_bigint_error = (\<lambda>_. [])\<rparr>"

definition demo_app :: "ledger db \<Rightarrow> nat app" where
  "demo_app d = \<lparr>net = late_world, store = d, trackers = no_trackers, sockets = ws_init, invalidated = []\<rparr>"

definition demo_distribution :: js_value where
  "demo_distribution = VObj [(''contractId'', VStr sample_contract),
     (''walletAddress'', VStr (sample_account (CHR ''A''))), (''tokenId'', VStr sample_contract)]"

lemma demo_distribution_valid:
  "distribute_schema (\<lambda>_. True) demo_distribution = Some demo_distribution"
proof -
  have "base32_char (CHR ''A'')" by (simp add: base32_char_def is_upper_def)
  then show ?thesis
    by (simp add: distribute_schema_def z_object_def demo_distribution_def prop_of_def contract_address_def
        z_string_def [of contract_regex] sample_account_regex stellar_address_sample z_optional_def)
qed

lemma demo_app_simps [simp]:
  "store (demo_app d) = d" "ledger_of (demo_app d) = tables d" "net (demo_app d) = late_world"
  "trackers (demo_app d) = no_trackers"
  by (simp_all add: demo_app_def ledger_of_def)

lemma demo_app_ok: "app_ok (demo_app (counted_connection empty_ledger))" "app_ok (demo_app (core_connection empty_ledger))"
  by (simp_all add: app_ok_def empty_ledger_def no_trackers_def) (simp_all add: t_empty_def)


lemma demo_app_build:
  "retry_build_tx demo_sdk u c ''distribute'' args (net (demo_app d)) =
    (Inr (''distribute'' @ int_str 7), [], late_world\<lparr>network := 7\<rparr>)"
  "retry_build_tx demo_sdk u c ''distribute'' args (late_world\<lparr>network := 7\<rparr>) =
    (Inr (''distribute'' @ int_str 7), [], late_world\<lparr>network := 9\<rparr>)"
  using demo_distribute [of late_world "''250''"] demo_distribute [of "late_world\<lparr>network := 7\<rparr>" "''250''"]
  by (simp_all add: late_world_def demo_world_def)

theorem core_distribution_fails_witness:
  "rstatus (fst (distribute_route (\<lambda>_. True) (\<lambda>_. []) demo_sdk demo_host 9 demo_distribution
     (demo_app (core_connection empty_ledger)))) = 500"
  using core_distribution_fails [OF _ demo_distribution_valid _ demo_app_build(1), of "core_connection empty_ledger" demo_host
      "()" "\<lambda>_. []" 9] by (simp add: demo_host_def) (metis prod.collapse)

theorem initialization_never_succeeds_witness:
  "\<exists>e. initialize_handler demo_sdk demo_host 9 demo_distribution (demo_app (core_connection empty_ledger))
    = (answer_error err_code e, demo_app (core_connection empty_ledger))"
  by (rule initialization_never_succeeds [THEN conjunct1]) (simp add: demo_sdk_def split: if_splits)

lemma demo_act_build:
  "net a = late_world \<or> net a = late_world\<lparr>network := 7\<rparr> \<Longrightarrow> act_build demo_sdk u c ''distribute'' args a =
     (Inr (''distribute'' @ int_str 7), a\<lparr>net := late_world\<lparr>network := network (net a) + 2\<rparr>\<rparr>)"
  using demo_app_build [of u c args] by (auto simp: act_build_def) (simp_all add: late_world_def)

lemma demo_distribute_answer:
  "fst (distribute_handler demo_sdk demo_host 9 demo_distribution (demo_app (counted_connection empty_ledger)))
   = xdr_response (''distribute'' @ int_str 7) 1"
proof -
  have a: "''distribution_initiated'' \<in> set audit_actions" by (simp add: audit_actions_def)
  have t: "''distribute'' \<in> set tx_types" by (simp add: tx_types_def)
  have n: "network late_world = 5" by (simp add: late_world_def)
  show ?thesis
    by (simp add: distribute_handler_def handled_def act_simps demo_host_def build_and_record_transaction_def
        demo_act_build n act_record_counted [OF _ t] act_audit_counted [OF _ a] ledger_of_def act_track_def Let_def
        split: prod.split)
      (simp add: empty_ledger_def t_empty_def)
qed


definition demo_payments :: js_value where
  "demo_payments = VObj [(''walletAddress'', VStr (sample_account (CHR ''A''))),
     (''operations'', VArr (replicate 2 (VObj [(''contractId'', VStr sample_contract), (''tokenId'', VStr sample_contract)])))]"

lemma demo_payments_valid: "batch_distribute_schema (\<lambda>_. True) demo_payments = Some demo_payments"
proof -
  have "base32_char (CHR ''A'')" by (simp add: base32_char_def is_upper_def)
  then show ?thesis
    by (simp add: batch_distribute_schema_def z_object_def demo_payments_def prop_of_def contract_address_def
        z_string_def [of contract_regex] sample_account_regex stellar_address_sample z_optional_def z_array_def
        max_batch_operations_def numeral_2_eq_2)
qed


end
