(* ===== verification/JsDouble.thy ===== *)
theory JsDouble
  imports JsNumber
begin

text \<open>
  The rounding of a JavaScript number (an IEEE double), for the few places where a product or a
  quotient may leave the integers below \<open>2 ^ 53\<close>: \<open>to_double x\<close> is the double nearest to the
  non-negative rational \<open>x\<close>, ties to the even significand.  Values of at least \<open>2 ^ 53\<close> are halved, values
  below \<open>2 ^ 52\<close> doubled, until the significand is an integer of 53 bits.  Infinities and subnormal
  numbers are left out: no value comes near \<open>2 ^ 1024\<close> or \<open>2 ^ -1022\<close>.
\<close>

definition round_half_even :: "rat \<Rightarrow> int" where
  "round_half_even x =
     (let n = \<lfloor>x + 1 / 2\<rfloor> in if of_int n = x + 1 / 2 \<and> odd n then n - 1 else n)"

lemma floor_half_less: "2 \<le> x \<Longrightarrow> \<lfloor>x / 2\<rfloor> < \<lfloor>x\<rfloor>" for x :: rat
  by linarith

lemma ceil_double_less:
  fixes x :: rat
  assumes "0 < x" "x < 2 ^ 52"
  shows "\<lfloor>2 ^ 53 / (2 * x)\<rfloor> < \<lfloor>2 ^ 53 / x\<rfloor>"
proof -
  have "2 \<le> 2 ^ 53 / x" using assms by (simp add: field_simps)
  from floor_half_less [OF this] show ?thesis by (simp add: mult.commute)
qed

function to_double :: "rat \<Rightarrow> rat" where
  "to_double x =
     (if x \<le> 0 then 0
      else if 2 ^ 53 \<le> x then 2 * to_double (x / 2)
      else if x < 2 ^ 52 then to_double (2 * x) / 2
      else of_int (round_half_even x))"
  by pat_completeness auto

termination
proof (relation "measure (\<lambda>x. if 2 ^ 53 \<le> x then nat \<lfloor>x\<rfloor> else nat \<lfloor>2 ^ 53 / x\<rfloor>)", goal_cases)
  case 1
  show ?case by simp
next
  case (2 x)
  show ?case
  proof (cases "2 ^ 53 \<le> x / 2")
    case True
    have "\<lfloor>x / 2\<rfloor> < \<lfloor>x\<rfloor>" using 2 by (intro floor_half_less) simp
    moreover have "0 \<le> \<lfloor>x / 2\<rfloor>" using 2 by simp
    ultimately show ?thesis using True 2 by simp
  next
    case False
    have "2 ^ 53 / (x / 2) \<le> 2" using 2 by (simp add: field_simps)
    then have "nat \<lfloor>2 ^ 53 / (x / 2)\<rfloor> \<le> 2" by linarith
    moreover have "3 \<le> \<lfloor>x\<rfloor>" using 2 by (simp add: le_floor_iff)
    then have "2 < nat \<lfloor>x\<rfloor>" by linarith
    ultimately have "nat \<lfloor>2 ^ 53 / (x / 2)\<rfloor> < nat \<lfloor>x\<rfloor>" by linarith
    then show ?thesis using False 2 by (simp only: in_measure if_True if_False not_le) simp
  qed
next
  case (3 x)
  have "0 \<le> \<lfloor>2 ^ 53 / (2 * x)\<rfloor>" using 3 by simp
  then show ?case using ceil_double_less [of x] 3 by simp
qed

declare to_double.simps [simp del]

lemma round_half_even_int: "round_half_even (of_int n) = n"
proof -
  have "\<lfloor>of_int n + 1 / 2 :: rat\<rfloor> = n" by linarith
  moreover have "(of_int n :: rat) \<noteq> of_int n + 1 / 2" by simp
  ultimately show ?thesis by (simp add: round_half_even_def Let_def)
qed

lemma round_half_even_error: "\<bar>of_int (round_half_even x) - x\<bar> \<le> 1 / 2"
proof -
  have n: "of_int \<lfloor>x + 1 / 2\<rfloor> \<le> x + 1 / 2" "x + 1 / 2 < of_int \<lfloor>x + 1 / 2\<rfloor> + 1" by linarith+
  show ?thesis
  proof (cases "of_int \<lfloor>x + 1 / 2\<rfloor> = x + 1 / 2 \<and> odd \<lfloor>x + 1 / 2\<rfloor>")
    case True
    then have "round_half_even x = \<lfloor>x + 1 / 2\<rfloor> - 1" by (simp add: round_half_even_def Let_def)
    then have "of_int (round_half_even x) = x - 1 / 2" using True [THEN conjunct1] by (simp only: of_int_diff of_int_1)
    then show ?thesis by simp
  next
    case False
    then have "round_half_even x = \<lfloor>x + 1 / 2\<rfloor>" by (auto simp: round_half_even_def Let_def)
    then show ?thesis using n unfolding abs_le_iff by linarith
  qed
qed

text \<open>Integers up to \<open>2 ^ 53\<close> are doubles, and the relative error is at most \<open>2 ^ -53\<close>.\<close>

lemma to_double_exact: "0 \<le> n \<Longrightarrow> x = of_int n \<Longrightarrow> x \<le> 2 ^ 53 \<Longrightarrow> to_double x = x"
proof (induction x arbitrary: n rule: to_double.induct)
  case (1 x)
  consider "x \<le> 0" | "2 ^ 53 \<le> x" "0 < x" | "0 < x" "x < 2 ^ 52" | "2 ^ 52 \<le> x" "x < 2 ^ 53" by linarith
  then show ?case
  proof cases
    case 1
    then show ?thesis using "1.prems" by (simp add: to_double.simps)
  next
    case 2
    then have x: "x = 2 ^ 53" using "1.prems"(3) by linarith
    have "to_double (2 ^ 52) = (2 ^ 52 :: rat)"
      using round_half_even_int [of "2 ^ 52"] by (subst to_double.simps) simp
    then show ?thesis unfolding x by (subst to_double.simps) simp
  next
    case 3
    have "to_double (2 * x) = 2 * x"
      by (rule "1.IH"(2) [of "2 * n"]) (use 3 "1.prems" in simp_all)
    then show ?thesis using 3 by (simp add: to_double.simps [of x])
  next
    case 4
    then have "to_double x = of_int (round_half_even x)" by (subst to_double.simps) simp
    then show ?thesis using "1.prems"(2) round_half_even_int [of n] by simp
  qed
qed

lemma to_double_error: "0 < x \<Longrightarrow> \<bar>to_double x - x\<bar> \<le> x / 2 ^ 53"
proof (induction x rule: to_double.induct)
  case (1 x)
  consider "2 ^ 53 \<le> x" | "x < 2 ^ 52" | "2 ^ 52 \<le> x" "x < 2 ^ 53" by linarith
  then show ?case
  proof cases
    case 1
    have "\<bar>to_double (x / 2) - x / 2\<bar> \<le> x / 2 / 2 ^ 53" using "1.IH"(1) "1.prems" 1 by simp
    then have "\<bar>2 * to_double (x / 2) - x\<bar> \<le> x / 2 ^ 53" unfolding abs_le_iff by linarith
    then show ?thesis using 1 "1.prems" by (simp add: to_double.simps [of x])
  next
    case 2
    have "\<bar>to_double (2 * x) - 2 * x\<bar> \<le> 2 * x / 2 ^ 53" using "1.IH"(2) "1.prems" 2 by simp
    then have "\<bar>to_double (2 * x) / 2 - x\<bar> \<le> x / 2 ^ 53" unfolding abs_le_iff by linarith
    then show ?thesis using 2 "1.prems" by (simp add: to_double.simps [of x])
  next
    case 3
    have "(1 / 2 :: rat) \<le> x / 2 ^ 53" using 3 by simp
    then show ?thesis using 3 "1.prems" round_half_even_error [of x] by (simp add: to_double.simps [of x])
  qed
qed

text \<open>Dividing an integer below \<open>2 ^ 53\<close> and taking the floor is the exact integer division.\<close>

lemma floor_to_double_div:
  assumes "0 \<le> n" "n < 2 ^ 53" "0 < k"
  shows "\<lfloor>to_double (of_int n / of_int k)\<rfloor> = n div k"
proof -
  define q r where "q = n div k" and "r = n mod k"
  have n: "n = q * k + r" "0 \<le> r" "r < k" "0 \<le> q"
    using assms by (simp_all add: q_def r_def pos_imp_zdiv_nonneg_iff)
  let ?x = "of_int n / of_int k :: rat"
  have x: "?x = of_int q + of_int r / of_int k" using assms(3) by (simp add: n(1) field_simps)
  show ?thesis
  proof (cases "r = 0")
    case True
    have "q \<le> q * k" using n(4) assms(3) by (metis int_one_le_iff_zero_less mult_left_mono mult.right_neutral)
    then have "q \<le> 2 ^ 53" using n True assms(2) by linarith
    then have "(of_int q :: rat) \<le> of_int (2 ^ 53)" by (simp only: of_int_le_iff)
    then have "(of_int q :: rat) \<le> 2 ^ 53" by simp
    then have "to_double (of_int q) = (of_int q :: rat)" using to_double_exact [OF n(4) refl] by simp
    then show ?thesis using x True by (simp add: q_def)
  next
    case False
    then have r1: "1 \<le> r" using n by linarith
    have k: "0 < (of_int k :: rat)" using assms(3) by simp
    have "0 \<le> q * k" using n(4) assms(3) by simp
    then have "0 < n" using r1 n(1) by linarith
    then have pos: "0 < ?x" using k by simp
    have "?x / 2 ^ 53 < 1 / of_int k"
    proof -
      have "(of_int n :: rat) < of_int (2 ^ 53)" using assms(2) by (simp only: of_int_less_iff)
      then have "(of_int n :: rat) / 2 ^ 53 < 1" by simp
      then show ?thesis using k by (simp add: field_simps)
    qed
    then have e: "\<bar>to_double ?x - ?x\<bar> < 1 / of_int k" using to_double_error [OF pos] by linarith
    have "1 / of_int k \<le> (of_int r / of_int k :: rat)" using r1 k by (simp add: divide_right_mono)
    moreover have "of_int r / of_int k + 1 / of_int k \<le> (1 :: rat)"
    proof -
      have "(of_int (r + 1) :: rat) \<le> of_int k" using n(3) by (simp only: of_int_le_iff)
      then show ?thesis using k by (simp add: field_simps)
    qed
    ultimately have "of_int q \<le> to_double ?x" "to_double ?x < of_int q + 1"
      using e x by (simp_all only: abs_less_iff) linarith+
    then show ?thesis by (simp add: floor_eq_iff q_def)
  qed
qed

text \<open>Rounding commutes with doubling, so dyadic fractions with a small numerator are doubles, and what is
  rounded is a double.\<close>

lemma to_double_twice: "to_double (2 * x) = 2 * to_double x"
proof -
  consider "x \<le> 0" | "0 < x" "x < 2 ^ 52" | "2 ^ 52 \<le> x" by linarith
  then show ?thesis
  proof cases
    case 1
    then show ?thesis by (simp add: to_double.simps)
  next
    case 2
    then show ?thesis by (simp add: to_double.simps [of x])
  next
    case 3
    then show ?thesis by (subst to_double.simps) simp
  qed
qed

lemma to_double_half: "to_double (x / 2) = to_double x / 2"
  using to_double_twice [of "x / 2"] by simp

lemma to_double_dyadic: "0 \<le> n \<Longrightarrow> n \<le> 2 ^ 53 \<Longrightarrow> to_double (of_int n / 2 ^ k) = of_int n / 2 ^ k"
proof (induction k)
  case 0
  have "(of_int n :: rat) \<le> of_int (2 ^ 53)" using 0 by (simp only: of_int_le_iff)
  then show ?case using to_double_exact [OF 0(1) refl] by simp
next
  case (Suc k)
  have e: "of_int n / 2 ^ Suc k = of_int n / 2 ^ k / (2 :: rat)" by simp
  show ?case unfolding e to_double_half using Suc by simp
qed

lemma to_double_pos: "0 < x \<Longrightarrow> 0 < to_double x"
proof -
  assume x: "0 < x"
  have "x / 2 ^ 53 < x" using x by (simp add: field_simps)
  with to_double_error [OF x] show ?thesis unfolding abs_le_iff by linarith
qed

lemma to_double_nonneg: "0 \<le> to_double x"
  using to_double_pos [of x] by (cases "0 < x") (auto simp: to_double.simps [of x])

lemma to_double_idem [simp]: "to_double (to_double x) = to_double x"
proof (induction x rule: to_double.induct)
  case (1 x)
  consider "x \<le> 0" | "0 < x" "2 ^ 53 \<le> x" | "0 < x" "x < 2 ^ 52" | "2 ^ 52 \<le> x" "x < 2 ^ 53" by linarith
  then show ?case
  proof cases
    case 1
    then show ?thesis by (simp add: to_double.simps [of x]) (simp add: to_double.simps)
  next
    case 2
    then show ?thesis using "1.IH"(1) to_double_twice [of "to_double (x / 2)"] by (simp add: to_double.simps [of x])
  next
    case 3
    then show ?thesis using "1.IH"(2) to_double_half [of "to_double (2 * x)"] by (simp add: to_double.simps [of x])
  next
    case 4
    have "\<lfloor>x + 1 / 2\<rfloor> \<le> 2 ^ 53" "2 ^ 52 \<le> \<lfloor>x + 1 / 2\<rfloor>" using 4 by (simp_all add: floor_le_iff le_floor_iff)
    then have "0 \<le> round_half_even x" "round_half_even x \<le> 2 ^ 53" by (auto simp: round_half_even_def Let_def)
    then show ?thesis using 4 to_double_dyadic [of "round_half_even x" 0] by (simp add: to_double.simps [of x])
  qed
qed

end
