(* ===== verification/SecondaryRoyalties.thy ===== *)
theory SecondaryRoyalties
  imports TransactionRoutes JsDouble
begin

text \<open>
  Resale royalties: \<open>src/backend/src/database/secondary-royalties.js\<close> and
  \<open>routes/secondary-royalty.js\<close> from the parsed body on.  A sale is unique in its contract, token, owners,
  price and currency.  Prices and royalties are positive integers, stored as the decimal text they
  print as; the model keeps the integer.  The rate comes from the chain.  \<open>GET /pool\<close>, a bare SDK call,
  is left out.
\<close>

record sale_row =
  sl_contract :: string
  sl_nft :: string
  sl_previous :: string
  sl_new :: string
  sl_price :: int
  sl_token :: string
  sl_royalty :: int
  sl_rate :: nat
  sl_distributed :: bool
  sl_timestamp :: string
  sl_hash :: "string option"

record payout_record =
  sd_transaction :: nat
  sd_contract :: string
  sd_total :: int
  sd_sales :: nat
  sd_timestamp :: string

record royalty_tables =
  rt_ledger :: ledger
  rt_sales :: "sale_row table"
  rt_payouts :: "payout_record table"

type_synonym 'a royalty_op = "(royalty_tables, 'a) db_op"

section \<open>database/secondary-royalties.js\<close>

definition same_sale :: "sale_row \<Rightarrow> sale_row \<Rightarrow> bool" where
  "same_sale a b \<longleftrightarrow> sl_contract a = sl_contract b \<and> sl_nft a = sl_nft b \<and> sl_previous a = sl_previous b
     \<and> sl_new a = sl_new b \<and> sl_price a = sl_price b \<and> sl_token a = sl_token b"

definition sale_conflict :: js_error where
  "sale_conflict = SqliteError ''UNIQUE constraint failed: secondary_sales.contractId, secondary_sales.nftId, secondary_sales.previousOwner, secondary_sales.newOwner, secondary_sales.salePrice, secondary_sales.saleToken''"

definition record_secondary_sale :: "sale_row \<Rightarrow> nat royalty_op" where
  "record_secondary_sale r d =
     (if list_ex (\<lambda>x. same_sale (snd x) r) (trows (rt_sales (tables d))) then op_raise sale_conflict d
      else counted_write (\<lambda>t. let (i, s) = t_insert r (rt_sales t) in (i, t\<lparr>rt_sales := s\<rparr>)) d)"

text \<open>An absent or empty filter is left out of the query.\<close>

definition sale_matches ::
  "string \<Rightarrow> string option \<Rightarrow> string option \<Rightarrow> string option \<Rightarrow> nat \<times> sale_row \<Rightarrow> bool" where
  "sale_matches c nft since till x \<longleftrightarrow> sl_contract (snd x) = c
     \<and> given nft (\<lambda>v. sl_nft (snd x) = v) \<and> given since (\<lambda>v. v \<le> sl_timestamp (snd x))
     \<and> given till (\<lambda>v. sl_timestamp (snd x) \<le> v)"

definition get_secondary_sales ::
  "string \<Rightarrow> int \<Rightarrow> int \<Rightarrow> string option \<Rightarrow> bool \<Rightarrow> string option \<Rightarrow> string option \<Rightarrow> (nat \<times> sale_row) list royalty_op" where
  "get_secondary_sales c limit offset nft undistributed since till = op_read (\<lambda>t.
     limit_offset limit offset (order_desc (\<lambda>x. sl_timestamp (snd x))
       (t_select (\<lambda>x. sale_matches c nft since till x \<and> (undistributed \<longrightarrow> \<not> sl_distributed (snd x))) (rt_sales t))))"

definition count_secondary_sales ::
  "string \<Rightarrow> string option \<Rightarrow> string option \<Rightarrow> string option \<Rightarrow> nat royalty_op" where
  "count_secondary_sales c nft since till = op_read (\<lambda>t. t_count (sale_matches c nft since till) (rt_sales t))"

definition mark_distributed :: "nat list \<Rightarrow> royalty_tables \<Rightarrow> royalty_tables" where
  "mark_distributed ids t =
     t\<lparr>rt_sales := t_update (\<lambda>x. fst x \<in> set ids) (\<lambda>r. r\<lparr>sl_distributed := True\<rparr>) (rt_sales t)\<rparr>"

definition mark_sales_distributed :: "nat list \<Rightarrow> unit royalty_op" where
  "mark_sales_distributed ids = counted_write (\<lambda>t. ((), mark_distributed ids t))"

definition record_secondary_royalty_distribution ::
  "nat \<Rightarrow> string \<Rightarrow> int \<Rightarrow> nat \<Rightarrow> int \<Rightarrow> nat royalty_op" where
  "record_secondary_royalty_distribution tx c n k now d =
     (if t_get (by_id tx) (transactions (rt_ledger (tables d))) = None
      then op_raise (SqliteError ''FOREIGN KEY constraint failed'') d
      else counted_write (\<lambda>t. let (i, s) = t_insert \<lparr>sd_transaction = tx, sd_contract = c, sd_total = n, sd_sales = k,
             sd_timestamp = sql_timestamp now\<rparr> (rt_payouts t) in (i, t\<lparr>rt_payouts := s\<rparr>)) d)"

text \<open>\<open>LEFT JOIN transactions\<close>.\<close>

definition with_transaction :: "royalty_tables \<Rightarrow> nat \<times> payout_record \<Rightarrow> (nat \<times> payout_record) \<times> tx_row option" where
  "with_transaction t x = (x, map_option snd (t_get (by_id (sd_transaction (snd x))) (transactions (rt_ledger t))))"

definition payouts_of :: "string \<Rightarrow> royalty_tables \<Rightarrow> (nat \<times> payout_record) list" where
  "payouts_of c t = order_desc (\<lambda>x. sd_timestamp (snd x)) (t_select (\<lambda>x. sd_contract (snd x) = c) (rt_payouts t))"

definition get_secondary_royalty_distributions ::
  "string \<Rightarrow> int \<Rightarrow> int \<Rightarrow> ((nat \<times> payout_record) \<times> tx_row option) list royalty_op" where
  "get_secondary_royalty_distributions c limit offset = op_read (\<lambda>t.
     map (with_transaction t) (limit_offset limit offset (payouts_of c t)))"

text \<open>The sums are REAL in SQL; the model keeps them exact.\<close>

record royalty_stats =
  st_count :: nat
  st_royalties :: int
  st_volume :: int
  st_pool :: int
  st_last :: "((nat \<times> payout_record) \<times> tx_row option) option"

definition last_payout_time :: "string \<Rightarrow> royalty_tables \<Rightarrow> string" where
  "last_payout_time c t =
     (case payouts_of c t of [] \<Rightarrow> ''1970-01-01'' | x # _ \<Rightarrow> sd_timestamp (snd x))"

definition sales_of :: "string \<Rightarrow> royalty_tables \<Rightarrow> sale_row list" where
  "sales_of c t = map snd (t_select (\<lambda>x. sl_contract (snd x) = c) (rt_sales t))"

definition get_royalty_statistics :: "string \<Rightarrow> royalty_stats royalty_op" where
  "get_royalty_statistics c = op_read (\<lambda>t.
     \<lparr>st_count = length (sales_of c t), st_royalties = sum_list (map sl_royalty (sales_of c t)),
      st_volume = sum_list (map sl_price (sales_of c t)),
      st_pool = sum_list (map sl_royalty (filter (\<lambda>r. last_payout_time c t < sl_timestamp r) (sales_of c t))),
      st_last = (case payouts_of c t of [] \<Rightarrow> None | x # _ \<Rightarrow> Some (with_transaction t x))\<rparr>)"

section \<open>routes/secondary-royalty.js\<close>

record 's royalty_app =
  ra_net :: "'s world"
  ra_db :: "royalty_tables db"
  ra_sockets :: ws_state

definition on_ledger :: "'x ledger_op \<Rightarrow> 'x royalty_op" where
  "on_ledger = op_within rt_ledger (\<lambda>l t. t\<lparr>rt_ledger := l\<rparr>)"

definition ra_op :: "'x royalty_op \<Rightarrow> ('s royalty_app, 'x) act" where
  "ra_op m a = (case m (ra_db a) of
     (Inl e, d) \<Rightarrow> (Inl (thrown_of e), a\<lparr>ra_db := d\<rparr>) | (Inr x, d) \<Rightarrow> (Inr x, a\<lparr>ra_db := d\<rparr>))"

definition ra_build ::
  "('s, 'a, 'c, 't) sdk \<Rightarrow> string \<Rightarrow> string \<Rightarrow> string \<Rightarrow> 'a list \<Rightarrow> ('s royalty_app, string) act" where
  "ra_build sdk wallet contract meth args a =
     (case build_tx sdk wallet contract meth args (ra_net a) of
        (Inl e, w) \<Rightarrow> (Inl (rpc_thrown e), a\<lparr>ra_net := w\<rparr>) | (Inr x, w) \<Rightarrow> (Inr x, a\<lparr>ra_net := w\<rparr>))"

definition ra_rate :: "('s, 'a, 'c, 't) sdk \<Rightarrow> string \<Rightarrow> ('s royalty_app, nat) act" where
  "ra_rate sdk contract a =
     (case on_network (get_royalty_rate_from_contract sdk contract) (ra_net a) of
        (Inl e, w) \<Rightarrow> (Inl (rpc_thrown e), a\<lparr>ra_net := w\<rparr>) | (Inr x, w) \<Rightarrow> (Inr x, a\<lparr>ra_net := w\<rparr>))"

definition ra_broadcast :: "string \<Rightarrow> (string \<times> json) list \<Rightarrow> 's royalty_app \<Rightarrow> 's royalty_app" where
  "ra_broadcast c m a = a\<lparr>ra_sockets := snd (broadcast_to_contract c m (ra_sockets a))\<rparr>"

text \<open>\<open>catch (err) { next(err) }\<close>\<close>

definition ra_handled :: "('s royalty_app, response) act \<Rightarrow> 's royalty_app \<Rightarrow> response \<times> 's royalty_app" where
  "ra_handled m a = (case m a of (Inl e, a') \<Rightarrow> (error_handler e, a') | (Inr r, a') \<Rightarrow> (r, a'))"

text \<open>\<open>Math.floor((salePrice * onChainRate) / 10000)\<close> in doubles.\<close>

definition royalty_amount :: "int \<Rightarrow> nat \<Rightarrow> int" where
  "royalty_amount price rate = \<lfloor>to_double (to_double (of_int (price * int rate)) / 10000)\<rfloor>"

definition sale_price :: "js_value \<Rightarrow> int" where
  "sale_price d = \<lfloor>num_of (field ''salePrice'' d)\<rfloor>"

definition sale_of :: "js_value \<Rightarrow> nat \<Rightarrow> int \<Rightarrow> sale_row" where
  "sale_of d rate now = \<lparr>sl_contract = text_field ''contractId'' d, sl_nft = text_field ''nftId'' d,
     sl_previous = text_field ''previousOwner'' d, sl_new = text_field ''newOwner'' d, sl_price = sale_price d,
     sl_token = text_field ''saleToken'' d, sl_royalty = royalty_amount (sale_price d) rate, sl_rate = rate,
     sl_distributed = False, sl_timestamp = sql_timestamp now, sl_hash = None\<rparr>"

text \<open>The conflict is answered; any other error is thrown on.\<close>

definition ra_record_sale :: "sale_row \<Rightarrow> ('s royalty_app, response option) act" where
  "ra_record_sale r a =
     (case record_secondary_sale r (ra_db a) of
        (Inl e, d) \<Rightarrow>
          (if e = sale_conflict
           then Inr (Some (send_error 409 (Some ''conflict'') ''This sale has already been recorded.'' []))
           else Inl (thrown_of e), a\<lparr>ra_db := d\<rparr>)
      | (Inr _, d) \<Rightarrow> (Inr None, a\<lparr>ra_db := d\<rparr>))"

definition sale_event :: "js_value \<Rightarrow> nat \<Rightarrow> int \<Rightarrow> int \<Rightarrow> (string \<times> json) list" where
  "sale_event d i royalty now =
     [(''type'', JStr ''secondary_sale_recorded''), (''contractId'', JStr (text_field ''contractId'' d)),
      (''transactionId'', JNum (int i)), (''timestamp'', JStr (to_iso now)), (''nftId'', JStr (text_field ''nftId'' d)),
      (''salePrice'', JStr (int_str (sale_price d))), (''royaltyAmount'', JStr (int_str royalty))]"

definition record_sale_handler ::
  "('s, 'a, 'c, 't) sdk \<Rightarrow> (int \<Rightarrow> js_error + 'a) \<Rightarrow> int \<Rightarrow> js_value \<Rightarrow> 's royalty_app \<Rightarrow> response \<times> 's royalty_app" where
  "record_sale_handler sdk i128 now d =
     (let contract = text_field ''contractId'' d; wallet = text_field ''walletAddress'' d
      in ra_handled
       (act_bind (ra_rate sdk contract) (\<lambda>rate.
        let royalty = royalty_amount (sale_price d) rate
        in if royalty \<le> 0
           then act_return (send_error 400 (Some ''bad_request'') ''Calculated royalty amount is zero.'' [])
           else act_bind (ra_op (on_ledger (record_transaction contract ''secondary_royalty'' wallet None None now))) (\<lambda>i.
                act_bind (ra_record_sale (sale_of d rate now)) (\<lambda>conflict. case conflict of
                  Some r \<Rightarrow> act_return r
                | None \<Rightarrow>
                    act_bind (act_js (i128 (sale_price d))) (\<lambda>arg.
                    act_bind (ra_build sdk wallet contract ''record_secondary_royalty'' [arg]) (\<lambda>xdr.
                    act_bind (ra_op (on_ledger (add_audit_log contract ''secondary_sale_recorded'' (Some wallet)
                       (JObj [(''transactionId'', JNum (int i)), (''nftId'', JStr (text_field ''nftId'' d)),
                          (''salePrice'', JStr (int_str (sale_price d))), (''royaltyAmount'', JStr (int_str royalty)),
                          (''royaltyRateUsed'', JNum (int rate))]) now))) (\<lambda>_ a.
                    (Inr \<lparr>rstatus = 200, rbody = JObj [(''xdr'', JStr xdr), (''transactionId'', JNum (int i)),
                        (''royaltyAmount'', JNum royalty), (''royaltyRateUsed'', JNum (int rate))]\<rparr>,
                     ra_broadcast contract (sale_event d i royalty now) a)))))))))"

definition set_rate_handler ::
  "('s, 'a, 'c, 't) sdk \<Rightarrow> 'a host \<Rightarrow> int \<Rightarrow> js_value \<Rightarrow> 's royalty_app \<Rightarrow> response \<times> 's royalty_app" where
  "set_rate_handler sdk h now d =
     (let contract = text_field ''contractId'' d; wallet = text_field ''walletAddress'' d;
          rate = num_of (field ''royaltyRate'' d)
      in ra_handled
       (act_bind (ra_op (on_ledger (record_transaction contract ''secondary_royalty'' wallet None None now))) (\<lambda>i.
        act_bind (ra_build sdk wallet contract ''set_royalty_rate'' [ho_u32 h rate]) (\<lambda>xdr.
        act_bind (ra_op (on_ledger (add_audit_log contract ''royalty_rate_set'' (Some wallet)
           (JObj [(''transactionId'', JNum (int i)), (''royaltyRate'', JNum \<lfloor>rate\<rfloor>)]) now))) (\<lambda>_.
        act_return (xdr_response xdr i))))))"
 
definition rate_route :: "('s, 'a, 'c, 't) sdk \<Rightarrow> string \<Rightarrow> 's royalty_app \<Rightarrow> response \<times> 's royalty_app" where
  "rate_route sdk contract = ra_handled (act_bind (ra_rate sdk contract) (\<lambda>rate.
     act_return \<lparr>rstatus = 200, rbody = JObj [(''contractId'', JStr contract), (''royaltyRate'', JNum (int rate))]\<rparr>))"

definition payout_event :: "string \<Rightarrow> nat \<Rightarrow> int \<Rightarrow> nat \<Rightarrow> int \<Rightarrow> string \<Rightarrow> (string \<times> json) list" where
  "payout_event contract i now k n token =
     [(''type'', JStr ''secondary_distribution_completed''), (''contractId'', JStr contract),
      (''transactionId'', JNum (int i)), (''timestamp'', JStr (to_iso now)), (''numberOfSales'', JNum (int k)),
      (''totalRoyalties'', JStr (int_str n)), (''tokenId'', JStr token)]"

definition payout_response :: "string \<Rightarrow> nat \<Rightarrow> nat \<Rightarrow> int \<Rightarrow> response" where
  "payout_response xdr i k n = \<lparr>rstatus = 200, rbody = JObj
     [(''xdr'', JStr xdr), (''transactionId'', JNum (int i)), (''numberOfSales'', JNum (int k)),
      (''totalRoyalties'', JStr (int_str n))]\<rparr>"

definition distribute_secondary_handler ::
  "('s, 'a, 'c, 't) sdk \<Rightarrow> 'a host \<Rightarrow> int \<Rightarrow> js_value \<Rightarrow> 's royalty_app \<Rightarrow> response \<times> 's royalty_app" where
  "distribute_secondary_handler sdk h now d =
     (let contract = text_field ''contractId'' d; wallet = text_field ''walletAddress'' d; token = text_field ''tokenId'' d
      in ra_handled
       (act_bind (ra_op (get_secondary_sales contract 1000 0 None True None None)) (\<lambda>sales.
        if sales = [] then act_return (send_error 400 (Some ''bad_request'') ''No pending secondary royalties to distribute.'' [])
        else let n = sum_list (map (\<lambda>x. sl_royalty (snd x)) sales); k = length sales
             in act_bind (ra_op (on_ledger (record_transaction contract ''secondary_distribute'' wallet None None now))) (\<lambda>i.
                act_bind (act_pure (ho_address h token)) (\<lambda>arg.
                act_bind (ra_build sdk wallet contract ''distribute_secondary_royalties'' [arg]) (\<lambda>xdr.
                act_bind (ra_op (mark_sales_distributed (map fst sales))) (\<lambda>_.
                act_bind (ra_op (on_ledger (add_audit_log contract ''secondary_distribution_initiated'' (Some wallet)
                   (JObj [(''transactionId'', JNum (int i)), (''numberOfSales'', JNum (int k)),
                      (''totalRoyalties'', JStr (int_str n))]) now))) (\<lambda>_ a.
                (Inr (payout_response xdr i k n), ra_broadcast contract (payout_event contract i now k n token) a)))))))))"

text \<open>
  The statistics are cached for a minute per contract.  A dates filter is checked with \<open>new Date\<close>, the
  parameter \<open>date\<close>, and compared as text in the query.
\<close>

definition stats_route ::
  "string \<Rightarrow> int \<Rightarrow> (string, royalty_stats \<times> int) jsmap \<times> royalty_tables db
    \<Rightarrow> royalty_stats res \<times> (string, royalty_stats \<times> int) jsmap \<times> royalty_tables db" where
  "stats_route c now s =
     (case map_get (fst s) c of
        Some (v, e) \<Rightarrow>
          if now < e then (Inr v, s)
          else (case get_royalty_statistics c (snd s) of
                  (Inr v', d) \<Rightarrow> (Inr v', map_set c (v', now + 60000) (fst s), d) | (Inl x, d) \<Rightarrow> (Inl x, fst s, d))
      | None \<Rightarrow>
          (case get_royalty_statistics c (snd s) of
             (Inr v', d) \<Rightarrow> (Inr v', map_set c (v', now + 60000) (fst s), d) | (Inl x, d) \<Rightarrow> (Inl x, fst s, d)))"

definition bad_date_range :: "(string \<Rightarrow> int option) \<Rightarrow> string option \<Rightarrow> string option \<Rightarrow> response option" where
  "bad_date_range date since till =
     (let bad = (\<lambda>v. truthy v \<and> date (the v) = None);
          refuse = (\<lambda>m. Some (send_error 400 (Some ''invalid_query_parameter'') m []))
      in if bad since then refuse ''Invalid startDate.''
         else if bad till then refuse ''Invalid endDate.''
         else if truthy since \<and> truthy till \<and> the (date (the till)) < the (date (the since))
         then refuse ''startDate must be before or equal to endDate.''
         else None)"

definition sales_route ::
  "(string \<Rightarrow> int option) \<Rightarrow> string \<Rightarrow> string option \<Rightarrow> string option \<Rightarrow> string option \<Rightarrow> string option \<Rightarrow> string option
    \<Rightarrow> (response + (nat \<times> sale_row) list \<times> nat) royalty_op" where
  "sales_route date c qlimit qoffset nft since till =
     (case parse_pagination qlimit qoffset 50 100 of
        Inl r \<Rightarrow> op_return (Inl r)
      | Inr (l, n) \<Rightarrow>
          (case bad_date_range date since till of
             Some r \<Rightarrow> op_return (Inl r)
           | None \<Rightarrow> op_bind (get_secondary_sales c l n nft False since till) (\<lambda>sales.
                     op_bind (count_secondary_sales c nft since till) (\<lambda>k. op_return (Inr (sales, k))))))"

definition distributions_route ::
  "string \<Rightarrow> string option \<Rightarrow> string option
    \<Rightarrow> (response + ((nat \<times> payout_record) \<times> tx_row option) list \<times> int \<times> int) royalty_op" where
  "distributions_route c qlimit qoffset =
     (case parse_pagination qlimit qoffset 10 100 of
        Inl r \<Rightarrow> op_return (Inl r)
      | Inr (l, n) \<Rightarrow> op_bind (get_secondary_royalty_distributions c l n) (\<lambda>xs. op_return (Inr (xs, l, n))))"

section \<open>The royalty of a sale\<close>

lemma royalty_amount_div:
  assumes "0 \<le> price" "price * int rate < 2 ^ 53"
  shows "royalty_amount price rate = price * int rate div 10000"
proof -
  have p: "0 \<le> price * int rate" using assms(1) by simp
  have "(of_int (price * int rate) :: rat) < of_int (2 ^ 53)" using assms(2) by (simp only: of_int_less_iff)
  then have "to_double (of_int (price * int rate)) = of_int (price * int rate)"
    using to_double_exact [OF p refl] by simp
  moreover have "\<lfloor>to_double (of_int (price * int rate) / of_int 10000)\<rfloor> = price * int rate div 10000"
    by (rule floor_to_double_div [OF p assms(2)]) simp
  ultimately show ?thesis
    by (simp only: royalty_amount_def of_int_numeral)
qed

text \<open>As long as price times rate stays below \<open>2 ^ 53\<close> the royalty is the exact integer division, as on
  the chain; so it never exceeds the price.\<close>

theorem royalty_amount_exact:
  assumes "0 \<le> price" "price * int rate < 2 ^ 53" "rate \<le> 10000"
  shows "royalty_amount price rate = price * int rate div 10000 \<and> royalty_amount price rate \<le> price"
proof -
  have "price * int rate \<le> price * 10000" using assms by (intro mult_left_mono) simp_all
  then have "price * int rate div 10000 \<le> price * 10000 div 10000" by (intro zdiv_mono1) simp_all
  then show ?thesis by (simp add: royalty_amount_div [OF assms(1,2)])
qed

theorem royalty_amount_exact_witness: "royalty_amount 1000000 250 = 25000"
  using royalty_amount_exact [of 1000000 250] by simp

text \<open>Above \<open>2 ^ 53\<close> the rounding can charge a unit more than the chain does.\<close>

lemma royalty_overcharges:
  "royalty_amount 5300511344790454 770 = 408139373548865"
  "5300511344790454 * 770 div 10000 = (408139373548864 :: int)"
  by code_simp+

section \<open>Where the royalties are\<close>

definition recorded_royalties :: "string \<Rightarrow> royalty_tables \<Rightarrow> int" where
  "recorded_royalties c t = (\<Sum>x \<leftarrow> trows (rt_sales t). if sl_contract (snd x) = c then sl_royalty (snd x) else 0)"

definition pending_royalties :: "string \<Rightarrow> royalty_tables \<Rightarrow> int" where
  "pending_royalties c t = (\<Sum>x \<leftarrow> trows (rt_sales t).
     if sl_contract (snd x) = c \<and> \<not> sl_distributed (snd x) then sl_royalty (snd x) else 0)"

definition settled_royalties :: "string \<Rightarrow> royalty_tables \<Rightarrow> int" where
  "settled_royalties c t = (\<Sum>x \<leftarrow> trows (rt_sales t).
     if sl_contract (snd x) = c \<and> sl_distributed (snd x) then sl_royalty (snd x) else 0)"

lemma recorded_split: "recorded_royalties c t = pending_royalties c t + settled_royalties c t"
proof -
  have "(\<Sum>x \<leftarrow> xs. if sl_contract (snd x) = c then sl_royalty (snd x) else 0) =
      (\<Sum>x \<leftarrow> xs. if sl_contract (snd x) = c \<and> \<not> sl_distributed (snd x) then sl_royalty (snd x) else 0) +
      (\<Sum>x \<leftarrow> xs. if sl_contract (snd x) = c \<and> sl_distributed (snd x) then sl_royalty (snd x) else 0)"
    for xs :: "(nat \<times> sale_row) list" by (induction xs) auto
  then show ?thesis by (simp add: recorded_royalties_def pending_royalties_def settled_royalties_def)
qed

lemma sum_list_if_filter: "(\<Sum>x \<leftarrow> xs. if P x then f x else 0) = (\<Sum>x \<leftarrow> filter P xs. f x)" for f :: "'a \<Rightarrow> int"
  by (induction xs) auto

lemma sum_list_perm: "mset xs = mset ys \<Longrightarrow> sum_list (map f xs) = sum_list (map f ys)" for f :: "'a \<Rightarrow> int"
  by (metis mset_map sum_mset_sum_list)

lemma filter_fst_take:
  "distinct (map fst xs) \<Longrightarrow> filter (\<lambda>x. fst x \<in> fst ` set (take n xs)) xs = take n xs"
proof (induction xs arbitrary: n)
  case (Cons x xs)
  show ?case
  proof (cases n)
    case (Suc k)
    have "filter (\<lambda>y. fst y \<in> fst ` set (take n (x # xs))) xs = filter (\<lambda>y. fst y \<in> fst ` set (take k xs)) xs"
      using Cons.prems Suc by (intro filter_cong) (auto simp: image_iff)
    then show ?thesis using Cons Suc by simp
  qed simp
qed simp

lemma recorded_mark [simp]: "recorded_royalties c (mark_distributed ids t) = recorded_royalties c t"
proof -
  have "(\<Sum>x \<leftarrow> map (\<lambda>x. if fst x \<in> set ids then (fst x, snd x\<lparr>sl_distributed := True\<rparr>) else x) xs.
      if sl_contract (snd x) = c then sl_royalty (snd x) else 0) =
    (\<Sum>x \<leftarrow> xs. if sl_contract (snd x) = c then sl_royalty (snd x) else 0)" for xs :: "(nat \<times> sale_row) list"
    by (induction xs) auto
  then show ?thesis by (simp add: recorded_royalties_def mark_distributed_def t_update_def)
qed

lemma pending_mark:
  "pending_royalties c t = pending_royalties c (mark_distributed ids t) +
     (\<Sum>x \<leftarrow> trows (rt_sales t). if (sl_contract (snd x) = c \<and> \<not> sl_distributed (snd x)) \<and> fst x \<in> set ids
       then sl_royalty (snd x) else 0)"
proof -
  have "(\<Sum>x \<leftarrow> xs. if sl_contract (snd x) = c \<and> \<not> sl_distributed (snd x) then sl_royalty (snd x) else 0) =
    (\<Sum>x \<leftarrow> map (\<lambda>x. if fst x \<in> set ids then (fst x, snd x\<lparr>sl_distributed := True\<rparr>) else x) xs.
       if sl_contract (snd x) = c \<and> \<not> sl_distributed (snd x) then sl_royalty (snd x) else 0) +
    (\<Sum>x \<leftarrow> xs. if (sl_contract (snd x) = c \<and> \<not> sl_distributed (snd x)) \<and> fst x \<in> set ids
       then sl_royalty (snd x) else 0)" for xs :: "(nat \<times> sale_row) list"
    by (induction xs) auto
  then show ?thesis by (simp add: pending_royalties_def mark_distributed_def t_update_def)
qed

definition next_sales :: "string \<Rightarrow> royalty_tables \<Rightarrow> (nat \<times> sale_row) list" where
  "next_sales c t = take 1000 (order_desc (\<lambda>x. sl_timestamp (snd x))
     (t_select (\<lambda>x. sl_contract (snd x) = c \<and> \<not> sl_distributed (snd x)) (rt_sales t)))"

lemma get_next_sales: "get_secondary_sales c 1000 0 None True None None d = (Inr (next_sales c (tables d)), d)"
  by (simp add: get_secondary_sales_def op_read_def next_sales_def limit_offset_def sale_matches_def given_def Let_def)

lemma next_sales_of:
  "x \<in> set (next_sales c t) \<Longrightarrow> x \<in> set (trows (rt_sales t)) \<and> sl_contract (snd x) = c \<and> \<not> sl_distributed (snd x)"
  by (auto simp: next_sales_def t_select_def dest!: in_set_takeD)

lemma pending_next_sales:
  assumes "t_ok (rt_sales t)"
  shows "pending_royalties c t = pending_royalties c (mark_distributed (map fst (next_sales c t)) t)
    + sum_list (map (\<lambda>x. sl_royalty (snd x)) (next_sales c t))"
proof -
  let ?P = "\<lambda>x. sl_contract (snd x) = c \<and> \<not> sl_distributed (snd x)" and ?rows = "trows (rt_sales t)"
  let ?L = "order_desc (\<lambda>x. sl_timestamp (snd x)) (filter ?P ?rows)"
  let ?in = "\<lambda>x. fst x \<in> fst ` set (take 1000 ?L)" and ?r = "\<lambda>x. sl_royalty (snd x)"
  have "distinct (map fst ?rows)" using assms by (rule tb.ok_distinct)
  then have "distinct (map fst (filter ?P ?rows))" by (simp add: distinct_map_filter)
  then have d: "distinct (map fst ?L)"
    using mset_eq_imp_distinct_iff [of "map fst ?L" "map fst (filter ?P ?rows)"] by simp
  have "(\<Sum>x \<leftarrow> ?rows. if ?P x \<and> ?in x then ?r x else 0) = (\<Sum>x \<leftarrow> filter ?in (filter ?P ?rows). ?r x)"
    by (simp add: sum_list_if_filter conj_commute)
  also have "\<dots> = (\<Sum>x \<leftarrow> filter ?in ?L. ?r x)"
    by (rule sum_list_perm) (simp only: mset_filter mset_order_desc)
  also have "filter ?in ?L = take 1000 ?L" by (rule filter_fst_take [OF d])
  finally show ?thesis
    using pending_mark [of c t "map fst (next_sales c t)"] by (simp add: next_sales_def t_select_def)
qed

lemma pending_other:
  assumes "t_ok (rt_sales t)" "c' \<noteq> c"
  shows "pending_royalties c' (mark_distributed (map fst (next_sales c t)) t) = pending_royalties c' t"
proof -
  let ?rows = "trows (rt_sales t)"
  have d: "distinct (map fst ?rows)" using assms(1) by (rule tb.ok_distinct)
  have "\<not> (sl_contract (snd x) = c' \<and> fst x \<in> set (map fst (next_sales c t)))" if "x \<in> set ?rows" for x
  proof
    assume a: "sl_contract (snd x) = c' \<and> fst x \<in> set (map fst (next_sales c t))"
    then obtain y where y: "y \<in> set (next_sales c t)" "fst y = fst x" by auto
    from next_sales_of [OF y(1)] have "y = x" using d y(2) that by (metis distinct_map inj_on_def)
    then show False using next_sales_of [OF y(1)] a assms(2) by simp
  qed
  then have "(\<Sum>x \<leftarrow> ?rows. if (sl_contract (snd x) = c' \<and> \<not> sl_distributed (snd x))
      \<and> fst x \<in> set (map fst (next_sales c t)) then sl_royalty (snd x) else 0) = (\<Sum>x \<leftarrow> ?rows. 0)"
    by (intro arg_cong [where f = sum_list] map_cong) auto
  then show ?thesis using pending_mark [of c' t "map fst (next_sales c t)"] by simp
qed

section \<open>Payouts\<close>

text \<open>Operations on the ledger leave the sales alone.\<close>

lemma on_ledger_sales:
  "on_ledger m d = (r, d') \<Longrightarrow> rt_sales (tables d') = rt_sales (tables d) \<and> rt_payouts (tables d') = rt_payouts (tables d)"
  by (auto simp: on_ledger_def op_within_def split: prod.splits)

lemma ra_ledger_step:
  "ra_op (on_ledger m) a = (x, a') \<Longrightarrow>
     rt_sales (tables (ra_db a')) = rt_sales (tables (ra_db a)) \<and> rt_payouts (tables (ra_db a')) = rt_payouts (tables (ra_db a))"
  by (auto simp: ra_op_def dest: on_ledger_sales split: prod.splits sum.splits)

lemma ra_record_counted:
  assumes "counting (ra_db a)" "type \<in> set tx_types"
  shows "\<exists>a1. ra_op (on_ledger (record_transaction c type w amount token now)) a =
      (Inr (Suc (tseq (transactions (rt_ledger (tables (ra_db a)))))), a1) \<and> counting (ra_db a1)
    \<and> rt_sales (tables (ra_db a1)) = rt_sales (tables (ra_db a))"
proof -
  let ?e = "\<lparr>write_count = write_count (ra_db a), checkpoints = checkpoints (ra_db a), db_open = db_open (ra_db a),
    tables = rt_ledger (tables (ra_db a))\<rparr>"
  have "counting ?e" using assms(1) by (simp add: counting_def)
  then have r: "record_transaction c type w amount token now ?e = (Inr (fst (insert_tx (new_tx c type w amount token now) (tables ?e))),
      (bump ?e)\<lparr>tables := snd (insert_tx (new_tx c type w amount token now) (tables ?e))\<rparr>)" "counting (bump ?e)"
    using assms(2) by (simp_all add: record_transaction_def counted_write_ok)
  then show ?thesis
    by (auto simp: ra_op_def on_ledger_def op_within_def insert_tx_def t_insert_def counting_def split_beta Let_def)
qed

lemma ra_audit_counted:
  assumes "counting (ra_db a)" "action \<in> set audit_actions"
  shows "\<exists>a1. ra_op (on_ledger (add_audit_log c action u details now)) a = (Inr (), a1) \<and> counting (ra_db a1)
    \<and> rt_sales (tables (ra_db a1)) = rt_sales (tables (ra_db a))"
proof -
  let ?e = "\<lparr>write_count = write_count (ra_db a), checkpoints = checkpoints (ra_db a), db_open = db_open (ra_db a),
    tables = rt_ledger (tables (ra_db a))\<rparr>"
  have "counting ?e" using assms(1) by (simp add: counting_def)
  then have "\<exists>l e. add_audit_log c action u details now ?e = (Inr (), e\<lparr>tables := l\<rparr>) \<and> counting e"
    using assms(2) by (auto simp: accepted_audit counted_write_ok insert_audit_def intro: counting_bump [THEN iffD2])
  then show ?thesis by (auto simp: ra_op_def on_ledger_def op_within_def counting_def)
qed

lemma ra_mark_counted:
  "counting (ra_db a) \<Longrightarrow> \<exists>a1. ra_op (mark_sales_distributed ids) a = (Inr (), a1) \<and> counting (ra_db a1)
     \<and> tables (ra_db a1) = mark_distributed ids (tables (ra_db a))"
  by (simp add: ra_op_def mark_sales_distributed_def counted_write_ok)

lemma ra_build_frame: "ra_build sdk w c m args a = (x, a') \<Longrightarrow> ra_db a' = ra_db a"
  by (auto simp: ra_build_def split: prod.splits sum.splits)

definition same_sales :: "'s royalty_app \<Rightarrow> 's royalty_app \<Rightarrow> bool" where
  "same_sales a a' \<longleftrightarrow> rt_sales (tables (ra_db a')) = rt_sales (tables (ra_db a))"

definition no_payout :: "response \<Rightarrow> bool" where
  "no_payout r \<longleftrightarrow> (\<forall>xdr i k n. r \<noteq> payout_response xdr i k n)"

lemma no_payout_error [simp]: "no_payout (error_handler e)" "no_payout (send_error st code m [])"
  by (auto simp: no_payout_def payout_response_def error_handler_def send_error_def build_error_payload_def
      Let_def obj_spread_def split: option.splits)

lemma payout_cases:
  assumes c: "counting (ra_db a)" and run: "distribute_secondary_handler sdk h now d a = (r, a')"
  defines "S \<equiv> next_sales (text_field ''contractId'' d) (tables (ra_db a))"
  shows "counting (ra_db a') \<and>
    ((\<exists>xdr i. r = payout_response xdr i (length S) (sum_list (map (\<lambda>x. sl_royalty (snd x)) S))
        \<and> rt_sales (tables (ra_db a')) = rt_sales (mark_distributed (map fst S) (tables (ra_db a))))
     \<or> (same_sales a a' \<and> no_payout r))"
proof -
  let ?c = "text_field ''contractId'' d" and ?w = "text_field ''walletAddress'' d"
  have g: "ra_op (get_secondary_sales ?c 1000 0 None True None None) a = (Inr S, a)"
    by (simp add: ra_op_def get_next_sales S_def)
  have ty: "''secondary_distribute'' \<in> set tx_types" "''secondary_distribution_initiated'' \<in> set audit_actions"
    by (simp_all add: tx_types_def audit_actions_def)
  note run = run [unfolded distribute_secondary_handler_def Let_def ra_handled_def act_bind_def g]
  show ?thesis
  proof (cases "S = []")
    case True
    then show ?thesis using run c by (auto simp: act_return_def same_sales_def)
  next
    case False
    from ra_record_counted [OF c ty(1), of ?c ?w None None now] obtain a1 i where
      a1: "ra_op (on_ledger (record_transaction ?c ''secondary_distribute'' ?w None None now)) a = (Inr i, a1)"
        "counting (ra_db a1)" "same_sales a a1" by (auto simp: same_sales_def)
    show ?thesis
    proof (cases "ho_address h (text_field ''tokenId'' d)")
      case (Inl e)
      then show ?thesis using run False a1 by (auto simp: act_pure_def)
    next
      case v: (Inr v)
      obtain x a2 where b: "ra_build sdk ?w ?c ''distribute_secondary_royalties'' [v] a1 = (x, a2)" by fastforce
      have a2: "ra_db a2 = ra_db a1" by (rule ra_build_frame [OF b])
      show ?thesis
      proof (cases x)
        case (Inl e)
        then show ?thesis using run False a1 v b a2 by (auto simp: act_pure_def same_sales_def)
      next
        case (Inr xdr)
        obtain a3 where a3: "ra_op (mark_sales_distributed (map fst S)) a2 = (Inr (), a3)" "counting (ra_db a3)"
          "tables (ra_db a3) = mark_distributed (map fst S) (tables (ra_db a2))"
          using ra_mark_counted [of a2] a1(2) a2 by metis
        from ra_audit_counted [OF a3(2) ty(2), of ?c "Some ?w" "JObj [(''transactionId'', JNum (int i)),
            (''numberOfSales'', JNum (int (length S))),
            (''totalRoyalties'', JStr (int_str (sum_list (map (\<lambda>x. sl_royalty (snd x)) S))))]" now]
        have "r = payout_response xdr i (length S) (sum_list (map (\<lambda>x. sl_royalty (snd x)) S))"
          "counting (ra_db a')" "rt_sales (tables (ra_db a')) = rt_sales (mark_distributed (map fst S) (tables (ra_db a)))"
          using run False a1 v b a2 Inr a3
          by (auto simp: act_pure_def same_sales_def ra_broadcast_def mark_distributed_def)
        then show ?thesis by blast
      qed
    qed
  qed
qed

lemma ra_record_sale_cases:
  assumes "counting (ra_db a)" "ra_record_sale r a = (x, a')"
  shows "counting (ra_db a') \<and> (same_sales a a' \<or> rt_sales (tables (ra_db a')) = snd (t_insert r (rt_sales (tables (ra_db a)))))
    \<and> (\<forall>y. x = Inr (Some y) \<longrightarrow> no_payout y)"
  using assms
  by (auto simp: ra_record_sale_def record_secondary_sale_def op_raise_def counted_write_ok same_sales_def
      t_insert_def Let_def split: if_splits)

text \<open>Steps that leave the sales alone, and what steps yield.\<close>

definition kept :: "(sale_row table \<Rightarrow> bool) \<Rightarrow> ('s royalty_app, 'x) act \<Rightarrow> bool" where
  "kept Q m \<longleftrightarrow> (\<forall>a. counting (ra_db a) \<and> Q (rt_sales (tables (ra_db a))) \<longrightarrow>
     counting (ra_db (snd (m a))) \<and> Q (rt_sales (tables (ra_db (snd (m a))))))"

definition yields :: "('x \<Rightarrow> bool) \<Rightarrow> ('s, 'x) act \<Rightarrow> bool" where
  "yields N m \<longleftrightarrow> (\<forall>a x a'. m a = (Inr x, a') \<longrightarrow> N x)"

named_theorems step_rules

lemma kept_simple [step_rules]: "kept Q (act_return x)" "kept Q (act_js y)" "kept Q (act_pure z)"
  by (simp_all add: kept_def act_return_def act_js_def act_pure_def split: sum.split)

lemma kept_bind [step_rules]: "kept Q m \<Longrightarrow> (\<And>x. kept Q (f x)) \<Longrightarrow> kept Q (act_bind m f)"
  by (auto simp: kept_def act_bind_def split: prod.splits sum.splits)

lemma kept_build [step_rules]: "kept Q (ra_build sdk w c m args)" "kept Q (ra_rate sdk c)"
  by (auto simp: kept_def ra_build_def ra_rate_def split: prod.split sum.split)

lemma kept_record [step_rules]: "type \<in> set tx_types \<Longrightarrow> kept Q (ra_op (on_ledger (record_transaction c type w n t now)))"
  unfolding kept_def using ra_record_counted by (metis snd_conv)

lemma kept_audit [step_rules]: "action \<in> set audit_actions \<Longrightarrow> kept Q (ra_op (on_ledger (add_audit_log c action u j now)))"
  unfolding kept_def using ra_audit_counted by (metis snd_conv)

lemma kept_broadcast [step_rules]: "kept Q (\<lambda>a. (Inr r, ra_broadcast c m a))"
  by (simp add: kept_def ra_broadcast_def)

lemma yields_return [step_rules]: "N x \<Longrightarrow> yields N (act_return x)"
  by (simp add: yields_def act_return_def)

lemma yields_bind [step_rules]: "(\<And>x. yields N (f x)) \<Longrightarrow> yields N (act_bind m f)"
  by (auto simp: yields_def act_bind_def split: prod.splits sum.splits)

lemma yields_pair [step_rules]: "N x \<Longrightarrow> yields N (\<lambda>a. (Inr x, f a))"
  by (simp add: yields_def)

lemma step_if [step_rules]:
  "(c \<Longrightarrow> kept Q m) \<Longrightarrow> (\<not> c \<Longrightarrow> kept Q m') \<Longrightarrow> kept Q (if c then m else m')"
  "(c \<Longrightarrow> yields N k) \<Longrightarrow> (\<not> c \<Longrightarrow> yields N k') \<Longrightarrow> yields N (if c then k else k')"
  by simp_all

lemma handled_kept:
  assumes "kept Q m" "counting (ra_db a)" "Q (rt_sales (tables (ra_db a)))"
  shows "counting (ra_db (snd (ra_handled m a))) \<and> Q (rt_sales (tables (ra_db (snd (ra_handled m a)))))"
proof -
  have "counting (ra_db (snd (m a))) \<and> Q (rt_sales (tables (ra_db (snd (m a)))))"
    using assms unfolding kept_def by blast
  then show ?thesis by (cases "m a"; cases "fst (m a)") (simp_all add: ra_handled_def)
qed

lemma handled_yields: "yields no_payout m \<Longrightarrow> no_payout (fst (ra_handled m a))"
  by (auto simp: yields_def ra_handled_def split: prod.splits sum.splits)

lemma sale_kept:
  assumes "\<And>s rate. Q s \<Longrightarrow> 0 < royalty_amount (sale_price d) rate \<Longrightarrow> Q (snd (t_insert (sale_of d rate now) s))"
    and "counting (ra_db a)" "Q (rt_sales (tables (ra_db a)))" "record_sale_handler sdk i128 now d a = (r, a')"
  shows "counting (ra_db a') \<and> Q (rt_sales (tables (ra_db a'))) \<and> no_payout r"
proof -
  have ty: "''secondary_royalty'' \<in> set tx_types" "''secondary_sale_recorded'' \<in> set audit_actions"
    by (simp_all add: tx_types_def audit_actions_def)
  have np: "no_payout \<lparr>rstatus = 200, rbody = JObj [(''xdr'', x), (''transactionId'', i), (''royaltyAmount'', n),
      (''royaltyRateUsed'', k)]\<rparr>" for x i n k by (simp add: no_payout_def payout_response_def)
  have rs: "kept Q (ra_record_sale (sale_of d rate now))" if "0 < royalty_amount (sale_price d) rate" for rate
    unfolding kept_def
  proof (intro allI impI)
    fix b :: "'s royalty_app" assume b: "counting (ra_db b) \<and> Q (rt_sales (tables (ra_db b)))"
    obtain x b' where "ra_record_sale (sale_of d rate now) b = (x, b')" by fastforce
    with ra_record_sale_cases [OF conjunct1 [OF b] this] assms(1) [OF conjunct2 [OF b] that] b
    show "counting (ra_db (snd (ra_record_sale (sale_of d rate now) b)))
        \<and> Q (rt_sales (tables (ra_db (snd (ra_record_sale (sale_of d rate now) b)))))"
      by (auto simp: same_sales_def)
  qed
  have y: "yields no_payout (act_bind (ra_record_sale q) (\<lambda>c. case c of Some z \<Rightarrow> act_return z | None \<Rightarrow> m))"
    if "yields no_payout m" for q and m :: "('s royalty_app, response) act"
    using that by (auto simp: yields_def act_bind_def act_return_def ra_record_sale_def
        split: prod.splits sum.splits option.splits if_splits)
  have o: "kept Q (case c of Some z \<Rightarrow> act_return z | None \<Rightarrow> m)" if "kept Q m"
    for c and m :: "('s royalty_app, response) act" using that by (simp add: step_rules split: option.split)
  have H: "?thesis" if "yields no_payout m" "kept Q m" "ra_handled m a = (r, a')" for m
    using handled_kept [OF that(2) assms(2,3)] handled_yields [OF that(1), of a] that(3) by simp
  show ?thesis
    by (rule H [OF _ _ assms(4) [unfolded record_sale_handler_def Let_def]])
      ((rule y np no_payout_error | rule rs o | rule step_rules ty | linarith)+)
qed

lemma rate_kept:
  assumes "counting (ra_db a)" "Q (rt_sales (tables (ra_db a)))" "set_rate_handler sdk h now d a = (r, a')"
  shows "counting (ra_db a') \<and> Q (rt_sales (tables (ra_db a')))"
proof -
  have ty: "''secondary_royalty'' \<in> set tx_types" "''royalty_rate_set'' \<in> set audit_actions"
    by (simp_all add: tx_types_def audit_actions_def)
  have H: "?thesis" if "kept Q m" "ra_handled m a = (r, a')" for m
    using handled_kept [OF that(1) assms(1,2)] that(2) by simp
  show ?thesis
    by (rule H [OF _ assms(3) [unfolded set_rate_handler_def Let_def]]) (rule step_rules ty)+
qed

text \<open>The life of the sales of a service: requests in any order, from pending sales on, with the royalties the
  answered distributions announced, per contract.\<close>

inductive royalty_run ::
  "('s, 'a, 'c, 't) sdk \<Rightarrow> 'a host \<Rightarrow> (int \<Rightarrow> js_error + 'a) \<Rightarrow> 's royalty_app \<Rightarrow> (string \<Rightarrow> int) \<Rightarrow> bool"
  for sdk h i128 where
  start: "counting (ra_db a) \<Longrightarrow> t_ok (rt_sales (tables (ra_db a))) \<Longrightarrow>
    list_all (\<lambda>x. 0 < sl_royalty (snd x) \<and> \<not> sl_distributed (snd x)) (trows (rt_sales (tables (ra_db a)))) \<Longrightarrow>
    royalty_run sdk h i128 a (\<lambda>_. 0)"
| sale: "royalty_run sdk h i128 a paid \<Longrightarrow> record_sale_handler sdk i128 now d a = (r, a') \<Longrightarrow>
    royalty_run sdk h i128 a' paid"
| rate: "royalty_run sdk h i128 a paid \<Longrightarrow> set_rate_handler sdk h now d a = (r, a') \<Longrightarrow>
    royalty_run sdk h i128 a' paid"
| payout: "royalty_run sdk h i128 a paid \<Longrightarrow>
    distribute_secondary_handler sdk h now d a = (payout_response xdr i k n, a') \<Longrightarrow>
    royalty_run sdk h i128 a' (paid(text_field ''contractId'' d := paid (text_field ''contractId'' d) + n))"
| refused: "royalty_run sdk h i128 a paid \<Longrightarrow> distribute_secondary_handler sdk h now d a = (r, a') \<Longrightarrow>
    no_payout r \<Longrightarrow> royalty_run sdk h i128 a' paid"

definition settled_sum :: "string \<Rightarrow> sale_row table \<Rightarrow> int" where
  "settled_sum c s = (\<Sum>x \<leftarrow> trows s. if sl_contract (snd x) = c \<and> sl_distributed (snd x) then sl_royalty (snd x) else 0)"

definition sales_inv :: "(string \<Rightarrow> int) \<Rightarrow> sale_row table \<Rightarrow> bool" where
  "sales_inv paid s \<longleftrightarrow> t_ok s \<and> (\<forall>c. settled_sum c s = paid c) \<and> list_all (\<lambda>x. 0 < sl_royalty (snd x)) (trows s)"

lemma sales_inv_insert:
  "sales_inv paid s \<Longrightarrow> 0 < sl_royalty r \<Longrightarrow> \<not> sl_distributed r \<Longrightarrow> sales_inv paid (snd (t_insert r s))"
  using tb.ok_ins [of s r] by (simp add: sales_inv_def settled_sum_def t_insert_def)

lemma settled_royalties_sum: "settled_royalties c t = settled_sum c (rt_sales t)"
  by (simp add: settled_royalties_def settled_sum_def)

lemma sales_inv_payout:
  fixes c :: string and t :: royalty_tables
  defines "S \<equiv> next_sales c t"
  assumes inv: "sales_inv paid (rt_sales t)"
  shows "sales_inv (paid(c := paid c + sum_list (map (\<lambda>x. sl_royalty (snd x)) S))) (rt_sales (mark_distributed (map fst S) t))"
proof -
  let ?t = "mark_distributed (map fst S) t"
  have ok: "t_ok (rt_sales t)" and set: "\<And>c. settled_royalties c t = paid c"
    using inv by (simp_all add: sales_inv_def settled_royalties_sum)
  have "settled_royalties c' ?t = (paid(c := paid c + sum_list (map (\<lambda>x. sl_royalty (snd x)) S))) c'" for c'
  proof -
    have r: "recorded_royalties c' ?t = recorded_royalties c' t" by (rule recorded_mark)
    have "pending_royalties c' t = pending_royalties c' ?t
        + (if c' = c then sum_list (map (\<lambda>x. sl_royalty (snd x)) S) else 0)"
      using pending_next_sales [OF ok, of c] pending_other [OF ok, of c' c] by (cases "c' = c") (simp_all add: S_def)
    with r recorded_split [of c' t] recorded_split [of c' ?t] set [of c'] show ?thesis
      by (simp split: if_splits)
  qed
  moreover have "t_ok (rt_sales ?t)" using ok by (simp add: mark_distributed_def tb.ok_upd)
  moreover have "list_all (\<lambda>x. 0 < sl_royalty (snd x)) (trows (rt_sales ?t))"
    using inv by (auto simp: sales_inv_def mark_distributed_def t_update_def list_all_iff)
  ultimately show ?thesis by (simp add: sales_inv_def settled_royalties_sum)
qed

lemma int_str_inject: "int_str i = int_str j \<Longrightarrow> i = j"
  by (metis string_to_number_int_str js_number.inject of_int_eq_iff)

lemma payout_response_announced: "payout_response x i k n = payout_response x' i' k' n' \<Longrightarrow> n = n'"
  by (simp add: payout_response_def) (metis int_str_inject)

lemma no_payout_response [simp]: "no_payout (payout_response x i k n) = False"
  by (auto simp: no_payout_def)

lemma royalty_run_inv:
  "royalty_run sdk h i128 a paid \<Longrightarrow> counting (ra_db a) \<and> sales_inv paid (rt_sales (tables (ra_db a)))"
proof (induction rule: royalty_run.induct)
  case (start a)
  have "(\<Sum>x \<leftarrow> xs. if sl_contract (snd x) = c \<and> sl_distributed (snd x) then sl_royalty (snd x) else 0) = 0"
    if "list_all (\<lambda>x. 0 < sl_royalty (snd x) \<and> \<not> sl_distributed (snd x)) xs" for c and xs :: "(nat \<times> sale_row) list"
    using that by (induction xs) auto
  with start show ?case by (auto simp: sales_inv_def settled_sum_def list_all_iff)
next
  case (sale a paid now d r a')
  have "sales_inv paid (snd (t_insert (sale_of d rate now) s))"
    if "sales_inv paid s" "0 < royalty_amount (sale_price d) rate" for s rate
    using that by (intro sales_inv_insert) (simp_all add: sale_of_def)
  then show ?case using sale_kept [OF _ _ _ sale.hyps(2), of "sales_inv paid"] sale.IH by blast
next
  case (rate a paid now d r a')
  then show ?case using rate_kept [of a "sales_inv paid"] by blast
next
  case (payout a paid now d xdr i k n a')
  from payout_cases [OF conjunct1 [OF payout.IH] payout.hyps(2)]
    sales_inv_payout [OF conjunct2 [OF payout.IH], of "text_field ''contractId'' d"]
  show ?case by (metis no_payout_response payout_response_announced)
next
  case (refused a paid now d r a')
  from payout_cases [OF conjunct1 [OF refused.IH] refused.hyps(2)] refused.IH refused.hyps(3)
  show ?case by (auto simp: same_sales_def no_payout_def)
qed



definition demo_sale :: "string \<Rightarrow> int \<Rightarrow> sale_row" where
  "demo_sale c n = \<lparr>sl_contract = c, sl_nft = ''7'', sl_previous = ''P'', sl_new = ''N'', sl_price = 10 * n,
     sl_token = ''T'', sl_royalty = n, sl_rate = 1000, sl_distributed = False, sl_timestamp = ''2026'', sl_hash = None\<rparr>"

definition demo_sales :: "nat royalty_app" where
  "demo_sales = \<lparr>ra_net = late_world, ra_db = counted_connection \<lparr>rt_ledger = empty_ledger,
     rt_sales = \<lparr>tseq = 3, trows = [(1, demo_sale ''C'' 5), (2, demo_sale ''D'' 6), (3, demo_sale ''C'' 7)]\<rparr>,
     rt_payouts = t_empty\<rparr>, ra_sockets = ws_init\<rparr>"

definition settled_demo :: "response \<times> nat royalty_app" where
  "settled_demo = distribute_secondary_handler demo_sdk demo_host 9
     (VObj [(''contractId'', VStr ''C''), (''walletAddress'', VStr ''G''), (''tokenId'', VStr ''T'')]) demo_sales"

lemma settled_demo_announced: "fst settled_demo = payout_response ''distribute_secondary_royalties7'' 1 2 12"
  by code_simp


end
