(* ===== verification/Archive.thy ===== *)
theory Archive
  imports AuditLog Routes JsDouble
begin

text \<open>
  The archive of old transactions: \<open>src/backend/src/database/archive.js\<close>, and the lookup of a
  transaction with its payouts, live or archived (\<open>getTransactionDetails\<close> of
  \<open>database/transactions.js\<close>).

  The statements name two tables that no migration creates, so a ledger may have none and then they
  throw.  Where the tables exist their declaration is not part of the sources either: which archived
  rows exclude a new one (\<open>INSERT OR IGNORE\<close>) is the parameter \<open>clash\<close>.  Deleting a transaction deletes
  its payouts and its finality record (\<open>ON DELETE CASCADE\<close>).  \<open>text\<close> is \<open>String(v)\<close> of a value that is not
  a string.
\<close>

section \<open>The policy\<close>

definition default_archive_retention_days :: int where
  "default_archive_retention_days = 90"

definition default_archive_batch_size :: int where
  "default_archive_batch_size = 500"

definition value_int :: "(js_value \<Rightarrow> string) \<Rightarrow> js_value \<Rightarrow> int option" where
  "value_int text v = parse_int10 (case v of VStr s \<Rightarrow> s | VUndef \<Rightarrow> ''undefined'' | VNull \<Rightarrow> ''null'' | _ \<Rightarrow> text v)"

definition positive_or :: "int option \<Rightarrow> int \<Rightarrow> int" where
  "positive_or n fallback = (case n of Some k \<Rightarrow> if 0 < k then k else fallback | None \<Rightarrow> fallback)"

definition parse_positive_integer :: "(js_value \<Rightarrow> string) \<Rightarrow> js_value \<Rightarrow> int \<Rightarrow> int" where
  "parse_positive_integer text v fallback = positive_or (value_int text v) fallback"

definition parse_boolean :: "string option \<Rightarrow> bool option" where
  "parse_boolean v =
     (case v of
        None \<Rightarrow> None
      | Some s \<Rightarrow> if to_lower s \<in> {''1'', ''true'', ''yes'', ''on''} then Some True
                  else if to_lower s \<in> {''0'', ''false'', ''no'', ''off''} then Some False else None)"

text \<open>The variables \<open>EVENT_ARCHIVE_ENABLED\<close> and \<open>EVENT_ARCHIVE_RETENTION_DAYS\<close>.\<close>

record archive_env =
  env_archive_enabled :: "string option"
  env_retention_days :: "string option"

record policy =
  pol_enabled :: bool
  pol_retention_days :: int
  pol_updated_at :: "string option"

definition no_table :: "string \<Rightarrow> js_error" where
  "no_table name = SqliteError (''no such table: '' @ name)"

definition with_archive :: "string \<Rightarrow> (archive_tables \<Rightarrow> 'a ledger_op) \<Rightarrow> 'a ledger_op" where
  "with_archive name f d =
     (case archive (tables d) of None \<Rightarrow> op_raise (no_table name) d | Some a \<Rightarrow> f a d)"

definition get_archive_policy :: "archive_env \<Rightarrow> policy ledger_op" where
  "get_archive_policy env = with_archive ''event_archive_policy'' (\<lambda>a. op_return
     (let row = archive_policy a;
          env_days = (if truthy (env_retention_days env)
                      then Some (positive_or (parse_int10 (the (env_retention_days env))) default_archive_retention_days)
                      else None)
      in \<lparr>pol_enabled = (case parse_boolean (env_archive_enabled env) of
              Some b \<Rightarrow> b | None \<Rightarrow> (case row of Some r \<Rightarrow> apr_enabled r | None \<Rightarrow> True)),
          pol_retention_days = (case env_days of
              Some n \<Rightarrow> n
            | None \<Rightarrow> (case row of Some r \<Rightarrow> apr_retention_days r | None \<Rightarrow> default_archive_retention_days)),
          pol_updated_at = map_option apr_updated_at row\<rparr>))"

definition nullish :: "js_value \<Rightarrow> bool" where
  "nullish v \<longleftrightarrow> v = VUndef \<or> v = VNull"

definition update_archive_policy ::
  "(js_value \<Rightarrow> string) \<Rightarrow> archive_env \<Rightarrow> js_value \<Rightarrow> js_value \<Rightarrow> int \<Rightarrow> policy ledger_op" where
  "update_archive_policy text env enabled retention now =
     op_bind (get_archive_policy env) (\<lambda>current.
     op_bind (with_archive ''event_archive_policy'' (\<lambda>a. counted_write (\<lambda>l. ((), l\<lparr>archive := Some (a\<lparr>archive_policy := Some
        \<lparr>apr_enabled = (if nullish enabled then pol_enabled current else value_truthy enabled),
         apr_retention_days = (if nullish retention then pol_retention_days current
             else parse_positive_integer text retention (pol_retention_days current)),
         apr_updated_at = sql_timestamp now\<rparr>\<rparr>)\<rparr>)))) (\<lambda>_.
     get_archive_policy env))"

text \<open>A \<open>Date\<close> outside 8.64e15 milliseconds is invalid and \<open>toISOString\<close> throws.\<close>

definition get_archive_cutoff_date :: "int \<Rightarrow> int \<Rightarrow> string res" where
  "get_archive_cutoff_date retention now =
     (let t = now - retention * 24 * 60 * 60 * 1000
      in if 8640000000000000 < \<bar>t\<bar> then Inl (RangeErr ''Invalid time value'') else Inr (to_iso t))"

section \<open>Archiving\<close>

definition event_of :: "nat \<times> tx_row \<Rightarrow> event" where
  "event_of x =
     \<lparr>ev_id = fst x, ev_hash = tx_hash (snd x), ev_contract = tx_contract (snd x), ev_type = tx_type (snd x),
      ev_initiator = tx_initiator (snd x), ev_amount = requested_amount (snd x), ev_token = token_id (snd x),
      ev_timestamp = tx_timestamp (snd x), ev_block_time = block_time (snd x), ev_status = tx_status (snd x),
      ev_error = tx_error (snd x)\<rparr>"

definition event_time :: "event \<Rightarrow> string" where
  "event_time e = (case ev_block_time e of Some t \<Rightarrow> t | None \<Rightarrow> ev_timestamp e)"

definition tx_payouts :: "nat \<Rightarrow> ledger \<Rightarrow> payout_row list" where
  "tx_payouts i l = map snd (t_select (\<lambda>p. po_transaction (snd p) = i) (payouts l))"

definition payout_object :: "payout_row \<Rightarrow> json" where
  "payout_object p = JObj [(''collaboratorAddress'', JStr (po_collaborator p)), (''amountReceived'', JStr (po_amount p))]"

definition archive_row_of :: "ledger \<Rightarrow> int \<Rightarrow> nat \<times> tx_row \<Rightarrow> archive_row" where
  "archive_row_of l now x =
     \<lparr>ar_event = event_of x, ar_payout_count = length (tx_payouts (fst x) l),
      ar_payouts_json = json_stringify (JArr (map payout_object (tx_payouts (fst x) l))),
      ar_archived_at = sql_timestamp now\<rparr>"

text \<open>\<open>INSERT OR IGNORE\<close>: a row excluded by an archived one is skipped.\<close>

definition archive_insert ::
  "(archive_row \<Rightarrow> archive_row \<Rightarrow> bool) \<Rightarrow> archive_row \<Rightarrow> archive_row table \<Rightarrow> archive_row table" where
  "archive_insert clash r t =
     (if list_ex (\<lambda>x. clash (snd x) r) (trows t) then t else snd (t_insert r t))"

definition archive_candidates :: "string \<Rightarrow> int \<Rightarrow> ledger \<Rightarrow> (nat \<times> tx_row) list" where
  "archive_candidates cutoff batch l = limit_offset batch 0
     (order_asc (\<lambda>x. (event_time (event_of x), fst x))
        (t_select (\<lambda>x. event_time (event_of x) < cutoff) (transactions l)))"

definition move_to_archive ::
  "(archive_row \<Rightarrow> archive_row \<Rightarrow> bool) \<Rightarrow> nat list \<Rightarrow> int \<Rightarrow> archive_tables \<Rightarrow> ledger \<Rightarrow> ledger" where
  "move_to_archive clash ids now a l =
     l\<lparr>archive := Some (a\<lparr>archived_events :=
         fold (archive_insert clash) (map (archive_row_of l now) (t_select (\<lambda>x. fst x \<in> set ids) (transactions l)))
           (archived_events a)\<rparr>),
       transactions := t_delete (\<lambda>x. fst x \<in> set ids) (transactions l),
       payouts := t_delete (\<lambda>p. po_transaction (snd p) \<in> set ids) (payouts l),
       finality := t_delete (\<lambda>r. fin_transaction (snd r) \<in> set ids) (finality l)\<rparr>"

definition archive_batch ::
  "(archive_row \<Rightarrow> archive_row \<Rightarrow> bool) \<Rightarrow> string \<Rightarrow> int \<Rightarrow> int \<Rightarrow> nat ledger_op" where
  "archive_batch clash cutoff batch now = db_transaction (
     op_bind (op_read (archive_candidates cutoff batch)) (\<lambda>candidates.
     if candidates = [] then op_return 0
     else with_archive ''contract_event_archive'' (\<lambda>a.
       op_write (\<lambda>l. (length candidates, move_to_archive clash (map fst candidates) now a l)))))"

record archive_result =
  res_archived :: nat
  res_enabled :: bool
  res_retention_days :: int
  res_cutoff :: "string option"

definition lift_res :: "'a res \<Rightarrow> ('t, 'a) db_op" where
  "lift_res r = (case r of Inl e \<Rightarrow> op_raise e | Inr x \<Rightarrow> op_return x)"

definition archive_contract_events ::
  "(archive_row \<Rightarrow> archive_row \<Rightarrow> bool) \<Rightarrow> (js_value \<Rightarrow> string) \<Rightarrow> archive_env \<Rightarrow> policy option \<Rightarrow> js_value
    \<Rightarrow> string option \<Rightarrow> int \<Rightarrow> archive_result ledger_op" where
  "archive_contract_events clash text env opt_policy batch_size opt_cutoff now =
     op_bind (case opt_policy of Some p \<Rightarrow> op_return p | None \<Rightarrow> get_archive_policy env) (\<lambda>pol.
     let batch = parse_positive_integer text batch_size default_archive_batch_size in
     if \<not> pol_enabled pol
     then op_return \<lparr>res_archived = 0, res_enabled = False, res_retention_days = pol_retention_days pol, res_cutoff = None\<rparr>
     else
       op_bind (case opt_cutoff of Some c \<Rightarrow> op_return c
                | None \<Rightarrow> lift_res (get_archive_cutoff_date (pol_retention_days pol) now)) (\<lambda>cutoff.
       op_bind (archive_batch clash cutoff batch now) (\<lambda>n.
       op_bind (if 0 < n then count_write else op_return ()) (\<lambda>_.
       op_return \<lparr>res_archived = n, res_enabled = True, res_retention_days = pol_retention_days pol,
                  res_cutoff = Some cutoff\<rparr>))))"

section \<open>Reading the archive\<close>

definition stored_payouts :: "archive_row \<Rightarrow> js_value" where
  "stored_payouts r =
     (case json_parse (if ar_payouts_json r = [] then ''[]'' else ar_payouts_json r) of
        None \<Rightarrow> VArr [] | Some v \<Rightarrow> v)"

definition get_archived_event_count :: "string \<Rightarrow> nat ledger_op" where
  "get_archived_event_count contract = with_archive ''contract_event_archive'' (\<lambda>a.
     op_return (t_count (\<lambda>x. ev_contract (ar_event (snd x)) = contract) (archived_events a)))"

definition archived_list :: "string \<Rightarrow> archive_tables \<Rightarrow> (nat \<times> archive_row) list" where
  "archived_list contract a = order_desc (\<lambda>x. (event_time (ar_event (snd x)), fst x))
     (t_select (\<lambda>x. ev_contract (ar_event (snd x)) = contract) (archived_events a))"

definition get_archived_events ::
  "string \<Rightarrow> int \<Rightarrow> int \<Rightarrow> ((nat \<times> archive_row) \<times> js_value) list ledger_op" where
  "get_archived_events contract limit offset = with_archive ''contract_event_archive'' (\<lambda>a.
     op_return (map (\<lambda>x. (x, stored_payouts (snd x))) (limit_offset limit offset (archived_list contract a))))"

section \<open>Archiving conserves the events\<close>

text \<open>Every event with its payouts, live or archived.\<close>

definition payout_values :: "nat \<Rightarrow> ledger \<Rightarrow> js_value" where
  "payout_values i l = VArr (map (\<lambda>p. to_value (payout_object p)) (tx_payouts i l))"

definition live_event :: "ledger \<Rightarrow> nat \<times> tx_row \<Rightarrow> event \<times> js_value" where
  "live_event l x = (event_of x, payout_values (fst x) l)"

definition stored_event :: "archive_row \<Rightarrow> event \<times> js_value" where
  "stored_event r = (ar_event r, stored_payouts r)"

definition stored_events :: "ledger \<Rightarrow> (event \<times> js_value) multiset" where
  "stored_events l = (case archive l of None \<Rightarrow> {#}
     | Some a \<Rightarrow> image_mset stored_event (mset (map snd (trows (archived_events a)))))"

definition all_events :: "ledger \<Rightarrow> (event \<times> js_value) multiset" where
  "all_events l = image_mset (live_event l) (mset (trows (transactions l))) + stored_events l"

definition archive_wf :: "ledger \<Rightarrow> bool" where
  "archive_wf l \<longleftrightarrow> t_ok (transactions l)
     \<and> (\<forall>a. archive l = Some a \<longrightarrow> (\<forall>r \<in> set (trows (archived_events a)).
          ev_id (ar_event (snd r)) \<le> tseq (transactions l)
          \<and> ev_id (ar_event (snd r)) \<notin> fst ` set (trows (transactions l))))"

lemma payout_object_wf: "json_wf (JArr (map payout_object ps))"
  by (induction ps) (simp_all add: payout_object_def)

lemma stored_payouts_of [simp]: "stored_payouts (archive_row_of l now x) = payout_values (fst x) l"
proof -
  let ?j = "JArr (map payout_object (tx_payouts (fst x) l))"
  have "json_stringify ?j \<noteq> []" by (simp split: list.split)
  then show ?thesis
    using json_parse_stringify_all [OF payout_object_wf, of "tx_payouts (fst x) l"]
    by (simp add: stored_payouts_def archive_row_of_def payout_values_def comp_def)
qed

lemma stored_event_of [simp]: "stored_event (archive_row_of l now x) = live_event l x"
  by (simp add: stored_event_def live_event_def archive_row_of_def [of l now x, THEN arg_cong [where f = ar_event]])

lemma ar_event_of [simp]: "ar_event (archive_row_of l now x) = event_of x"
  by (simp add: archive_row_of_def)

lemma ev_id_of [simp]: "ev_id (event_of x) = fst x"
  by (simp add: event_of_def)

text \<open>Rows with ids the archive does not hold are all stored.\<close>

definition by_event_id :: "(archive_row \<Rightarrow> archive_row \<Rightarrow> bool) \<Rightarrow> bool" where
  "by_event_id clash \<longleftrightarrow> (\<forall>a b. clash a b \<longrightarrow> ev_id (ar_event a) = ev_id (ar_event b))"

lemma archive_inserts:
  assumes "by_event_id clash" and "distinct (map (\<lambda>r. ev_id (ar_event r)) rs)"
    and "\<forall>r \<in> set rs. \<forall>x \<in> set (trows t). ev_id (ar_event (snd x)) \<noteq> ev_id (ar_event r)"
  shows "map snd (trows (fold (archive_insert clash) rs t)) = map snd (trows t) @ rs"
  using assms(2,3)
proof (induction rs arbitrary: t)
  case (Cons r rs)
  have ins: "archive_insert clash r t = snd (t_insert r t)"
    using Cons.prems(2) assms(1) by (fastforce simp: archive_insert_def list_ex_iff by_event_id_def)
  have "map snd (trows (fold (archive_insert clash) rs (snd (t_insert r t)))) = map snd (trows (snd (t_insert r t))) @ rs"
    by (rule Cons.IH) (use Cons.prems in \<open>auto simp: t_insert_def image_iff\<close>)
  then show ?case by (simp add: ins t_insert_def)
qed simp

lemma moved_ids_distinct: "t_ok t \<Longrightarrow> distinct (map fst (t_select P t))"
  using tb.ok_distinct [of t] by (simp add: t_select_def distinct_map_filter)

lemma move_rows:
  assumes "archive_wf l" "archive l = Some a" "by_event_id clash"
  shows "map snd (trows (fold (archive_insert clash) (map (archive_row_of l now) (t_select P (transactions l))) (archived_events a)))
    = map snd (trows (archived_events a)) @ map (archive_row_of l now) (t_select P (transactions l))"
proof (rule archive_inserts [OF assms(3)])
  show "distinct (map (\<lambda>r. ev_id (ar_event r)) (map (archive_row_of l now) (t_select P (transactions l))))"
    using moved_ids_distinct [of "transactions l" P] assms(1) by (simp add: archive_wf_def comp_def)
  show "\<forall>r \<in> set (map (archive_row_of l now) (t_select P (transactions l))).
      \<forall>x \<in> set (trows (archived_events a)). ev_id (ar_event (snd x)) \<noteq> ev_id (ar_event r)"
  proof (intro ballI)
    fix r x assume r: "r \<in> set (map (archive_row_of l now) (t_select P (transactions l)))"
      and x: "x \<in> set (trows (archived_events a))"
    from r obtain y where y: "y \<in> set (trows (transactions l))" "r = archive_row_of l now y"
      by (auto simp: t_select_def)
    have "ev_id (ar_event (snd x)) \<notin> fst ` set (trows (transactions l))"
      using assms(1,2) x unfolding archive_wf_def by blast
    then show "ev_id (ar_event (snd x)) \<noteq> ev_id (ar_event r)" using y by force
  qed
qed

lemma payouts_kept:
  "i \<notin> set ids \<Longrightarrow> tx_payouts i (move_to_archive clash ids now a l) = tx_payouts i l"
  unfolding tx_payouts_def move_to_archive_def t_select_def t_delete_def
  by (simp add: conj_commute) (metis (mono_tags, lifting) filter_cong)

lemma payout_values_kept:
  "i \<notin> set ids \<Longrightarrow> payout_values i (move_to_archive clash ids now a l) = payout_values i l"
  by (simp add: payout_values_def payouts_kept)

lemma transactions_moved: "trows (transactions (move_to_archive clash ids now a l)) =
    filter (\<lambda>x. fst x \<notin> set ids) (trows (transactions l))"
  by (simp add: move_to_archive_def t_delete_def)

lemma move_conserves:
  assumes "archive_wf l" "archive l = Some a" "by_event_id clash"
  shows "all_events (move_to_archive clash ids now a l) = all_events l"
proof -
  let ?P = "\<lambda>x :: nat \<times> tx_row. fst x \<in> set ids" and ?l' = "move_to_archive clash ids now a l"
  have stored: "stored_events ?l' = stored_events l + image_mset (live_event l) (mset (t_select ?P (transactions l)))"
    using move_rows [OF assms, of now ?P] assms(2)
    by (simp add: stored_events_def move_to_archive_def image_mset.compositionality comp_def flip: mset_map)
  have "image_mset (live_event ?l') (mset (trows (transactions ?l'))) =
      image_mset (live_event l) (mset (filter (\<lambda>x. \<not> ?P x) (trows (transactions l))))"
    unfolding transactions_moved
    by (rule image_mset_cong) (simp add: live_event_def payout_values_kept)
  moreover have "mset (trows (transactions l)) =
      mset (filter ?P (trows (transactions l))) + mset (filter (\<lambda>x. \<not> ?P x) (trows (transactions l)))"
    using multiset_partition [of "mset (trows (transactions l))" ?P] by (simp add: mset_filter)
  ultimately show ?thesis using stored
    by (simp only: all_events_def t_select_def image_mset_union ac_simps)
qed

lemma move_wf:
  assumes "archive_wf l" "archive l = Some a" "by_event_id clash"
  shows "archive_wf (move_to_archive clash ids now a l)"
proof -
  let ?P = "\<lambda>x :: nat \<times> tx_row. fst x \<in> set ids" and ?l' = "move_to_archive clash ids now a l"
  let ?rows = "fold (archive_insert clash) (map (archive_row_of l now) (t_select ?P (transactions l))) (archived_events a)"
  have seq: "tseq (transactions ?l') = tseq (transactions l)" by (simp add: move_to_archive_def t_delete_def)
  have ok: "t_ok (transactions l)" using assms(1) by (simp add: archive_wf_def)
  then have "t_ok (transactions ?l')" by (simp add: move_to_archive_def tb.ok_del)
  moreover have "ev_id (ar_event r) \<le> tseq (transactions l) \<and> ev_id (ar_event r) \<notin> fst ` set (trows (transactions ?l'))"
    if r: "r \<in> set (map snd (trows ?rows))" for r
  proof -
    consider x where "x \<in> set (trows (archived_events a))" "r = snd x"
      | y where "y \<in> set (trows (transactions l))" "?P y" "r = archive_row_of l now y"
      using r unfolding move_rows [OF assms, of now ?P] by (fastforce simp: t_select_def)
    then show ?thesis
    proof cases
      case 1
      then show ?thesis using assms(1,2) by (auto simp: archive_wf_def transactions_moved)
    next
      case 2
      then show ?thesis using ok by (auto simp: t_ok_def transactions_moved)
    qed
  qed
  then have "\<forall>r \<in> set (trows ?rows). ev_id (ar_event (snd r)) \<le> tseq (transactions l)
      \<and> ev_id (ar_event (snd r)) \<notin> fst ` set (trows (transactions ?l'))" by auto
  ultimately show ?thesis by (simp add: archive_wf_def seq) (simp add: move_to_archive_def)
qed

text \<open>What one batch does.\<close>

definition after_batch :: "(archive_row \<Rightarrow> archive_row \<Rightarrow> bool) \<Rightarrow> string \<Rightarrow> int \<Rightarrow> int \<Rightarrow> ledger \<Rightarrow> ledger" where
  "after_batch clash cutoff batch now l =
     (let c = archive_candidates cutoff batch l
      in case archive l of None \<Rightarrow> l | Some a \<Rightarrow> if c = [] then l else move_to_archive clash (map fst c) now a l)"

lemma archive_batch_tables: "tables (snd (archive_batch clash cutoff batch now d)) = after_batch clash cutoff batch now (tables d)"
  by (simp add: archive_batch_def after_batch_def db_transaction_def op_simps with_archive_def Let_def split: option.split)

lemma archive_batch_value: "archive (tables d) = Some a \<Longrightarrow>
    archive_batch clash cutoff batch now d =
      (Inr (length (archive_candidates cutoff batch (tables d))), d\<lparr>tables := after_batch clash cutoff batch now (tables d)\<rparr>)"
  by (simp add: archive_batch_def after_batch_def db_transaction_def op_simps with_archive_def Let_def)

lemma after_batch_keeps:
  assumes "archive_wf l" "by_event_id clash"
  shows "archive_wf (after_batch clash cutoff batch now l)"
    and "all_events (after_batch clash cutoff batch now l) = all_events l"
  using assms move_wf move_conserves by (auto simp: after_batch_def Let_def split: option.split)

lemma archive_read_only [simp]:
  "tables (snd (get_archive_policy env d)) = tables d"
  "snd (lift_res r d) = d"
  by (simp_all add: get_archive_policy_def with_archive_def op_simps lift_res_def split: option.split sum.split)

lemma archive_policy_state: "snd (get_archive_policy env d) = d"
  by (simp add: get_archive_policy_def with_archive_def op_simps split: option.split)

lemma archive_contract_events_tables:
  "(tables (snd (archive_contract_events clash text env pol bs co now d)) = tables d
      \<and> (\<forall>r. fst (archive_contract_events clash text env pol bs co now d) = Inr r \<longrightarrow> res_archived r = 0))
   \<or> (\<exists>cutoff batch. 0 < batch \<and> tables (snd (archive_contract_events clash text env pol bs co now d)) =
        after_batch clash cutoff batch now (tables d)
      \<and> (\<forall>r. fst (archive_contract_events clash text env pol bs co now d) = Inr r \<longrightarrow>
           res_cutoff r = Some cutoff \<and> fst (archive_batch clash cutoff batch now d) = Inr (res_archived r)))"
proof -
  have pos: "0 < parse_positive_integer text bs default_archive_batch_size"
    by (simp add: parse_positive_integer_def positive_or_def default_archive_batch_size_def split: option.split)
  obtain r where r: "(case pol of Some p \<Rightarrow> op_return p | None \<Rightarrow> get_archive_policy env) d = (r, d)"
    using archive_policy_state [of env d] by (cases pol) (auto simp: op_return_def prod_eq_iff)
  obtain c where c: "(case co of Some c \<Rightarrow> op_return c
      | None \<Rightarrow> lift_res (get_archive_cutoff_date (pol_retention_days p) now)) d = (c p, d)" for p :: policy
  proof -
    have "\<exists>c. (case co of Some c \<Rightarrow> op_return c
      | None \<Rightarrow> lift_res (get_archive_cutoff_date (pol_retention_days p) now)) d = (c, d)" for p
      by (cases co) (auto simp: op_return_def op_raise_def lift_res_def split: sum.split)
    then show ?thesis using that by metis
  qed
  have b: "tables (snd (op_bind (archive_batch clash cutoff batch now) (\<lambda>n.
       op_bind (if 0 < n then count_write else op_return ()) (\<lambda>_. op_return (f n))) d)) =
      after_batch clash cutoff batch now (tables d)
    \<and> (\<forall>r. fst (op_bind (archive_batch clash cutoff batch now) (\<lambda>n.
       op_bind (if 0 < n then count_write else op_return ()) (\<lambda>_. op_return (f n))) d) = Inr r \<longrightarrow>
       (\<exists>n. r = f n \<and> fst (archive_batch clash cutoff batch now d) = Inr n))" for cutoff batch and f :: "nat \<Rightarrow> archive_result"
    using archive_batch_tables [of clash cutoff batch now d]
    by (cases "archive_batch clash cutoff batch now d")
      (auto simp: op_bind_def op_return_def count_write_def Let_def split: sum.split option.split prod.split)
  show ?thesis
  proof (cases r)
    case (Inl e)
    then show ?thesis by (simp add: archive_contract_events_def op_bind_def r)
  next
    case (Inr p)
    show ?thesis
    proof (cases "c p")
      case (Inl e)
      then show ?thesis
        using c [of p] by (auto simp: archive_contract_events_def op_bind_def [of _ _ d] r \<open>r = Inr p\<close> Let_def op_return_def)
    next
      case cut: (Inr cutoff)
      let ?batch = "parse_positive_integer text bs default_archive_batch_size"
      let ?f = "\<lambda>n. \<lparr>res_archived = n, res_enabled = True, res_retention_days = pol_retention_days p, res_cutoff = Some cutoff\<rparr>"
      show ?thesis
      proof (cases "pol_enabled p")
        case True
        then have "archive_contract_events clash text env pol bs co now d =
            op_bind (archive_batch clash cutoff ?batch now) (\<lambda>n.
              op_bind (if 0 < n then count_write else op_return ()) (\<lambda>_. op_return (?f n))) d"
          using c [of p] cut r Inr by (simp add: archive_contract_events_def op_bind_def [of _ _ d] Let_def)
        then show ?thesis
          using pos b [of cutoff ?batch ?f] by (intro disjI2 exI [of _ cutoff] exI [of _ ?batch]) auto
      next
        case False
        then show ?thesis using r Inr by (simp add: archive_contract_events_def op_bind_def [of _ _ d] op_return_def Let_def)
      qed
    qed
  qed
qed

lemma candidates_select: "x \<in> set (archive_candidates cutoff batch l) \<Longrightarrow>
    x \<in> set (trows (transactions l)) \<and> event_time (event_of x) < cutoff"
  unfolding archive_candidates_def by (auto dest!: subsetD [OF set_limit_offset] simp: t_select_def)

lemma take_sorted_le:
  "sorted_wrt (\<lambda>x y. (k x :: 'k::linorder) \<le> k y) xs \<Longrightarrow> x \<in> set (take n xs) \<Longrightarrow> y \<in> set (drop n xs) \<Longrightarrow> k x \<le> k y"
proof -
  assume "sorted_wrt (\<lambda>x y. k x \<le> k y) xs" "x \<in> set (take n xs)" "y \<in> set (drop n xs)"
  moreover have "xs = take n xs @ drop n xs" by simp
  ultimately have "sorted_wrt (\<lambda>x y. k x \<le> k y) (take n xs @ drop n xs)" by simp
  then show "k x \<le> k y" using \<open>x \<in> _\<close> \<open>y \<in> _\<close> unfolding sorted_wrt_append by blast
qed

lemma in_take_or_drop: "y \<in> set xs \<Longrightarrow> y \<in> set (take n xs) \<or> y \<in> set (drop n xs)"
  by (metis Un_iff append_take_drop_id set_append)

text \<open>The oldest go first.\<close>

lemma candidates_oldest:
  assumes "0 \<le> batch" "x \<in> set (archive_candidates cutoff batch l)"
    and "y \<in> set (trows (transactions l))" "y \<notin> set (archive_candidates cutoff batch l)"
    and "event_time (event_of y) < cutoff"
  shows "(event_time (event_of x), fst x) \<le> (event_time (event_of y), fst y)"
proof -
  let ?k = "\<lambda>x. (event_time (event_of x), fst x)"
  let ?s = "order_asc ?k (t_select (\<lambda>x. event_time (event_of x) < cutoff) (transactions l))"
  have c: "archive_candidates cutoff batch l = take (nat batch) ?s"
    using assms(1) by (simp add: archive_candidates_def limit_offset_def)
  have "y \<in> set ?s" using assms(3,5) by (simp add: t_select_def)
  then have "y \<in> set (drop (nat batch) ?s)"
    using in_take_or_drop [of y ?s "nat batch"] assms(4) unfolding c by blast
  moreover have "sorted_wrt (\<lambda>x y. ?k x \<le> ?k y) ?s"
    using sorted_order_asc [of ?k] by (simp add: sorted_map)
  ultimately show ?thesis using take_sorted_le [of ?k ?s x "nat batch" y] assms(2) unfolding c by simp
qed

lemma candidates_ids:
  assumes "t_ok (transactions l)" "x \<in> set (trows (transactions l))"
  shows "fst x \<in> fst ` set (archive_candidates cutoff batch l) \<longleftrightarrow> x \<in> set (archive_candidates cutoff batch l)"
proof
  assume "fst x \<in> fst ` set (archive_candidates cutoff batch l)"
  then obtain y where y: "y \<in> set (archive_candidates cutoff batch l)" "fst y = fst x" by auto
  then have "(fst x, snd y) \<in> set (trows (transactions l))" using candidates_select by (metis prod.collapse)
  then have "snd y = snd x" using tb.row_unique [OF assms(1), of "fst x" "snd y" "snd x"] assms(2) by simp
  then show "x \<in> set (archive_candidates cutoff batch l)" using y by (metis prod.collapse)
qed auto

lemma batch_count:
  assumes "t_ok (transactions (tables d))" "fst (archive_batch clash cutoff batch now d) = Inr n"
  shows "length (trows (transactions (after_batch clash cutoff batch now (tables d)))) + n = length (trows (transactions (tables d)))"
proof -
  let ?l = "tables d" and ?c = "archive_candidates cutoff batch (tables d)"
  have n: "n = length ?c" "?c = [] \<or> archive ?l \<noteq> None"
    using assms(2) by (auto simp: archive_batch_def db_transaction_def op_simps with_archive_def split: if_splits option.splits)
  have "distinct (map fst (order_asc k (t_select P (transactions ?l))))" for k :: "nat \<times> tx_row \<Rightarrow> string \<times> nat" and P
    using moved_ids_distinct [OF assms(1), of P] mset_order_asc [of k "t_select P (transactions ?l)"]
    by (metis mset_eq_imp_distinct_iff mset_map)
  then have "distinct ?c"
    unfolding archive_candidates_def limit_offset_def Let_def by (simp add: distinct_map)
  moreover have "distinct (trows (transactions ?l))" using tb.ok_distinct [OF assms(1)] by (simp add: distinct_map)
  moreover have "set (filter (\<lambda>x. fst x \<in> fst ` set ?c) (trows (transactions ?l))) = set ?c"
  proof (intro set_eqI)
    fix x show "x \<in> set (filter (\<lambda>x. fst x \<in> fst ` set ?c) (trows (transactions ?l))) \<longleftrightarrow> x \<in> set ?c"
      using candidates_ids [OF assms(1), of x cutoff batch] candidates_select [of x cutoff batch ?l]
      by (cases "x \<in> set (trows (transactions ?l))") auto
  qed
  ultimately have "length (filter (\<lambda>x. fst x \<in> fst ` set ?c) (trows (transactions ?l))) = length ?c"
    by (metis distinct_card distinct_filter)
  then show ?thesis
    using n sum_length_filter_compl [of "\<lambda>x. fst x \<in> fst ` set ?c" "trows (transactions ?l)"]
    by (auto simp: after_batch_def Let_def transactions_moved split: option.split)
qed

text \<open>C20: archiving conserves the events.  Whatever \<open>archiveContractEvents\<close> answers, the events with their payouts, live and archived together, are those there were before, none lost and none duplicated; live
  ids and archived ids stay disjoint.  A run that answers has removed as many transactions as it reports,
  all with an event time before the cutoff it reports, and none left behind with a time before the cutoff is
  older than one of them.
\<close>

theorem archiving_conserves_events:
  assumes "archive_wf (tables d)" and "by_event_id clash"
    and "archive_contract_events clash text env pol bs co now d = (res, d')"
  shows "archive_wf (tables d') \<and> all_events (tables d') = all_events (tables d)
    \<and> (\<forall>r. res = Inr r \<longrightarrow>
         length (trows (transactions (tables d'))) + res_archived r = length (trows (transactions (tables d)))
         \<and> (\<forall>x \<in> set (trows (transactions (tables d))) - set (trows (transactions (tables d'))).
              \<exists>cutoff. res_cutoff r = Some cutoff \<and> event_time (event_of x) < cutoff
              \<and> (\<forall>y \<in> set (trows (transactions (tables d'))). event_time (event_of y) < cutoff \<longrightarrow>
                   (event_time (event_of x), fst x) \<le> (event_time (event_of y), fst y))))"
proof -
  let ?l = "tables d"
  have ok: "t_ok (transactions ?l)" using assms(1) by (simp add: archive_wf_def)
  consider "tables d' = ?l" "\<forall>r. res = Inr r \<longrightarrow> res_archived r = 0"
    | cutoff batch where "0 < batch" "tables d' = after_batch clash cutoff batch now ?l"
        "\<forall>r. res = Inr r \<longrightarrow> res_cutoff r = Some cutoff \<and> fst (archive_batch clash cutoff batch now d) = Inr (res_archived r)"
    using archive_contract_events_tables [of clash "text" env pol bs co now d] assms(3) by auto
  then show ?thesis
  proof cases
    case 1
    then show ?thesis using assms(1) by simp
  next
    case 2
    let ?c = "archive_candidates cutoff batch ?l"
    have rows: "x \<in> set (trows (transactions (tables d'))) \<longleftrightarrow>
        x \<in> set (trows (transactions ?l)) \<and> (archive ?l = None \<or> x \<notin> set ?c)" for x
      using candidates_ids [OF ok, of x cutoff batch] unfolding 2(2)
      by (cases "x \<in> set (trows (transactions ?l))")
        (simp_all add: after_batch_def Let_def transactions_moved split: option.split)
    have gone: "event_time (event_of x) < cutoff
         \<and> (\<forall>y \<in> set (trows (transactions (tables d'))). event_time (event_of y) < cutoff \<longrightarrow>
              (event_time (event_of x), fst x) \<le> (event_time (event_of y), fst y))"
      if "x \<in> set (trows (transactions ?l)) - set (trows (transactions (tables d')))" for x
    proof -
      have x: "x \<in> set ?c" "archive ?l \<noteq> None" using that rows by auto
      have "0 \<le> batch" using 2(1) by simp
      then have "(event_time (event_of x), fst x) \<le> (event_time (event_of y), fst y)"
        if "y \<in> set (trows (transactions (tables d')))" "event_time (event_of y) < cutoff" for y
        using candidates_oldest [OF _ x(1), of y] that x(2) unfolding rows by blast
      then show ?thesis using candidates_select [OF x(1)] by blast
    qed
    have "length (trows (transactions (tables d'))) + res_archived r = length (trows (transactions ?l))" if "res = Inr r" for r
      using batch_count [OF ok] 2(2,3) that by metis
    moreover have "\<exists>c. res_cutoff r = Some c \<and> event_time (event_of x) < c
         \<and> (\<forall>y \<in> set (trows (transactions (tables d'))). event_time (event_of y) < c \<longrightarrow>
              (event_time (event_of x), fst x) \<le> (event_time (event_of y), fst y))"
      if "res = Inr r" "x \<in> set (trows (transactions ?l)) - set (trows (transactions (tables d')))" for r x
      using gone [OF that(2)] 2(3) that(1) by blast
    moreover have "archive_wf (tables d')" "all_events (tables d') = all_events ?l"
      unfolding 2(2) by (rule after_batch_keeps [OF assms(1,2)])+
    ultimately show ?thesis by (intro conjI allI impI ballI)
  qed
qed

definition demo_old_tx :: tx_row where
  "demo_old_tx = (new_tx ''C1'' ''distribute'' ''G1'' (Some ''5'') None 0)
     \<lparr>tx_hash := Some ''ab'', tx_timestamp := ''2026-01-02 03:04:05'', tx_status := ''confirmed''\<rparr>"

definition demo_new_tx :: tx_row where
  "demo_new_tx = demo_old_tx\<lparr>tx_hash := Some ''cd'', tx_timestamp := ''2026-06-02 03:04:05''\<rparr>"

definition demo_archive_ledger :: ledger where
  "demo_archive_ledger = empty_ledger
     \<lparr>transactions := \<lparr>tseq = 2, trows = [(1, demo_old_tx), (2, demo_new_tx)]\<rparr>,
      payouts := \<lparr>tseq = 1, trows = [(1, \<lparr>po_transaction = 1, po_contract = ''C1'', po_collaborator = ''G2'', po_amount = ''5''\<rparr>)]\<rparr>,
      archive := Some \<lparr>archived_events = t_empty, archive_policy = None\<rparr>\<rparr>"

definition same_original :: "archive_row \<Rightarrow> archive_row \<Rightarrow> bool" where
  "same_original a b \<longleftrightarrow> ev_id (ar_event a) = ev_id (ar_event b)"

definition no_archive_env :: archive_env where
  "no_archive_env = \<lparr>env_archive_enabled = None, env_retention_days = None\<rparr>"

lemma demo_archive_wf: "archive_wf demo_archive_ledger"
  by (simp add: archive_wf_def demo_archive_ledger_def t_ok_def t_empty_def)

lemma same_original_id: "by_event_id same_original"
  by (simp add: by_event_id_def same_original_def)

definition demo_archive_run :: "archive_result res \<times> ledger db" where
  "demo_archive_run = archive_contract_events same_original (\<lambda>_. ''NaN'') no_archive_env None VUndef
     (Some ''2026-04-01T00:00:00.000Z'') 0 (counted_connection demo_archive_ledger)"

lemma demo_archive_candidates:
  "archive_candidates ''2026-04-01T00:00:00.000Z'' 500 demo_archive_ledger = [(1, demo_old_tx)]"
proof -
  have "event_time (event_of (1, demo_old_tx)) = ''2026-01-02 03:04:05''" "event_time (event_of (2, demo_new_tx)) = ''2026-06-02 03:04:05''"
    by (simp_all add: demo_old_tx_def demo_new_tx_def event_time_def event_of_def new_tx_def)
  moreover have "''2026-01-02 03:04:05'' < ''2026-04-01T00:00:00.000Z''" "\<not> ''2026-06-02 03:04:05'' < ''2026-04-01T00:00:00.000Z''"
    by (simp_all add: less_char_def)
  ultimately show ?thesis
    by (simp add: archive_candidates_def demo_archive_ledger_def t_select_def order_asc_def limit_offset_def)
qed

theorem archiving_conserves_events_witness:
  "all_events (tables (snd demo_archive_run)) = all_events demo_archive_ledger
     \<and> length (trows (transactions (tables (snd demo_archive_run)))) = 1"
proof -
  let ?d = "counted_connection demo_archive_ledger"
  have batch: "parse_positive_integer (\<lambda>_. ''NaN'') VUndef default_archive_batch_size = 500"
    by (simp add: parse_positive_integer_def value_int_def parse_int10_def parse_digits_def positive_or_def
      default_archive_batch_size_def is_space_def is_digit_def Let_def)
  have "fst demo_archive_run = Inr \<lparr>res_archived = 1, res_enabled = True, res_retention_days = 90,
      res_cutoff = Some ''2026-04-01T00:00:00.000Z''\<rparr>"
    using demo_archive_candidates
    by (simp add: demo_archive_run_def archive_contract_events_def batch op_bind_def [of _ _ ?d] get_archive_policy_def
      with_archive_def no_archive_env_def parse_boolean_def op_return_def Let_def archive_batch_value)
      (simp add: demo_archive_ledger_def op_simps count_write_ok default_archive_retention_days_def truthy_def
        archive_batch_value)
  then obtain d' where run: "demo_archive_run = (Inr \<lparr>res_archived = 1, res_enabled = True, res_retention_days = 90,
      res_cutoff = Some ''2026-04-01T00:00:00.000Z''\<rparr>, d')" by (metis prod.collapse)
  have two: "length (trows (transactions demo_archive_ledger)) = 2" by (simp add: demo_archive_ledger_def)
  have "archive_wf (tables ?d)" using demo_archive_wf by simp
  from archiving_conserves_events [OF this same_original_id run [unfolded demo_archive_run_def]]
  have "all_events (tables d') = all_events (tables ?d)"
    "length (trows (transactions (tables d'))) + 1 = length (trows (transactions (tables ?d)))" by simp_all
  then show ?thesis using two by (simp add: run)
qed

end
