(* ===== verification/TxDetails.thy ===== *)
theory TxDetails
  imports Archive
begin

text \<open>
  \<open>getTransactionDetails\<close> of \<open>src/backend/src/database/transactions.js\<close>: a transaction by its hash, live or
  archived, with its payouts and their shares of the total in JavaScript numbers, the last audit entries of
  its contract and the events shown to the user.  \<open>num_text\<close> prints a number (\<open>String(n)\<close>).
\<close>

section \<open>Arithmetic of JavaScript numbers\<close>

definition dbl :: "rat \<Rightarrow> rat" where
  "dbl q = (if q < 0 then - to_double (- q) else to_double q)"

fun num_add :: "js_number \<Rightarrow> js_number \<Rightarrow> js_number" where
  "num_add (Finite a) (Finite b) = Finite (dbl (a + b))"
| "num_add (Infinite a) (Infinite b) = (if a = b then Infinite a else NaN)"
| "num_add (Infinite a) (Finite b) = Infinite a"
| "num_add (Finite a) (Infinite b) = Infinite b"
| "num_add _ _ = NaN"

text \<open>The quotient by a positive number, and a hundred times a number.\<close>

fun num_ratio :: "js_number \<Rightarrow> js_number \<Rightarrow> js_number" where
  "num_ratio (Finite a) (Finite b) = Finite (dbl (a / b))"
| "num_ratio (Finite a) (Infinite b) = Finite 0"
| "num_ratio (Infinite a) (Finite b) = Infinite a"
| "num_ratio _ _ = NaN"

definition num_hundred :: "js_number \<Rightarrow> js_number" where
  "num_hundred n = (case n of Finite q \<Rightarrow> Finite (dbl (q * 100)) | _ \<Rightarrow> n)"

definition num_positive :: "js_number \<Rightarrow> bool" where
  "num_positive n = (case n of NaN \<Rightarrow> False | Infinite neg \<Rightarrow> \<not> neg | Finite q \<Rightarrow> 0 < q)"

text \<open>\<open>parseFloat(n.toFixed(2))\<close>: from 1e21 on \<open>toFixed\<close> prints the number itself.\<close>

definition fixed2_value :: "js_number \<Rightarrow> js_number" where
  "fixed2_value n =
     (case n of
        Finite q \<Rightarrow> if 10 ^ 21 \<le> \<bar>q\<bar> then n
                   else Finite (dbl ((if q < 0 then - 1 else 1) * of_int \<lfloor>\<bar>q\<bar> * 100 + 1 / 2\<rfloor> / 100))
      | _ \<Rightarrow> n)"

text \<open>\<open>parseFloat(s)\<close>: the longest prefix, after white space and a sign, that is a decimal literal.\<close>

definition decimal_prefix :: "string \<Rightarrow> js_number" where
  "decimal_prefix u =
     (case filter (\<lambda>n. n \<noteq> NaN) (map (\<lambda>k. unsigned_decimal (take k u)) (rev [0..<Suc (length u)])) of
        [] \<Rightarrow> NaN | n # _ \<Rightarrow> n)"

definition num_round :: "js_number \<Rightarrow> js_number" where
  "num_round n = (case n of Finite q \<Rightarrow> Finite (dbl q) | _ \<Rightarrow> n)"

definition parse_float :: "string \<Rightarrow> js_number" where
  "parse_float s =
     num_round (case dropWhile is_space s of
        [] \<Rightarrow> NaN
      | c # r \<Rightarrow> if c = CHR ''-'' then js_negate (decimal_prefix r)
                 else if c = CHR ''+'' then decimal_prefix r else decimal_prefix (c # r))"

section \<open>Details of a transaction\<close>

definition amount_received :: "js_value \<Rightarrow> js_number" where
  "amount_received p =
     (case (case field ''amountReceived'' p of VStr s \<Rightarrow> parse_float s | VNum n \<Rightarrow> n | _ \<Rightarrow> NaN) of
        NaN \<Rightarrow> Finite 0 | n \<Rightarrow> n)"

record tx_details =
  td_event :: event
  td_retry :: "(nat \<times> string option) option"
  td_payouts :: "(js_value \<times> js_number) list"
  td_total :: js_number
  td_audit :: "(nat \<times> audit_row) list"

definition share_percentage :: "js_number \<Rightarrow> js_value \<Rightarrow> js_number" where
  "share_percentage tot p =
     (if num_positive tot then fixed2_value (num_hundred (num_ratio (amount_received p) tot)) else Finite 0)"

definition recent_audit :: "string \<Rightarrow> ledger \<Rightarrow> (nat \<times> audit_row) list" where
  "recent_audit contract l = limit_offset 20 0
     (order_desc (\<lambda>x. au_timestamp (snd x)) (t_select (\<lambda>x. au_contract (snd x) = contract) (audit_log l)))"

definition details_of :: "ledger \<Rightarrow> event \<Rightarrow> (nat \<times> string option) option \<Rightarrow> js_value list \<Rightarrow> tx_details" where
  "details_of l e retry ps =
     (let tot = foldl num_add (Finite 0) (map amount_received ps)
      in \<lparr>td_event = e, td_retry = retry, td_payouts = map (\<lambda>p. (p, share_percentage tot p)) ps,
          td_total = tot, td_audit = recent_audit (ev_contract e) l\<rparr>)"

text \<open>The stored payouts as a list: \<open>(payouts || []).reduce\<close>, then a property of each element.\<close>

definition payout_list :: "js_value \<Rightarrow> js_value list res" where
  "payout_list v =
     (if \<not> value_truthy v then Inr []
      else case v of
        VArr xs \<Rightarrow> if VNull \<in> set xs then Inl (TypeErr ''Cannot read properties of null (reading 'amountReceived')'') else Inr xs
      | _ \<Rightarrow> Inl (TypeErr ''(transaction.payouts || []).reduce is not a function''))"

definition payout_row_value :: "payout_row \<Rightarrow> js_value" where
  "payout_row_value p = to_value (payout_object p)"

definition get_transaction_details :: "string \<Rightarrow> tx_details option ledger_op" where
  "get_transaction_details h =
     (if h = [] then op_return None
      else op_bind (op_read (\<lambda>l. t_get (has_hash h) (transactions l))) (\<lambda>live.
        case live of
          Some x \<Rightarrow> op_read (\<lambda>l. Some (details_of l (event_of x) (Some (retry_count (snd x), last_retry_time (snd x)))
                      (map payout_row_value (tx_payouts (fst x) l))))
        | None \<Rightarrow> with_archive ''contract_event_archive'' (\<lambda>a.
            case t_get (\<lambda>r. ev_hash (ar_event (snd r)) = Some h) (archived_events a) of
              None \<Rightarrow> op_return None
            | Some r \<Rightarrow> op_bind (lift_res (payout_list (stored_payouts (snd r)))) (\<lambda>ps.
                op_read (\<lambda>l. Some (details_of l (ar_event (snd r)) None ps))))))"

text \<open>The events shown with a transaction.\<close>

definition str_or :: "string option \<Rightarrow> string \<Rightarrow> js_value" where
  "str_or s d = VStr (if truthy s then the s else d)"

definition contract_events :: "(js_number \<Rightarrow> string) \<Rightarrow> tx_details \<Rightarrow> js_value list" where
  "contract_events num_text td =
     (let e = td_event td;
          when = VStr (if truthy (ev_block_time e) then the (ev_block_time e) else ev_timestamp e)
      in [VObj
           [(''id'', VStr (''evt-'' @ nat_str (ev_id e) @ ''-invoked'')), (''type'', VStr ''contract_invocation''),
            (''contractId'', VStr (ev_contract e)),
            (''topics'', VArr [VStr ''contract_call'', VStr (ev_type e), VStr (ev_contract e)]),
            (''data'', VObj
              [(''function'', VStr (ev_type e)), (''initiator'', VStr (ev_initiator e)),
               (''tokenId'', str_or (ev_token e) ''XLM''), (''requestedAmount'', str_or (ev_amount e) ''0''),
               (''status'', VStr (ev_status e))]),
            (''timestamp'', when)],
          VObj
           [(''id'', VStr (''evt-'' @ nat_str (ev_id e) @ ''-payouts'')), (''type'', VStr ''distribution_event''),
            (''contractId'', VStr (ev_contract e)),
            (''topics'', VArr [VStr ''royalty_split'', VStr ''distribution_completed'']),
            (''data'', VObj
              [(''totalDistributed'', VStr (num_text (td_total td))),
               (''recipientCount'', VNum (Finite (of_nat (length (td_payouts td))))),
               (''payoutsSummary'', VArr (map (\<lambda>x. VObj
                  [(''address'', field ''collaboratorAddress'' (fst x)), (''amount'', field ''amountReceived'' (fst x)),
                   (''share'', VStr (num_text (snd x) @ ''%''))]) (td_payouts td)))]),
            (''timestamp'', when)]])"

section \<open>A transaction looks the same archived\<close>

text \<open>No archived event has the hash of a live transaction.\<close>

definition archive_hashes_apart :: "ledger \<Rightarrow> bool" where
  "archive_hashes_apart l \<longleftrightarrow> (\<forall>a. archive l = Some a \<longrightarrow> (\<forall>r \<in> set (trows (archived_events a)).
     \<forall>x \<in> set (trows (transactions l)). ev_hash (ar_event (snd r)) \<noteq> None \<longrightarrow>
       tx_hash (snd x) \<noteq> ev_hash (ar_event (snd r))))"

definition live_details :: "ledger \<Rightarrow> nat \<times> tx_row \<Rightarrow> tx_details" where
  "live_details l x = details_of l (event_of x) (Some (retry_count (snd x), last_retry_time (snd x)))
     (map payout_row_value (tx_payouts (fst x) l))"

definition archived_lookup :: "string \<Rightarrow> archive_tables \<Rightarrow> archive_row option" where
  "archived_lookup h a = find (\<lambda>r. ev_hash (ar_event r) = Some h) (map snd (trows (archived_events a)))"

lemma forget_retry: "(details_of l e r ps)\<lparr>td_retry := None\<rparr> = details_of l e None ps"
  by (simp add: details_of_def Let_def)

lemma find_snd: "map_option snd (find (\<lambda>r. P (snd r)) xs) = find P (map snd xs)"
  by (induction xs) auto

lemma find_append: "find P (xs @ ys) = (case find P xs of None \<Rightarrow> find P ys | Some x \<Rightarrow> Some x)"
  by (induction xs) auto

lemma details_live:
  "h \<noteq> [] \<Longrightarrow> t_get (has_hash h) (transactions (tables d)) = Some x \<Longrightarrow>
     fst (get_transaction_details h d) = Inr (Some (live_details (tables d) x))"
  by (simp add: get_transaction_details_def op_simps live_details_def)

lemma details_archived:
  assumes "h \<noteq> []" "t_get (has_hash h) (transactions (tables d)) = None" "archive (tables d) = Some a"
  shows "fst (get_transaction_details h d) = (case archived_lookup h a of None \<Rightarrow> Inr None
    | Some r \<Rightarrow> (case payout_list (stored_payouts r) of Inl e \<Rightarrow> Inl e
        | Inr ps \<Rightarrow> Inr (Some (details_of (tables d) (ar_event r) None ps))))"
proof -
  let ?P = "\<lambda>r. ev_hash (ar_event (snd r)) = Some h"
  have "archived_lookup h a = map_option snd (t_get ?P (archived_events a))"
    unfolding archived_lookup_def t_get_def by (rule find_snd [symmetric])
  then show ?thesis using assms
    by (cases "t_get ?P (archived_events a)")
      (auto simp: get_transaction_details_def op_simps with_archive_def lift_res_def split: sum.split)
qed

lemma details_nothing: "h \<noteq> [] \<Longrightarrow> t_get (has_hash h) (transactions (tables d)) = None \<Longrightarrow> archive (tables d) = None \<Longrightarrow>
    get_transaction_details h d = (Inl (no_table ''contract_event_archive''), d)"
  by (simp add: get_transaction_details_def op_simps with_archive_def)

lemma details_state [simp]: "snd (get_transaction_details h d) = d"
  by (auto simp: get_transaction_details_def op_simps with_archive_def lift_res_def split: option.split sum.split)

lemma payout_list_values [simp]: "payout_list (payout_values i l) = Inr (map payout_row_value (tx_payouts i l))"
proof -
  have "VNull \<notin> set (map (\<lambda>p. to_value (payout_object p)) ps)" for ps by (auto simp: payout_object_def)
  then show ?thesis by (simp add: payout_list_def payout_values_def payout_row_value_def value_truthy_def)
qed

lemma find_filter_unique:
  assumes "\<And>x y. x \<in> set xs \<Longrightarrow> y \<in> set xs \<Longrightarrow> P x \<Longrightarrow> P y \<Longrightarrow> x = y"
  shows "find P (filter R xs) = (case find P xs of Some x \<Rightarrow> if R x then Some x else None | None \<Rightarrow> None)"
  using assms
proof (induction xs)
  case (Cons z xs)
  have IH: "find P (filter R xs) = (case find P xs of Some x \<Rightarrow> if R x then Some x else None | None \<Rightarrow> None)"
    by (rule Cons.IH) (use Cons.prems in auto)
  show ?case
  proof (cases "P z \<and> \<not> R z")
    case True
    have "find P (filter R xs) = None"
      unfolding find_None_iff2 using Cons.prems [of z] True by auto
    then show ?thesis using True by simp
  next
    case False
    then show ?thesis using IH by auto
  qed
qed simp

lemma find_map_row: "find P (map f xs) = map_option f (find (\<lambda>x. P (f x)) xs)"
  by (induction xs) auto

lemma same_hash_same_row:
  assumes "unique_hashes l" "t_ok (transactions l)"
    and "x \<in> set (trows (transactions l))" "y \<in> set (trows (transactions l))" "has_hash h x" "has_hash h y"
  shows "x = y"
proof -
  have "tx_hash (snd x) \<noteq> None" "tx_hash (snd x) = tx_hash (snd y)" using assms(5,6) by (simp_all add: has_hash_def)
  then have "fst x = fst y" using assms(1,3,4) unfolding unique_hashes_def by blast
  then show ?thesis using tb.row_unique [OF assms(2), of "fst x" "snd x" "snd y"] assms(3,4)
    by (metis prod.collapse)
qed

text \<open>A hash finds the same row among those an id condition keeps.\<close>

lemma hash_in_filtered:
  assumes "unique_hashes l" "t_ok (transactions l)"
  shows "find (has_hash h) (filter R (trows (transactions l))) =
    (case t_get (has_hash h) (transactions l) of Some x \<Rightarrow> if R x then Some x else None | None \<Rightarrow> None)"
  unfolding t_get_def by (rule find_filter_unique) (rule same_hash_same_row [OF assms])

text \<open>Looking up after a move.\<close>

lemma lookup_after_move:
  assumes "unique_hashes l" "archive_wf l"
  shows "t_get (has_hash h) (transactions (move_to_archive clash ids now a l)) =
    (case t_get (has_hash h) (transactions l) of Some x \<Rightarrow> if fst x \<in> set ids then None else Some x | None \<Rightarrow> None)"
  using hash_in_filtered [OF assms(1), of h "\<lambda>x. fst x \<notin> set ids"] assms(2)
  by (simp add: t_get_def transactions_moved archive_wf_def split: option.split)

lemma archived_after_move:
  assumes "unique_hashes l" "archive_wf l" "archive_hashes_apart l" "by_event_id clash" "archive l = Some a"
  shows "\<exists>a'. archive (move_to_archive clash ids now a l) = Some a' \<and> archived_lookup h a' =
    (case t_get (has_hash h) (transactions l) of
       Some x \<Rightarrow> if fst x \<in> set ids then Some (archive_row_of l now x) else archived_lookup h a
     | None \<Rightarrow> archived_lookup h a)"
proof -
  let ?moved = "t_select (\<lambda>x. fst x \<in> set ids) (transactions l)" and ?Q = "\<lambda>r. ev_hash (ar_event r) = Some h"
  let ?a' = "a\<lparr>archived_events := fold (archive_insert clash) (map (archive_row_of l now) ?moved) (archived_events a)\<rparr>"
  have look: "archived_lookup h ?a' = (case archived_lookup h a of
      None \<Rightarrow> find ?Q (map (archive_row_of l now) ?moved) | Some r \<Rightarrow> Some r)"
    using move_rows [OF assms(2,5,4), of now "\<lambda>x. fst x \<in> set ids"] by (simp add: archived_lookup_def find_append)
  have q: "?Q (archive_row_of l now x) \<longleftrightarrow> has_hash h x" for x by (simp add: event_of_def has_hash_def)
  have "find ?Q (map (archive_row_of l now) ?moved) = (case t_get (has_hash h) (transactions l) of
      Some x \<Rightarrow> if fst x \<in> set ids then Some (archive_row_of l now x) else None | None \<Rightarrow> None)"
    using hash_in_filtered [OF assms(1), of h "\<lambda>x. fst x \<in> set ids"] assms(2)
    unfolding find_map_row q by (simp add: t_select_def archive_wf_def split: option.split)
  moreover have "archived_lookup h a = None" if "t_get (has_hash h) (transactions l) = Some x" for x
  proof -
    have "x \<in> set (trows (transactions l))" "tx_hash (snd x) = Some h"
      using t_get_Some [OF that] by (simp_all add: has_hash_def)
    then have "ev_hash (ar_event (snd r)) \<noteq> Some h" if "r \<in> set (trows (archived_events a))" for r
      using assms(3,5) that unfolding archive_hashes_apart_def by (metis option.discI)
    then show ?thesis unfolding archived_lookup_def find_None_iff2 by auto
  qed
  ultimately show ?thesis using look
    by (intro exI [of _ ?a']) (auto simp: move_to_archive_def split: option.split)
qed


lemma demo_details_before:
  "fst (get_transaction_details ''ab'' (counted_connection demo_archive_ledger)) =
     Inr (Some (live_details demo_archive_ledger (1, demo_old_tx)))"
  using details_live [of "''ab''" "counted_connection demo_archive_ledger" "(1, demo_old_tx)"]
  by (simp add: demo_archive_ledger_def t_get_def has_hash_def demo_old_tx_def new_tx_def)


end
