(* ===== verification/History.thy ===== *)
theory History
  imports TxDetails Webhooks Handlers
begin

text \<open>
  \<open>src/backend/src/routes/history.js\<close>: the history of a contract by offset and by cursor, the archive
  routes, the details of a transaction, its confirmation against Horizon (\<open>pollHorizonTransaction\<close> of
  \<open>stellar.js\<close>) with the webhooks of a completed distribution, and the audit log.

  A handler is a function of the connection; one that answers with a document holding fractions or
  parsed payouts yields \<open>Inr\<close> that document.  The confirmation awaits Horizon between its look-up and its
  update, so it is split there: \<open>confirm_begin\<close>, then \<open>confirm_finish\<close> with the answer, and other requests may
  run in between.  \<open>date_ok s\<close> says whether \<open>new Date(s)\<close> is valid, \<open>odd_page\<close> is what SQLite selects for a
  cursor that is not a text and a positive integer, \<open>text\<close> is \<open>String(v)\<close> of a value that is not a string.
  The result cache the router writes to is left out: nothing reads those entries.
\<close>

section \<open>History\<close>

definition caught :: "('t, 'a) db_op \<Rightarrow> 't db \<Rightarrow> (response + 'a) \<times> 't db" where
  "caught m d = (case m d of
      (Inl e, d') \<Rightarrow> (Inl (send_error 500 (Some ''internal_server_error'') (error_message e) []), d')
    | (Inr r, d') \<Rightarrow> (Inr r, d'))"

definition answered :: "('t, response) db_op \<Rightarrow> 't db \<Rightarrow> response \<times> 't db" where
  "answered m d = (case caught m d of (Inl r, d') \<Rightarrow> (r, d') | (Inr r, d') \<Rightarrow> (r, d'))"

definition valid_history_types :: "string list" where
  "valid_history_types = [''distribute'', ''initialize'']"

record history_query =
  q_type :: "string option"
  q_recipient :: "string option"
  q_start :: "string option"
  q_end :: "string option"
  q_cursor :: "string option"
  q_limit :: "string option"
  q_offset :: "string option"

definition history_row :: "(nat \<times> tx_row) \<times> nat \<Rightarrow> json" where
  "history_row y = (case y of ((i, r), n) \<Rightarrow> JObj
     [(''id'', JNum (int i)), (''txHash'', opt_json (tx_hash r)), (''contractId'', JStr (tx_contract r)),
      (''type'', JStr (tx_type r)), (''initiatorAddress'', JStr (tx_initiator r)),
      (''requestedAmount'', opt_json (requested_amount r)), (''tokenId'', opt_json (token_id r)),
      (''timestamp'', JStr (tx_timestamp r)), (''blockTime'', opt_json (block_time r)),
      (''status'', JStr (tx_status r)), (''errorMessage'', opt_json (tx_error r)),
      (''retry_count'', JNum (int (retry_count r))), (''last_retry_time'', opt_json (last_retry_time r)),
      (''payoutCount'', JNum (int n))])"

definition query_filters :: "history_query \<Rightarrow> tx_filters" where
  "query_filters q = \<lparr>f_type = q_type q, f_recipient = q_recipient q, f_start = q_start q, f_end = q_end q\<rparr>"

definition bad_filter :: "(string \<Rightarrow> bool) \<Rightarrow> history_query \<Rightarrow> response option" where
  "bad_filter date_ok q =
     (if (case q_type q of None \<Rightarrow> False | Some t \<Rightarrow> t \<notin> set valid_history_types)
      then Some (bad_query ''type must be one of: distribute, initialize'')
      else if (case q_start q of None \<Rightarrow> False | Some s \<Rightarrow> \<not> date_ok s)
      then Some (bad_query ''Invalid startDate. Use ISO 8601 or YYYY-MM-DD format.'')
      else if (case q_end q of None \<Rightarrow> False | Some s \<Rightarrow> \<not> date_ok s)
      then Some (bad_query ''Invalid endDate. Use ISO 8601 or YYYY-MM-DD format.'')
      else None)"

type_synonym cursor_page = "((nat \<times> tx_row) \<times> nat) list \<times> (string \<times> nat) option"

definition cursor_select ::
  "(string \<Rightarrow> int \<Rightarrow> js_value \<times> js_value \<Rightarrow> tx_filters \<Rightarrow> cursor_page ledger_op) \<Rightarrow> string \<Rightarrow> int
    \<Rightarrow> (js_value \<times> js_value) option \<Rightarrow> tx_filters \<Rightarrow> cursor_page ledger_op" where
  "cursor_select odd_page contract limit cur f =
     (case cur of
        None \<Rightarrow> get_transaction_history_cursor contract limit None f
      | Some (VStr ts, VNum (Finite i)) \<Rightarrow>
          if i = of_int \<lfloor>i\<rfloor> \<and> 0 < i then get_transaction_history_cursor contract limit (Some (ts, nat \<lfloor>i\<rfloor>)) f
          else odd_page contract limit (VStr ts, VNum (Finite i)) f
      | Some c \<Rightarrow> odd_page contract limit c f)"

definition next_cursor_json :: "(string \<times> nat) option \<Rightarrow> json" where
  "next_cursor_json c =
     (case c of None \<Rightarrow> JNull | Some (ts, i) \<Rightarrow> JStr (encode_cursor (JStr ts) (JNum (int i))))"

definition cursor_body :: "int \<Rightarrow> cursor_page \<Rightarrow> response" where
  "cursor_body limit p = \<lparr>rstatus = 200, rbody = JObj
     [(''success'', JBool True), (''data'', JArr (map history_row (fst p))),
      (''pagination'', JObj [(''limit'', JNum limit), (''nextCursor'', next_cursor_json (snd p)),
                            (''hasMore'', JBool (snd p \<noteq> None))])]\<rparr>"

definition offset_body :: "int \<Rightarrow> int \<Rightarrow> ((nat \<times> tx_row) \<times> nat) list \<Rightarrow> nat \<Rightarrow> response" where
  "offset_body limit offset rows tot = \<lparr>rstatus = 200, rbody = JObj
     [(''success'', JBool True), (''data'', JArr (map history_row rows)),
      (''pagination'', JObj [(''limit'', JNum limit), (''offset'', JNum offset), (''total'', JNum (int tot)),
          (''hasNextPage'', JBool (offset + limit < int tot)), (''hasPrevPage'', JBool (0 < offset))]),
      (''_deprecated'', JStr ''Use cursor-based pagination: pass `cursor` from previous response's nextCursor'')]\<rparr>"

definition history_handler ::
  "(string \<Rightarrow> bool) \<Rightarrow> (string \<Rightarrow> int \<Rightarrow> js_value \<times> js_value \<Rightarrow> tx_filters \<Rightarrow> cursor_page ledger_op) \<Rightarrow> string
    \<Rightarrow> history_query \<Rightarrow> ledger db \<Rightarrow> response \<times> ledger db" where
  "history_handler date_ok odd_page contract q d =
     (if \<not> contract_regex contract then (invalid_contract_id, d)
      else case bad_filter date_ok q of
        Some r \<Rightarrow> (r, d)
      | None \<Rightarrow>
          if truthy (q_cursor q) then
            (case parse_cursor_pagination (q_limit q) (q_cursor q) 50 100 of
               Inl r \<Rightarrow> (r, d)
             | Inr (limit, cur) \<Rightarrow> answered (op_bind (cursor_select odd_page contract limit cur (query_filters q))
                 (\<lambda>p. op_return (cursor_body limit p))) d)
          else
            (case parse_pagination (q_limit q) (q_offset q) 50 100 of
               Inl r \<Rightarrow> (r, d)
             | Inr (limit, offset) \<Rightarrow> answered
                 (op_bind (get_transaction_history contract limit offset (query_filters q)) (\<lambda>rows.
                  op_bind (get_transaction_count contract (query_filters q)) (\<lambda>tot.
                  op_return (offset_body limit offset rows tot)))) d))"

section \<open>Archive routes\<close>

definition policy_json :: "policy \<Rightarrow> json" where
  "policy_json p = JObj [(''enabled'', JBool (pol_enabled p)), (''retentionDays'', JNum (pol_retention_days p)),
     (''updatedAt'', opt_json (pol_updated_at p))]"

definition archive_policy_handler :: "archive_env \<Rightarrow> ledger db \<Rightarrow> response \<times> ledger db" where
  "archive_policy_handler env = answered (op_bind (get_archive_policy env) (\<lambda>p. op_return (data_response 200 (policy_json p))))"

definition is_bool :: "js_value \<Rightarrow> bool" where
  "is_bool v = (case v of VBool _ \<Rightarrow> True | _ \<Rightarrow> False)"

definition positive_int_value :: "(js_value \<Rightarrow> string) \<Rightarrow> js_value \<Rightarrow> bool" where
  "positive_int_value text v = (case value_int text v of None \<Rightarrow> False | Some n \<Rightarrow> 0 < n)"

definition set_archive_policy_handler ::
  "(js_value \<Rightarrow> string) \<Rightarrow> archive_env \<Rightarrow> js_value \<Rightarrow> int \<Rightarrow> ledger db \<Rightarrow> response \<times> ledger db" where
  "set_archive_policy_handler text env b now d =
     (let enabled = field ''enabled'' b; days = field ''retentionDays'' b in
      if \<not> nullish enabled \<and> \<not> is_bool enabled
      then (send_error 400 (Some ''bad_request'') ''enabled must be a boolean'' [], d)
      else if \<not> nullish days \<and> \<not> positive_int_value text days
      then (send_error 400 (Some ''bad_request'') ''retentionDays must be a positive integer'' [], d)
      else answered (op_bind (update_archive_policy text env enabled days now)
             (\<lambda>p. op_return (data_response 200 (policy_json p)))) d)"

definition archive_result_json :: "archive_result \<Rightarrow> json" where
  "archive_result_json r = JObj [(''archived'', JNum (int (res_archived r))), (''enabled'', JBool (res_enabled r)),
     (''retentionDays'', JNum (res_retention_days r)), (''cutoff'', opt_json (res_cutoff r))]"

definition archive_run_handler ::
  "(archive_row \<Rightarrow> archive_row \<Rightarrow> bool) \<Rightarrow> (js_value \<Rightarrow> string) \<Rightarrow> archive_env \<Rightarrow> js_value \<Rightarrow> int \<Rightarrow> ledger db
    \<Rightarrow> response \<times> ledger db" where
  "archive_run_handler clash text env b now d =
     (let bs = field ''batchSize'' b in
      if \<not> nullish bs \<and> \<not> positive_int_value text bs
      then (send_error 400 (Some ''bad_request'') ''batchSize must be a positive integer'' [], d)
      else answered (op_bind (archive_contract_events clash text env None (if nullish bs then VUndef else bs) None now)
             (\<lambda>r. op_return (data_response 200 (archive_result_json r)))) d)"

definition archive_list_handler ::
  "string \<Rightarrow> string option \<Rightarrow> string option \<Rightarrow> ledger db
    \<Rightarrow> (response + ((nat \<times> archive_row) \<times> js_value) list \<times> int \<times> int \<times> nat) \<times> ledger db" where
  "archive_list_handler contract qlimit qoffset d =
     (if \<not> contract_regex contract then (Inl invalid_contract_id, d)
      else case parse_pagination qlimit qoffset 50 200 of
        Inl r \<Rightarrow> (Inl r, d)
      | Inr (limit, offset) \<Rightarrow> caught
          (op_bind (get_archived_events contract limit offset) (\<lambda>rows.
           op_bind (get_archived_event_count contract) (\<lambda>tot. op_return (rows, limit, offset, tot)))) d)"

section \<open>A transaction and its confirmation\<close>

definition tx_not_found :: response where
  "tx_not_found = send_error 404 (Some ''not_found'') ''Transaction not found'' []"

definition transaction_handler :: "string \<Rightarrow> ledger db \<Rightarrow> (response + tx_details) \<times> ledger db" where
  "transaction_handler h d = (case caught (get_transaction_details h) d of
      (Inl r, d') \<Rightarrow> (Inl r, d') | (Inr None, d') \<Rightarrow> (Inl tx_not_found, d') | (Inr (Some td), d') \<Rightarrow> (Inr td, d'))"

text \<open>\<open>pollHorizonTransaction\<close> over a script of rounds: the time passed when the loop tests it, and the
  answer of Horizon.  A request that runs into its own timeout ends the loop; any other error is retried.\<close>

datatype horizon_reply =
    HzStatus nat
  | HzData bool "nat option" "string option"   \<comment> \<open>successful, ledger, created at\<close>
  | HzTimeout
  | HzError

record poll_result =
  pr_status :: string
  pr_ledger :: "nat option"
  pr_created_at :: "string option"

fun poll_horizon :: "int \<Rightarrow> (int \<times> horizon_reply) list \<Rightarrow> ((nat \<times> string) + poll_result) option" where
  "poll_horizon timeout [] = None"
| "poll_horizon timeout ((t, a) # rs) =
     (if \<not> t < timeout
      then Some (Inl (504, ''Transaction not confirmed within '' @ int_str timeout @ ''ms''))
      else case a of
        HzData ok ledger created \<Rightarrow>
          Some (Inr \<lparr>pr_status = (if ok then ''confirmed'' else ''failed''), pr_ledger = ledger, pr_created_at = created\<rparr>)
      | HzTimeout \<Rightarrow> Some (Inl (504, ''Horizon getTransaction did not respond within 10000ms''))
      | HzStatus _ \<Rightarrow> poll_horizon timeout rs
      | HzError \<Rightarrow> poll_horizon timeout rs)"

definition hex64 :: "string \<Rightarrow> bool" where
  "hex64 h \<longleftrightarrow> length h = 64 \<and> list_all (\<lambda>c. hex_val c \<noteq> None) h"

definition conflict_status :: "string \<Rightarrow> response" where
  "conflict_status st = send_error 409 (Some ''conflict'') (''Transaction already '' @ st) []"

definition link_pending :: "(js_value \<Rightarrow> string) \<Rightarrow> string \<Rightarrow> js_value \<Rightarrow> (response + tx_details option) ledger_op" where
  "link_pending text h tid =
     (case value_int text tid of
        None \<Rightarrow> op_return (Inl (send_error 400 (Some ''invalid_transaction_id'') ''Invalid transactionId'' []))
      | Some i \<Rightarrow>
          if i \<le> 0 then op_return (Inl (send_error 400 (Some ''invalid_transaction_id'') ''Invalid transactionId'' []))
          else op_bind (get_transaction_by_id (nat i)) (\<lambda>pending.
            case pending of
              None \<Rightarrow> op_return (Inl tx_not_found)
            | Some x \<Rightarrow>
                if tx_status (snd x) \<noteq> ''pending'' then op_return (Inl (conflict_status (tx_status (snd x))))
                else if truthy (tx_hash (snd x)) \<and> tx_hash (snd x) \<noteq> Some h
                then op_return (Inl (send_error 409 (Some ''conflict'') ''Transaction is already linked to a different hash'' []))
                else op_bind (update_transaction_hash (nat i) h) (\<lambda>_.
                     op_bind (get_transaction_details h) (\<lambda>e. op_return (Inr e)))))"

definition confirm_lookup :: "(js_value \<Rightarrow> string) \<Rightarrow> string \<Rightarrow> js_value \<Rightarrow> (response + unit) ledger_op" where
  "confirm_lookup text h tid =
     (if \<not> hex64 h
      then op_return (Inl (send_error 400 (Some ''invalid_transaction_hash'')
        ''Invalid transaction hash format. Expected 64 hexadecimal characters.'' []))
      else op_bind (get_transaction_details h) (\<lambda>found.
        op_bind (if found = None \<and> \<not> nullish tid then link_pending text h tid else op_return (Inr found)) (\<lambda>r.
        op_return (case r of
            Inl resp \<Rightarrow> Inl resp
          | Inr None \<Rightarrow> Inl tx_not_found
          | Inr (Some td) \<Rightarrow> if ev_status (td_event td) \<noteq> ''pending'' then Inl (conflict_status (ev_status (td_event td)))
                            else Inr ()))))"

definition confirm_begin :: "(js_value \<Rightarrow> string) \<Rightarrow> string \<Rightarrow> js_value \<Rightarrow> ledger db \<Rightarrow> (response + unit) \<times> ledger db" where
  "confirm_begin text h tid d = (case caught (confirm_lookup text h tid) d of
      (Inl r, d') \<Rightarrow> (Inl r, d') | (Inr (Inl r), d') \<Rightarrow> (Inl r, d') | (Inr (Inr _), d') \<Rightarrow> (Inr (), d'))"

definition payout_row_of :: "js_value \<Rightarrow> payout_row" where
  "payout_row_of v = \<lparr>po_transaction = 0, po_contract = [], po_collaborator = text_field ''collaboratorAddress'' v,
     po_amount = text_field ''amountReceived'' v\<rparr>"

definition row_of_event :: "event \<Rightarrow> tx_row" where
  "row_of_event e = (new_tx (ev_contract e) (ev_type e) (ev_initiator e) (ev_amount e) (ev_token e) 0)
     \<lparr>tx_hash := ev_hash e, tx_timestamp := ev_timestamp e, block_time := ev_block_time e,
      tx_status := ev_status e, tx_error := ev_error e\<rparr>"

definition deliver_details ::
  "(string \<Rightarrow> string \<Rightarrow> string option) \<Rightarrow> int \<Rightarrow> tx_details \<Rightarrow> ledger db \<Rightarrow> ledger db" where
  "deliver_details post now td =
     deliver_distribute_webhooks post now (row_of_event (td_event td)) (map (\<lambda>p. payout_row_of (fst p)) (td_payouts td))"

definition first_some :: "'a option \<Rightarrow> 'a option \<Rightarrow> 'a option" where
  "first_some a b = (case a of None \<Rightarrow> b | Some x \<Rightarrow> Some x)"

definition confirm_update ::
  "(string \<Rightarrow> string \<Rightarrow> string option) \<Rightarrow> string \<Rightarrow> string option \<Rightarrow> string option \<Rightarrow> poll_result \<Rightarrow> int
    \<Rightarrow> response ledger_op" where
  "confirm_update post h blk err p now =
     op_bind (update_transaction_status h (pr_status p) (first_some blk (pr_created_at p)) err) (\<lambda>_.
     op_bind (get_transaction_details h) (\<lambda>confirmed.
     op_bind (case confirmed of
         Some td \<Rightarrow> if pr_status p = ''confirmed'' \<and> ev_type (td_event td) = ''distribute''
                    then (\<lambda>d. (Inr (), deliver_details post now td d)) else op_return ()
       | None \<Rightarrow> op_return ()) (\<lambda>_.
     op_return \<lparr>rstatus = 200, rbody = JObj [(''success'', JBool True), (''status'', JStr (pr_status p)),
       (''ledger'', case pr_ledger p of None \<Rightarrow> JNull | Some n \<Rightarrow> JNum (int n)),
       (''message'', JStr (''Transaction '' @ take 8 h @ ''... marked as '' @ pr_status p))]\<rparr>)))"

definition confirm_finish ::
  "(string \<Rightarrow> string \<Rightarrow> string option) \<Rightarrow> string \<Rightarrow> string option \<Rightarrow> string option
    \<Rightarrow> (nat \<times> string) + poll_result \<Rightarrow> int \<Rightarrow> ledger db \<Rightarrow> response \<times> ledger db" where
  "confirm_finish post h blk err polled now d =
     (case polled of
        Inl (st, msg) \<Rightarrow> (send_error st None msg [], d)
      | Inr p \<Rightarrow> answered (confirm_update post h blk err p now) d)"

definition confirm_handler ::
  "(js_value \<Rightarrow> string) \<Rightarrow> (string \<Rightarrow> string \<Rightarrow> string option) \<Rightarrow> string \<Rightarrow> js_value \<Rightarrow> string option \<Rightarrow> string option
    \<Rightarrow> (nat \<times> string) + poll_result \<Rightarrow> int \<Rightarrow> ledger db \<Rightarrow> response \<times> ledger db" where
  "confirm_handler text post h tid blk err polled now d =
     (case confirm_begin text h tid d of
        (Inl r, d') \<Rightarrow> (r, d')
      | (Inr _, d') \<Rightarrow> confirm_finish post h blk err polled now d')"

section \<open>Audit log\<close>

definition audit_json :: "nat \<times> audit_row \<Rightarrow> json" where
  "audit_json x = JObj [(''id'', JNum (int (fst x))), (''contractId'', JStr (au_contract (snd x))),
     (''action'', JStr (au_action (snd x))), (''user'', opt_json (au_user (snd x))), (''details'', au_details (snd x)),
     (''timestamp'', JStr (au_timestamp (snd x)))]"

definition audit_handler ::
  "string \<Rightarrow> string option \<Rightarrow> string option \<Rightarrow> audit_filters \<Rightarrow> ledger db \<Rightarrow> response \<times> ledger db" where
  "audit_handler contract qlimit qoffset f d =
     (if \<not> contract_regex contract then (invalid_contract_id, d)
      else case parse_pagination qlimit qoffset 50 200 of
        Inl r \<Rightarrow> (r, d)
      | Inr (limit, offset) \<Rightarrow> answered
          (op_bind (get_audit_log contract limit offset f) (\<lambda>rows.
           op_bind (count_audit_log contract f) (\<lambda>tot.
           op_return \<lparr>rstatus = 200, rbody = JObj [(''success'', JBool True), (''data'', JArr (map audit_json rows)),
             (''pagination'', JObj [(''limit'', JNum limit), (''offset'', JNum offset), (''total'', JNum (int tot))])]\<rparr>))) d)"

section \<open>Walking through the history\<close>

text \<open>A client that reads the rows and the next cursor of each answer and asks again; \<open>fuel\<close> bounds its
  requests.\<close>

definition page_of :: "response \<Rightarrow> (json list \<times> string option) option" where
  "page_of r =
     (if rstatus r \<noteq> 200 then None
      else case rbody r of
        JObj fs \<Rightarrow> (case (map_of fs ''data'', map_of fs ''pagination'') of
            (Some (JArr rows), Some (JObj ps)) \<Rightarrow>
              Some (rows, case map_of ps ''nextCursor'' of Some (JStr c) \<Rightarrow> Some c | _ \<Rightarrow> None)
          | _ \<Rightarrow> None)
      | _ \<Rightarrow> None)"

fun walk_history :: "nat \<Rightarrow> (string \<Rightarrow> response) \<Rightarrow> string \<Rightarrow> json list option" where
  "walk_history 0 get c = None"
| "walk_history (Suc fuel) get c =
     (case page_of (get c) of
        None \<Rightarrow> None
      | Some (rows, None) \<Rightarrow> Some rows
      | Some (rows, Some c') \<Rightarrow> map_option (\<lambda>rest. rows @ rest) (walk_history fuel get c'))"

definition cursor_text :: "string \<times> nat \<Rightarrow> string" where
  "cursor_text c = encode_cursor (JStr (fst c)) (JNum (int (snd c)))"

definition page_limit :: "history_query \<Rightarrow> int" where
  "page_limit q = min (max (int_or (q_limit q) 50) 1) 100"

lemma page_of_cursor_body:
  "page_of (cursor_body limit p) = Some (map history_row (fst p), map_option cursor_text (snd p))"
proof (cases "snd p")
  case (Some c)
  then show ?thesis by (cases c) (simp add: page_of_def cursor_body_def next_cursor_json_def cursor_text_def)
qed (simp add: page_of_def cursor_body_def next_cursor_json_def)

lemma cursor_not_a_filter [simp]:
  "bad_filter date_ok (q\<lparr>q_cursor := c\<rparr>) = bad_filter date_ok q"
  "query_filters (q\<lparr>q_cursor := c\<rparr>) = query_filters q"
  by (cases q, simp only: bad_filter_def query_filters_def history_query.simps)+

lemma history_answer:
  assumes "contract_regex contract" "bad_filter date_ok q = None" "q_limit q = None \<or> query_int (q_limit q) \<noteq> None"
    and "fst c \<noteq> []" "0 < snd c"
  shows "page_of (fst (history_handler date_ok other contract (q\<lparr>q_cursor := Some (cursor_text c)\<rparr>) d)) =
    (case history_page contract (page_limit q) (Some c) (query_filters q) (tables d) of
       (rows, nxt) \<Rightarrow> Some (map (\<lambda>x. history_row (with_payout_count (tables d) x)) rows, map_option cursor_text nxt))"
proof -
  have parse: "parse_cursor_pagination (q_limit q) (Some (cursor_text c)) 50 100 =
      Inr (page_limit q, Some (VStr (fst c), VNum (Finite (of_nat (snd c)))))"
    using encoded_cursor(1) [of "fst c" "int (snd c)" "q_limit q" 50 100] assms
    by (simp add: cursor_text_def page_limit_def)
  have ne: "cursor_text c \<noteq> []" using encoded_cursor(2) assms by (simp add: cursor_text_def)
  have bad: "bad_filter date_ok (q\<lparr>q_cursor := Some (cursor_text c)\<rparr>) = None"
    and flt: "query_filters (q\<lparr>q_cursor := Some (cursor_text c)\<rparr>) = query_filters q"
    using assms(2) by simp_all
  have "(of_nat (snd c) :: rat) = of_int \<lfloor>of_nat (snd c) :: rat\<rfloor>" by simp
  then have sel: "cursor_select other contract (page_limit q) (Some (VStr (fst c), VNum (Finite (of_nat (snd c))))) (query_filters q) =
      get_transaction_history_cursor contract (page_limit q) (Some c) (query_filters q)"
    using assms(5) by (simp add: cursor_select_def)
  show ?thesis
    using assms(1) bad ne
    by (simp add: history_handler_def truthy_def parse flt sel answered_def caught_def op_bind_def
      get_transaction_history_cursor_def op_read_def op_return_def page_of_cursor_body comp_def split: prod.split)
qed

lemma next_cursor_is_key:
  "history_page contract limit c f l = (rows, Some k) \<Longrightarrow> \<exists>x \<in> set (trows (transactions l)). k = tx_key x"
proof -
  assume a: "history_page contract limit c f l = (rows, Some k)"
  let ?s = "order_desc tx_key (t_select (\<lambda>x. tx_matches contract f l x \<and> before_cursor c x) (transactions l))"
  have "set rows \<subseteq> set ?s" "rows \<noteq> []" "k = tx_key (last rows)"
    using a set_limit_offset [of "limit + 1" 0 ?s]
    by (auto simp: history_page_def Let_def split: if_splits dest: in_set_takeD)
  then have "last rows \<in> set ?s" using last_in_set by blast
  then show ?thesis using \<open>k = _\<close> by (auto simp: t_select_def)
qed

lemma walk_follows:
  assumes "contract_regex contract" "bad_filter date_ok q = None" "q_limit q = None \<or> query_int (q_limit q) \<noteq> None"
    and "t_ok (transactions (tables d))" "\<forall>x \<in> set (trows (transactions (tables d))). tx_timestamp (snd x) \<noteq> []"
    and "fst c \<noteq> []" "0 < snd c"
  shows "walk_history fuel (\<lambda>c. fst (history_handler date_ok other contract (q\<lparr>q_cursor := Some c\<rparr>) d)) (cursor_text c) =
    map_option (map (\<lambda>x. history_row (with_payout_count (tables d) x)))
      (follow_cursors fuel contract (page_limit q) (Some c) (query_filters q) (tables d))"
  using assms(6,7)
proof (induction fuel arbitrary: c)
  case (Suc fuel)
  let ?page = "history_page contract (page_limit q) (Some c) (query_filters q) (tables d)"
  note ans = history_answer [OF assms(1-3) Suc.prems, of other d]
  show ?case
  proof (cases "snd ?page")
    case None
    then show ?thesis using ans by (cases ?page) simp
  next
    case (Some k)
    then obtain x where x: "x \<in> set (trows (transactions (tables d)))" "k = tx_key x"
      using next_cursor_is_key by (metis prod.collapse)
    then have "fst k \<noteq> []" "0 < snd k" using assms(4,5) by (auto simp: tx_key_def t_ok_def)
    then show ?thesis using Suc.IH [of k] ans Some
      by (cases ?page) (simp add: option.map_comp comp_def)
  qed
qed simp

lemma sorted_suffix:
  fixes k :: "'a \<Rightarrow> 'k::linorder"
  shows "sorted_wrt (\<lambda>x y. k y < k x) xs \<Longrightarrow> xs = filter (\<lambda>x. \<not> k x < b) xs @ filter (\<lambda>x. k x < b) xs"
proof (induction xs)
  case (Cons x xs)
  show ?case
  proof (cases "k x < b")
    case True
    then have "filter (\<lambda>x. \<not> k x < b) xs = []" "filter (\<lambda>x. k x < b) xs = xs"
      using Cons.prems by (auto simp: filter_empty_conv filter_id_conv)
    then show ?thesis using True by simp
  next
    case False
    then show ?thesis using Cons by simp
  qed
qed simp

text \<open>C19: a client that follows \<open>nextCursor\<close> through the route, from the cursor of any moment, receives exactly the
  rows of the history before that moment, each once and newest first, whatever page size it asks for: the
  cursor survives its printing, its base64 coding and the parsing of the next request.\<close>

theorem history_walk_complete:
  assumes "contract_regex contract" "bad_filter date_ok q = None" "q_limit q = None \<or> query_int (q_limit q) \<noteq> None"
    and "t_ok (transactions (tables d))" "\<forall>x \<in> set (trows (transactions (tables d))). tx_timestamp (snd x) \<noteq> []"
    and "fst c \<noteq> []" "0 < snd c" and "length (trows (transactions (tables d))) < fuel"
  shows "walk_history fuel (\<lambda>c. fst (history_handler date_ok other contract (q\<lparr>q_cursor := Some c\<rparr>) d)) (cursor_text c) =
    Some (map (\<lambda>x. history_row (with_payout_count (tables d) x))
      (filter (before_cursor (Some c)) (tx_list contract (query_filters q) (tables d))))"
proof -
  let ?list = "tx_list contract (query_filters q) (tables d)"
  have bc: "before_cursor (Some c) = (\<lambda>x. tx_key x < c)"
    by (rule ext) (auto simp: before_cursor_def tx_key_def less_prod_simp split: prod.split)
  have parts: "?list = filter (\<lambda>x. \<not> tx_key x < c) ?list @ filter (\<lambda>x. tx_key x < c) ?list"
    by (rule sorted_suffix) (rule tx_list_strict [OF assms(4)])
  have "length ?list \<le> length (trows (transactions (tables d)))"
    by (simp add: tx_list_def t_select_def)
  then have "length (filter (\<lambda>x. tx_key x < c) ?list) < fuel"
    using assms(8) length_filter_le [of "\<lambda>x. tx_key x < c" ?list] by linarith
  moreover have "1 \<le> page_limit q" by (simp add: page_limit_def)
  ultimately have "follow_cursors fuel contract (page_limit q) (Some c) (query_filters q) (tables d) =
      Some (filter (\<lambda>x. tx_key x < c) ?list)"
    by (intro follow_cursors_rest [OF assms(4) _ parts]) (simp_all add: bc)
  then show ?thesis using walk_follows [OF assms(1-7)] by (simp only: bc option.map)
qed

definition demo_query :: history_query where
  "demo_query = \<lparr>q_type = None, q_recipient = None, q_start = None, q_end = None, q_cursor = None,
     q_limit = Some ''1'', q_offset = None\<rparr>"

theorem history_walk_complete_witness:
  "walk_history 4 (\<lambda>c. fst (history_handler (\<lambda>_. True) (\<lambda>_ _ _ _. op_raise (TypeErr []))
       sample_contract (demo_query\<lparr>q_cursor := Some c\<rparr>) (counted_connection demo_ledger)))
     (cursor_text (''2030'', 9)) =
   Some (map (\<lambda>x. history_row (with_payout_count demo_ledger x))
     (filter (before_cursor (Some (''2030'', 9))) (tx_list sample_contract (query_filters demo_query) demo_ledger)))"
proof -
  let ?d = "counted_connection demo_ledger"
  have rows: "trows (transactions demo_ledger) =
      [(1, new_tx ''C1'' ''distribute'' ''G2'' None None 90000000), (2, new_tx ''C1'' ''initialize'' ''G1'' None None 5),
       (3, new_tx ''C1'' ''distribute'' ''G1'' None None 5)]" "tseq (transactions demo_ledger) = 3"
    by (simp_all add: demo_ledger_def insert_tx_def t_insert_def empty_ledger_def t_empty_def Let_def)
  have "t_ok (transactions (tables ?d))" by (simp add: t_ok_def rows)
  moreover have "\<forall>x \<in> set (trows (transactions (tables ?d))). tx_timestamp (snd x) \<noteq> []"
    by (simp add: rows new_tx_def sql_timestamp_def)
  moreover have "contract_regex sample_contract" by (rule sample_account_regex(2))
  moreover have "bad_filter (\<lambda>_. True) demo_query = None" by (simp add: bad_filter_def demo_query_def)
  moreover have "q_limit demo_query = None \<or> query_int (q_limit demo_query) \<noteq> None"
    by (simp add: demo_query_def query_int_def parse_int_def parse_int10_def parse_digits_def starts_with_def
      hex_prefix_def is_digit_def is_space_def Let_def)
  ultimately show ?thesis
    using history_walk_complete [of sample_contract "\<lambda>_. True" demo_query ?d "(''2030'', 9)" 4
        "\<lambda>_ _ _ _. op_raise (TypeErr [])"] by (simp add: rows)
qed

section \<open>Confirming a transaction\<close>

text \<open>Enough rounds always end the poll: the wait between two rounds is the interval.\<close>

lemma poll_horizon_late: "(t, a) \<in> set rounds \<Longrightarrow> timeout \<le> t \<Longrightarrow> poll_horizon timeout rounds \<noteq> None"
  by (induction timeout rounds rule: poll_horizon.induct) (auto split: horizon_reply.split)

theorem poll_horizon_ends:
  assumes "0 < interval" "\<forall>k < length rounds. int k * interval \<le> fst (rounds ! k)"
    and "timeout + interval \<le> int (length rounds) * interval" "0 \<le> timeout"
  shows "\<exists>r. poll_horizon timeout rounds = Some r"
proof -
  have ne: "rounds \<noteq> []" using assms(1,3,4) by auto
  let ?k = "length rounds - 1"
  have "length rounds = Suc ?k" using ne by simp
  then have "int (length rounds) = int ?k + 1" by linarith
  then have "int (length rounds) * interval = int ?k * interval + interval" by (simp only: distrib_right mult_1)
  then have "timeout \<le> int ?k * interval" using assms(3) by linarith
  moreover have "int ?k * interval \<le> fst (rounds ! ?k)" using assms(2) ne by simp
  ultimately have "timeout \<le> fst (rounds ! ?k)" by simp
  moreover have "rounds ! ?k \<in> set rounds" using ne by simp
  ultimately show ?thesis using poll_horizon_late [of "fst (rounds ! ?k)" "snd (rounds ! ?k)" rounds timeout] by auto
qed

theorem poll_horizon_ends_witness:
  "\<exists>r. poll_horizon 4000 [(0, HzStatus 404), (2000, HzError), (4000, HzStatus 404)] = Some r"
  by (rule poll_horizon_ends [of 2000]) (auto simp: less_Suc_eq nth_Cons')

lemma poll_outcome:
  assumes "poll_horizon timeout rounds = Some r"
  shows "(\<exists>m. r = Inl (504, m)) \<or> (\<exists>p. r = Inr p \<and> pr_status p \<in> {''confirmed'', ''failed''})"
  using assms by (induction timeout rounds rule: poll_horizon.induct) (auto split: if_splits horizon_reply.splits)

definition tx_at :: "nat \<Rightarrow> ledger db \<Rightarrow> (nat \<times> tx_row) option" where
  "tx_at i d = t_get (by_id i) (transactions (tables d))"

lemma deliver_one_frame [simp]:
  "transactions (tables (deliver_one post now payload w d)) = transactions (tables d)"
  "archive (tables (deliver_one post now payload w d)) = archive (tables d)"
  "counting (deliver_one post now payload w d) = counting d"
  by (auto simp: deliver_one_def Let_def op_simps reset_webhook_retry_count_def counted_write_def count_write_def
      update_webhook_retry_state_with_payload_def move_to_dlq_def set_webhook_def counting_def
      split: option.splits prod.splits sum.splits if_splits)

lemma deliver_details_frame [simp]:
  "transactions (tables (deliver_details post now td d)) = transactions (tables d)"
  "counting (deliver_details post now td d) = counting d"
proof -
  have "transactions (tables (fold (deliver_one post now payload) ws e)) = transactions (tables e)
      \<and> counting (fold (deliver_one post now payload) ws e) = counting e" for payload ws e
    by (induction ws arbitrary: e) simp_all
  then show "transactions (tables (deliver_details post now td d)) = transactions (tables d)"
    "counting (deliver_details post now td d) = counting d"
    by (simp_all add: deliver_details_def deliver_distribute_webhooks_def split: sum.split)
qed

lemma send_error_status [simp]: "rstatus (send_error st c m ds) = st"
  by (simp add: send_error_def)

lemma details_status:
  "fst (get_transaction_details h d) = Inr (Some td) \<Longrightarrow> t_get (has_hash h) (transactions (tables d)) = Some x \<Longrightarrow>
     td_event td = event_of x"
  by (cases "h = []") (auto simp: get_transaction_details_def op_simps details_of_def Let_def)

text \<open>The look-up, when no archived event has the hash.\<close>

definition not_archived :: "string \<Rightarrow> ledger \<Rightarrow> bool" where
  "not_archived h l \<longleftrightarrow> (\<forall>a. archive l = Some a \<longrightarrow> archived_lookup h a = None)"

lemma details_cases:
  assumes "h \<noteq> []" "not_archived h (tables d)"
  shows "get_transaction_details h d = (case t_get (has_hash h) (transactions (tables d)) of
      Some x \<Rightarrow> (Inr (Some (live_details (tables d) x)), d)
    | None \<Rightarrow> (case archive (tables d) of None \<Rightarrow> (Inl (no_table ''contract_event_archive''), d) | Some _ \<Rightarrow> (Inr None, d)))"
proof (cases "t_get (has_hash h) (transactions (tables d))")
  case (Some x)
  then show ?thesis using details_live [OF assms(1) Some] by (simp add: prod_eq_iff)
next
  case None
  show ?thesis
  proof (cases "archive (tables d)")
    case arch: None
    then show ?thesis using details_nothing [OF assms(1) None arch] None by simp
  next
    case (Some a)
    then show ?thesis using details_archived [OF assms(1) None Some] assms(2) None
      by (simp add: prod_eq_iff not_archived_def)
  qed
qed

lemma live_status [simp]: "ev_status (td_event (live_details l x)) = tx_status (snd x)"
  by (simp add: live_details_def details_of_def Let_def event_of_def)

definition linked :: "nat \<Rightarrow> string \<Rightarrow> ledger db \<Rightarrow> ledger db" where
  "linked i h d = (bump d)\<lparr>tables := (tables d)\<lparr>transactions := t_update (by_id i) (\<lambda>r. r\<lparr>tx_hash := Some h\<rparr>) (transactions (tables d))\<rparr>\<rparr>"

lemma link_writes:
  assumes "counting d" "t_get (has_hash h) (transactions (tables d)) = None"
  shows "update_transaction_hash i h d = (Inr (), linked i h d)"
proof -
  have "\<not> hash_taken h i (tables d)"
    using assms(2) by (auto simp: hash_taken_def list_ex_iff t_get_None has_hash_def)
  then show ?thesis by (simp add: update_transaction_hash_def counted_write_ok assms(1) set_tx_def linked_def)
qed

lemma linked_lookup:
  assumes "t_ok (transactions (tables d))" "t_get (has_hash h) (transactions (tables d)) = None"
    and "t_get (by_id i) (transactions (tables d)) = Some (i, r)"
  shows "t_get (has_hash h) (transactions (tables (linked i h d))) = Some (i, r\<lparr>tx_hash := Some h\<rparr>)"
proof -
  have mem: "(i, r\<lparr>tx_hash := Some h\<rparr>) \<in> set (trows (transactions (tables (linked i h d))))"
    using t_get_Some [OF assms(3)] by (force simp: linked_def t_update_def by_id_def)
  have only: "x = (i, r\<lparr>tx_hash := Some h\<rparr>)" if "x \<in> set (trows (transactions (tables (linked i h d))))" "has_hash h x" for x
  proof -
    have "x \<in> (\<lambda>y. if by_id i y then (fst y, (snd y)\<lparr>tx_hash := Some h\<rparr>) else y) ` set (trows (transactions (tables d)))"
      using that(1) by (simp add: linked_def t_update_def)
    then obtain y where y: "y \<in> set (trows (transactions (tables d)))"
      "x = (if by_id i y then (fst y, (snd y)\<lparr>tx_hash := Some h\<rparr>) else y)" by blast
    have "by_id i y" using y that(2) assms(2) by (auto simp: t_get_None split: if_splits)
    moreover from this have "y = (i, r)"
      using tb.row_unique [OF assms(1), of i "snd y" r] y(1) t_get_Some [OF assms(3)]
      by (metis by_id_def prod.collapse)
    ultimately show ?thesis using y by simp
  qed
  show ?thesis
  proof (cases "t_get (has_hash h) (transactions (tables (linked i h d)))")
    case None
    then show ?thesis using mem by (auto simp: t_get_None has_hash_def)
  next
    case (Some x)
    then show ?thesis using only t_get_Some by metis
  qed
qed

text \<open>The first half of a confirmation: it refuses and changes nothing, or it found, or linked, one pending
  transaction.\<close>

definition pending_for :: "string \<Rightarrow> nat \<Rightarrow> tx_row \<Rightarrow> ledger db \<Rightarrow> bool" where
  "pending_for h i r d \<longleftrightarrow> tx_at i d = Some (i, r) \<and> tx_status r = ''pending'' \<and> (tx_hash r = Some h \<or> \<not> truthy (tx_hash r))"

lemma tx_at_linked: "tx_at i d = Some (i, r) \<Longrightarrow> tx_at i (linked i h d) = Some (i, r\<lparr>tx_hash := Some h\<rparr>)"
    "j \<noteq> i \<Longrightarrow> tx_at j (linked i h d) = tx_at j d"
  by (simp_all add: tx_at_def linked_def t_get_updated t_get_not_updated)

lemma linked_counting: "counting (linked i h d) = counting d"
  by (simp add: linked_def)

lemma linked_archive [simp]: "archive (tables (linked i h d)) = archive (tables d)"
  by (simp add: linked_def)

lemma link_pending_cases:
  assumes "counting d" "t_ok (transactions (tables d))" "h \<noteq> []" "not_archived h (tables d)"
    and "t_get (has_hash h) (transactions (tables d)) = None"
  shows "(\<exists>resp. link_pending text h tid d = (Inr (Inl resp), d) \<and> rstatus resp \<noteq> 200)
    \<or> (\<exists>i r. pending_for h i r d \<and> \<not> truthy (tx_hash r)
         \<and> link_pending text h tid d = (Inr (Inr (Some (live_details (tables (linked i h d)) (i, r\<lparr>tx_hash := Some h\<rparr>)))), linked i h d))"
proof (cases "\<exists>i. value_int text tid = Some i \<and> 0 < i")
  case False
  then show ?thesis by (auto simp: link_pending_def op_simps split: option.split)
next
  case True
  then obtain i where i: "value_int text tid = Some i" "0 < i" by blast
  show ?thesis
  proof (cases "tx_at (nat i) d")
    case None
    then show ?thesis
      using i by (simp add: link_pending_def op_simps get_transaction_by_id_def tx_at_def tx_not_found_def)
  next
    case (Some x)
    then obtain r where x: "x = (nat i, r)" using t_get_id_fst unfolding tx_at_def by (metis prod.collapse)
    show ?thesis
    proof (cases "tx_status r = ''pending'' \<and> \<not> (truthy (tx_hash r) \<and> tx_hash r \<noteq> Some h)")
      case False
      then show ?thesis using i Some x
        by (auto simp: link_pending_def op_simps get_transaction_by_id_def tx_at_def conflict_status_def)
    next
      case True
      have "tx_hash r \<noteq> Some h"
        using assms(5) t_get_Some [OF Some [unfolded tx_at_def]] x by (auto simp: t_get_None has_hash_def)
      then have r: "\<not> truthy (tx_hash r)" "tx_status r = ''pending''" using True by auto
      have look: "t_get (has_hash h) (transactions (tables (linked (nat i) h d))) = Some (nat i, r\<lparr>tx_hash := Some h\<rparr>)"
        by (rule linked_lookup [OF assms(2,5)]) (use Some x in \<open>simp add: tx_at_def\<close>)
      have "not_archived h (tables (linked (nat i) h d))" using assms(4) by (simp add: not_archived_def)
      then have "link_pending text h tid d =
          (Inr (Inr (Some (live_details (tables (linked (nat i) h d)) (nat i, r\<lparr>tx_hash := Some h\<rparr>)))), linked (nat i) h d)"
        using i r Some x link_writes [OF assms(1,5)] details_cases [OF assms(3)] look
        by (simp add: link_pending_def op_simps get_transaction_by_id_def tx_at_def)
      then show ?thesis using r Some x by (auto simp: pending_for_def)
    qed
  qed
qed

lemma confirm_begin_cases:
  assumes "counting d" "t_ok (transactions (tables d))" "not_archived h (tables d)"
  shows "(\<exists>resp. confirm_begin text h tid d = (Inl resp, d) \<and> rstatus resp \<noteq> 200)
    \<or> (\<exists>i r d'. confirm_begin text h tid d = (Inr (), d') \<and> pending_for h i r d
         \<and> (d' = d \<or> d' = linked i h d \<and> t_get (has_hash h) (transactions (tables d)) = None) \<and> tx_at i d' = Some (i, r\<lparr>tx_hash := Some h\<rparr>)
         \<and> t_get (has_hash h) (transactions (tables d')) = Some (i, r\<lparr>tx_hash := Some h\<rparr>))"
proof (cases "hex64 h")
  case False
  then show ?thesis by (simp add: confirm_begin_def caught_def confirm_lookup_def op_return_def)
next
  case True
  then have h: "h \<noteq> []" by (auto simp: hex64_def)
  note details = details_cases [OF h assms(3)]
  show ?thesis
  proof (cases "t_get (has_hash h) (transactions (tables d))")
    case (Some x)
    have x: "x \<in> set (trows (transactions (tables d)))" "tx_hash (snd x) = Some h"
      using t_get_Some [OF Some] by (simp_all add: has_hash_def)
    then have at: "tx_at (fst x) d = Some x"
      using t_get_mem [OF assms(2), of "fst x" "snd x"] by (simp add: tx_at_def)
    have same: "(fst x, (snd x)\<lparr>tx_hash := Some h\<rparr>) = x" using x(2) by (cases x) simp
    show ?thesis
    proof (cases "tx_status (snd x) = ''pending''")
      case p: True
      then have "pending_for h (fst x) (snd x) d" using at x by (simp add: pending_for_def)
      moreover have "confirm_begin text h tid d = (Inr (), d)"
        using True Some p by (simp add: confirm_begin_def caught_def confirm_lookup_def op_simps details)
      ultimately show ?thesis
        using at Some same by (intro disjI2 exI [of _ "fst x"] exI [of _ "snd x"] exI [of _ d]) simp
    next
      case False
      then show ?thesis using True Some
        by (simp add: confirm_begin_def caught_def confirm_lookup_def op_simps details conflict_status_def)
    qed
  next
    case None
    show ?thesis
    proof (cases "archive (tables d) = None \<or> nullish tid")
      case t: True
      then show ?thesis using True None
        by (cases "archive (tables d)")
          (auto simp: confirm_begin_def caught_def confirm_lookup_def op_simps details tx_not_found_def)
    next
      case False
      then obtain a where a: "archive (tables d) = Some a" "\<not> nullish tid" by auto
      have cl: "confirm_lookup text h tid d = (case link_pending text h tid d of
          (Inl e, d') \<Rightarrow> (Inl e, d')
        | (Inr r, d') \<Rightarrow> (Inr (case r of Inl resp \<Rightarrow> Inl resp | Inr None \<Rightarrow> Inl tx_not_found
            | Inr (Some td) \<Rightarrow> if ev_status (td_event td) \<noteq> ''pending'' then Inl (conflict_status (ev_status (td_event td)))
                            else Inr ()), d'))"
        using True None a
        by (cases "link_pending text h tid d") (simp add: confirm_lookup_def op_bind_def op_return_def details split: sum.split)
      consider resp where "link_pending text h tid d = (Inr (Inl resp), d)" "rstatus resp \<noteq> 200"
        | i r where "pending_for h i r d" "link_pending text h tid d =
            (Inr (Inr (Some (live_details (tables (linked i h d)) (i, r\<lparr>tx_hash := Some h\<rparr>)))), linked i h d)"
        using link_pending_cases [OF assms(1,2) h assms(3) None] by blast
      then show ?thesis
      proof cases
        case 1
        then show ?thesis by (simp add: confirm_begin_def caught_def cl)
      next
        case 2
        then have at: "tx_at i d = Some (i, r)" "tx_status r = ''pending''" by (simp_all add: pending_for_def)
        then have "confirm_begin text h tid d = (Inr (), linked i h d)"
          using 2(2) by (simp add: confirm_begin_def caught_def cl)
        then show ?thesis
          using 2(1) None tx_at_linked(1) [OF at(1), of h] linked_lookup [OF assms(2) None at(1) [unfolded tx_at_def]]
          by (intro disjI2 exI [of _ i] exI [of _ r] exI [of _ "linked i h d"]) simp
      qed
    qed
  qed
qed

lemma status_written:
  assumes "counting d" "t_ok (transactions (tables d))" "unique_hashes (tables d)" "st \<in> set tx_statuses"
    and "t_get (has_hash h) (transactions (tables d)) = Some (i, r)"
  shows "\<exists>d'. update_transaction_status h st blk err d = (Inr (), d') \<and> counting d'
    \<and> tx_at i d' = Some (i, r\<lparr>tx_status := st, block_time := blk, tx_error := err\<rparr>)
    \<and> (\<forall>j. j \<noteq> i \<longrightarrow> tx_at j d' = tx_at j d)"
proof -
  let ?f = "\<lambda>r. r\<lparr>tx_status := st, block_time := blk, tx_error := err\<rparr>"
  let ?d' = "(bump d)\<lparr>tables := (tables d)\<lparr>transactions := t_update (has_hash h) ?f (transactions (tables d))\<rparr>\<rparr>"
  have eq: "update_transaction_status h st blk err d = (Inr (), ?d')"
    using assms(1,4) by (simp add: update_transaction_status_def counted_write_ok set_tx_def)
  have at: "tx_at j ?d' = map_option (\<lambda>x. if has_hash h x then (fst x, ?f (snd x)) else x) (tx_at j d)" for j
    unfolding tx_at_def by (simp, rule t_get_update_stable) (simp add: by_id_def)
  have i: "(i, r) \<in> set (trows (transactions (tables d)))" "has_hash h (i, r)" using t_get_Some [OF assms(5)] by blast+
  have "tx_at i d = Some (i, r)" using t_get_mem [OF assms(2) i(1)] by (simp add: tx_at_def)
  then have "tx_at i ?d' = Some (i, ?f r)" using at [of i] i(2) by simp
  moreover have "tx_at j ?d' = tx_at j d" if "j \<noteq> i" for j
  proof (cases "tx_at j d")
    case (Some y)
    then have y: "y \<in> set (trows (transactions (tables d)))" "fst y = j"
      using t_get_Some [OF Some [unfolded tx_at_def]] by (simp_all add: by_id_def)
    then have "\<not> has_hash h y" using same_hash_same_row [OF assms(3,2) y(1) i(1) _ i(2)] that by auto
    then show ?thesis using at [of j] Some by simp
  qed (simp add: at)
  ultimately show ?thesis using eq assms(1) by (intro exI [of _ ?d']) simp
qed

lemma confirm_update_effect:
  assumes "counting d" "t_ok (transactions (tables d))" "unique_hashes (tables d)" "pr_status p \<in> set tx_statuses"
    and "t_get (has_hash h) (transactions (tables d)) = Some (i, r)"
  shows "\<exists>resp d'. confirm_update post h blk err p now d = (Inr resp, d') \<and> rstatus resp = 200
    \<and> tx_at i d' = Some (i, r\<lparr>tx_status := pr_status p, block_time := first_some blk (pr_created_at p), tx_error := err\<rparr>)
    \<and> (\<forall>j. j \<noteq> i \<longrightarrow> tx_at j d' = tx_at j d)"
proof -
  obtain e where e: "update_transaction_status h (pr_status p) (first_some blk (pr_created_at p)) err d = (Inr (), e)"
    "tx_at i e = Some (i, r\<lparr>tx_status := pr_status p, block_time := first_some blk (pr_created_at p), tx_error := err\<rparr>)"
    "\<forall>j. j \<noteq> i \<longrightarrow> tx_at j e = tx_at j d"
    using status_written [OF assms(1-4) assms(5)] by metis
  let ?r = "r\<lparr>tx_status := pr_status p, block_time := first_some blk (pr_created_at p), tx_error := err\<rparr>"
  have "has_hash h (i, ?r)" using t_get_Some [OF assms(5)] by (simp add: has_hash_def)
  then have "t_get (has_hash h) (transactions (tables e)) \<noteq> None"
    using t_get_Some [OF e(2) [unfolded tx_at_def]] unfolding t_get_None by blast
  moreover have "h \<noteq> [] \<or> get_transaction_details h e = (Inr None, e)"
    by (simp add: get_transaction_details_def op_return_def)
  ultimately obtain c where c: "get_transaction_details h e = (Inr c, e)"
    using details_live [of h e] by (metis details_state not_None_eq prod.collapse)
  have frame: "tx_at j (deliver_details post now td e) = tx_at j e" for j td by (simp add: tx_at_def)
  show ?thesis using e c frame by (cases c) (simp_all add: confirm_update_def op_bind_def op_return_def)
qed


definition demo_hash :: string where
  "demo_hash = replicate 64 (CHR ''a'')"

definition demo_settled :: tx_row where
  "demo_settled = (new_tx ''C1'' ''distribute'' ''G1'' None None 5)\<lparr>tx_hash := Some ''ff'', tx_status := ''confirmed''\<rparr>"

definition demo_confirm_db :: "ledger db" where
  "demo_confirm_db = counted_connection (empty_ledger
     \<lparr>transactions := \<lparr>tseq = 2, trows = [(1, demo_settled), (2, new_tx ''C1'' ''distribute'' ''G2'' None None 9)]\<rparr>,
      archive := Some \<lparr>archived_events = t_empty, archive_policy = None\<rparr>\<rparr>)"


text \<open>On the schema the migrations build, which has no archive tables, a hash the service does not know is
  answered 500 instead of 404, a confirmation that names its transaction by id is answered 500 and never
  links the hash, and no archive route succeeds.\<close>

theorem unmigrated_archive_fails:
  assumes "archive (tables d) = None" "hex64 h" "t_get (has_hash h) (transactions (tables d)) = None"
  shows "\<exists>r r2. transaction_handler h d = (Inl r, d) \<and> rstatus r = 500
    \<and> confirm_begin text h tid d = (Inl r2, d) \<and> rstatus r2 = 500
    \<and> (\<forall>env. rstatus (fst (archive_policy_handler env d)) = 500)
    \<and> (\<forall>clash env now bs. rstatus (fst (archive_run_handler clash text env (VObj [(''batchSize'', bs)]) now d)) \<in> {400, 500})"
proof -
  have h: "h \<noteq> []" using assms(2) by (auto simp: hex64_def)
  note det = details_nothing [OF h assms(3,1)]
  have pol: "get_archive_policy env d = (Inl (no_table ''event_archive_policy''), d)" for env
    using assms(1) by (simp add: get_archive_policy_def with_archive_def op_raise_def)
  have "archive_contract_events clash text env None v None now d = (Inl (no_table ''event_archive_policy''), d)"
    for clash env v now
    by (simp add: archive_contract_events_def op_bind_def pol)
  then show ?thesis using assms(2)
    by (auto simp: transaction_handler_def caught_def det confirm_begin_def confirm_lookup_def op_bind_def
      archive_policy_handler_def answered_def pol archive_run_handler_def Let_def)
qed

theorem unmigrated_archive_fails_witness:
  "\<exists>r. transaction_handler demo_hash (counted_connection demo_ledger) = (Inl r, counted_connection demo_ledger)
     \<and> rstatus r = 500"
proof -
  let ?d = "counted_connection demo_ledger"
  have "archive (tables ?d) = None" "t_get (has_hash demo_hash) (transactions (tables ?d)) = None"
    by (simp_all add: demo_ledger_def insert_tx_def t_insert_def empty_ledger_def t_empty_def Let_def t_get_def
      has_hash_def new_tx_def)
  moreover have "hex64 demo_hash" by (simp add: hex64_def demo_hash_def hex_val_def list_all_iff)
  ultimately show ?thesis using unmigrated_archive_fails [of ?d demo_hash] by blast
qed

end
