(* ===== verification/Snapshots.thy ===== *)
theory Snapshots
  imports TxDetails Rbac Handlers
begin

text \<open>
  Contract snapshots: \<open>src/backend/src/database/contract-snapshots.js\<close>, \<open>jobs/snapshot-job.js\<close> and
  \<open>routes/snapshots.js\<close>.

  The table is created by the first run of the job; until then every statement on it throws.  SHA-256
  is the parameter \<open>sha\<close>; the engine's \<open>SUM(CAST(.. AS REAL))\<close> is \<open>real_sum\<close> and \<open>num\<close> prints a number.
  A transaction count is a non-negative integer below 1e21.  A run of the job and a request go through
  without another in between.
\<close>

section \<open>database/contract-snapshots.js\<close>

record snap_row =
  sn_contract :: string
  sn_label :: "string option"
  sn_collaborators :: string
  sn_shares :: string
  sn_balances :: string
  sn_count :: int
  sn_last :: "nat option"
  sn_hash :: string
  sn_by :: "string option"
  sn_created :: string

record snap_store =
  sp_ledger :: ledger
  sp_snaps :: "snap_row table option"

type_synonym 'a snap_op = "(snap_store, 'a) db_op"

definition snap_statement :: "(snap_row table \<Rightarrow> 'a \<times> snap_row table) \<Rightarrow> 'a snap_op" where
  "snap_statement f d =
     (case sp_snaps (tables d) of
        None \<Rightarrow> (Inl (no_table ''contract_snapshots''), d)
      | Some s \<Rightarrow> (Inr (fst (f s)), d\<lparr>tables := (tables d)\<lparr>sp_snaps := Some (snd (f s))\<rparr>\<rparr>))"

definition snap_query :: "(snap_row table \<Rightarrow> 'a) \<Rightarrow> 'a snap_op" where
  "snap_query f d =
     (case sp_snaps (tables d) of
        None \<Rightarrow> (Inl (no_table ''contract_snapshots''), d)
      | Some s \<Rightarrow> (Inr (f s), d))"

definition ensure_snapshot_table :: "unit snap_op" where
  "ensure_snapshot_table = op_write (\<lambda>t. ((), t\<lparr>sp_snaps :=
     Some (case sp_snaps t of None \<Rightarrow> t_empty | Some s \<Rightarrow> s)\<rparr>))"

text \<open>\<open>JSON.stringify(state, Object.keys(state).sort())\<close>\<close>

definition state_payload :: "string \<Rightarrow> string \<Rightarrow> string \<Rightarrow> int \<Rightarrow> string" where
  "state_payload collaborators shares balances n = json_stringify (JObj
     [(''balances'', JStr balances), (''collaborators'', JStr collaborators), (''shares'', JStr shares),
      (''transactionCount'', JNum n)])"

definition compute_state_hash ::
  "(string \<Rightarrow> string) \<Rightarrow> string \<Rightarrow> string \<Rightarrow> string \<Rightarrow> int \<Rightarrow> string" where
  "compute_state_hash sha collaborators shares balances n = sha (state_payload collaborators shares balances n)"

record snap_params =
  sm_contract :: string
  sm_label :: "string option"
  sm_collaborators :: string
  sm_shares :: string
  sm_balances :: string
  sm_count :: int
  sm_last :: "nat option"
  sm_by :: "string option"

definition snap_row_of :: "(string \<Rightarrow> string) \<Rightarrow> snap_params \<Rightarrow> string \<Rightarrow> snap_row" where
  "snap_row_of sha p created =
     \<lparr>sn_contract = sm_contract p, sn_label = sm_label p, sn_collaborators = sm_collaborators p,
      sn_shares = sm_shares p, sn_balances = sm_balances p, sn_count = sm_count p, sn_last = sm_last p,
      sn_hash = compute_state_hash sha (sm_collaborators p) (sm_shares p) (sm_balances p) (sm_count p),
      sn_by = sm_by p, sn_created = created\<rparr>"

text \<open>The column has SQLite's time of the insertion, the returned object the ISO time.\<close>

definition create_snapshot ::
  "(string \<Rightarrow> string) \<Rightarrow> snap_params \<Rightarrow> int \<Rightarrow> (nat \<times> snap_row) snap_op" where
  "create_snapshot sha p now =
     op_bind (snap_statement (t_insert (snap_row_of sha p (sql_timestamp now)))) (\<lambda>i.
     op_bind count_write (\<lambda>_. op_return (i, snap_row_of sha p (to_iso now))))"

definition of_contract :: "string \<Rightarrow> nat \<times> snap_row \<Rightarrow> bool" where
  "of_contract c x \<longleftrightarrow> sn_contract (snd x) = c"

definition newest_first :: "(nat \<times> snap_row) list \<Rightarrow> (nat \<times> snap_row) list" where
  "newest_first = order_desc (\<lambda>x. sn_created (snd x))"

definition list_snapshots :: "string \<Rightarrow> int \<Rightarrow> int \<Rightarrow> (nat \<times> snap_row) list snap_op" where
  "list_snapshots c l n = snap_query (\<lambda>s. limit_offset l n (newest_first (t_select (of_contract c) s)))"

definition get_snapshot :: "nat \<Rightarrow> (nat \<times> snap_row) option snap_op" where
  "get_snapshot i = snap_query (t_get (by_id i))"

record verdict =
  vd_valid :: bool
  vd_computed :: "string option"
  vd_stored :: "string option"
  vd_error :: "string option"

definition verdict_on :: "(string \<Rightarrow> string) \<Rightarrow> snap_row \<Rightarrow> verdict" where
  "verdict_on sha r =
     (let h = compute_state_hash sha (sn_collaborators r) (sn_shares r) (sn_balances r) (sn_count r)
      in \<lparr>vd_valid = (h = sn_hash r), vd_computed = Some h, vd_stored = Some (sn_hash r), vd_error = None\<rparr>)"

definition verify_snapshot_integrity :: "(string \<Rightarrow> string) \<Rightarrow> nat \<Rightarrow> verdict snap_op" where
  "verify_snapshot_integrity sha i =
     op_bind (get_snapshot i) (\<lambda>x. op_return
       (case x of
          None \<Rightarrow> \<lparr>vd_valid = False, vd_computed = None, vd_stored = None, vd_error = Some ''Snapshot not found''\<rparr>
        | Some y \<Rightarrow> verdict_on sha (snd y)))"

definition count_snapshots :: "string \<Rightarrow> nat snap_op" where
  "count_snapshots c = snap_query (t_count (of_contract c))"

definition get_all_snapshots :: "int \<Rightarrow> int \<Rightarrow> (nat \<times> snap_row) list snap_op" where
  "get_all_snapshots l n = snap_query (\<lambda>s. limit_offset l n (newest_first (trows s)))"

definition ids_to_keep :: "string \<Rightarrow> int \<Rightarrow> snap_row table \<Rightarrow> nat list" where
  "ids_to_keep c keep s = map fst (limit_offset keep 0 (newest_first (t_select (of_contract c) s)))"

definition stale :: "string \<Rightarrow> nat list \<Rightarrow> nat \<times> snap_row \<Rightarrow> bool" where
  "stale c ids x \<longleftrightarrow> of_contract c x \<and> fst x \<notin> set ids"

definition prune_snapshots :: "string \<Rightarrow> int \<Rightarrow> nat snap_op" where
  "prune_snapshots c keep =
     op_bind (snap_query (ids_to_keep c keep)) (\<lambda>ids.
     if ids = [] then op_return 0
     else op_bind (snap_statement (\<lambda>s. (t_count (stale c ids) s, t_delete (stale c ids) s))) (\<lambda>changes.
          op_bind count_write (\<lambda>_. op_return changes)))"

section \<open>jobs/snapshot-job.js\<close>

definition snapshot_interval_ms :: "js_number \<Rightarrow> js_number" where
  "snapshot_interval_ms env = (if env = NaN \<or> env = Finite 0 then Finite (24 * 60 * 60 * 1000) else env)"

definition snapshot_retention_count :: "js_number \<Rightarrow> js_number" where
  "snapshot_retention_count env = (if env = NaN \<or> env = Finite 0 then Finite 90 else env)"

text \<open>A number bound to \<open>LIMIT\<close> or \<open>OFFSET\<close> has to be a 64-bit integer.\<close>

definition sql_integer :: "js_number \<Rightarrow> ('t, int) db_op" where
  "sql_integer n =
     (case n of
        Finite q \<Rightarrow> if is_integer n \<and> \<bar>q\<bar> < 2 ^ 63 then op_return \<lfloor>q\<rfloor> else op_raise (SqliteError ''datatype mismatch'')
      | _ \<Rightarrow> op_raise (SqliteError ''datatype mismatch''))"

definition active_contract_ids :: "ledger \<Rightarrow> string list" where
  "active_contract_ids l = sort (remdups
     (map (\<lambda>x. tx_contract (snd x)) (trows (transactions l)) @ map (\<lambda>p. po_contract (snd p)) (trows (payouts l))))"

definition contract_payouts :: "string \<Rightarrow> ledger \<Rightarrow> payout_row list" where
  "contract_payouts c l = map snd (t_select (\<lambda>p. po_contract (snd p) = c) (payouts l))"

definition paid_collaborators :: "string \<Rightarrow> ledger \<Rightarrow> string list" where
  "paid_collaborators c l = rev (remdups (rev (map po_collaborator (contract_payouts c l))))"

definition round_cents :: "rat \<Rightarrow> rat" where
  "round_cents x = dbl (of_int \<lfloor>dbl (x * 100) + 1 / 2\<rfloor> / 100)"

definition received_text :: "(string list \<Rightarrow> rat) \<Rightarrow> (rat \<Rightarrow> string) \<Rightarrow> string \<Rightarrow> ledger \<Rightarrow> string" where
  "received_text real_sum num c l = ''{'' @ json_commas
     (map (\<lambda>a. json_quote a @ '':'' @ num (round_cents (real_sum
            (map po_amount (filter (\<lambda>p. po_collaborator p = a) (contract_payouts c l))))))
        (sort (paid_collaborators c l))) @ ''}''"

definition contract_snapshot ::
  "(string list \<Rightarrow> rat) \<Rightarrow> (rat \<Rightarrow> string) \<Rightarrow> string \<Rightarrow> string \<Rightarrow> ledger \<Rightarrow> snap_params" where
  "contract_snapshot real_sum num lbl c l =
     \<lparr>sm_contract = c, sm_label = Some lbl,
      sm_collaborators = json_stringify (JArr (map JStr (paid_collaborators c l))),
      sm_shares = received_text real_sum num c l, sm_balances = received_text real_sum num c l,
      sm_count = int (t_count (\<lambda>x. tx_contract (snd x) = c) (transactions l)),
      sm_last = (case order_desc (\<lambda>x. tx_timestamp (snd x)) (t_select (\<lambda>x. tx_contract (snd x) = c) (transactions l)) of
          [] \<Rightarrow> None | x # _ \<Rightarrow> Some (fst x)),
      sm_by = Some ''system''\<rparr>"

definition snapshot_label :: "string option \<Rightarrow> int \<Rightarrow> string" where
  "snapshot_label force now = (case force of Some l \<Rightarrow> l | None \<Rightarrow> ''daily-snapshot-'' @ take 10 (to_iso now))"

record snap_run =
  sr_created :: nat
  sr_processed :: nat
  sr_errors :: "string list"

definition contract_error :: "string \<Rightarrow> js_error \<Rightarrow> string" where
  "contract_error c e = ''Contract '' @ c @ '': '' @ error_message e"

record snap_job =
  jb_sha :: "string \<Rightarrow> string"
  jb_sum :: "string list \<Rightarrow> rat"
  jb_num :: "rat \<Rightarrow> string"
  jb_keep :: js_number

definition prune_retained :: "snap_job \<Rightarrow> string \<Rightarrow> nat snap_op" where
  "prune_retained j c = op_bind (sql_integer (jb_keep j)) (prune_snapshots c)"

definition snapshot_contract ::
  "snap_job \<Rightarrow> string option \<Rightarrow> int \<Rightarrow> string \<Rightarrow> nat \<times> string list \<Rightarrow> snap_store db
    \<Rightarrow> (nat \<times> string list) \<times> snap_store db" where
  "snapshot_contract j force now c acc d =
     (case create_snapshot (jb_sha j) (contract_snapshot (jb_sum j) (jb_num j) (snapshot_label force now) c
             (sp_ledger (tables d))) now d of
        (Inl e, d1) \<Rightarrow> ((fst acc, snd acc @ [contract_error c e]), d1)
      | (Inr _, d1) \<Rightarrow>
          (case prune_retained j c d1 of
             (Inl e, d2) \<Rightarrow> ((Suc (fst acc), snd acc @ [contract_error c e]), d2)
           | (Inr _, d2) \<Rightarrow> ((Suc (fst acc), snd acc), d2)))"

fun snapshot_contracts ::
  "snap_job \<Rightarrow> string option \<Rightarrow> int \<Rightarrow> string list \<Rightarrow> nat \<times> string list \<Rightarrow> snap_store db
    \<Rightarrow> (nat \<times> string list) \<times> snap_store db" where
  "snapshot_contracts j force now [] acc d = (acc, d)"
| "snapshot_contracts j force now (c # cs) acc d =
     (case snapshot_contract j force now c acc d of (acc', d') \<Rightarrow> snapshot_contracts j force now cs acc' d')"

definition execute_snapshot_run ::
  "snap_job \<Rightarrow> string option \<Rightarrow> int \<Rightarrow> snap_store db \<Rightarrow> snap_run \<times> snap_store db" where
  "execute_snapshot_run j force now d =
     (let d0 = snd (ensure_snapshot_table d); ids = active_contract_ids (sp_ledger (tables d0));
          (acc, d') = snapshot_contracts j force now ids (0, []) d0
      in (\<lparr>sr_created = fst acc, sr_processed = length ids, sr_errors = snd acc\<rparr>, d'))"

text \<open>The scheduler: \<open>_snapshotTimer\<close> and the intervals of the runtime, numbered.\<close>

record snap_scheduler =
  ss_timer :: "nat option"
  ss_live :: "(nat \<times> js_number) list"
  ss_next :: nat

definition stop_snapshot_scheduler :: "snap_scheduler \<Rightarrow> snap_scheduler" where
  "stop_snapshot_scheduler s =
     (case ss_timer s of
        None \<Rightarrow> s
      | Some i \<Rightarrow> s\<lparr>ss_live := filter (\<lambda>p. fst p \<noteq> i) (ss_live s), ss_timer := None\<rparr>)"

definition start_snapshot_scheduler :: "js_number \<Rightarrow> snap_scheduler \<Rightarrow> snap_scheduler" where
  "start_snapshot_scheduler interval s =
     (let s' = (if ss_timer s \<noteq> None then stop_snapshot_scheduler s else s)
      in s'\<lparr>ss_timer := Some (ss_next s'), ss_live := ss_live s' @ [(ss_next s', interval)], ss_next := Suc (ss_next s')\<rparr>)"

definition get_scheduler_status :: "js_number \<Rightarrow> snap_scheduler \<Rightarrow> bool \<times> js_number" where
  "get_scheduler_status env s = (ss_timer s \<noteq> None, snapshot_interval_ms env)"

section \<open>routes/snapshots.js\<close>

text \<open>The \<open>Authorization\<close> and \<open>x-api-key\<close> headers; \<open>attachRole\<close> has set the role of the request.\<close>

record caller =
  cl_authorization :: "string option"
  cl_api_key :: "string option"

definition caller_passes :: "(string \<Rightarrow> string) \<Rightarrow> string option \<Rightarrow> string \<Rightarrow> rbac_tables \<Rightarrow> int \<Rightarrow> caller \<Rightarrow> unit outcome" where
  "caller_passes hash configured min_role t now q =
     require_admin_bearer_or_role configured min_role (cl_authorization q)
       (Some (attach_role hash (cl_api_key q) now t))"

definition or_failed :: "string \<Rightarrow> string \<Rightarrow> ('t, response) db_op \<Rightarrow> 't db \<Rightarrow> response \<times> 't db" where
  "or_failed code message m d =
     (case m d of (Inl _, d') \<Rightarrow> (send_error 500 (Some code) message [], d') | (Inr r, d') \<Rightarrow> (r, d'))"

definition gated :: "unit outcome \<Rightarrow> ('s \<Rightarrow> response \<times> 's) \<Rightarrow> 's \<Rightarrow> response \<times> 's" where
  "gated g h a = (case g of Respond r \<Rightarrow> (r, a) | Next _ \<Rightarrow> h a)"

definition opt_nat_json :: "nat option \<Rightarrow> json" where
  "opt_nat_json n = (case n of None \<Rightarrow> JNull | Some k \<Rightarrow> JNum (int k))"

definition snapshot_fields :: "nat \<times> snap_row \<Rightarrow> (string \<times> json) list" where
  "snapshot_fields x =
     [(''id'', JNum (int (fst x))), (''contractId'', JStr (sn_contract (snd x))), (''label'', opt_json (sn_label (snd x))),
      (''collaborators'', JStr (sn_collaborators (snd x))), (''shares'', JStr (sn_shares (snd x))),
      (''balances'', JStr (sn_balances (snd x))), (''transactionCount'', JNum (sn_count (snd x))),
      (''lastTransactionId'', opt_nat_json (sn_last (snd x))), (''stateHash'', JStr (sn_hash (snd x))),
      (''createdBy'', opt_json (sn_by (snd x))), (''createdAt'', JStr (sn_created (snd x)))]"

definition snapshot_json :: "nat \<times> snap_row \<Rightarrow> json" where
  "snapshot_json x = JObj (snapshot_fields x)"

definition verdict_json :: "verdict \<Rightarrow> json" where
  "verdict_json v = JObj
     ([(''valid'', JBool (vd_valid v)), (''computedHash'', opt_json (vd_computed v)),
       (''storedHash'', opt_json (vd_stored v))] @
      (case vd_error v of None \<Rightarrow> [] | Some e \<Rightarrow> [(''error'', JStr e)]))"

text \<open>\<open>Number(q) || d\<close> of a query parameter, \<open>Math.min\<close> and \<open>Math.max\<close> with an integer.\<close>

definition query_number :: "string option \<Rightarrow> int \<Rightarrow> js_number" where
  "query_number q d =
     (case q of
        None \<Rightarrow> Finite (of_int d)
      | Some s \<Rightarrow> let n = string_to_number s in if n = NaN \<or> n = Finite 0 then Finite (of_int d) else n)"

definition number_min :: "js_number \<Rightarrow> int \<Rightarrow> js_number" where
  "number_min n m = (case n of NaN \<Rightarrow> NaN | Infinite neg \<Rightarrow> if neg then n else Finite (of_int m)
     | Finite q \<Rightarrow> Finite (min q (of_int m)))"

definition number_max :: "js_number \<Rightarrow> int \<Rightarrow> js_number" where
  "number_max n m = (case n of NaN \<Rightarrow> NaN | Infinite neg \<Rightarrow> if neg then Finite (of_int m) else n
     | Finite q \<Rightarrow> Finite (max q (of_int m)))"

definition all_snapshots_route :: "string option \<Rightarrow> string option \<Rightarrow> snap_store db \<Rightarrow> response \<times> snap_store db" where
  "all_snapshots_route qlimit qoffset = or_failed ''snapshot_fetch_failed'' ''Failed to fetch snapshots''
     (op_bind (sql_integer (number_min (query_number qlimit 100) 1000)) (\<lambda>l.
      op_bind (sql_integer (query_number qoffset 0)) (\<lambda>n.
      op_bind (get_all_snapshots l n) (\<lambda>items. op_return
        \<lparr>rstatus = 200, rbody = JObj [(''success'', JBool True), (''data'', JArr (map snapshot_json items)),
           (''pagination'', JObj [(''limit'', JNum l), (''offset'', JNum n)])]\<rparr>))))"

definition list_snapshots_route ::
  "string \<Rightarrow> string option \<Rightarrow> string option \<Rightarrow> snap_store db \<Rightarrow> response \<times> snap_store db" where
  "list_snapshots_route c qlimit qoffset = or_failed ''snapshot_list_failed'' ''Failed to list snapshots''
     (op_bind (sql_integer (number_min (query_number qlimit 50) 500)) (\<lambda>l.
      op_bind (sql_integer (query_number qoffset 0)) (\<lambda>n.
      op_bind (list_snapshots c l n) (\<lambda>items.
      op_bind (count_snapshots c) (\<lambda>tot. op_return (page_response (map snapshot_json items) tot l n))))))"

definition create_snapshot_schema :: schema where
  "create_snapshot_schema = z_object
     [(''label'', z_optional (z_string (\<lambda>s. length s \<le> 200))), (''collaborators'', z_optional (z_string (\<lambda>_. True))),
      (''shares'', z_optional (z_string (\<lambda>_. True))), (''balances'', z_optional (z_string (\<lambda>_. True))),
      (''transactionCount'', z_optional (z_number (\<lambda>n. is_integer n \<and> at_least 0 n))),
      (''createdBy'', z_optional (z_string (\<lambda>_. True)))]"

definition text_or :: "string \<Rightarrow> js_value \<Rightarrow> string" where
  "text_or d v = (case v of VStr s \<Rightarrow> s | _ \<Rightarrow> d)"

definition snapshot_creator :: "js_value \<Rightarrow> caller \<Rightarrow> string" where
  "snapshot_creator b q =
     (if text_or [] (field ''createdBy'' b) \<noteq> [] then text_or [] (field ''createdBy'' b)
      else if truthy (cl_api_key q) then the (cl_api_key q) else ''api'')"

definition manual_snapshot :: "string \<Rightarrow> js_value \<Rightarrow> caller \<Rightarrow> int \<Rightarrow> snap_params" where
  "manual_snapshot c b q now =
     \<lparr>sm_contract = c, sm_label = Some (text_or (''manual-snapshot-'' @ to_iso now) (field ''label'' b)),
      sm_collaborators = text_or ''[]'' (field ''collaborators'' b), sm_shares = text_or ''{}'' (field ''shares'' b),
      sm_balances = text_or ''{}'' (field ''balances'' b), sm_count = \<lfloor>num_of (field ''transactionCount'' b)\<rfloor>,
      sm_last = None, sm_by = Some (snapshot_creator b q)\<rparr>"

definition quiet_audit :: "string \<Rightarrow> string \<Rightarrow> string option \<Rightarrow> json \<Rightarrow> int \<Rightarrow> unit snap_op" where
  "quiet_audit c action user details now =
     op_catch (op_within sp_ledger (\<lambda>l t. t\<lparr>sp_ledger := l\<rparr>) (add_audit_log c action user details now))
       (\<lambda>_. op_return ())"

definition post_snapshot ::
  "(string \<Rightarrow> string) \<Rightarrow> string \<Rightarrow> caller \<Rightarrow> int \<Rightarrow> js_value \<Rightarrow> snap_store db \<Rightarrow> response \<times> snap_store db" where
  "post_snapshot sha c q now b = or_failed ''snapshot_create_failed'' ''Failed to create snapshot''
     (op_bind (create_snapshot sha (manual_snapshot c b q now) now) (\<lambda>x.
      op_bind (quiet_audit c ''snapshot_created'' (str_of (field ''createdBy'' b))
                 (JObj [(''snapshotId'', JNum (int (fst x))), (''label'', opt_json (sn_label (snd x)))]) now) (\<lambda>_.
      op_return (data_response 201 (snapshot_json x)))))"

definition post_snapshot_route ::
  "(string \<Rightarrow> string) \<Rightarrow> (js_value \<Rightarrow> (string \<times> string) list) \<Rightarrow> string option \<Rightarrow> rbac_tables \<Rightarrow> string \<Rightarrow> caller
    \<Rightarrow> js_value \<Rightarrow> int \<Rightarrow> snap_store db \<Rightarrow> response \<times> snap_store db" where
  "post_snapshot_route sha issues configured t c q b now =
     gated (caller_passes sha configured ''operator'' t now q)
       (validated create_snapshot_schema issues (post_snapshot sha c q now) b)"

definition row_id :: "js_number \<Rightarrow> nat option" where
  "row_id n = (case n of Finite q \<Rightarrow> if is_integer n \<and> 0 \<le> q then Some (nat \<lfloor>q\<rfloor>) else None | _ \<Rightarrow> None)"

definition get_snapshot_number :: "js_number \<Rightarrow> (nat \<times> snap_row) option snap_op" where
  "get_snapshot_number n = (case row_id n of Some i \<Rightarrow> get_snapshot i | None \<Rightarrow> snap_query (\<lambda>_. None))"

definition get_snapshot_route :: "string \<Rightarrow> string \<Rightarrow> snap_store db \<Rightarrow> response \<times> snap_store db" where
  "get_snapshot_route c i = or_failed ''snapshot_fetch_failed'' ''Failed to fetch snapshot''
     (if string_to_number i = NaN
      then op_return (send_error 400 (Some ''invalid_id'') ''Snapshot ID must be a number'' [])
      else op_bind (get_snapshot_number (string_to_number i)) (\<lambda>x. op_return
        (case x of None \<Rightarrow> send_error 404 (Some ''not_found'') ''Snapshot not found'' []
         | Some y \<Rightarrow> data_response 200 (snapshot_json y))))"

definition verify_snapshot_route :: "(string \<Rightarrow> string) \<Rightarrow> string \<Rightarrow> string \<Rightarrow> snap_store db \<Rightarrow> response \<times> snap_store db" where
  "verify_snapshot_route sha c i = or_failed ''snapshot_verify_failed'' ''Failed to verify snapshot''
     (if string_to_number i = NaN
      then op_return (send_error 400 (Some ''invalid_id'') ''Snapshot ID must be a number'' [])
      else op_bind (case row_id (string_to_number i) of
               Some k \<Rightarrow> verify_snapshot_integrity sha k
             | None \<Rightarrow> snap_query (\<lambda>_. \<lparr>vd_valid = False, vd_computed = None, vd_stored = None,
                         vd_error = Some ''Snapshot not found''\<rparr>))
           (\<lambda>v. op_return (data_response 200 (verdict_json v))))"

definition prune_snapshots_route ::
  "(string \<Rightarrow> string) \<Rightarrow> string option \<Rightarrow> rbac_tables \<Rightarrow> string \<Rightarrow> caller \<Rightarrow> string option \<Rightarrow> int \<Rightarrow> snap_store db
    \<Rightarrow> response \<times> snap_store db" where
  "prune_snapshots_route sha configured t c q qkeep now =
     gated (caller_passes sha configured ''admin'' t now q)
       (or_failed ''snapshot_prune_failed'' ''Failed to prune snapshots''
         (op_bind (sql_integer (number_max (query_number qkeep 90) 1)) (\<lambda>keep.
          op_bind (prune_snapshots c keep) (\<lambda>deleted.
          op_bind (quiet_audit c ''snapshots_pruned'' None
                     (JObj [(''deleted'', JNum (int deleted)), (''keepCount'', JNum keep)]) now) (\<lambda>_.
          op_return (data_response 200 (JObj [(''deleted'', JNum (int deleted)), (''keepCount'', JNum keep)])))))))"

definition all_snapshots_admin_route ::
  "(string \<Rightarrow> string) \<Rightarrow> string option \<Rightarrow> rbac_tables \<Rightarrow> caller \<Rightarrow> int \<Rightarrow> string option \<Rightarrow> string option \<Rightarrow> snap_store db
    \<Rightarrow> response \<times> snap_store db" where
  "all_snapshots_admin_route sha configured t q now qlimit qoffset =
     gated (caller_passes sha configured ''admin'' t now q) (all_snapshots_route qlimit qoffset)"

section \<open>Integrity\<close>

lemma state_payload_inject:
  "state_payload c s b n = state_payload c' s' b' n' \<longleftrightarrow> c = c' \<and> s = s' \<and> b = b' \<and> n = n'"
proof
  let ?j = "\<lambda>c s b n. JObj [(''balances'', JStr b), (''collaborators'', JStr c), (''shares'', JStr s),
      (''transactionCount'', JNum n)]"
  have parse: "json_parse (state_payload c s b n) = Some (to_value (?j c s b n))" for c s b n
    unfolding state_payload_def by (rule json_parse_stringify_all) simp
  assume eq: "state_payload c s b n = state_payload c' s' b' n'"
  have "Some (to_value (?j c s b n)) = Some (to_value (?j c' s' b' n'))" unfolding parse [symmetric] eq ..
  then show "c = c' \<and> s = s' \<and> b = b' \<and> n = n'" by simp
qed simp

lemma create_snapshot_state:
  "sp_snaps (tables d) = Some s \<Longrightarrow>
     tables (snd (create_snapshot sha p now d)) =
       (tables d)\<lparr>sp_snaps := Some (snd (t_insert (snap_row_of sha p (sql_timestamp now)) s))\<rparr>"
  by (cases "counting d") (simp_all add: create_snapshot_def snap_statement_def op_simps count_write_ok count_write_fails)

text \<open>What the hash covers.\<close>

definition covered :: "snap_row \<Rightarrow> string \<times> string \<times> string \<times> int" where
  "covered r = (sn_collaborators r, sn_shares r, sn_balances r, sn_count r)"

lemma verdict_on_created:
  assumes "inj sha" "sn_hash r = sn_hash (snap_row_of sha p t)"
  shows "vd_valid (verdict_on sha r) \<longleftrightarrow> covered r = covered (snap_row_of sha p t)"
  using inj_eq [OF assms(1)]
  by (auto simp: verdict_on_def Let_def assms(2) covered_def snap_row_of_def compute_state_hash_def state_payload_inject)

lemma verify_on: "sp_snaps (tables d) = Some s \<Longrightarrow> t_get (by_id i) s = Some x \<Longrightarrow>
    fst (verify_snapshot_integrity sha i d) = Inr (verdict_on sha (snd x))"
  by (simp add: verify_snapshot_integrity_def get_snapshot_def snap_query_def op_simps)


section \<open>Retention\<close>

definition snaps_of :: "string \<Rightarrow> snap_store \<Rightarrow> nat" where
  "snaps_of c t = (case sp_snaps t of None \<Rightarrow> 0 | Some s \<Rightarrow> t_count (of_contract c) s)"

definition snaps_ok :: "snap_store \<Rightarrow> bool" where
  "snaps_ok t = (case sp_snaps t of None \<Rightarrow> True | Some s \<Rightarrow> t_ok s)"

lemma ids_to_keep_distinct:
  assumes "t_ok s"
  shows "distinct (ids_to_keep c keep s)"
proof -
  let ?xs = "t_select (of_contract c) s"
  have "distinct (map fst ?xs)"
    using tb.ok_distinct [OF assms] by (simp add: t_select_def distinct_map_filter)
  moreover have "mset (map fst (newest_first ?xs)) = mset (map fst ?xs)" by (simp add: newest_first_def)
  ultimately have "distinct (map fst (newest_first ?xs))" by (metis mset_eq_imp_distinct_iff)
  then have "distinct (if keep < 0 then map fst (newest_first ?xs) else take (nat keep) (map fst (newest_first ?xs)))"
    using distinct_take by auto
  also have "(if keep < 0 then map fst (newest_first ?xs) else take (nat keep) (map fst (newest_first ?xs))) = ids_to_keep c keep s"
    by (simp add: ids_to_keep_def limit_offset_def Let_def take_map)
  finally show ?thesis .
qed

lemma ids_to_keep_length: "0 \<le> keep \<Longrightarrow> length (ids_to_keep c keep s) = min (nat keep) (t_count (of_contract c) s)"
  by (simp add: ids_to_keep_def newest_first_def length_limit_offset t_select_def t_count_def)

lemma ids_to_keep_in: "i \<in> set (ids_to_keep c keep s) \<Longrightarrow> \<exists>r. (i, r) \<in> set (trows s) \<and> sn_contract r = c"
  using set_limit_offset [of keep 0 "newest_first (t_select (of_contract c) s)"]
  by (fastforce simp: ids_to_keep_def newest_first_def t_select_def of_contract_def)

lemma prune_count:
  assumes "t_ok s" "0 \<le> keep"
  shows "t_count (of_contract c') (t_delete (stale c (ids_to_keep c keep s)) s) =
    (if c' = c then min (nat keep) (t_count (of_contract c) s) else t_count (of_contract c') s)"
proof (cases "c' = c")
  case False
  then have "filter (of_contract c') (filter (\<lambda>x. \<not> stale c ids x) (trows s)) = filter (of_contract c') (trows s)" for ids
    unfolding filter_filter by (intro filter_cong) (auto simp: stale_def of_contract_def)
  then show ?thesis using False by (simp add: t_count_def t_delete_def)
next
  case True
  let ?ids = "ids_to_keep c keep s"
  let ?left = "filter (\<lambda>x. fst x \<in> set ?ids) (trows s)"
  have eq: "filter (of_contract c) (filter (\<lambda>x. \<not> stale c ?ids x) (trows s)) = ?left"
    unfolding filter_filter
  proof (intro filter_cong refl)
    fix x assume x: "x \<in> set (trows s)"
    have "of_contract c x" if i: "fst x \<in> set ?ids"
      using ids_to_keep_in [OF i] tb.row_unique [OF assms(1), of "fst x" "snd x"] x by (auto simp: of_contract_def)
    then show "(\<not> stale c ?ids x \<and> of_contract c x) = (fst x \<in> set ?ids)" by (auto simp: stale_def)
  qed
  have "distinct (map fst ?left)" using tb.ok_distinct [OF assms(1)] by (simp add: distinct_map_filter)
  then have "length ?left = card (fst ` set ?left)" by (metis distinct_card length_map set_map)
  also have "fst ` set ?left = set ?ids" using ids_to_keep_in [of _ c keep s] by force
  also have "card (set ?ids) = length ?ids" by (rule distinct_card) (rule ids_to_keep_distinct [OF assms(1)])
  finally have "length ?left = min (nat keep) (t_count (of_contract c) s)"
    using ids_to_keep_length [OF assms(2), of c s] by (simp only:)
  moreover have "trows (t_delete (stale c ?ids) s) = filter (\<lambda>x. \<not> stale c ?ids x) (trows s)" by (simp add: t_delete_def)
  ultimately show ?thesis using eq True by (simp only: t_count_def if_True simp_thms)
qed

text \<open>Nothing that is kept is older than anything that is deleted.\<close>

lemma pruned_are_oldest:
  assumes "t_ok s" "0 \<le> keep" "x \<in> set (trows s)" "stale c (ids_to_keep c keep s) x"
    and "y \<in> set (trows s)" "of_contract c y" "fst y \<in> set (ids_to_keep c keep s)"
  shows "sn_created (snd x) \<le> sn_created (snd y)"
proof -
  let ?ys = "newest_first (t_select (of_contract c) s)"
  have ids: "ids_to_keep c keep s = map fst (take (nat keep) ?ys)"
    using assms(2) by (simp add: ids_to_keep_def limit_offset_def Let_def)
  have mem: "x \<in> set ?ys" "y \<in> set ?ys"
    using assms(3-6) by (auto simp: newest_first_def t_select_def stale_def)
  have split: "set ?ys = set (take (nat keep) ?ys) \<union> set (drop (nat keep) ?ys)"
    by (metis append_take_drop_id set_append)
  have "x \<notin> set (take (nat keep) ?ys)" using assms(4) ids by (auto simp: stale_def)
  then have x: "x \<in> set (drop (nat keep) ?ys)" using mem(1) split by blast
  obtain z where z: "z \<in> set (take (nat keep) ?ys)" "fst z = fst y" using assms(7) ids by auto
  then have "z \<in> set (trows s)" by (auto simp: newest_first_def t_select_def dest: in_set_takeD)
  then have "z = y" using z(2) tb.row_unique [OF assms(1), of "fst y" "snd y" "snd z"] assms(5) by (metis prod.collapse)
  moreover have "sorted_wrt (\<lambda>a b. sn_created (snd b) \<le> sn_created (snd a)) (take (nat keep) ?ys @ drop (nat keep) ?ys)"
    unfolding append_take_drop_id unfolding newest_first_def by (rule sorted_order_desc)
  ultimately show ?thesis using x z(1) unfolding sorted_wrt_append by blast
qed

section \<open>A run of the job\<close>

lemma active_distinct: "distinct (active_contract_ids l)"
  by (simp add: active_contract_ids_def)

lemma snapshot_prunes:
  assumes "counting d" "sp_snaps (tables d) = Some s" "t_ok s" "1 \<le> keep"
  shows "fst (prune_snapshots c keep d) = Inr (t_count (stale c (ids_to_keep c keep s)) s)"
    and "tables (snd (prune_snapshots c keep d)) =
      (tables d)\<lparr>sp_snaps := Some (t_delete (stale c (ids_to_keep c keep s)) s)\<rparr>"
    and "counting (snd (prune_snapshots c keep d))"
proof -
  let ?ids = "ids_to_keep c keep s"
  have none: "t_count (stale c []) s = 0 \<and> t_delete (stale c []) s = s" if "?ids = []"
  proof -
    have "t_count (of_contract c) s = 0" using that ids_to_keep_length [of keep c s] assms(4) by (simp add: min_def split: if_splits)
    then have "\<forall>x \<in> set (trows s). \<not> of_contract c x" by (simp add: t_count_def filter_empty_conv)
    then show ?thesis by (simp add: t_count_def t_delete_def stale_def filter_id_conv)
  qed
  have same: "(tables d)\<lparr>sp_snaps := Some s\<rparr> = tables d" using assms(2) by (cases "tables d") simp
  show "fst (prune_snapshots c keep d) = Inr (t_count (stale c ?ids) s)"
    "tables (snd (prune_snapshots c keep d)) = (tables d)\<lparr>sp_snaps := Some (t_delete (stale c ?ids) s)\<rparr>"
    "counting (snd (prune_snapshots c keep d))"
    using assms(1,2) none same
    by (cases "?ids = []"; simp add: prune_snapshots_def snap_query_def snap_statement_def op_simps count_write_ok)+
qed

definition retained :: "snap_job \<Rightarrow> int \<Rightarrow> bool" where
  "retained j keep \<longleftrightarrow> jb_keep j = Finite (of_int keep) \<and> 1 \<le> keep \<and> keep < 2 ^ 63"

lemma retained_limit: "retained j keep \<Longrightarrow> prune_retained j c = prune_snapshots c keep"
proof -
  assume r: "retained j keep"
  then have "\<bar>of_int keep :: rat\<bar> < 2 ^ 63" by (simp add: retained_def)
  then show ?thesis using r
    by (simp add: prune_retained_def retained_def sql_integer_def is_integer_def op_bind_def op_return_def fun_eq_iff)
qed

text \<open>What one contract's turn does to the numbers of snapshots.\<close>

definition after_turn :: "int \<Rightarrow> string \<Rightarrow> snap_store \<Rightarrow> snap_store \<Rightarrow> bool" where
  "after_turn keep c t t' \<longleftrightarrow> snaps_ok t' \<and> sp_snaps t' \<noteq> None \<and> sp_ledger t' = sp_ledger t
     \<and> (\<forall>c'. snaps_of c' t' = (if c' = c then min (nat keep) (Suc (snaps_of c t)) else snaps_of c' t))"

lemma insert_snap_count:
  "t_count (of_contract c') (snd (t_insert r s)) = t_count (of_contract c') s + (if sn_contract r = c' then 1 else 0)"
  by (simp add: t_count_def t_insert_def of_contract_def)

lemma created_by_job [simp]:
  "sn_contract (snap_row_of sha p t) = sm_contract p" "sm_contract (contract_snapshot rs num lbl c l) = c"
  by (simp_all add: snap_row_of_def contract_snapshot_def)

lemma create_snapshot_counting:
  "counting d \<Longrightarrow> sp_snaps (tables d) = Some s \<Longrightarrow>
     create_snapshot sha p now d = (Inr (Suc (tseq s), snap_row_of sha p (to_iso now)),
       (bump d)\<lparr>tables := (tables d)\<lparr>sp_snaps := Some (snd (t_insert (snap_row_of sha p (sql_timestamp now)) s))\<rparr>\<rparr>)"
  by (simp add: create_snapshot_def snap_statement_def op_simps count_write_ok t_insert_def)

lemma snapshot_turn:
  assumes "counting d" "snaps_ok (tables d)" "sp_snaps (tables d) \<noteq> None" "retained j keep"
  shows "\<exists>d'. snapshot_contract j force now c acc d = ((Suc (fst acc), snd acc), d') \<and> counting d'
    \<and> after_turn keep c (tables d) (tables d')"
proof -
  obtain s where s: "sp_snaps (tables d) = Some s" "t_ok s" using assms(2,3) by (auto simp: snaps_ok_def)
  define r where "r = snap_row_of (jb_sha j) (contract_snapshot (jb_sum j) (jb_num j) (snapshot_label force now) c (sp_ledger (tables d)))
    (sql_timestamp now)"
  define s1 where "s1 = snd (t_insert r s)"
  define d1 where "d1 = (bump d)\<lparr>tables := (tables d)\<lparr>sp_snaps := Some s1\<rparr>\<rparr>"
  have keep: "1 \<le> keep" using assms(4) by (simp add: retained_def)
  have ok: "t_ok s1" using s(2) by (simp add: s1_def tb.ok_ins)
  have d1: "counting d1" "sp_snaps (tables d1) = Some s1" using assms(1) by (simp_all add: d1_def)
  note pr = snapshot_prunes [OF d1 ok keep, of c]
  have run: "snapshot_contract j force now c acc d = ((Suc (fst acc), snd acc), snd (prune_snapshots c keep d1))"
    using create_snapshot_counting [OF assms(1) s(1), of "jb_sha j"] pr(1) retained_limit [OF assms(4), of c]
    by (cases "prune_snapshots c keep d1") (simp add: snapshot_contract_def d1_def s1_def r_def)
  have "after_turn keep c (tables d) (tables (snd (prune_snapshots c keep d1)))"
    using pr(2) ok prune_count [OF ok, of keep _ c] keep s(1)
    by (auto simp: after_turn_def snaps_ok_def snaps_of_def tb.ok_del d1_def s1_def insert_snap_count r_def)
  then show ?thesis using run pr(3) by blast
qed

lemma snapshot_turns:
  assumes "counting d" "snaps_ok (tables d)" "sp_snaps (tables d) \<noteq> None" "retained j keep" "distinct cs"
  shows "\<exists>d'. snapshot_contracts j force now cs acc d = ((length cs + fst acc, snd acc), d')
    \<and> (\<forall>c. snaps_of c (tables d') = (if c \<in> set cs then min (nat keep) (Suc (snaps_of c (tables d))) else snaps_of c (tables d)))"
  using assms(1-3,5)
proof (induction cs arbitrary: acc d)
  case (Cons c cs)
  obtain d1 where d1: "snapshot_contract j force now c acc d = ((Suc (fst acc), snd acc), d1)" "counting d1"
    and after: "after_turn keep c (tables d) (tables d1)"
    using snapshot_turn [OF Cons.prems(1-3) assms(4)] by blast
  obtain d' where d': "snapshot_contracts j force now cs (Suc (fst acc), snd acc) d1 = ((length cs + Suc (fst acc), snd acc), d')"
    "\<forall>c. snaps_of c (tables d') = (if c \<in> set cs then min (nat keep) (Suc (snaps_of c (tables d1))) else snaps_of c (tables d1))"
    using Cons.IH [of d1 "(Suc (fst acc), snd acc)"] d1(2) after Cons.prems(4) by (auto simp: after_turn_def)
  have "snaps_of x (tables d') = (if x \<in> set (c # cs) then min (nat keep) (Suc (snaps_of x (tables d))) else snaps_of x (tables d))" for x
    using d'(2) after Cons.prems(4) by (auto simp: after_turn_def)
  then show ?case using d1(1) d'(1) by simp
qed simp

lemma t_count_empty: "t_count P t_empty = 0"
  by (simp add: t_count_def t_empty_def)

lemma ensured:
  "counting (snd (ensure_snapshot_table d)) = counting d" "sp_snaps (tables (snd (ensure_snapshot_table d))) \<noteq> None"
  "sp_ledger (tables (snd (ensure_snapshot_table d))) = sp_ledger (tables d)"
  "snaps_ok (tables d) \<Longrightarrow> snaps_ok (tables (snd (ensure_snapshot_table d)))"
  "snaps_of c (tables (snd (ensure_snapshot_table d))) = snaps_of c (tables d)"
  by (auto simp: ensure_snapshot_table_def op_simps snaps_ok_def snaps_of_def t_count_empty split: option.split)


section \<open>On a connection whose writes throw\<close>

lemma create_snapshot_uncounted:
  "\<not> counting d \<Longrightarrow> sp_snaps (tables d) = Some s \<Longrightarrow>
     create_snapshot sha p now d = (Inl (ReferenceError ''_writeCount is not defined''),
       d\<lparr>tables := (tables d)\<lparr>sp_snaps := Some (snd (t_insert (snap_row_of sha p (sql_timestamp now)) s))\<rparr>\<rparr>)"
  by (simp add: create_snapshot_def snap_statement_def op_simps count_write_fails)

definition lost_write :: "string \<Rightarrow> string" where
  "lost_write c = contract_error c (ReferenceError ''_writeCount is not defined'')"

lemma uncounted_turns:
  assumes "\<not> counting d" "sp_snaps (tables d) \<noteq> None" "distinct cs"
  shows "\<exists>d'. snapshot_contracts j force now cs acc d = ((fst acc, snd acc @ map lost_write cs), d')
    \<and> (\<forall>c. snaps_of c (tables d') = snaps_of c (tables d) + (if c \<in> set cs then 1 else 0))"
  using assms
proof (induction cs arbitrary: acc d)
  case (Cons c cs)
  obtain s where s: "sp_snaps (tables d) = Some s" using Cons.prems(2) by blast
  define r where "r = snap_row_of (jb_sha j) (contract_snapshot (jb_sum j) (jb_num j) (snapshot_label force now) c (sp_ledger (tables d)))
    (sql_timestamp now)"
  define d1 where "d1 = d\<lparr>tables := (tables d)\<lparr>sp_snaps := Some (snd (t_insert r s))\<rparr>\<rparr>"
  have turn: "snapshot_contract j force now c acc d = ((fst acc, snd acc @ [lost_write c]), d1)"
    using create_snapshot_uncounted [OF Cons.prems(1) s] by (simp add: snapshot_contract_def lost_write_def d1_def r_def)
  have n1: "snaps_of x (tables d1) = snaps_of x (tables d) + (if x = c then 1 else 0)" for x
    by (simp add: snaps_of_def s d1_def insert_snap_count r_def)
  have d1: "\<not> counting d1" "sp_snaps (tables d1) \<noteq> None" using Cons.prems(1) by (simp_all add: d1_def)
  obtain d' where d': "snapshot_contracts j force now cs (fst acc, snd acc @ [lost_write c]) d1 =
      ((fst acc, (snd acc @ [lost_write c]) @ map lost_write cs), d')"
    "\<forall>c. snaps_of c (tables d') = snaps_of c (tables d1) + (if c \<in> set cs then 1 else 0)"
    using Cons.IH [OF d1, of "(fst acc, snd acc @ [lost_write c])"] Cons.prems(3) by auto
  have "snaps_of x (tables d') = snaps_of x (tables d) + (if x \<in> set (c # cs) then 1 else 0)" for x
    using d'(2) n1 [of x] Cons.prems(3) by auto
  then show ?case using turn d'(1) by simp
qed simp

text \<open>
  On the connection of \<open>core.js\<close> the job stores a snapshot of every active contract, reports none
  created and one error for each, and prunes nothing: the table grows with every run.
\<close>

theorem snapshot_run_uncounted:
  assumes "\<not> counting d"
  shows "\<exists>d'. execute_snapshot_run j force now d =
      (\<lparr>sr_created = 0, sr_processed = length (active_contract_ids (sp_ledger (tables d))),
        sr_errors = map lost_write (active_contract_ids (sp_ledger (tables d)))\<rparr>, d')
    \<and> (\<forall>c. snaps_of c (tables d') = snaps_of c (tables d)
         + (if c \<in> set (active_contract_ids (sp_ledger (tables d))) then 1 else 0))"
proof -
  obtain d' where "snapshot_contracts j force now (active_contract_ids (sp_ledger (tables d))) (0, []) (snd (ensure_snapshot_table d)) =
      ((0, map lost_write (active_contract_ids (sp_ledger (tables d)))), d')"
    "\<forall>c. snaps_of c (tables d') = snaps_of c (tables d) + (if c \<in> set (active_contract_ids (sp_ledger (tables d))) then 1 else 0)"
    using uncounted_turns [of "snd (ensure_snapshot_table d)" "active_contract_ids (sp_ledger (tables d))" j force now "(0, [])"]
      assms ensured(1,2,5) [where d = d] active_distinct by auto
  then show ?thesis by (simp add: execute_snapshot_run_def ensured(3) Let_def)
qed

section \<open>Who created a snapshot\<close>

lemma quiet_audit_refused: "action \<notin> set audit_actions \<Longrightarrow> quiet_audit c action user details now d = (Inr (), d)"
  by (simp add: quiet_audit_def op_catch_def op_within_def refused_audit op_return_def)

lemma snapshot_actions_refused [simp]:
  "''snapshot_created'' \<notin> set audit_actions" "''snapshots_pruned'' \<notin> set audit_actions"
  by (simp_all add: audit_actions_def)

lemma post_snapshot_state:
  assumes "sp_snaps (tables d) = Some s"
  shows "tables (snd (post_snapshot sha c q now b d)) =
    (tables d)\<lparr>sp_snaps := Some (snd (t_insert (snap_row_of sha (manual_snapshot c b q now) (sql_timestamp now)) s))\<rparr>"
proof -
  have "tables (snd (or_failed code m (op_bind (create_snapshot sha p now) (\<lambda>x. op_bind (quiet_audit c ''snapshot_created'' u (f x) now)
      (\<lambda>_. op_return (g x)))) d)) = tables (snd (create_snapshot sha p now d))" for code m p u f g
    by (cases "create_snapshot sha p now d") (auto simp: or_failed_def op_bind_def op_return_def quiet_audit_refused split: sum.split)
  then show ?thesis using create_snapshot_state [OF assms] by (simp add: post_snapshot_def)
qed

lemma row_id_nat [simp]: "row_id (Finite (of_nat n)) = Some n"
  by (simp add: row_id_def is_integer_def)

lemma get_snapshot_route_row:
  "sp_snaps (tables d) = Some s \<Longrightarrow> t_get (by_id i) s = Some x \<Longrightarrow>
     fst (get_snapshot_route c (nat_str i) d) = data_response 200 (snapshot_json x)"
  by (simp add: get_snapshot_route_def string_to_number_nat_str get_snapshot_number_def get_snapshot_def snap_query_def
      or_failed_def op_simps)

text \<open>C23: 
  A snapshot created with an API key and no \<open>createdBy\<close> stores the key itself, and the unguarded
  \<open>GET /snapshots/:contractId/:id\<close> hands it to anyone, under any contract id.
\<close>

theorem snapshot_reveals_api_key:
  assumes "sp_snaps (tables d) = Some s" and "t_ok s"
    and "caller_passes sha configured ''operator'' t now q = Next ()"
    and "validate create_snapshot_schema issues b = Next p" and "text_or [] (field ''createdBy'' p) = []"
    and "cl_api_key q = Some k" and "k \<noteq> []"
  shows "\<exists>fs. fst (get_snapshot_route anywhere (nat_str (Suc (tseq s)))
        (snd (post_snapshot_route sha issues configured t c q b now d))) = data_response 200 (JObj fs)
    \<and> map_of fs ''createdBy'' = Some (JStr k)"
proof -
  define r where "r = snap_row_of sha (manual_snapshot c p q now) (sql_timestamp now)"
  have by_key: "sn_by r = Some k" using assms(5-7) by (simp add: r_def snap_row_of_def manual_snapshot_def snapshot_creator_def)
  have "t_get (by_id (Suc (tseq s))) (snd (t_insert r s)) = Some (Suc (tseq s), r)"
    using t_get_inserted [OF assms(2), of r] by (simp add: t_insert_def)
  moreover have "sp_snaps (tables (snd (post_snapshot_route sha issues configured t c q b now d))) = Some (snd (t_insert r s))"
    using post_snapshot_state [OF assms(1), of sha c q now p] assms(3,4)
    by (simp add: post_snapshot_route_def gated_def validated_def r_def)
  ultimately have "fst (get_snapshot_route anywhere (nat_str (Suc (tseq s)))
      (snd (post_snapshot_route sha issues configured t c q b now d))) = data_response 200 (snapshot_json (Suc (tseq s), r))"
    by (intro get_snapshot_route_row)
  moreover have "map_of (snapshot_fields (Suc (tseq s), r)) ''createdBy'' = Some (JStr k)"
    by (simp add: snapshot_fields_def by_key opt_json_def)
  ultimately show ?thesis unfolding snapshot_json_def by blast
qed

section \<open>Concrete runs\<close>

definition demo_snaps :: snap_store where
  "demo_snaps = \<lparr>sp_ledger = demo_ledger, sp_snaps = Some t_empty\<rparr>"

definition demo_snap_job :: snap_job where
  "demo_snap_job = \<lparr>jb_sha = id, jb_sum = (\<lambda>_. 0), jb_num = (\<lambda>_. ''0''), jb_keep = Finite 2\<rparr>"

definition demo_operator :: caller where
  "demo_operator = \<lparr>cl_authorization = None, cl_api_key = Some ''k1''\<rparr>"

lemma demo_active: "active_contract_ids (sp_ledger demo_snaps) = [''C1'']"
  by (simp add: active_contract_ids_def demo_snaps_def demo_ledger_def insert_tx_def new_tx_def t_insert_def empty_ledger_def
      t_empty_def Let_def)



theorem snapshot_run_uncounted_witness:
  "\<exists>d'. execute_snapshot_run demo_snap_job None 5 (core_connection demo_snaps) =
     (\<lparr>sr_created = 0, sr_processed = 1, sr_errors = [''Contract C1: _writeCount is not defined'']\<rparr>, d')
     \<and> snaps_of ''C1'' (tables d') = 1"
proof -
  have n: "snaps_of ''C1'' demo_snaps = 0" by (simp add: snaps_of_def demo_snaps_def t_count_empty)
  from snapshot_run_uncounted [of "core_connection demo_snaps" demo_snap_job None 5]
  show ?thesis by (auto simp: demo_active n lost_write_def contract_error_def)
qed

theorem snapshot_reveals_api_key_witness:
  "\<exists>fs. fst (get_snapshot_route ''anywhere'' (nat_str 1)
        (snd (post_snapshot_route (\<lambda>k. ''h:'' @ k) (\<lambda>_. []) None demo_rbac ''C1'' demo_operator (VObj []) 0
          (core_connection demo_snaps)))) = data_response 200 (JObj fs)
    \<and> map_of fs ''createdBy'' = Some (JStr ''k1'')"
proof -
  have s: "sp_snaps (tables (core_connection demo_snaps)) = Some t_empty" by (simp add: demo_snaps_def)
  have "attach_role (\<lambda>k. ''h:'' @ k) (Some ''k1'') 0 demo_rbac = ''operator''" by code_simp
  then have gate: "caller_passes (\<lambda>k. ''h:'' @ k) None ''operator'' demo_rbac 0 demo_operator = Next ()"
    by (simp add: caller_passes_def demo_operator_def require_admin_bearer_or_role_def role_or_viewer_def)
  have valid: "validate create_snapshot_schema (\<lambda>_. []) (VObj []) = Next (VObj [])"
    by (simp add: validate_def create_snapshot_schema_def z_object_def z_optional_def prop_of_def)
  show ?thesis
    using snapshot_reveals_api_key [OF s t_ok_empty gate valid, of "''k1''" "''anywhere''" "''C1''"]
    by (simp add: text_or_def field_def prop_of_def demo_operator_def t_empty_def)
qed

end
