(* ===== verification/Communications.thy ===== *)
theory Communications
  imports Snapshots
begin

text \<open>
  The communication history of contributors: \<open>database/contributor-communications.js\<close> and
  \<open>routes/communications.js\<close> under \<open>src/backend/src\<close>.  Nothing calls \<open>ensureCommunicationsTable\<close>, so a
  store may lack the table and then every statement throws.  \<open>stringify\<close> prints the metadata object.
  \<open>LIKE\<close> is SQLite's: without regard to the case of ASCII letters, with the wildcards \<open>%\<close> and \<open>_\<close>.
\<close>

section \<open>database/contributor-communications.js\<close>

record comm_row =
  cm_wallet :: string
  cm_contract :: "string option"
  cm_type :: string
  cm_subject :: "string option"
  cm_body :: string
  cm_direction :: string
  cm_status :: string
  cm_internal :: bool
  cm_metadata :: "string option"
  cm_reference :: "string option"
  cm_by :: "string option"
  cm_created :: string

record comm_store =
  ct_ledger :: ledger
  ct_comms :: "comm_row table option"

type_synonym 'a comm_op = "(comm_store, 'a) db_op"

definition comm_types :: "string list" where
  "comm_types = [''email'', ''support_ticket'', ''message'', ''internal_note'', ''system_notification'']"

definition comm_directions :: "string list" where
  "comm_directions = [''inbound'', ''outbound'', ''internal'']"

definition comm_statuses :: "string list" where
  "comm_statuses = [''sent'', ''received'', ''draft'', ''archived'']"

definition ensure_communications_table :: "unit comm_op" where
  "ensure_communications_table = op_write (\<lambda>t. ((), t\<lparr>ct_comms :=
     Some (case ct_comms t of None \<Rightarrow> t_empty | Some s \<Rightarrow> s)\<rparr>))"

definition comm_query :: "(comm_row table \<Rightarrow> 'a) \<Rightarrow> 'a comm_op" where
  "comm_query f d =
     (case ct_comms (tables d) of
        None \<Rightarrow> (Inl (no_table ''contributor_communications''), d)
      | Some s \<Rightarrow> (Inr (f s), d))"

definition comm_insert :: "comm_row \<Rightarrow> nat comm_op" where
  "comm_insert r d =
     (case ct_comms (tables d) of
        None \<Rightarrow> (Inl (no_table ''contributor_communications''), d)
      | Some s \<Rightarrow>
          if cm_type r \<in> set comm_types \<and> cm_direction r \<in> set comm_directions \<and> cm_status r \<in> set comm_statuses
          then (Inr (fst (t_insert r s)), d\<lparr>tables := (tables d)\<lparr>ct_comms := Some (snd (t_insert r s))\<rparr>\<rparr>)
          else (Inl (SqliteError ''CHECK constraint failed''), d))"

text \<open>The row but for its time; \<open>cm_created\<close> is set when it is recorded.\<close>

definition record_communication :: "comm_row \<Rightarrow> int \<Rightarrow> (nat \<times> comm_row) comm_op" where
  "record_communication r now =
     (let r' = r\<lparr>cm_created := to_iso now\<rparr>
      in op_bind (comm_insert r') (\<lambda>i. op_bind count_write (\<lambda>_. op_return (i, r'))))"

definition visible :: "bool \<Rightarrow> comm_row \<Rightarrow> bool" where
  "visible include_internal r \<longleftrightarrow> include_internal \<or> \<not> cm_internal r"

definition by_wallet :: "string \<Rightarrow> bool \<Rightarrow> nat \<times> comm_row \<Rightarrow> bool" where
  "by_wallet w inc x \<longleftrightarrow> cm_wallet (snd x) = w \<and> visible inc (snd x)"

definition by_contract :: "string \<Rightarrow> bool \<Rightarrow> nat \<times> comm_row \<Rightarrow> bool" where
  "by_contract c inc x \<longleftrightarrow> cm_contract (snd x) = Some c \<and> visible inc (snd x)"

definition latest_first :: "(nat \<times> comm_row) list \<Rightarrow> (nat \<times> comm_row) list" where
  "latest_first = order_desc (\<lambda>x. cm_created (snd x))"

definition get_communications_by_wallet :: "string \<Rightarrow> bool \<Rightarrow> int \<Rightarrow> int \<Rightarrow> (nat \<times> comm_row) list comm_op" where
  "get_communications_by_wallet w inc l n =
     comm_query (\<lambda>s. limit_offset l n (latest_first (t_select (by_wallet w inc) s)))"

definition get_communications_by_contract :: "string \<Rightarrow> bool \<Rightarrow> int \<Rightarrow> int \<Rightarrow> (nat \<times> comm_row) list comm_op" where
  "get_communications_by_contract c inc l n =
     comm_query (\<lambda>s. limit_offset l n (latest_first (t_select (by_contract c inc) s)))"

definition like_opt :: "string \<Rightarrow> string option \<Rightarrow> bool" where
  "like_opt p s = (case s of None \<Rightarrow> False | Some x \<Rightarrow> sql_like p x)"

definition search_matches :: "string \<Rightarrow> bool \<Rightarrow> nat \<times> comm_row \<Rightarrow> bool" where
  "search_matches q inc x \<longleftrightarrow>
     (let p = ''%'' @ q @ ''%''; r = snd x in
      (sql_like p (cm_body r) \<or> like_opt p (cm_subject r) \<or> sql_like p (cm_wallet r) \<or> like_opt p (cm_reference r))
      \<and> visible inc r)"

definition search_communications :: "string \<Rightarrow> bool \<Rightarrow> int \<Rightarrow> int \<Rightarrow> (nat \<times> comm_row) list comm_op" where
  "search_communications q inc l n =
     comm_query (\<lambda>s. limit_offset l n (latest_first (t_select (search_matches q inc) s)))"

definition internal_note :: "string \<Rightarrow> string option \<Rightarrow> string \<Rightarrow> string option \<Rightarrow> comm_row" where
  "internal_note w c b user =
     \<lparr>cm_wallet = w, cm_contract = c, cm_type = ''internal_note'', cm_subject = None, cm_body = b,
      cm_direction = ''internal'', cm_status = ''sent'', cm_internal = True, cm_metadata = None,
      cm_reference = None, cm_by = user, cm_created = []\<rparr>"

definition add_internal_note ::
  "string \<Rightarrow> string option \<Rightarrow> string \<Rightarrow> string option \<Rightarrow> int \<Rightarrow> (nat \<times> comm_row) comm_op" where
  "add_internal_note w c b user now = record_communication (internal_note w c b user) now"

definition get_communication_timeline :: "string \<Rightarrow> bool \<Rightarrow> int \<Rightarrow> int \<Rightarrow> (nat \<times> comm_row) list comm_op" where
  "get_communication_timeline w inc l n =
     comm_query (\<lambda>s. limit_offset l n (order_asc (\<lambda>x. cm_created (snd x)) (t_select (by_wallet w inc) s)))"

definition count_communications :: "string \<Rightarrow> bool \<Rightarrow> nat comm_op" where
  "count_communications w inc = comm_query (t_count (by_wallet w inc))"

section \<open>routes/communications.js\<close>

definition z_nullable :: "schema \<Rightarrow> schema" where
  "z_nullable s v = (if v = VNull then Some VNull else s v)"

definition z_boolean :: schema where
  "z_boolean v = (case v of VBool _ \<Rightarrow> Some v | _ \<Rightarrow> None)"

definition z_record :: schema where
  "z_record v = (case v of VObj _ \<Rightarrow> Some v | _ \<Rightarrow> None)"

definition any_text :: schema where
  "any_text = z_string (\<lambda>_. True)"

definition record_communication_schema :: schema where
  "record_communication_schema = z_object
     [(''walletAddress'', z_string account_regex), (''contractId'', z_optional (z_nullable any_text)),
      (''type'', z_enum comm_types), (''subject'', z_optional (z_nullable (text_between 0 500))),
      (''body'', text_between 1 10000), (''direction'', z_enum comm_directions),
      (''status'', z_optional (z_enum comm_statuses)), (''isInternal'', z_optional z_boolean),
      (''metadata'', z_optional (z_nullable z_record)), (''referenceId'', z_optional (z_nullable (text_between 0 200))),
      (''createdBy'', z_optional (z_nullable any_text))]"

definition search_schema :: schema where
  "search_schema = z_object
     [(''query'', text_between 1 200), (''includeInternal'', z_optional z_boolean),
      (''limit'', z_optional (z_int 1 500)), (''offset'', z_optional (z_number (\<lambda>n. is_integer n \<and> at_least 0 n)))]"

definition internal_note_schema :: schema where
  "internal_note_schema = z_object
     [(''walletAddress'', z_string account_regex), (''contractId'', z_optional (z_nullable any_text)),
      (''body'', text_between 1 10000), (''createdBy'', z_optional (z_nullable any_text))]"

definition comm_of_body :: "(js_value \<Rightarrow> string) \<Rightarrow> js_value \<Rightarrow> comm_row" where
  "comm_of_body stringify b =
     \<lparr>cm_wallet = text_field ''walletAddress'' b, cm_contract = str_of (field ''contractId'' b),
      cm_type = text_field ''type'' b, cm_subject = str_of (field ''subject'' b), cm_body = text_field ''body'' b,
      cm_direction = text_field ''direction'' b, cm_status = text_or ''sent'' (field ''status'' b),
      cm_internal = (field ''isInternal'' b = VBool True),
      cm_metadata = (case field ''metadata'' b of VObj ps \<Rightarrow> Some (stringify (VObj ps)) | _ \<Rightarrow> None),
      cm_reference = str_of (field ''referenceId'' b), cm_by = str_of (field ''createdBy'' b), cm_created = []\<rparr>"

text \<open>A new row is answered with \<open>isInternal\<close> as a boolean, a stored one with SQLite's 0 or 1.\<close>

definition comm_json :: "json \<Rightarrow> nat \<times> comm_row \<Rightarrow> json" where
  "comm_json internal x = JObj
     [(''id'', JNum (int (fst x))), (''walletAddress'', JStr (cm_wallet (snd x))), (''contractId'', opt_json (cm_contract (snd x))),
      (''type'', JStr (cm_type (snd x))), (''subject'', opt_json (cm_subject (snd x))), (''body'', JStr (cm_body (snd x))),
      (''direction'', JStr (cm_direction (snd x))), (''status'', JStr (cm_status (snd x))), (''isInternal'', internal),
      (''metadata'', opt_json (cm_metadata (snd x))), (''referenceId'', opt_json (cm_reference (snd x))),
      (''createdBy'', opt_json (cm_by (snd x))), (''createdAt'', JStr (cm_created (snd x)))]"

definition new_comm_json :: "nat \<times> comm_row \<Rightarrow> json" where
  "new_comm_json x = comm_json (JBool (cm_internal (snd x))) x"

definition stored_comm_json :: "nat \<times> comm_row \<Rightarrow> json" where
  "stored_comm_json x = comm_json (JNum (if cm_internal (snd x) then 1 else 0)) x"

definition comm_audit :: "string \<Rightarrow> string \<Rightarrow> string option \<Rightarrow> json \<Rightarrow> int \<Rightarrow> unit comm_op" where
  "comm_audit c action user details now =
     op_catch (op_within ct_ledger (\<lambda>l t. t\<lparr>ct_ledger := l\<rparr>) (add_audit_log c action user details now))
       (\<lambda>_. op_return ())"

definition post_communication ::
  "(js_value \<Rightarrow> string) \<Rightarrow> int \<Rightarrow> js_value \<Rightarrow> comm_store db \<Rightarrow> response \<times> comm_store db" where
  "post_communication stringify now b = or_failed ''communication_create_failed'' ''Failed to record communication''
     (op_bind (record_communication (comm_of_body stringify b) now) (\<lambda>x.
      op_bind (comm_audit (if truthy (str_of (field ''contractId'' b)) then text_field ''contractId'' b else ''__global__'')
                 (''communication_'' @ cm_type (snd x)) (str_of (field ''createdBy'' b))
                 (JObj [(''communicationId'', JNum (int (fst x))), (''walletAddress'', JStr (cm_wallet (snd x)))]) now) (\<lambda>_.
      op_return (data_response 201 (new_comm_json x)))))"

definition post_communication_route ::
  "(string \<Rightarrow> string) \<Rightarrow> (js_value \<Rightarrow> string) \<Rightarrow> (js_value \<Rightarrow> (string \<times> string) list) \<Rightarrow> string option \<Rightarrow> rbac_tables
    \<Rightarrow> caller \<Rightarrow> js_value \<Rightarrow> int \<Rightarrow> comm_store db \<Rightarrow> response \<times> comm_store db" where
  "post_communication_route sha stringify issues configured t q b now =
     gated (caller_passes sha configured ''operator'' t now q)
       (validated record_communication_schema issues (post_communication stringify now) b)"

definition unpaged_response :: "json list \<Rightarrow> int \<Rightarrow> int \<Rightarrow> response" where
  "unpaged_response items l n = \<lparr>rstatus = 200, rbody = JObj
     [(''success'', JBool True), (''data'', JArr items),
      (''pagination'', JObj [(''limit'', JNum l), (''offset'', JNum n)])]\<rparr>"

text \<open>The GET routes have no gate: \<open>includeInternal\<close> is a query parameter of the caller.\<close>

definition wallet_comms_route ::
  "string \<Rightarrow> string option \<Rightarrow> string option \<Rightarrow> string option \<Rightarrow> comm_store db \<Rightarrow> response \<times> comm_store db" where
  "wallet_comms_route w qinc qlimit qoffset = or_failed ''communication_fetch_failed'' ''Failed to fetch communications''
     (op_bind (sql_integer (number_min (query_number qlimit 50) 500)) (\<lambda>l.
      op_bind (sql_integer (query_number qoffset 0)) (\<lambda>n.
      op_bind (get_communications_by_wallet w (qinc = Some ''true'') l n) (\<lambda>items.
      op_bind (count_communications w (qinc = Some ''true'')) (\<lambda>tot.
      op_return (page_response (map stored_comm_json items) tot l n))))))"

definition contract_comms_route ::
  "string \<Rightarrow> string option \<Rightarrow> string option \<Rightarrow> string option \<Rightarrow> comm_store db \<Rightarrow> response \<times> comm_store db" where
  "contract_comms_route c qinc qlimit qoffset = or_failed ''communication_fetch_failed'' ''Failed to fetch communications''
     (op_bind (sql_integer (number_min (query_number qlimit 50) 500)) (\<lambda>l.
      op_bind (sql_integer (query_number qoffset 0)) (\<lambda>n.
      op_bind (get_communications_by_contract c (qinc = Some ''true'') l n) (\<lambda>items.
      op_return (unpaged_response (map stored_comm_json items) l n)))))"

definition timeline_route ::
  "string \<Rightarrow> string option \<Rightarrow> string option \<Rightarrow> string option \<Rightarrow> comm_store db \<Rightarrow> response \<times> comm_store db" where
  "timeline_route w qinc qlimit qoffset = or_failed ''timeline_fetch_failed'' ''Failed to fetch timeline''
     (op_bind (sql_integer (number_min (query_number qlimit 100) 500)) (\<lambda>l.
      op_bind (sql_integer (query_number qoffset 0)) (\<lambda>n.
      op_bind (get_communication_timeline w (qinc = Some ''true'') l n) (\<lambda>items.
      op_return (unpaged_response (map stored_comm_json items) l n)))))"

definition body_number :: "string \<Rightarrow> js_value \<Rightarrow> int \<Rightarrow> js_number" where
  "body_number k b d = (case field k b of VNum n \<Rightarrow> if n = Finite 0 then Finite (of_int d) else n | _ \<Rightarrow> Finite (of_int d))"

definition search_comms :: "js_value \<Rightarrow> comm_store db \<Rightarrow> response \<times> comm_store db" where
  "search_comms b = or_failed ''communication_search_failed'' ''Failed to search communications''
     (op_bind (sql_integer (body_number ''limit'' b 50)) (\<lambda>l.
      op_bind (sql_integer (body_number ''offset'' b 0)) (\<lambda>n.
      op_bind (search_communications (text_field ''query'' b) (field ''includeInternal'' b = VBool True) l n) (\<lambda>items.
      op_return (unpaged_response (map stored_comm_json items) l n)))))"

definition search_comms_route ::
  "(string \<Rightarrow> string) \<Rightarrow> (js_value \<Rightarrow> (string \<times> string) list) \<Rightarrow> string option \<Rightarrow> rbac_tables \<Rightarrow> caller \<Rightarrow> js_value
    \<Rightarrow> int \<Rightarrow> comm_store db \<Rightarrow> response \<times> comm_store db" where
  "search_comms_route sha issues configured t q b now =
     gated (caller_passes sha configured ''operator'' t now q) (validated search_schema issues search_comms b)"

definition post_internal_note :: "int \<Rightarrow> js_value \<Rightarrow> comm_store db \<Rightarrow> response \<times> comm_store db" where
  "post_internal_note now b = or_failed ''internal_note_failed'' ''Failed to add internal note''
     (op_bind (add_internal_note (text_field ''walletAddress'' b) (str_of (field ''contractId'' b)) (text_field ''body'' b)
        (str_of (field ''createdBy'' b)) now) (\<lambda>x. op_return (data_response 201 (new_comm_json x))))"

definition internal_note_route ::
  "(string \<Rightarrow> string) \<Rightarrow> (js_value \<Rightarrow> (string \<times> string) list) \<Rightarrow> string option \<Rightarrow> rbac_tables \<Rightarrow> caller \<Rightarrow> js_value
    \<Rightarrow> int \<Rightarrow> comm_store db \<Rightarrow> response \<times> comm_store db" where
  "internal_note_route sha issues configured t q b now =
     gated (caller_passes sha configured ''admin'' t now q) (validated internal_note_schema issues (post_internal_note now) b)"

section \<open>Searching\<close>

definition plain_query :: "string \<Rightarrow> bool" where
  "plain_query q \<longleftrightarrow> (\<forall>c \<in> set q. c \<noteq> CHR ''%'' \<and> c \<noteq> CHR ''_'')"

lemma like_any: "sql_like ''%'' s"
  by (induction s) auto

lemma like_nil: "sql_like [] s \<longleftrightarrow> s = []"
  by simp

lemma like_char: "c \<noteq> CHR ''%'' \<Longrightarrow> c \<noteq> CHR ''_'' \<Longrightarrow>
    sql_like (c # p) s \<longleftrightarrow> (case s of [] \<Rightarrow> False | d # t \<Rightarrow> lower_char c = lower_char d \<and> sql_like p t)"
  by (simp split: list.split)

lemma like_one: "sql_like (CHR ''_'' # p) s \<longleftrightarrow> (case s of [] \<Rightarrow> False | d # t \<Rightarrow> sql_like p t)"
  by (simp split: list.split)

lemma like_unfold: "sql_like (CHR ''%'' # p) s \<longleftrightarrow> sql_like p s \<or> (\<exists>c t. s = c # t \<and> sql_like (CHR ''%'' # p) t)"
  by (cases s) auto

declare sql_like.simps [simp del]

lemma like_prefix: "plain_query q \<Longrightarrow> sql_like (q @ ''%'') s \<longleftrightarrow> prefix (to_lower q) (to_lower s)"
proof (induction q arbitrary: s)
  case Nil
  then show ?case using like_any by (simp add: to_lower_def)
next
  case (Cons c q)
  then have "c \<noteq> CHR ''%''" "c \<noteq> CHR ''_''" "plain_query q" by (simp_all add: plain_query_def)
  then show ?case using Cons.IH by (cases s) (auto simp: like_char to_lower_def)
qed

text \<open>Without wildcards in the term, \<open>LIKE '%term%'\<close> looks for a substring without regard to case.\<close>

lemma like_substring: "plain_query q \<Longrightarrow> sql_like (''%'' @ q @ ''%'') s \<longleftrightarrow> str_includes (to_lower s) (to_lower q)"
proof (induction s)
  case Nil
  then show ?case using like_unfold [of "q @ ''%''" "[]"] like_prefix [of q "[]"] by (simp add: to_lower_def)
next
  case (Cons c s)
  then show ?case using like_unfold [of "q @ ''%''" "c # s"] like_prefix [of q "c # s"] by (simp add: to_lower_def)
qed

definition mentions :: "string \<Rightarrow> comm_row \<Rightarrow> bool" where
  "mentions q r \<longleftrightarrow> list_ex (\<lambda>s. str_includes (to_lower s) (to_lower q))
     (cm_body r # cm_wallet r # (case cm_subject r of None \<Rightarrow> [] | Some s \<Rightarrow> [s])
        @ (case cm_reference r of None \<Rightarrow> [] | Some s \<Rightarrow> [s]))"

lemma search_is_mentions: "plain_query q \<Longrightarrow> search_matches q inc x \<longleftrightarrow> mentions q (snd x) \<and> visible inc (snd x)"
  using like_substring [of q]
  by (auto simp: search_matches_def mentions_def like_opt_def Let_def split: option.splits)

text \<open>
  A search for a term without wildcards finds exactly the visible communications that mention it in the
  body, the subject, the wallet or the reference, newest first.
\<close>

theorem search_finds_mentions:
  assumes "ct_comms (tables d) = Some s" and "plain_query q"
  shows "search_communications q inc l n d =
    (Inr (limit_offset l n (latest_first (filter (\<lambda>x. mentions q (snd x) \<and> visible inc (snd x)) (trows s)))), d)"
proof -
  have "t_select (search_matches q inc) s = filter (\<lambda>x. mentions q (snd x) \<and> visible inc (snd x)) (trows s)"
    unfolding t_select_def by (rule filter_cong [OF refl]) (rule search_is_mentions [OF assms(2)])
  then show ?thesis using assms(1) by (simp add: search_communications_def comm_query_def)
qed

text \<open>A wildcard in the term is not escaped: an underscore alone finds every communication.\<close>

lemma underscore_finds_all: "sql_like ''%_%'' s \<longleftrightarrow> s \<noteq> []"
proof (cases s)
  case Nil
  then show ?thesis using like_unfold [of "''_%''" "[]"] like_one [of "''%''" "[]"] by simp
next
  case (Cons c t)
  then show ?thesis using like_unfold [of "''_%''" s] like_one [of "''%''" s] like_any by simp
qed

section \<open>Internal notes\<close>

lemma internal_hidden_by_default:
  "x \<in> set (t_select (by_wallet w False) s) \<Longrightarrow> \<not> cm_internal (snd x)"
  by (simp add: t_select_def by_wallet_def visible_def)

lemma record_communication_state:
  assumes "ct_comms (tables d) = Some s" "cm_type r \<in> set comm_types" "cm_direction r \<in> set comm_directions"
    and "cm_status r \<in> set comm_statuses"
  shows "tables (snd (record_communication r now d)) =
    (tables d)\<lparr>ct_comms := Some (snd (t_insert (r\<lparr>cm_created := to_iso now\<rparr>) s))\<rparr>"
  using assms by (cases "counting d")
    (simp_all add: record_communication_def comm_insert_def op_simps Let_def count_write_ok count_write_fails)

lemma or_failed_state: "snd (or_failed code m f d) = snd (f d)"
  by (simp add: or_failed_def split: prod.split sum.split)

lemma bind_return_state: "snd (op_bind m (\<lambda>x. op_return (f x)) d) = snd (m d)"
  by (simp add: op_bind_def op_return_def split: prod.split sum.split)

lemma post_internal_note_state:
  assumes "ct_comms (tables d) = Some s"
  shows "tables (snd (post_internal_note now b d)) = (tables d)\<lparr>ct_comms := Some (snd (t_insert
    ((internal_note (text_field ''walletAddress'' b) (str_of (field ''contractId'' b)) (text_field ''body'' b)
        (str_of (field ''createdBy'' b)))\<lparr>cm_created := to_iso now\<rparr>) s))\<rparr>"
proof -
  show ?thesis using record_communication_state [OF assms, of "internal_note (text_field ''walletAddress'' b)
      (str_of (field ''contractId'' b)) (text_field ''body'' b) (str_of (field ''createdBy'' b))"]
    by (simp add: post_internal_note_def or_failed_state bind_return_state add_internal_note_def internal_note_def comm_types_def
        comm_directions_def comm_statuses_def)
qed

lemma wallet_route_default:
  assumes "ct_comms (tables d) = Some s" "t_count (by_wallet w inc) s \<le> 50"
  shows "fst (wallet_comms_route w (if inc then Some ''true'' else None) None None d) =
    page_response (map stored_comm_json (latest_first (t_select (by_wallet w inc) s))) (t_count (by_wallet w inc) s) 50 0"
proof -
  have "limit_offset 50 0 (latest_first (t_select (by_wallet w inc) s)) = latest_first (t_select (by_wallet w inc) s)"
    using assms(2) by (simp add: limit_offset_def t_count_def latest_first_def t_select_def)
  then show ?thesis using assms(1)
    by (cases inc) (simp_all add: wallet_comms_route_def query_number_def number_min_def sql_integer_def is_integer_def op_simps or_failed_def
        get_communications_by_wallet_def count_communications_def comm_query_def)
qed

text \<open>C27: 
  Internal notes are for admins only to write, but anyone reads them: a request without credentials that
  sets \<open>includeInternal=true\<close> gets the note an admin has just added.
\<close>

theorem internal_notes_public:
  assumes "ct_comms (tables d) = Some s" and "t_count (by_wallet w True) s < 50"
    and "caller_passes sha configured ''admin'' t now q = Next ()"
    and "validate internal_note_schema issues b = Next p" and "w = text_field ''walletAddress'' p"
    and "note = (Suc (tseq s), (internal_note w (str_of (field ''contractId'' p)) (text_field ''body'' p)
            (str_of (field ''createdBy'' p)))\<lparr>cm_created := to_iso now\<rparr>)"
  shows "\<exists>items. fst (wallet_comms_route w (Some ''true'') None None
        (snd (internal_note_route sha issues configured t q b now d))) =
      page_response (map stored_comm_json items) (length items) 50 0 \<and> note \<in> set items"
proof -
  let ?s = "snd (t_insert (snd note) s)"
  have s: "ct_comms (tables (snd (internal_note_route sha issues configured t q b now d))) = Some ?s"
    using post_internal_note_state [OF assms(1), of now p] assms(3-6)
    by (simp add: internal_note_route_def gated_def validated_def)
  have hit: "by_wallet w True note" using assms(6) by (simp add: by_wallet_def visible_def internal_note_def)
  have sel: "t_select (by_wallet w True) ?s = t_select (by_wallet w True) s @ [note]"
    using hit assms(6) by (simp add: t_select_def t_insert_def)
  then have "t_count (by_wallet w True) ?s = Suc (t_count (by_wallet w True) s)"
    by (simp add: t_count_def t_select_def)
  then have "fst (wallet_comms_route w (Some ''true'') None None (snd (internal_note_route sha issues configured t q b now d))) =
      page_response (map stored_comm_json (latest_first (t_select (by_wallet w True) ?s))) (t_count (by_wallet w True) ?s) 50 0"
    using wallet_route_default [OF s, of w True] assms(2) by simp
  moreover have "note \<in> set (latest_first (t_select (by_wallet w True) ?s))" by (simp add: latest_first_def sel)
  moreover have "t_count (by_wallet w True) ?s = length (latest_first (t_select (by_wallet w True) ?s))"
    by (simp add: t_count_def t_select_def latest_first_def)
  ultimately show ?thesis by metis
qed

section \<open>Concrete runs\<close>

definition demo_comms :: comm_store where
  "demo_comms = \<lparr>ct_ledger = empty_ledger, ct_comms = Some (snd (t_insert
     ((internal_note (CHR ''G'' # replicate 55 (CHR ''A'')) None ''Late KYC'' None)\<lparr>cm_created := to_iso 0\<rparr>) t_empty))\<rparr>"

definition demo_admin :: caller where
  "demo_admin = \<lparr>cl_authorization = Some ''Bearer secret'', cl_api_key = None\<rparr>"

lemma demo_comms_table: "ct_comms (tables (core_connection demo_comms)) = Some (the (ct_comms demo_comms))"
  by (simp add: demo_comms_def)

theorem search_finds_mentions_witness:
  "\<exists>x. fst (search_communications ''kyc'' True 50 0 (core_connection demo_comms)) = Inr [x] \<and> cm_body (snd x) = ''Late KYC''"
proof -
  have "str_includes (to_lower ''Late KYC'') (to_lower ''kyc'')" by code_simp
  then have hit: "mentions ''kyc'' (snd x)" if "x \<in> set (trows (the (ct_comms demo_comms)))" for x
    using that by (auto simp: demo_comms_def t_insert_def t_empty_def mentions_def internal_note_def)
  show ?thesis
    using search_finds_mentions [OF demo_comms_table, of "''kyc''" True 50 0] hit
    by (simp add: plain_query_def demo_comms_def t_insert_def t_empty_def internal_note_def visible_def
        limit_offset_def latest_first_def order_desc_def)
qed

theorem internal_notes_public_witness:
  "\<exists>items. fst (wallet_comms_route (CHR ''G'' # replicate 55 (CHR ''A'')) (Some ''true'') None None
        (snd (internal_note_route id (\<lambda>_. []) (Some ''secret'') demo_rbac demo_admin
           (VObj [(''walletAddress'', VStr (CHR ''G'' # replicate 55 (CHR ''A''))), (''body'', VStr ''Fraud?'')]) 5
           (core_connection demo_comms)))) = page_response (map stored_comm_json items) (length items) 50 0
     \<and> ''Fraud?'' \<in> (\<lambda>x. cm_body (snd x)) ` set items"
proof -
  let ?w = "CHR ''G'' # replicate 55 (CHR ''A'')"
  let ?b = "VObj [(''walletAddress'', VStr ?w), (''body'', VStr ''Fraud?'')]"
  have gate: "caller_passes id (Some ''secret'') ''admin'' demo_rbac 5 demo_admin = Next ()"
  proof -
    have "trim (drop 7 ''Bearer secret'') = ''secret''" "starts_with ''Bearer secret'' ''Bearer ''" by code_simp+
    then show ?thesis by (simp add: caller_passes_def demo_admin_def require_admin_bearer_or_role_def)
  qed
  have "account_regex ?w" by (simp add: account_regex_def strkey_shape_def base32_char_def is_upper_def list_all_iff)
  then have valid: "validate internal_note_schema (\<lambda>_. []) ?b = Next ?b"
    by (simp add: validate_def internal_note_schema_def z_object_def z_string_def text_between_def z_optional_def prop_of_def)
  have w: "?w = text_field ''walletAddress'' ?b" by (simp add: text_field_def field_def prop_of_def str_of_def)
  have few: "t_count (by_wallet ?w True) (the (ct_comms demo_comms)) < 50"
    by (simp add: t_count_def demo_comms_def t_insert_def t_empty_def)
  show ?thesis
    using internal_notes_public [OF demo_comms_table few gate valid w refl]
    by (force simp: internal_note_def text_field_def field_def prop_of_def str_of_def)
qed

end
