(* ===== verification/HealthMonitor.thy ===== *)
theory HealthMonitor
  imports Pool JsDate JsDouble
begin

text \<open>
  \<open>src/backend/src/database/health-monitor.js\<close> on top of the connection pool.  A check that has to wait for
  a connection, a reconnection that sleeps out its backoff and a drain that waits for the pool to be idle
  are tasks of the state; \<open>health_step\<close> interleaves them with the other users of the pool.  Environment
  variables are the record \<open>health_env\<close>; alerts and logging are left out.
\<close>

section \<open>The state\<close>

record health_env =
  he_backoff_base :: nat
  he_backoff_max :: nat

record health_metrics =
  hm_last_check_at :: "string option"
  hm_last_duration :: "int option"
  hm_last_healthy :: bool
  hm_failures :: nat
  hm_checks :: nat
  hm_total_failures :: nat
  hm_attempted :: nat
  hm_succeeded :: nat
  hm_failed :: nat
  hm_utilization :: rat

definition fresh_metrics :: health_metrics where
  "fresh_metrics = \<lparr>hm_last_check_at = None, hm_last_duration = None, hm_last_healthy = True, hm_failures = 0,
     hm_checks = 0, hm_total_failures = 0, hm_attempted = 0, hm_succeeded = 0, hm_failed = 0, hm_utilization = 0\<rparr>"

text \<open>
  Who awaits a check: the timer (\<open>_runCheck\<close>), a route, a reconnection, or nobody, when the synchronous
  check drops the promise of its probe.
\<close>

datatype awaiter = Timed | Asked | Recheck | Dropped

record health =
  hp_pool :: pool
  hp_metrics :: health_metrics
  hp_probes :: "(awaiter \<times> nat \<times> int) list"
  hp_sleeping :: "int list"
  hp_draining :: nat
  hp_running :: bool
  hp_timer :: bool

section \<open>A check\<close>

definition pool_utilization :: "pool \<Rightarrow> rat" where
  "pool_utilization p = (if 0 < pl_size p then to_double (of_int (pl_active p) / of_nat (pl_size p)) else 0)"

definition timeout_rate :: "pool \<Rightarrow> rat" where
  "timeout_rate p = to_double (of_nat (pl_timeouts p) / of_nat (pl_acquires p))"

definition percent :: "rat \<Rightarrow> int" where
  "percent x = \<lfloor>to_double (x * 100) + 1 / 2\<rfloor>"

definition timeout_pressure :: "pool \<Rightarrow> bool" where
  "timeout_pressure p \<longleftrightarrow> 0 < pl_timeouts p \<and> 0 < pl_acquires p \<and> to_double (1 / 10) < timeout_rate p"

definition pool_problem :: "pool \<Rightarrow> string option" where
  "pool_problem p =
     (if timeout_pressure p then Some (''High timeout rate: '' @ int_str (percent (timeout_rate p)) @ ''%'')
      else if pl_draining p then Some ''Pool is draining'' else None)"

definition count_check :: "int \<Rightarrow> health \<Rightarrow> health" where
  "count_check now h = h\<lparr>hp_metrics := (hp_metrics h)\<lparr>hm_checks := hm_checks (hp_metrics h) + 1,
     hm_last_check_at := Some (to_iso now), hm_utilization := pool_utilization (hp_pool h)\<rparr>\<rparr>"

definition record_result :: "bool \<Rightarrow> int \<Rightarrow> health_metrics \<Rightarrow> health_metrics" where
  "record_result up ms m =
     (let m' = m\<lparr>hm_last_duration := Some ms, hm_last_healthy := up\<rparr>
      in if up then m'\<lparr>hm_failures := 0\<rparr>
         else m'\<lparr>hm_failures := hm_failures m' + 1, hm_total_failures := hm_total_failures m' + 1\<rparr>)"

text \<open>\<open>Math.min(RECONNECT_BACKOFF_BASE_MS * 2 ** (attempt - 1), RECONNECT_BACKOFF_MAX_MS)\<close>\<close>

definition reconnect_backoff :: "health_env \<Rightarrow> nat \<Rightarrow> nat" where
  "reconnect_backoff env attempt = min (he_backoff_base env * 2 ^ (attempt - 1)) (he_backoff_max env)"

definition begin_reconnection :: "health_env \<Rightarrow> int \<Rightarrow> health \<Rightarrow> health" where
  "begin_reconnection env now h =
     (let n = hm_attempted (hp_metrics h) + 1
      in h\<lparr>hp_metrics := (hp_metrics h)\<lparr>hm_attempted := n\<rparr>,
           hp_sleeping := hp_sleeping h @ [now + int (reconnect_backoff env n)]\<rparr>)"

text \<open>What the one who awaits a check does with its result.\<close>

fun react :: "health_env \<Rightarrow> awaiter \<Rightarrow> bool \<Rightarrow> int \<Rightarrow> health \<Rightarrow> health" where
  "react env Timed up now h =
     (if \<not> up \<and> 3 \<le> hm_failures (hp_metrics h) then begin_reconnection env now h else h)"
| "react env Recheck up now h =
     (if up then h\<lparr>hp_metrics := (hp_metrics h)\<lparr>hm_succeeded := hm_succeeded (hp_metrics h) + 1\<rparr>\<rparr>
      else h\<lparr>hp_metrics := (hp_metrics h)\<lparr>hm_failed := hm_failed (hp_metrics h) + 1\<rparr>\<rparr>)"
| "react env Asked up now h = h"
| "react env Dropped up now h = h"

definition finish_check :: "health_env \<Rightarrow> awaiter \<Rightarrow> bool \<Rightarrow> int \<Rightarrow> int \<Rightarrow> health \<Rightarrow> health" where
  "finish_check env k up start now h =
     react env k up now (h\<lparr>hp_metrics := record_result up (now - start) (hp_metrics h)\<rparr>)"

text \<open>\<open>checkConnectionHealthAsync\<close> up to its first wait.\<close>

definition begin_check :: "health_env \<Rightarrow> awaiter \<Rightarrow> int \<Rightarrow> health \<Rightarrow> health" where
  "begin_check env k now h0 =
     (let h = count_check now h0 in
      if pool_problem (hp_pool h) \<noteq> None then finish_check env k False now now h
      else h\<lparr>hp_pool := pool_acquire now (hp_pool h), hp_probes := hp_probes h @ [(k, pl_next (hp_pool h), now)]\<rparr>)"

text \<open>
  The probe runs on the connection it got and gives it back; a closed connection throws.  A dropped
  probe only gives its connection back.
\<close>

definition end_probe ::
  "health_env \<Rightarrow> awaiter \<times> nat \<times> int \<Rightarrow> nat \<Rightarrow> bool \<Rightarrow> int \<Rightarrow> health \<Rightarrow> health" where
  "end_probe env t c answer now h =
     (case t of (k, i, start) \<Rightarrow>
        let h' = h\<lparr>hp_pool := return_connection (i, c) now (hp_pool h), hp_probes := remove1 t (hp_probes h)\<rparr>;
            up = (answer \<and> \<not> pl_closed (hp_pool h))
        in if k = Dropped then h' else finish_check env k up start now h')"

definition probe_timeout :: "health_env \<Rightarrow> awaiter \<times> nat \<times> int \<Rightarrow> int \<Rightarrow> health \<Rightarrow> health" where
  "probe_timeout env t now h =
     (case t of (k, i, start) \<Rightarrow>
        let h' = h\<lparr>hp_pool := pool_timeout i (hp_pool h), hp_probes := remove1 t (hp_probes h)\<rparr>
        in if k = Dropped then h' else finish_check env k False start now h')"

text \<open>\<open>checkConnectionHealth\<close>: the result is read before the promise of the probe can settle.\<close>

definition check_connection_health :: "int \<Rightarrow> health \<Rightarrow> bool \<times> health" where
  "check_connection_health now h0 =
     (let h = count_check now h0; up = (pool_problem (hp_pool h) = None);
          h' = (if up then h\<lparr>hp_pool := pool_acquire now (hp_pool h),
                    hp_probes := hp_probes h @ [(Dropped, pl_next (hp_pool h), now)]\<rparr> else h)
      in (up, h'\<lparr>hp_metrics := record_result up 0 (hp_metrics h')\<rparr>))"

section \<open>Reconnection and the timer\<close>

text \<open>After the backoff the pool is drained; when it is idle its connections are closed and a check runs.\<close>

definition wake_reconnection :: "int \<Rightarrow> health \<Rightarrow> health" where
  "wake_reconnection t h = h\<lparr>hp_sleeping := remove1 t (hp_sleeping h), hp_pool := pool_drain (hp_pool h),
     hp_draining := hp_draining h + 1\<rparr>"

definition finish_drain :: "health_env \<Rightarrow> int \<Rightarrow> health \<Rightarrow> health" where
  "finish_drain env now h =
     begin_check env Recheck now (h\<lparr>hp_pool := drain_check (hp_pool h), hp_draining := hp_draining h - 1\<rparr>)"

definition start_health_monitor :: "health_env \<Rightarrow> int \<Rightarrow> health \<Rightarrow> health" where
  "start_health_monitor env now h =
     (if hp_running h then h else (begin_check env Timed now (h\<lparr>hp_running := True\<rparr>))\<lparr>hp_timer := True\<rparr>)"

definition stop_health_monitor :: "health \<Rightarrow> health" where
  "stop_health_monitor h = (if \<not> hp_running h then h else h\<lparr>hp_timer := False, hp_running := False\<rparr>)"

definition get_health_status :: "health \<Rightarrow> health_metrics \<times> bool" where
  "get_health_status h = (hp_metrics h, hp_running h)"

definition get_health_metrics :: "health \<Rightarrow> (string \<times> int) list" where
  "get_health_metrics h =
     (let m = hp_metrics h in
      [(''connectionHealthLastCheckDurationMs'', case hm_last_duration m of None \<Rightarrow> 0 | Some d \<Rightarrow> d),
       (''connectionHealthConsecutiveFailures'', int (hm_failures m)),
       (''connectionHealthTotalChecks'', int (hm_checks m)), (''connectionHealthTotalFailures'', int (hm_total_failures m)),
       (''connectionHealthReconnectionsAttempted'', int (hm_attempted m)),
       (''connectionHealthReconnectionsSucceeded'', int (hm_succeeded m)),
       (''connectionHealthReconnectionsFailed'', int (hm_failed m)),
       (''connectionHealthPoolUtilization'', percent (hm_utilization m))])"

definition reset_health_monitor_state :: "health \<Rightarrow> health" where
  "reset_health_monitor_state h = stop_health_monitor (h\<lparr>hp_metrics := fresh_metrics\<rparr>)"

text \<open>The events of the runtime: the timer, a route, another user of the pool, and the tasks.\<close>

inductive health_step :: "health_env \<Rightarrow> health \<Rightarrow> health \<Rightarrow> bool" for env where
  hs_start: "health_step env h (start_health_monitor env now h)"
| hs_stop: "health_step env h (stop_health_monitor h)"
| hs_timer: "hp_timer h \<Longrightarrow> health_step env h (begin_check env Timed now h)"
| hs_route: "health_step env h (begin_check env Asked now h)"
| hs_sync: "health_step env h (snd (check_connection_health now h))"
| hs_reconnect: "health_step env h (begin_reconnection env now h)"
| hs_probe: "t \<in> set (hp_probes h) \<Longrightarrow> (fst (snd t), c) \<in> set (pl_held (hp_pool h)) \<Longrightarrow>
    health_step env h (end_probe env t c answer now h)"
| hs_timeout: "t \<in> set (hp_probes h) \<Longrightarrow> fst (snd t) \<in> set (pl_timers (hp_pool h)) \<Longrightarrow>
    health_step env h (probe_timeout env t now h)"
| hs_wake: "t \<in> set (hp_sleeping h) \<Longrightarrow> health_step env h (wake_reconnection t h)"
| hs_drained: "0 < hp_draining h \<Longrightarrow> pl_active (hp_pool h) = 0 \<Longrightarrow> health_step env h (finish_drain env now h)"
| hs_other: "pool_step (hp_pool h) p \<Longrightarrow> health_step env h (h\<lparr>hp_pool := p\<rparr>)"

definition health_init :: "nat \<Rightarrow> health" where
  "health_init n = \<lparr>hp_pool = pool_init n, hp_metrics = fresh_metrics, hp_probes = [], hp_sleeping = [],
     hp_draining = 0, hp_running = False, hp_timer = False\<rparr>"

inductive health_reach :: "health_env \<Rightarrow> nat \<Rightarrow> health \<Rightarrow> bool" for env n where
  hr_start: "health_reach env n (health_init n)"
| hr_step: "health_reach env n h \<Longrightarrow> health_step env h h' \<Longrightarrow> health_reach env n h'"

section \<open>Reconnection\<close>

lemma draining_stays: "pool_step p p' \<Longrightarrow> pl_draining p \<Longrightarrow> pl_draining p'"
  by (induction rule: pool_step.induct)
    (auto simp: pool_acquire_def pool_timeout_def return_connection_def pool_release_def call_waiter_def
      resolve_promise_def pool_drain_def drain_check_def Let_def split: list.splits resolver.splits)

lemma pool_fields [simp]:
  "pl_draining (pool_acquire now p) = pl_draining p" "pl_draining (pool_timeout i p) = pl_draining p"
  "pl_draining (return_connection x now p) = pl_draining p" "pl_draining (drain_check p) = pl_draining p"
  "pl_draining (pool_drain p)"
  by (auto simp: pool_acquire_def pool_timeout_def return_connection_def pool_release_def call_waiter_def
      resolve_promise_def pool_drain_def drain_check_def Let_def split: list.splits resolver.splits)

text \<open>
  While the pool drains no check succeeds, a reconnection only checks while the pool drains, and so no
  probe is ever made for one.
\<close>

definition no_reconnection :: "health \<Rightarrow> bool" where
  "no_reconnection h \<longleftrightarrow> hm_succeeded (hp_metrics h) = 0 \<and> (0 < hp_draining h \<longrightarrow> pl_draining (hp_pool h))
     \<and> Recheck \<notin> fst ` set (hp_probes h)"

lemma draining_problem: "pl_draining p \<Longrightarrow> pool_problem p \<noteq> None"
  by (simp add: pool_problem_def)

lemma record_result_fields [simp]:
  "hm_succeeded (record_result b ms m) = hm_succeeded m" "hm_attempted (record_result b ms m) = hm_attempted m"
  by (simp_all add: record_result_def Let_def)

lemma begin_reconnection_fields [simp]:
  "hp_pool (begin_reconnection env now h) = hp_pool h" "hp_probes (begin_reconnection env now h) = hp_probes h"
  "hp_draining (begin_reconnection env now h) = hp_draining h"
  "hm_succeeded (hp_metrics (begin_reconnection env now h)) = hm_succeeded (hp_metrics h)"
  by (simp_all add: begin_reconnection_def Let_def)

lemma react_frame [simp]:
  "hp_pool (react env k b now h) = hp_pool h" "hp_probes (react env k b now h) = hp_probes h"
  "hp_draining (react env k b now h) = hp_draining h"
  by (cases k; simp)+

lemma react_succeeded: "k \<noteq> Recheck \<or> \<not> b \<Longrightarrow>
    hm_succeeded (hp_metrics (react env k b now h)) = hm_succeeded (hp_metrics h)"
  by (cases k) auto

lemma finish_no_reconnection:
  "no_reconnection h \<Longrightarrow> k \<noteq> Recheck \<or> \<not> b \<Longrightarrow> no_reconnection (finish_check env k b start now h)"
  by (simp add: no_reconnection_def finish_check_def react_succeeded)

lemma count_check_frame [simp]:
  "hp_pool (count_check now h) = hp_pool h" "hp_probes (count_check now h) = hp_probes h"
  "hp_draining (count_check now h) = hp_draining h" "hm_succeeded (hp_metrics (count_check now h)) = hm_succeeded (hp_metrics h)"
  by (simp_all add: count_check_def)

lemma begin_no_reconnection:
  assumes "no_reconnection h" "k = Recheck \<longrightarrow> pl_draining (hp_pool h)"
  shows "no_reconnection (begin_check env k now h)"
proof (cases "pool_problem (hp_pool h) \<noteq> None")
  case True
  have "no_reconnection (count_check now h)" using assms(1) by (simp add: no_reconnection_def)
  then show ?thesis using True by (simp add: begin_check_def Let_def finish_no_reconnection)
next
  case False
  then have "k \<noteq> Recheck" using assms(2) draining_problem [of "hp_pool h"] by auto
  then show ?thesis using False assms(1) by (auto simp: begin_check_def Let_def no_reconnection_def)
qed

lemma probe_keeps_awaiters: "fst ` set (remove1 t xs) \<subseteq> fst ` set xs"
  by (meson image_mono set_remove1_subset)

lemma no_reconnection_step: "health_step env h h' \<Longrightarrow> no_reconnection h \<Longrightarrow> no_reconnection h'"
proof (induction rule: health_step.induct)
  case (hs_start h now)
  have "no_reconnection (begin_check env Timed now (h\<lparr>hp_running := True\<rparr>))"
    by (rule begin_no_reconnection) (use hs_start in \<open>simp_all add: no_reconnection_def\<close>)
  then show ?case using hs_start by (simp add: start_health_monitor_def) (simp add: no_reconnection_def)
next
  case (hs_probe t h c answer now)
  obtain k i start where t: "t = (k, i, start)" by (cases t)
  have k: "k \<noteq> Recheck" using hs_probe t by (force simp: no_reconnection_def)
  have "no_reconnection (h\<lparr>hp_pool := return_connection (i, c) now (hp_pool h), hp_probes := remove1 t (hp_probes h)\<rparr>)"
    using hs_probe.prems probe_keeps_awaiters [of t "hp_probes h"] by (auto simp: no_reconnection_def)
  then show ?case using k by (cases "k = Dropped") (simp_all add: end_probe_def t Let_def finish_no_reconnection)
next
  case (hs_timeout t h now)
  obtain k i start where t: "t = (k, i, start)" by (cases t)
  have "no_reconnection (h\<lparr>hp_pool := pool_timeout i (hp_pool h), hp_probes := remove1 t (hp_probes h)\<rparr>)"
    using hs_timeout.prems probe_keeps_awaiters [of t "hp_probes h"] by (auto simp: no_reconnection_def)
  then show ?case by (cases "k = Dropped") (simp_all add: probe_timeout_def t Let_def finish_no_reconnection)
next
  case (hs_drained h now)
  have "no_reconnection (h\<lparr>hp_pool := drain_check (hp_pool h), hp_draining := hp_draining h - 1\<rparr>)"
    using hs_drained by (auto simp: no_reconnection_def)
  moreover have "pl_draining (hp_pool h)" using hs_drained by (simp add: no_reconnection_def)
  ultimately show ?case unfolding finish_drain_def by (intro begin_no_reconnection) simp_all
next
  case (hs_other h p)
  then show ?case using draining_stays by (auto simp: no_reconnection_def)
next
  case (hs_timer h now)
  show ?case by (rule begin_no_reconnection) (use hs_timer in simp_all)
next
  case (hs_route h now)
  show ?case by (rule begin_no_reconnection) (use hs_route in simp_all)
qed (auto simp: stop_health_monitor_def check_connection_health_def Let_def wake_reconnection_def no_reconnection_def)

text \<open>C28: 
  A reconnection never succeeds: whatever happens, the check after its drain finds the pool draining.
\<close>

theorem reconnection_never_succeeds:
  assumes "health_reach env n h"
  shows "hm_succeeded (hp_metrics h) = 0"
proof -
  have "no_reconnection h" using assms
  proof (induction rule: health_reach.induct)
    case hr_start
    show ?case by (simp add: no_reconnection_def health_init_def fresh_metrics_def)
  qed (rule no_reconnection_step)
  then show ?thesis by (simp add: no_reconnection_def)
qed

section \<open>What a reconnection does instead\<close>

lemma problem_check:
  assumes "pool_problem (hp_pool h) \<noteq> None"
  shows "hp_pool (begin_check env k now h) = hp_pool h" "hp_probes (begin_check env k now h) = hp_probes h"
    and "hm_failures (hp_metrics (begin_check env k now h)) = hm_failures (hp_metrics h) + 1"
    and "\<not> hm_last_healthy (hp_metrics (begin_check env k now h))"
    and "hm_attempted (hp_metrics (begin_check env k now h)) =
      hm_attempted (hp_metrics h) + (if k = Timed \<and> 2 \<le> hm_failures (hp_metrics h) then 1 else 0)"
    and "hp_sleeping (begin_check env k now h) = hp_sleeping h @
      (if k = Timed \<and> 2 \<le> hm_failures (hp_metrics h)
       then [now + int (reconnect_backoff env (hm_attempted (hp_metrics h) + 1))] else [])"
    and "hp_draining (begin_check env k now h) = hp_draining h"
  using assms
  by (cases k; auto simp: begin_check_def finish_check_def count_check_def record_result_def begin_reconnection_def Let_def)+

text \<open>
  Draining is for ever: after a reconnection has drained the pool, every check reports failure and every
  request for a connection is refused, whatever happens in between.
\<close>

lemma drained_pool_is_lost:
  assumes "pl_draining (hp_pool h)" and "(health_step env)\<^sup>*\<^sup>* h h'"
  shows "\<not> hm_last_healthy (hp_metrics (begin_check env k now h'))
    \<and> pl_refused (pool_acquire now (hp_pool h')) = pl_next (hp_pool h') # pl_refused (hp_pool h')"
proof -
  have pool: "pl_draining (hp_pool (begin_check env k now h))" if "pl_draining (hp_pool h)" for h k now
    using that problem_check(1) [OF draining_problem] by simp
  have "pl_draining (hp_pool h'')" if "health_step env h h''" "pl_draining (hp_pool h)" for h h''
    using that
    by (induction rule: health_step.induct)
      (auto simp: start_health_monitor_def stop_health_monitor_def pool check_connection_health_def Let_def end_probe_def
        probe_timeout_def finish_check_def wake_reconnection_def finish_drain_def split: prod.split dest: draining_stays)
  with assms(2) assms(1) have "pl_draining (hp_pool h')" by (induction rule: rtranclp_induct) auto
  then show ?thesis using problem_check(4) [OF draining_problem] by (simp add: pool_acquire_def Let_def)
qed

section \<open>After a timeout\<close>

text \<open>
  A request that timed out stays in the queue or has swallowed a connection; in both cases some connection
  counts as active, and an armed timer belongs to a request in the queue.
\<close>

definition timed_out_mark :: "pool \<Rightarrow> bool" where
  "timed_out_mark p \<longleftrightarrow> (\<forall>i \<in> set (pl_timers p). Wrapper i \<in> set (pl_waiters p))
     \<and> (0 < pl_timeouts p \<longrightarrow> pl_lost p \<noteq> [] \<or> (\<exists>i \<in> set (pl_expired p). Wrapper i \<in> set (pl_waiters p)))"

lemma wrapper_stays: "Wrapper i \<in> set (remove_first (Inner j) ws) \<longleftrightarrow> Wrapper i \<in> set ws"
  by (induction ws) auto

lemma timed_out_mark_step: "pool_step p p' \<Longrightarrow> pool_inv n p \<Longrightarrow> timed_out_mark p \<Longrightarrow> timed_out_mark p'"
proof (induction rule: pool_step.induct)
  case (step_return h p now)
  show ?case
  proof (cases "pl_waiters p")
    case Nil
    then show ?thesis using step_return by (auto simp: timed_out_mark_def return_connection_def pool_release_def Let_def)
  next
    case (Cons w ws)
    then obtain i where i: "w = Wrapper i" using step_return by (auto simp: pool_inv_def)
    show ?thesis using step_return Cons i
      by (auto simp: timed_out_mark_def return_connection_def pool_release_def call_waiter_def resolve_promise_def Let_def)
  qed
qed (auto simp: timed_out_mark_def pool_acquire_def resolve_promise_def pool_timeout_def wrapper_stays pool_drain_def
    drain_check_def Let_def)

lemma reach_timed_out_mark: "pool_reach n p \<Longrightarrow> timed_out_mark p"
proof (induction rule: pool_reach.induct)
  case reach_start
  show ?case by (simp add: timed_out_mark_def pool_init_def)
next
  case (reach_step p p')
  then show ?case using timed_out_mark_step pool_reach_inv by blast
qed

lemma timed_out_active:
  assumes "pool_reach n p" "0 < pl_timeouts p" "0 < n"
  shows "0 < pl_active p"
proof -
  have inv: "pool_inv n p" by (rule pool_reach_inv [OF assms(1)])
  show ?thesis
  proof (cases "pl_lost p")
    case Nil
    then have "pl_waiters p \<noteq> []" using reach_timed_out_mark [OF assms(1)] assms(2) by (auto simp: timed_out_mark_def)
    then have "pl_available p = []" using inv by (simp add: pool_inv_def)
    then have "mset (map snd (pl_held p)) = mset [0..<n]" using inv Nil by (simp add: pool_inv_def)
    then have "length (pl_held p) = n" by (metis length_map length_upt minus_nat.diff_0 mset_eq_length)
    then show ?thesis using inv assms(3) by (simp add: pool_inv_def)
  next
    case (Cons c cs)
    then show ?thesis using inv by (simp add: pool_inv_def)
  qed
qed

lemma timeouts_stay: "pool_step p p' \<Longrightarrow> pl_timeouts p \<le> pl_timeouts p'"
  by (induction rule: pool_step.induct)
    (auto simp: pool_acquire_def pool_timeout_def return_connection_def pool_release_def call_waiter_def
      resolve_promise_def pool_drain_def drain_check_def Let_def split: list.splits resolver.splits)

text \<open>
  What a step of the monitor does to the pool: nothing, or a step of the pool.  Only the end of a drain
  closes it or completes a reconnection.
\<close>

definition same_outcome :: "health \<Rightarrow> health \<Rightarrow> bool" where
  "same_outcome h h' \<longleftrightarrow> pool_step\<^sup>=\<^sup>= (hp_pool h) (hp_pool h')
     \<and> (0 < pl_active (hp_pool h) \<longrightarrow> pl_closed (hp_pool h') = pl_closed (hp_pool h)
          \<and> hm_failed (hp_metrics h') = hm_failed (hp_metrics h))"

lemma same_outcome_frame:
  "hp_pool h' = hp_pool h \<Longrightarrow> hm_failed (hp_metrics h') = hm_failed (hp_metrics h) \<Longrightarrow> same_outcome h h'"
  by (simp add: same_outcome_def)

lemma react_failed: "k \<noteq> Recheck \<Longrightarrow> hm_failed (hp_metrics (react env k b now h)) = hm_failed (hp_metrics h)"
  by (cases k) (auto simp: begin_reconnection_def Let_def)

lemma finish_outcome [simp]:
  "hp_pool (finish_check env k b start now h) = hp_pool h"
  "k \<noteq> Recheck \<Longrightarrow> hm_failed (hp_metrics (finish_check env k b start now h)) = hm_failed (hp_metrics h)"
  by (simp_all add: finish_check_def react_failed record_result_def Let_def)

lemma count_check_failed [simp]: "hm_failed (hp_metrics (count_check now h)) = hm_failed (hp_metrics h)"
  by (simp add: count_check_def)

lemma acquire_closed: "pl_closed (pool_acquire now p) = pl_closed p"
  by (simp add: pool_acquire_def resolve_promise_def Let_def)

lemma begin_outcome: "k \<noteq> Recheck \<Longrightarrow> same_outcome h (begin_check env k now h)"
  by (auto simp: same_outcome_def begin_check_def Let_def acquire_closed intro: step_acquire)

lemma health_pool_step:
  assumes "health_step env h h'" "no_reconnection h"
  shows "same_outcome h h'"
  using assms
proof (induction rule: health_step.induct)
  case (hs_start h now)
  have "same_outcome (h\<lparr>hp_running := True\<rparr>) (begin_check env Timed now (h\<lparr>hp_running := True\<rparr>))" by (rule begin_outcome) simp
  then show ?case by (auto simp: start_health_monitor_def same_outcome_def)
next
  case (hs_probe t h c answer now)
  obtain k i start where t: "t = (k, i, start)" by (cases t)
  have "pool_step (hp_pool h) (return_connection (i, c) now (hp_pool h))" using hs_probe t by (intro step_return) simp
  moreover have "k \<noteq> Recheck" using hs_probe t by (force simp: no_reconnection_def)
  ultimately show ?case using lost_blocks_drain by (auto simp: same_outcome_def end_probe_def t Let_def)
next
  case (hs_timeout t h now)
  obtain k i start where t: "t = (k, i, start)" by (cases t)
  have "pool_step (hp_pool h) (pool_timeout i (hp_pool h))" using hs_timeout t by (intro step_timeout) simp
  moreover have "k \<noteq> Recheck" using hs_timeout t by (force simp: no_reconnection_def)
  ultimately show ?case using lost_blocks_drain by (auto simp: same_outcome_def probe_timeout_def t Let_def)
next
  case (hs_other h p)
  then show ?case using lost_blocks_drain by (auto simp: same_outcome_def)
next
  case (hs_sync h now)
  then show ?case by (auto simp: same_outcome_def check_connection_health_def Let_def record_result_def acquire_closed intro: step_acquire)
next
  case (hs_wake t h)
  have "pool_step (hp_pool h) (pool_drain (hp_pool h))" by (rule step_drain)
  then show ?case using lost_blocks_drain by (auto simp: same_outcome_def wake_reconnection_def)
next
  case (hs_drained h now)
  let ?h = "h\<lparr>hp_pool := drain_check (hp_pool h), hp_draining := hp_draining h - 1\<rparr>"
  have d: "pl_draining (hp_pool h)" using hs_drained by (simp add: no_reconnection_def)
  then have "hp_pool (begin_check env Recheck now ?h) = drain_check (hp_pool h)"
    using problem_check(1) [OF draining_problem, of ?h env Recheck now] by simp
  then show ?case using step_check [OF d] hs_drained.hyps(2) by (simp add: same_outcome_def finish_drain_def)
next
  case (hs_stop h)
  show ?case by (rule same_outcome_frame) (simp_all add: stop_health_monitor_def)
next
  case (hs_reconnect h now)
  show ?case by (rule same_outcome_frame) (simp_all add: begin_reconnection_def Let_def)
qed (simp_all add: begin_outcome)

definition health_ok :: "nat \<Rightarrow> health \<Rightarrow> bool" where
  "health_ok n h \<longleftrightarrow> pool_reach n (hp_pool h) \<and> no_reconnection h"

lemma health_ok_step: "health_step env h h' \<Longrightarrow> health_ok n h \<Longrightarrow> health_ok n h'"
  using health_pool_step no_reconnection_step by (fastforce simp: health_ok_def same_outcome_def intro: reach_step)

lemma reach_health_ok: "health_reach env n h \<Longrightarrow> health_ok n h"
proof (induction rule: health_reach.induct)
  case hr_start
  show ?case by (simp add: health_ok_def no_reconnection_def health_init_def fresh_metrics_def reach_start)
qed (rule health_ok_step)

text \<open>Once a request has timed out, no drain ever ends.\<close>

lemma drain_never_ends:
  assumes "(health_step env)\<^sup>*\<^sup>* h h'" "health_ok n h" "0 < n" "0 < pl_timeouts (hp_pool h)" "pl_draining (hp_pool h)"
  shows "health_ok n h' \<and> 0 < pl_timeouts (hp_pool h') \<and> pl_draining (hp_pool h')
    \<and> pl_closed (hp_pool h') = pl_closed (hp_pool h) \<and> hm_failed (hp_metrics h') = hm_failed (hp_metrics h)"
  using assms(1)
proof (induction rule: rtranclp_induct)
  case base
  then show ?case using assms(2-5) by simp
next
  case (step q r)
  then have q: "health_ok n q" "0 < pl_timeouts (hp_pool q)" "pl_draining (hp_pool q)" by simp_all
  have act: "0 < pl_active (hp_pool q)" using timed_out_active q(1,2) assms(3) by (auto simp: health_ok_def)
  have out: "same_outcome q r" using health_pool_step step.hyps(2) q(1) by (auto simp: health_ok_def)
  have "pl_timeouts (hp_pool q) \<le> pl_timeouts (hp_pool r) \<and> pl_draining (hp_pool r)"
    using out timeouts_stay draining_stays q(3) by (auto simp: same_outcome_def)
  then show ?case using q(2) act out health_ok_step [OF step.hyps(2) q(1)] step.IH by (auto simp: same_outcome_def)
qed

text \<open>C29: 
  A burst of timeouts takes the pool down for good.  With more than a tenth of the requests timed out, three
  timed checks in a row schedule a reconnection, though none of them touched a connection; once it has
  slept out its backoff, the pool refuses every request, while the drain waits for ever for the connection
  the timed-out request holds: the reconnection neither succeeds nor fails.
\<close>

theorem timeout_burst_kills_pool:
  assumes "health_reach env n h" and "0 < n" and "timeout_pressure (hp_pool h)" and "hm_failures (hp_metrics h) = 0"
    and "h3 = begin_check env Timed t3 (begin_check env Timed t2 (begin_check env Timed t1 h))"
    and "w = t3 + int (reconnect_backoff env (hm_attempted (hp_metrics h) + 1))"
    and "(health_step env)\<^sup>*\<^sup>* (wake_reconnection w h3) h'"
  shows "hp_sleeping h3 = hp_sleeping h @ [w] \<and> hp_pool h3 = hp_pool h
    \<and> pl_refused (pool_acquire now (hp_pool h')) = pl_next (hp_pool h') # pl_refused (hp_pool h')
    \<and> pl_closed (hp_pool h') = pl_closed (hp_pool h)
    \<and> hm_succeeded (hp_metrics h') = 0 \<and> hm_failed (hp_metrics h') = hm_failed (hp_metrics h)"
proof -
  define h1 where "h1 = begin_check env Timed t1 h"
  define h2 where "h2 = begin_check env Timed t2 h1"
  have h3: "h3 = begin_check env Timed t3 h2" using assms(5) by (simp add: h1_def h2_def)
  have p: "pool_problem (hp_pool h) \<noteq> None" using assms(3) by (simp add: pool_problem_def)
  note c1 = problem_check [OF p, of env Timed t1, folded h1_def]
  note c2 = problem_check [of h1 env Timed t2, folded h2_def, unfolded c1(1), OF p]
  note c3 = problem_check [of h2 env Timed t3, folded h3, unfolded c2(1), OF p]
  have ok: "health_ok n (wake_reconnection w h3)"
  proof -
    have "no_reconnection h3" unfolding h3 h2_def h1_def
      using reach_health_ok [OF assms(1)] by (simp add: begin_no_reconnection health_ok_def)
    moreover have "pool_reach n (pool_drain (hp_pool h))"
      using reach_health_ok [OF assms(1)] by (auto simp: health_ok_def intro: reach_step step_drain)
    ultimately show ?thesis by (simp add: health_ok_def no_reconnection_def wake_reconnection_def c3(1))
  qed
  have burst: "0 < pl_timeouts (hp_pool (wake_reconnection w h3))" "pl_draining (hp_pool (wake_reconnection w h3))"
    using assms(3) by (simp_all add: wake_reconnection_def c3(1) timeout_pressure_def pool_drain_def)
  have "hm_failed (hp_metrics (begin_check env Timed t x)) = hm_failed (hp_metrics x)" for t x
    using begin_outcome [of Timed x env t] by (cases "0 < pl_active (hp_pool x)")
      (auto simp: same_outcome_def begin_check_def Let_def)
  then have "hm_failed (hp_metrics (wake_reconnection w h3)) = hm_failed (hp_metrics h)"
    by (simp add: wake_reconnection_def h3 h2_def h1_def)
  then show ?thesis
    using drain_never_ends [OF assms(7) ok assms(2) burst] c1 c2 c3 assms(4,6)
    by (auto simp: health_ok_def no_reconnection_def pool_acquire_def Let_def wake_reconnection_def pool_drain_def)
qed

section \<open>Concrete runs\<close>

definition demo_health_env :: health_env where
  "demo_health_env = \<lparr>he_backoff_base = 1000, he_backoff_max = 30000\<rparr>"

definition reconnected :: health where
  "reconnected = finish_drain demo_health_env 1000 (wake_reconnection 1000 (begin_reconnection demo_health_env 0 (health_init 1)))"

lemma reconnected_reach: "health_reach demo_health_env 1 reconnected"
proof -
  have 1: "health_reach demo_health_env 1 (begin_reconnection demo_health_env 0 (health_init 1))"
    by (rule hr_step [OF hr_start hs_reconnect])
  have 2: "health_reach demo_health_env 1 (wake_reconnection 1000 (begin_reconnection demo_health_env 0 (health_init 1)))"
    by (rule hr_step [OF 1 hs_wake])
      (simp add: begin_reconnection_def Let_def health_init_def reconnect_backoff_def demo_health_env_def fresh_metrics_def)
  show ?thesis unfolding reconnected_def
    by (rule hr_step [OF 2 hs_drained]) (simp_all add: wake_reconnection_def pool_drain_def begin_reconnection_def Let_def
        health_init_def pool_init_def)
qed

theorem reconnection_never_succeeds_witness:
  "hm_succeeded (hp_metrics reconnected) = 0 \<and> hm_failed (hp_metrics reconnected) = 1"
proof -
  let ?w = "wake_reconnection 1000 (begin_reconnection demo_health_env 0 (health_init 1))"
  have "pool_problem (drain_check (hp_pool ?w)) \<noteq> None"
    using draining_problem by (simp add: wake_reconnection_def)
  then have "hm_failed (hp_metrics reconnected) = 1"
    by (auto simp: reconnected_def finish_drain_def begin_check_def finish_check_def count_check_def record_result_def Let_def
        wake_reconnection_def begin_reconnection_def health_init_def fresh_metrics_def)
  then show ?thesis using reconnection_never_succeeds [OF reconnected_reach] by simp
qed

text \<open>One connection, a request that holds it and one that timed out waiting.\<close>

definition burst :: health where
  "burst = (health_init 1)\<lparr>hp_pool := pool_timeout 1 busy_pool\<rparr>"

lemma burst_reach: "health_reach env 1 burst"
proof -
  let ?h = "health_init 1" and ?p = "pool_acquire 0 (pool_init 1)"
  have 1: "health_reach env 1 (?h\<lparr>hp_pool := ?p\<rparr>)"
    by (rule hr_step [OF hr_start hs_other]) (simp add: health_init_def step_acquire)
  have 2: "health_reach env 1 (?h\<lparr>hp_pool := busy_pool\<rparr>)"
    using hr_step [OF 1 hs_other [where p = busy_pool]] step_acquire [of ?p 0] by (simp add: busy_pool_def)
  show ?thesis
    using hr_step [OF 2 hs_other [where p = "pool_timeout 1 busy_pool"]] step_timeout [of 1 busy_pool]
    by (simp add: burst_def busy_pool_fields)
qed

lemma burst_pressure: "timeout_pressure (hp_pool burst)"
proof -
  have c: "pl_timeouts (hp_pool burst) = 1" "pl_acquires (hp_pool burst) = 2"
    by (simp_all add: burst_def pool_timeout_def busy_pool_def pool_acquire_def pool_init_def resolve_promise_def Let_def)
  have "\<bar>to_double (1 / 10) - 1 / 10\<bar> \<le> 1 / 10"
    by (rule order_trans [OF to_double_error]) simp_all
  then have "to_double (1 / 10) < to_double (1 / 2)"
    using to_double_dyadic [of 1 1] abs_le_D1 [of "to_double (1 / 10) - 1 / 10" "1 / 10"] by simp
  then show ?thesis by (simp add: timeout_pressure_def timeout_rate_def c)
qed

theorem timeout_burst_kills_pool_witness:
  "pl_refused (pool_acquire 7 (hp_pool (wake_reconnection 91000
      (begin_check demo_health_env Timed 90000 (begin_check demo_health_env Timed 60000 (begin_check demo_health_env Timed 30000 burst))))))
    = [2]"
proof -
  let ?h3 = "begin_check demo_health_env Timed 90000 (begin_check demo_health_env Timed 60000 (begin_check demo_health_env Timed 30000 burst))"
  have f: "hm_failures (hp_metrics burst) = 0" "hm_attempted (hp_metrics burst) = 0"
    by (simp_all add: burst_def health_init_def fresh_metrics_def)
  have w: "91000 = 90000 + int (reconnect_backoff demo_health_env (hm_attempted (hp_metrics burst) + 1))"
    by (simp add: reconnect_backoff_def demo_health_env_def f)
  have k: "hp_pool ?h3 = hp_pool burst"
    "pl_refused (pool_acquire 7 (hp_pool (wake_reconnection 91000 ?h3))) =
      pl_next (hp_pool (wake_reconnection 91000 ?h3)) # pl_refused (hp_pool (wake_reconnection 91000 ?h3))"
    using timeout_burst_kills_pool [OF burst_reach _ burst_pressure f(1) refl w rtranclp.rtrancl_refl,
      where ?t1.0 = 30000 and ?t2.0 = 60000 and now = 7] by simp_all
  show ?thesis using k
    by (simp add: wake_reconnection_def pool_drain_def burst_def pool_timeout_def busy_pool_def pool_acquire_def pool_init_def
        resolve_promise_def Let_def)
qed

end
