(* ===== verification/ContributorTax.thy ===== *)
theory ContributorTax
  imports Routes Rbac
begin

text \<open>
  Tax records of contributors: \<open>database/contributor-tax.js\<close> and \<open>routes/contributor-tax.js\<close> under
  \<open>src/backend/src\<close>.  The table is created nowhere in the repository; the model takes it as given, and the
  default of \<open>updated_at\<close> as \<open>None\<close>.  The fields of a body are strings or absent.  The upload itself is
  \<open>multer\<close>'s: a request carries the stored file or none; which files are on disk is a parameter.
\<close>

section \<open>database/contributor-tax.js\<close>

record tax_row =
  tr_wallet :: string
  tr_status :: "string option"
  tr_tax_id :: "string option"
  tr_path :: "string option"
  tr_name :: "string option"
  tr_updated :: "string option"

type_synonym tax_store = "tax_row table"

type_synonym 'a tax_op = "(tax_store, 'a) db_op"

definition of_wallet :: "string \<Rightarrow> nat \<times> tax_row \<Rightarrow> bool" where
  "of_wallet w x \<longleftrightarrow> tr_wallet (snd x) = w"

definition get_contributor_tax :: "string \<Rightarrow> (nat \<times> tax_row) option tax_op" where
  "get_contributor_tax w = op_read (t_get (of_wallet w))"

record tax_data =
  td_wallet :: string
  td_status :: string
  td_tax_id :: "string option"
  td_path :: "string option"
  td_name :: "string option"

definition tax_update :: "tax_data \<Rightarrow> int \<Rightarrow> tax_row \<Rightarrow> tax_row" where
  "tax_update a now r = r\<lparr>tr_status := Some (td_status a), tr_tax_id := td_tax_id a, tr_path := td_path a,
     tr_name := td_name a, tr_updated := Some (sql_timestamp now)\<rparr>"

definition new_tax_row :: "tax_data \<Rightarrow> tax_row" where
  "new_tax_row a = \<lparr>tr_wallet = td_wallet a, tr_status = Some (td_status a), tr_tax_id = td_tax_id a,
     tr_path = td_path a, tr_name = td_name a, tr_updated = None\<rparr>"

definition put_tax :: "tax_data \<Rightarrow> int \<Rightarrow> tax_store \<Rightarrow> tax_store" where
  "put_tax a now s =
     (if t_get (of_wallet (td_wallet a)) s \<noteq> None then t_update (of_wallet (td_wallet a)) (tax_update a now) s
      else snd (t_insert (new_tax_row a) s))"

definition upsert_contributor_tax :: "tax_data \<Rightarrow> int \<Rightarrow> (nat \<times> tax_row) option tax_op" where
  "upsert_contributor_tax a now =
     op_bind (counted_write (\<lambda>s. ((), put_tax a now s))) (\<lambda>_. get_contributor_tax (td_wallet a))"

definition compliance_status :: "tax_row \<Rightarrow> string" where
  "compliance_status r =
     (case tr_status r of
        None \<Rightarrow> ''missing''
      | Some s \<Rightarrow> if s = ''completed'' then ''compliant'' else ''non_compliant'')"

text \<open>NULL sorts first in SQLite: last in a descending order.\<close>

definition updated_key :: "tax_row \<Rightarrow> string list" where
  "updated_key r = (case tr_updated r of None \<Rightarrow> [] | Some t \<Rightarrow> [t])"

definition get_tax_compliance_report :: "((nat \<times> tax_row) \<times> string) list tax_op" where
  "get_tax_compliance_report = op_read (\<lambda>s.
     map (\<lambda>x. (x, compliance_status (snd x))) (order_desc (\<lambda>x. updated_key (snd x)) (trows s)))"

definition tax_missing :: "tax_row \<Rightarrow> bool" where
  "tax_missing r \<longleftrightarrow> tr_status r = None \<or> tr_status r \<in> Some ` {''not_collected'', ''pending''}"

definition get_contributors_missing_tax_info :: "(nat \<times> tax_row) list tax_op" where
  "get_contributors_missing_tax_info = op_read (\<lambda>s.
     order_asc (\<lambda>x. updated_key (snd x)) (t_select (\<lambda>x. tax_missing (snd x)) s))"

definition get_all_wallet_addresses :: "string list tax_op" where
  "get_all_wallet_addresses = op_read (\<lambda>s. remdups (map (\<lambda>x. tr_wallet (snd x)) (trows s)))"

section \<open>routes/contributor-tax.js\<close>

text \<open>\<open>path.extname\<close> of a file name, and the filter of the upload.\<close>

definition ext_name :: "string \<Rightarrow> string" where
  "ext_name s =
     (let b = rev (takeWhile (\<lambda>c. c \<noteq> CHR ''/'') (rev s)); r = takeWhile (\<lambda>c. c \<noteq> CHR ''.'') (rev b)
      in if length b \<le> length r + 1 then [] else CHR ''.'' # rev r)"

definition tax_file_allowed :: "string \<Rightarrow> bool" where
  "tax_file_allowed name \<longleftrightarrow> to_lower (ext_name name) \<in> {''.pdf'', ''.png'', ''.jpg'', ''.jpeg''}"

definition escape_csv_field :: "string option \<Rightarrow> string" where
  "escape_csv_field v =
     (case v of
        None \<Rightarrow> [CHR 0x22, CHR 0x22]
      | Some s \<Rightarrow> CHR 0x22 # concat (map (\<lambda>c. if c = CHR 0x22 then [CHR 0x22, CHR 0x22] else [c]) s) @ [CHR 0x22])"

fun join_text :: "string \<Rightarrow> string list \<Rightarrow> string" where
  "join_text sep [] = []"
| "join_text sep [x] = x"
| "join_text sep (x # y # xs) = x @ sep @ join_text sep (y # xs)"

definition tax_csv_line :: "string option list \<Rightarrow> string" where
  "tax_csv_line cells = join_text '','' (map escape_csv_field cells)"

definition csv_document :: "string option list list \<Rightarrow> string" where
  "csv_document rs = join_text [CHR 0x0A] (map tax_csv_line rs)"

definition tax_headers :: "string list" where
  "tax_headers = [''Wallet Address'', ''Tax Status'', ''Tax ID'', ''Compliance Status'', ''W9 File Name'', ''Updated At'']"

definition tax_cells :: "(nat \<times> tax_row) \<times> string \<Rightarrow> string option list" where
  "tax_cells y = (let r = snd (fst y) in
     [Some (tr_wallet r), tr_status r, tr_tax_id r, Some (snd y), tr_name r, tr_updated r])"

definition tax_csv :: "((nat \<times> tax_row) \<times> string) list \<Rightarrow> string" where
  "tax_csv report = csv_document (map Some tax_headers # map tax_cells report)"

datatype tax_answer = Answer response | CsvFile string | Download string string

definition tax_json :: "nat \<times> tax_row \<Rightarrow> (string \<times> json) list" where
  "tax_json x =
     [(''id'', JNum (int (fst x))), (''walletAddress'', JStr (tr_wallet (snd x))), (''tax_status'', opt_json (tr_status (snd x))),
      (''tax_id'', opt_json (tr_tax_id (snd x))), (''w9_file_path'', opt_json (tr_path (snd x))),
      (''w9_file_name'', opt_json (tr_name (snd x))), (''updated_at'', opt_json (tr_updated (snd x)))]"

definition tax_or_null :: "(nat \<times> tax_row) option \<Rightarrow> json" where
  "tax_or_null v = (case v of None \<Rightarrow> JNull | Some x \<Rightarrow> JObj (tax_json x))"

text \<open>The \<open>catch\<close> of the routes answers 500 with a code and the message of the error, or a fixed one.\<close>

definition tax_failed :: "string \<Rightarrow> string option \<Rightarrow> 'a tax_op \<Rightarrow> ('a \<Rightarrow> tax_answer) \<Rightarrow> tax_store db \<Rightarrow> tax_answer \<times> tax_store db" where
  "tax_failed code message m f d =
     (case m d of
        (Inl e, d') \<Rightarrow> (Answer (send_error 500 (Some code) (case message of Some s \<Rightarrow> s | None \<Rightarrow> error_message e) []), d')
      | (Inr x, d') \<Rightarrow> (f x, d'))"

definition admin_only :: "string \<Rightarrow> (tax_store db \<Rightarrow> tax_answer \<times> tax_store db) \<Rightarrow> tax_store db \<Rightarrow> tax_answer \<times> tax_store db" where
  "admin_only role h d =
     (case require_role ''admin'' of
        Inl e \<Rightarrow> (Answer (error_handler (thrown_of e)), d)
      | Inr gate \<Rightarrow> (case gate (Some role) of Respond r \<Rightarrow> (Answer r, d) | Next _ \<Rightarrow> h d))"

definition export_tax_route :: "string \<Rightarrow> tax_store db \<Rightarrow> tax_answer \<times> tax_store db" where
  "export_tax_route role = admin_only role
     (tax_failed ''export_generation_failed'' (Some ''Failed to generate contributor tax export'') get_tax_compliance_report
       (\<lambda>report. CsvFile (tax_csv report)))"

definition get_tax_route :: "string \<Rightarrow> tax_store db \<Rightarrow> tax_answer \<times> tax_store db" where
  "get_tax_route w = tax_failed ''tax_fetch_error'' None (get_contributor_tax w)
     (\<lambda>v. Answer (data_response 200 (tax_or_null v)))"

definition valid_tax_statuses :: "string list" where
  "valid_tax_statuses = [''not_collected'', ''pending'', ''completed'', ''exempt'']"

definition tax_refused :: "string \<Rightarrow> tax_answer" where
  "tax_refused m = Answer (send_error 400 (Some ''validation_error'') m [])"

definition post_tax_route ::
  "string option \<Rightarrow> string option \<Rightarrow> string option \<Rightarrow> int \<Rightarrow> tax_store db \<Rightarrow> tax_answer \<times> tax_store db" where
  "post_tax_route w status tax_id now d =
     (if \<not> truthy w then (tax_refused ''walletAddress is required'', d)
      else if \<not> truthy status then (tax_refused ''tax_status is required'', d)
      else if the status \<notin> set valid_tax_statuses
      then (tax_refused (''tax_status must be one of: '' @ join_text '', '' valid_tax_statuses), d)
      else tax_failed ''tax_save_error'' None
        (upsert_contributor_tax \<lparr>td_wallet = the w, td_status = the status, td_tax_id = tax_id, td_path = None, td_name = None\<rparr> now)
        (\<lambda>v. Answer (data_response 200 (tax_or_null v))) d)"

record tax_file =
  tf_path :: string
  tf_name :: string
  tf_size :: nat

definition upload_tax_route :: "string \<Rightarrow> tax_file option \<Rightarrow> int \<Rightarrow> tax_store db \<Rightarrow> tax_answer \<times> tax_store db" where
  "upload_tax_route w file now d =
     (case file of
        None \<Rightarrow> (Answer (send_error 400 (Some ''upload_error'') ''No file uploaded'' []), d)
      | Some f \<Rightarrow> tax_failed ''upload_error'' None
          (upsert_contributor_tax \<lparr>td_wallet = w, td_status = ''pending'', td_tax_id = None, td_path = Some (tf_path f),
             td_name = Some (tf_name f)\<rparr> now)
          (\<lambda>v. Answer \<lparr>rstatus = 200, rbody = JObj [(''success'', JBool True), (''data'', tax_or_null v),
             (''file'', JObj [(''name'', JStr (tf_name f)), (''size'', JNum (int (tf_size f)))])]\<rparr>) d)"

definition document_missing :: "string \<Rightarrow> tax_answer" where
  "document_missing m = Answer (send_error 404 (Some ''document_not_found'') m [])"

definition tax_document_route :: "(string \<Rightarrow> bool) \<Rightarrow> string \<Rightarrow> tax_store db \<Rightarrow> tax_answer \<times> tax_store db" where
  "tax_document_route on_disk w = tax_failed ''document_error'' None (get_contributor_tax w) (\<lambda>v.
     case v of
       None \<Rightarrow> document_missing ''No tax document found''
     | Some x \<Rightarrow>
         if \<not> truthy (tr_path (snd x)) then document_missing ''No tax document found''
         else if \<not> on_disk (the (tr_path (snd x))) then document_missing ''Tax document file not found on disk''
         else Download (the (tr_path (snd x))) (case tr_name (snd x) of Some n \<Rightarrow> n | None \<Rightarrow> ''tax-document.pdf''))"

definition status_count :: "string \<Rightarrow> ((nat \<times> tax_row) \<times> string) list \<Rightarrow> nat" where
  "status_count s report = length (filter (\<lambda>y. snd y = s) report)"

definition compliance_body :: "((nat \<times> tax_row) \<times> string) list \<Rightarrow> json" where
  "compliance_body report = JObj
     [(''success'', JBool True),
      (''data'', JArr (map (\<lambda>y. JObj (tax_json (fst y) @ [(''compliance_status'', JStr (snd y))])) report)),
      (''summary'', JObj [(''total'', JNum (int (length report))), (''compliant'', JNum (int (status_count ''compliant'' report))),
         (''nonCompliant'', JNum (int (status_count ''non_compliant'' report))),
         (''missing'', JNum (int (status_count ''missing'' report)))])]"

definition compliance_route :: "string \<Rightarrow> tax_store db \<Rightarrow> tax_answer \<times> tax_store db" where
  "compliance_route role = admin_only role (tax_failed ''report_error'' None get_tax_compliance_report
     (\<lambda>report. Answer \<lparr>rstatus = 200, rbody = compliance_body report\<rparr>))"

definition missing_tax_route :: "string \<Rightarrow> tax_store db \<Rightarrow> tax_answer \<times> tax_store db" where
  "missing_tax_route role = admin_only role (tax_failed ''report_error'' None get_contributors_missing_tax_info
     (\<lambda>rs. Answer \<lparr>rstatus = 200, rbody = JObj [(''success'', JBool True), (''data'', JArr (map (\<lambda>x. JObj (tax_json x)) rs)),
        (''count'', JNum (int (length rs)))]\<rparr>))"

section \<open>The export reads whole\<close>

text \<open>A reader of quoted CSV (RFC 4180): inside quotes a doubled quote is a quote, all else is itself.\<close>

datatype csv_mode = CellStart | InQuotes | AfterQuote

fun scan_csv :: "csv_mode \<Rightarrow> string \<Rightarrow> string list \<Rightarrow> string \<Rightarrow> string list list option" where
  "scan_csv AfterQuote f r [] = Some [r @ [f]]"
| "scan_csv CellStart f r [] = None"
| "scan_csv InQuotes f r [] = None"
| "scan_csv CellStart f r (c # s) = (if c = CHR 0x22 then scan_csv InQuotes [] r s else None)"
| "scan_csv InQuotes f r (c # s) = (if c = CHR 0x22 then scan_csv AfterQuote f r s else scan_csv InQuotes (f @ [c]) r s)"
| "scan_csv AfterQuote f r (c # s) =
     (if c = CHR 0x22 then scan_csv InQuotes (f @ [c]) r s
      else if c = CHR '','' then scan_csv CellStart [] (r @ [f]) s
      else if c = CHR 0x0A then map_option (Cons (r @ [f])) (scan_csv CellStart [] [] s) else None)"

definition read_csv :: "string \<Rightarrow> string list list option" where
  "read_csv s = scan_csv CellStart [] [] s"

definition cell_text :: "string option \<Rightarrow> string" where
  "cell_text v = (case v of None \<Rightarrow> [] | Some s \<Rightarrow> s)"

definition ends_cell :: "string \<Rightarrow> bool" where
  "ends_cell t \<longleftrightarrow> (case t of [] \<Rightarrow> True | c # _ \<Rightarrow> c \<noteq> CHR 0x22)"

lemma scan_quoted: "ends_cell t \<Longrightarrow>
    scan_csv InQuotes f r (concat (map (\<lambda>c. if c = CHR 0x22 then [CHR 0x22, CHR 0x22] else [c]) s) @ CHR 0x22 # t) =
      scan_csv AfterQuote (f @ s) r t"
  by (induction s arbitrary: f) (auto simp: ends_cell_def)

lemma scan_cell: "ends_cell t \<Longrightarrow> scan_csv CellStart f r (escape_csv_field v @ t) = scan_csv AfterQuote (cell_text v) r t"
  using scan_quoted [of t "[]" r] by (cases v) (simp_all add: escape_csv_field_def cell_text_def)

lemma scan_line: "t = [] \<or> (\<exists>u. t = CHR 0x0A # u) \<Longrightarrow> cells \<noteq> [] \<Longrightarrow>
    scan_csv CellStart f r (tax_csv_line cells @ t) = scan_csv AfterQuote (cell_text (last cells)) (r @ map cell_text (butlast cells)) t"
proof (induction cells arbitrary: f r)
  case (Cons v vs)
  show ?case
  proof (cases vs)
    case Nil
    then show ?thesis using Cons.prems(1) scan_cell [of t f r v] by (auto simp: tax_csv_line_def ends_cell_def)
  next
    case (Cons w ws)
    have "tax_csv_line (v # vs) @ t = escape_csv_field v @ (CHR '','' # tax_csv_line vs @ t)"
      by (simp add: tax_csv_line_def Cons)
    then show ?thesis using Cons.IH [OF Cons.prems(1), of "[]" "r @ [cell_text v]"] Cons scan_cell [of "CHR '','' # tax_csv_line vs @ t" f r v]
      by (simp add: ends_cell_def)
  qed
qed simp

lemma scan_document: "rs \<noteq> [] \<Longrightarrow> (\<forall>cells \<in> set rs. cells \<noteq> []) \<Longrightarrow>
    scan_csv CellStart f [] (csv_document rs) = Some (map (map cell_text) rs)"
proof (induction rs arbitrary: f)
  case (Cons cells rs)
  have whole: "map cell_text (butlast cells) @ [cell_text (last cells)] = map cell_text cells"
    using Cons.prems(2) by (metis append_butlast_last_id list.set_intros(1) list.simps(8) list.simps(9) map_append)
  show ?case
  proof (cases rs)
    case Nil
    then show ?thesis using Cons.prems scan_line [of "[]" cells f "[]"] whole by (simp add: csv_document_def)
  next
    case (Cons x xs)
    have "csv_document (cells # rs) = tax_csv_line cells @ CHR 0x0A # csv_document rs" by (simp add: csv_document_def Cons)
    then show ?thesis
      using Cons.IH [of "[]"] Cons.prems Cons scan_line [of "CHR 0x0A # csv_document rs" cells f "[]"] whole by simp
  qed
qed simp

text \<open>C32: 
  The export of the tax records reads whole as the table it prints: a header and one record for every
  contributor with each of the six columns as stored, whatever quotes, commas or line breaks they hold.
\<close>

theorem tax_export_reads_back:
  "fst (export_tax_route ''admin'' d) = CsvFile csv \<Longrightarrow>
     read_csv csv = Some (tax_headers # map (\<lambda>x. map cell_text (tax_cells (x, compliance_status (snd x))))
       (order_desc (\<lambda>x. updated_key (snd x)) (trows (tables d))))"
proof -
  assume "fst (export_tax_route ''admin'' d) = CsvFile csv"
  then have csv: "csv = tax_csv (map (\<lambda>x. (x, compliance_status (snd x))) (order_desc (\<lambda>x. updated_key (snd x)) (trows (tables d))))"
    by (simp add: export_tax_route_def admin_only_def tax_failed_def get_tax_compliance_report_def op_read_def require_role_def
        roles_def role_or_viewer_def Let_def split: if_splits)
  have head: "map cell_text (map Some tax_headers) = tax_headers" by (simp add: cell_text_def comp_def)
  have "\<forall>cells \<in> set (map Some tax_headers # map tax_cells report). cells \<noteq> []" for report
    by (auto simp: tax_headers_def tax_cells_def Let_def)
  then have "read_csv (tax_csv report) = Some (map (map cell_text) (map Some tax_headers # map tax_cells report))" for report
    unfolding read_csv_def tax_csv_def by (intro scan_document) simp_all
  then show ?thesis unfolding csv using head by (simp add: comp_def)
qed

section \<open>One record for each contributor\<close>

definition tax_ok :: "tax_store \<Rightarrow> bool" where
  "tax_ok s \<longleftrightarrow> t_ok s \<and> distinct (map (\<lambda>x. tr_wallet (snd x)) (trows s))"

lemma tax_update_wallet [simp]: "tr_wallet (tax_update a now r) = tr_wallet r"
  by (simp add: tax_update_def)

lemma put_tax_ok:
  assumes "tax_ok s"
  shows "tax_ok (put_tax a now s)"
proof (cases "t_get (of_wallet (td_wallet a)) s")
  case None
  then have "td_wallet a \<notin> (\<lambda>x. tr_wallet (snd x)) ` set (trows s)"
    by (auto simp: t_get_None of_wallet_def)
  moreover have "t_ok (snd (t_insert (new_tax_row a) s))" using assms by (simp add: tax_ok_def tb.ok_ins)
  ultimately show ?thesis using None assms by (simp add: put_tax_def tax_ok_def t_insert_def new_tax_row_def)
next
  case (Some x)
  have "map (\<lambda>x. tr_wallet (snd x)) (trows (t_update P (tax_update a now) s)) = map (\<lambda>x. tr_wallet (snd x)) (trows s)" for P
    by (simp add: t_update_def)
  then show ?thesis using Some assms by (simp add: put_tax_def tax_ok_def tb.ok_upd)
qed

lemma put_tax_get:
  "\<exists>i u. t_get (of_wallet (td_wallet a)) (put_tax a now s) =
     Some (i, \<lparr>tr_wallet = td_wallet a, tr_status = Some (td_status a), tr_tax_id = td_tax_id a, tr_path = td_path a,
               tr_name = td_name a, tr_updated = u\<rparr>)"
proof (cases "t_get (of_wallet (td_wallet a)) s")
  case None
  then show ?thesis by (simp add: put_tax_def t_get_insert of_wallet_def new_tax_row_def)
next
  case (Some x)
  then have w: "tr_wallet (snd x) = td_wallet a" using t_get_Some [OF Some] by (simp add: of_wallet_def)
  have "t_get (of_wallet (td_wallet a)) (t_update (of_wallet (td_wallet a)) (tax_update a now) s) =
      map_option (\<lambda>x. if of_wallet (td_wallet a) x then (fst x, tax_update a now (snd x)) else x) (t_get (of_wallet (td_wallet a)) s)"
    by (rule t_get_update_stable) (simp add: of_wallet_def)
  then have "t_get (of_wallet (td_wallet a)) (put_tax a now s) = Some (fst x, tax_update a now (snd x))"
    using Some w by (simp add: put_tax_def of_wallet_def)
  then show ?thesis using w by (cases "snd x") (auto simp: tax_update_def)
qed

lemma upsert_state: "snd (tax_failed code m (upsert_contributor_tax a now) f d) = snd (counted_write (\<lambda>s. ((), put_tax a now s)) d)"
  by (simp add: tax_failed_def upsert_contributor_tax_def op_bind_def get_contributor_tax_def op_read_def
      split: prod.split sum.split)

lemma upsert_tables: "tables (snd (tax_failed code m (upsert_contributor_tax a now) f d)) = put_tax a now (tables d)"
  by (simp add: upsert_state counted_write_tables)

text \<open>
  The routes keep one record for each wallet.  Setting a status needs no credentials and drops the
  uploaded document and, if it is not repeated, the tax id: afterwards there is no document to fetch.
\<close>

theorem status_post_drops_document:
  assumes "tax_ok (tables d)" and "w \<noteq> []" and "status \<in> set valid_tax_statuses"
    and "d' = snd (post_tax_route (Some w) (Some status) tax_id now d)"
  shows "tax_ok (tables d')
    \<and> (\<exists>i u. t_get (of_wallet w) (tables d') = Some (i, \<lparr>tr_wallet = w, tr_status = Some status, tr_tax_id = tax_id,
          tr_path = None, tr_name = None, tr_updated = u\<rparr>))
    \<and> fst (tax_document_route on_disk w d') = document_missing ''No tax document found''"
proof -
  have "status \<noteq> []" using assms(3) by (auto simp: valid_tax_statuses_def)
  then have t: "tables d' = put_tax \<lparr>td_wallet = w, td_status = status, td_tax_id = tax_id, td_path = None, td_name = None\<rparr> now (tables d)"
    using assms(2-4) by (simp add: post_tax_route_def upsert_tables)
  obtain i u where get: "t_get (of_wallet w) (tables d') = Some (i, \<lparr>tr_wallet = w, tr_status = Some status, tr_tax_id = tax_id,
      tr_path = None, tr_name = None, tr_updated = u\<rparr>)"
    using put_tax_get [of "\<lparr>td_wallet = w, td_status = status, td_tax_id = tax_id, td_path = None, td_name = None\<rparr>" now "tables d"]
    unfolding t by auto
  have "fst (tax_document_route on_disk w d') = document_missing ''No tax document found''"
    by (simp add: tax_document_route_def tax_failed_def get_contributor_tax_def op_read_def get)
  then show ?thesis using get put_tax_ok [OF assms(1)] unfolding t by blast
qed

text \<open>The counts of the compliance report add up, and an exempt contributor counts as not compliant.\<close>

lemma compliance_counts:
  "status_count ''compliant'' report + status_count ''non_compliant'' report + status_count ''missing'' report = length report"
  if "report = map (\<lambda>x. (x, compliance_status (snd x))) xs"
  unfolding that by (induction xs) (auto simp: status_count_def compliance_status_def split: option.splits)

lemma exempt_not_compliant: "tr_status r = Some ''exempt'' \<Longrightarrow> compliance_status r = ''non_compliant'' \<and> \<not> tax_missing r"
  by (simp add: compliance_status_def tax_missing_def)

section \<open>Concrete runs\<close>

definition demo_tax :: tax_store where
  "demo_tax = put_tax \<lparr>td_wallet = ''G1'', td_status = ''pending'', td_tax_id = Some [CHR ''1'', CHR 0x22, CHR '','', CHR 0x0A],
     td_path = Some ''/uploads/1.pdf'', td_name = Some ''w9.pdf''\<rparr> 5 t_empty"

lemma demo_tax_rows: "trows demo_tax = [(1, \<lparr>tr_wallet = ''G1'', tr_status = Some ''pending'',
    tr_tax_id = Some [CHR ''1'', CHR 0x22, CHR '','', CHR 0x0A], tr_path = Some ''/uploads/1.pdf'', tr_name = Some ''w9.pdf'', tr_updated = None\<rparr>)]"
  by (simp add: demo_tax_def put_tax_def t_get_def t_empty_def t_insert_def new_tax_row_def)

theorem tax_export_reads_back_witness:
  "\<exists>csv. fst (export_tax_route ''admin'' (core_connection demo_tax)) = CsvFile csv \<and> read_csv csv = Some [tax_headers,
     [''G1'', ''pending'', [CHR ''1'', CHR 0x22, CHR '','', CHR 0x0A], ''non_compliant'', ''w9.pdf'', []]]"
proof -
  have "\<exists>csv. fst (export_tax_route ''admin'' (core_connection demo_tax)) = CsvFile csv"
    by (simp add: export_tax_route_def admin_only_def tax_failed_def get_tax_compliance_report_def op_read_def require_role_def
        roles_def role_or_viewer_def Let_def)
  then obtain csv where csv: "fst (export_tax_route ''admin'' (core_connection demo_tax)) = CsvFile csv" ..
  show ?thesis using tax_export_reads_back [OF csv] csv
    by (auto simp: demo_tax_rows order_desc_def tax_cells_def compliance_status_def cell_text_def)
qed

theorem status_post_drops_document_witness:
  "fst (tax_document_route (\<lambda>_. True) ''G1'' (core_connection demo_tax)) = Download ''/uploads/1.pdf'' ''w9.pdf''
   \<and> fst (tax_document_route (\<lambda>_. True) ''G1'' (snd (post_tax_route (Some ''G1'') (Some ''completed'') None 7 (core_connection demo_tax))))
     = document_missing ''No tax document found''"
proof -
  have ok: "tax_ok (tables (core_connection demo_tax))" by (simp add: tax_ok_def demo_tax_rows t_ok_def) (simp add: demo_tax_def put_tax_def t_get_def t_empty_def t_insert_def)
  have "fst (tax_document_route (\<lambda>_. True) ''G1'' (core_connection demo_tax)) = Download ''/uploads/1.pdf'' ''w9.pdf''"
    by (simp add: tax_document_route_def tax_failed_def get_contributor_tax_def op_read_def t_get_def demo_tax_rows of_wallet_def)
  then show ?thesis using status_post_drops_document [OF ok _ _ refl, of "''G1''" "''completed''" None 7 "\<lambda>_. True"]
    by (simp add: valid_tax_statuses_def)
qed

end
