(* ===== verification/SigningKey.thy ===== *)
theory SigningKey
  imports Snapshots Base64
begin

text \<open>
  The server's signing key: \<open>secrets-manager.js\<close> (which provider a secret comes from), \<open>signing-key.js\<close>
  (the key in memory and its rotation), \<open>POST /admin/rotate-key\<close> of \<open>routes/admin.js\<close>, and \<open>rpcSigning.js\<close>
  (signed RPC requests), under \<open>src/backend/src\<close>.

  Keys are the SDK's: \<open>from_secret\<close> and \<open>public_key\<close> are parameters, and so are the answers of AWS, Vault
  and the file system, and the message of a failed \<open>JSON.parse\<close>.  The encryption helpers, which nothing
  calls, and the alert rules are left out.
\<close>

section \<open>secrets-manager.js\<close>

record secrets_env =
  ev_provider :: "string option"
  ev_aws_name :: "string option"
  ev_vault_addr :: "string option"
  ev_vault_token :: "string option"
  ev_vault_path :: "string option"
  ev_key_file :: "string option"
  ev_server_key :: "string option"
  ev_encryption_key :: "string option"
  ev_rotate_token :: "string option"

text \<open>
  \<open>sw_aws\<close>: the client's answer as \<open>SecretString\<close> and \<open>SecretBinary\<close>, or an error with its code.
  \<open>sw_vault\<close>: whether the answer is ok, its status text, and what \<open>response.json()\<close> gives.
\<close>

record secrets_world =
  sw_aws :: "(string \<times> js_error) + (string option \<times> string option)"
  sw_vault :: "js_error + (bool \<times> string \<times> (js_error + js_value))"
  sw_file :: "string \<Rightarrow> (js_error + string) option"
  sw_json_error :: "string \<Rightarrow> string"

definition quoted :: "string \<Rightarrow> string" where
  "quoted s = CHR 0x27 # s @ [CHR 0x27]"

definition read_prop :: "js_value \<Rightarrow> string \<Rightarrow> js_value res" where
  "read_prop v k =
     (case v of
        VUndef \<Rightarrow> Inl (TypeErr (''Cannot read properties of undefined (reading '' @ quoted k @ '')''))
      | VNull \<Rightarrow> Inl (TypeErr (''Cannot read properties of null (reading '' @ quoted k @ '')''))
      | _ \<Rightarrow> Inr (field k v))"

text \<open>\<open>v?.k\<close>, and \<open>a || b || c\<close>.\<close>

definition optional_prop :: "js_value \<Rightarrow> string \<Rightarrow> js_value" where
  "optional_prop v k = (if v = VUndef \<or> v = VNull then VUndef else field k v)"

definition js_or :: "js_value \<Rightarrow> js_value \<Rightarrow> js_value" where
  "js_or a b = (if value_truthy a then a else b)"

definition secret_fields :: "js_value \<Rightarrow> js_value" where
  "secret_fields v = js_or (optional_prop v ''signingKey'') (js_or (optional_prop v ''SECRET_KEY'') (optional_prop v ''key''))"

definition load_from_aws :: "secrets_env \<Rightarrow> secrets_world \<Rightarrow> js_value res" where
  "load_from_aws env w =
     (if \<not> truthy (ev_aws_name env) then Inl (PlainError ''AWS_SECRET_NAME is required when using AWS Secrets Manager'')
      else case sw_aws w of
        Inl (code, e) \<Rightarrow> Inl (if code = ''MODULE_NOT_FOUND''
            then PlainError ''AWS SDK not installed. Run: npm install @aws-sdk/client-secrets-manager'' else e)
      | Inr (str, bin) \<Rightarrow>
          (case (if truthy str
                 then (case json_parse (the str) of
                         None \<Rightarrow> Inl (PlainError (sw_json_error w (the str)))
                       | Some v \<Rightarrow> (case read_prop v ''signingKey'' of Inl e \<Rightarrow> Inl e | Inr _ \<Rightarrow> Inr (secret_fields v)))
                 else Inr (case bin of None \<Rightarrow> VUndef | Some b \<Rightarrow> VStr b)) of
             Inl e \<Rightarrow> Inl e
           | Inr secret \<Rightarrow> if value_truthy secret then Inr secret
                else Inl (PlainError ''Secret key not found in AWS Secrets Manager response'')))"

definition load_from_vault :: "secrets_env \<Rightarrow> secrets_world \<Rightarrow> js_value res" where
  "load_from_vault env w =
     (if \<not> truthy (ev_vault_addr env) then Inl (PlainError ''VAULT_ADDR is required when using HashiCorp Vault'')
      else if \<not> truthy (ev_vault_token env) then Inl (PlainError ''VAULT_TOKEN is required when using HashiCorp Vault'')
      else if \<not> truthy (ev_vault_path env) then Inl (PlainError ''VAULT_SECRET_PATH is required when using HashiCorp Vault'')
      else case sw_vault w of
        Inl e \<Rightarrow> Inl e
      | Inr (ok, status, answer) \<Rightarrow>
          if \<not> ok then Inl (PlainError (''Vault API returned '' @ status))
          else case answer of
            Inl e \<Rightarrow> Inl e
          | Inr v \<Rightarrow> (case read_prop v ''data'' of
                Inl e \<Rightarrow> Inl e
              | Inr outer \<Rightarrow>
                  let secret = secret_fields (js_or (optional_prop outer ''data'') outer)
                  in if value_truthy secret then Inr secret else Inl (PlainError ''Secret key not found in Vault response'')))"

definition load_from_file :: "secrets_env \<Rightarrow> secrets_world \<Rightarrow> js_value res" where
  "load_from_file env w =
     (if \<not> truthy (ev_key_file env) then Inl (PlainError ''SIGNING_KEY_FILE is required when using file provider'')
      else case sw_file w (the (ev_key_file env)) of
        None \<Rightarrow> Inl (PlainError (''Signing key file not found: '' @ the (ev_key_file env)))
      | Some (Inl e) \<Rightarrow> Inl e
      | Some (Inr s) \<Rightarrow> Inr (VStr (trim s)))"

definition load_from_env :: "secrets_env \<Rightarrow> js_value res" where
  "load_from_env env =
     (if \<not> truthy (ev_server_key env) then Inl (PlainError ''SERVER_SECRET_KEY is required when using env provider'')
      else Inr (VStr (trim (the (ev_server_key env)))))"

definition detect_provider :: "secrets_env \<Rightarrow> string option" where
  "detect_provider env =
     (if truthy (ev_aws_name env) then Some ''aws''
      else if truthy (ev_vault_addr env) \<and> truthy (ev_vault_token env) then Some ''vault''
      else if truthy (ev_key_file env) then Some ''file''
      else if truthy (ev_server_key env) then Some ''env''
      else None)"

definition chosen_provider :: "secrets_env \<Rightarrow> string option" where
  "chosen_provider env = (if truthy (ev_provider env) then ev_provider env else detect_provider env)"

definition load_signing_secret :: "secrets_env \<Rightarrow> secrets_world \<Rightarrow> js_value res" where
  "load_signing_secret env w =
     (case chosen_provider env of
        None \<Rightarrow> Inr VNull
      | Some p \<Rightarrow>
          if p = ''aws'' then load_from_aws env w
          else if p = ''vault'' then load_from_vault env w
          else if p = ''file'' then load_from_file env w
          else if p = ''env'' then load_from_env env
          else Inl (PlainError (''Unknown secrets provider: '' @ p)))"

definition provider_name :: "secrets_env \<Rightarrow> string" where
  "provider_name env = (case chosen_provider env of None \<Rightarrow> ''none'' | Some p \<Rightarrow> p)"

definition get_secrets_provider_status :: "secrets_env \<Rightarrow> json" where
  "get_secrets_provider_status env = JObj
     [(''configured'', JBool (detect_provider env \<noteq> None)), (''provider'', JStr (provider_name env)),
      (''explicit'', JBool (truthy (ev_provider env))), (''encryptionKeyConfigured'', JBool (truthy (ev_encryption_key env))),
      (''availableProviders'', JObj
        [(''aws'', JBool (truthy (ev_aws_name env))),
         (''vault'', JBool (truthy (ev_vault_addr env) \<and> truthy (ev_vault_token env))),
         (''file'', JBool (truthy (ev_key_file env))), (''env'', JBool (truthy (ev_server_key env)))])]"

section \<open>signing-key.js\<close>

record 'k signer =
  sg_active :: "'k option"
  sg_rotated_at :: "string option"
  sg_source :: "string option"

definition no_signer :: "'k signer" where
  "no_signer = \<lparr>sg_active = None, sg_rotated_at = None, sg_source = None\<rparr>"

definition normalize_secret :: "js_value \<Rightarrow> string option" where
  "normalize_secret v = (case v of VStr s \<Rightarrow> if trim s = [] then None else Some (trim s) | _ \<Rightarrow> None)"

definition parse_signing_secret :: "(string \<Rightarrow> 'k option) \<Rightarrow> js_value \<Rightarrow> 'k res" where
  "parse_signing_secret from_secret v =
     (case normalize_secret v of
        None \<Rightarrow> Inl (PlainError ''Signing secret key is required'')
      | Some s \<Rightarrow>
          if \<not> starts_with s ''S'' then Inl (PlainError (''Signing secret key must start with '' @ quoted ''S''))
          else case from_secret s of
            None \<Rightarrow> Inl (PlainError ''Invalid Stellar signing secret key'')
          | Some k \<Rightarrow> Inr k)"

definition set_active_keypair :: "'k \<Rightarrow> string \<Rightarrow> int \<Rightarrow> 'k signer" where
  "set_active_keypair k source now = \<lparr>sg_active = Some k, sg_rotated_at = Some (to_iso now), sg_source = Some source\<rparr>"

definition initialize_signing_key ::
  "(string \<Rightarrow> 'k option) \<Rightarrow> secrets_env \<Rightarrow> secrets_world \<Rightarrow> int \<Rightarrow> 'k signer \<Rightarrow> 'k option res \<times> 'k signer" where
  "initialize_signing_key from_secret env w now st =
     (case load_signing_secret env w of
        Inl e \<Rightarrow> (Inl e, st)
      | Inr v \<Rightarrow>
          if \<not> value_truthy v then (Inr None, no_signer)
          else case parse_signing_secret from_secret v of
            Inl e \<Rightarrow> (Inl e, st)
          | Inr k \<Rightarrow> (Inr (Some k), set_active_keypair k (provider_name env) now))"

definition rotate_signing_key ::
  "(string \<Rightarrow> 'k option) \<Rightarrow> js_value \<Rightarrow> string \<Rightarrow> int \<Rightarrow> 'k signer \<Rightarrow> ('k \<times> string \<times> string) res \<times> 'k signer" where
  "rotate_signing_key from_secret v source now st =
     (case parse_signing_secret from_secret v of
        Inl e \<Rightarrow> (Inl e, st)
      | Inr k \<Rightarrow> (Inr (k, to_iso now, source), set_active_keypair k source now))"

definition reload_from_provider ::
  "(string \<Rightarrow> 'k option) \<Rightarrow> secrets_env \<Rightarrow> secrets_world \<Rightarrow> int \<Rightarrow> 'k signer \<Rightarrow> ('k \<times> string \<times> string) res \<times> 'k signer" where
  "reload_from_provider from_secret env w now st =
     (case load_signing_secret env w of
        Inl e \<Rightarrow> (Inl e, st)
      | Inr v \<Rightarrow>
          if \<not> value_truthy v then (Inl (PlainError ''No signing key available from secrets provider''), st)
          else rotate_signing_key from_secret v ''secrets_reload'' now st)"

definition reload_from_file ::
  "(string \<Rightarrow> 'k option) \<Rightarrow> secrets_env \<Rightarrow> secrets_world \<Rightarrow> int \<Rightarrow> 'k signer \<Rightarrow> ('k \<times> string \<times> string) res \<times> 'k signer" where
  "reload_from_file from_secret env w now st =
     (case normalize_secret (case ev_key_file env of None \<Rightarrow> VUndef | Some f \<Rightarrow> VStr f) of
        None \<Rightarrow> (Inl (PlainError ''SIGNING_KEY_FILE is not configured''), st)
      | Some path \<Rightarrow>
          (case sw_file w path of
             None \<Rightarrow> (Inl (PlainError (''Signing key file not found: '' @ path)), st)
           | Some (Inl e) \<Rightarrow> (Inl e, st)
           | Some (Inr s) \<Rightarrow> rotate_signing_key from_secret (VStr s) ''file_reload'' now st))"

definition is_admin_rotate_token_valid :: "secrets_env \<Rightarrow> string option \<Rightarrow> bool" where
  "is_admin_rotate_token_valid env token =
     (case normalize_secret (case ev_rotate_token env of None \<Rightarrow> VUndef | Some s \<Rightarrow> VStr s) of
        None \<Rightarrow> False
      | Some expected \<Rightarrow> truthy token \<and> the token = expected)"

definition get_signing_key_status :: "('k \<Rightarrow> string) \<Rightarrow> secrets_env \<Rightarrow> 'k signer \<Rightarrow> json" where
  "get_signing_key_status public_key env st = JObj
     [(''configured'', JBool (sg_active st \<noteq> None)), (''publicKey'', opt_json (map_option public_key (sg_active st))),
      (''lastRotationAt'', opt_json (sg_rotated_at st)), (''lastRotationSource'', opt_json (sg_source st)),
      (''secretsProvider'', JStr (provider_name env)), (''encryptionEnabled'', JBool (truthy (ev_encryption_key env)))]"

section \<open>The rotation route\<close>

definition rotation_gate :: "secrets_env \<Rightarrow> string option \<Rightarrow> response option" where
  "rotation_gate env authorization =
     (if \<not> truthy (ev_rotate_token env)
      then Some (send_error 503 (Some ''service_unavailable'') ''Key rotation is not configured on this server'' [])
      else if \<not> is_admin_rotate_token_valid env (bearer_token authorization)
      then Some (send_error 401 (Some ''unauthorized'') ''Unauthorized'' [])
      else None)"

definition secret_shape :: "string \<Rightarrow> bool" where
  "secret_shape = strkey_shape (CHR ''S'')"

definition z_bool :: schema where
  "z_bool v = (case v of VBool _ \<Rightarrow> Some v | _ \<Rightarrow> None)"

definition rotate_key_schema :: schema where
  "rotate_key_schema = z_refine
     (\<lambda>b. value_truthy (field ''secretKey'' b) \<or> field ''reloadFromFile'' b = VBool True \<or> field ''reloadFromProvider'' b = VBool True)
     (z_object [(''secretKey'', z_optional (z_string secret_shape)), (''reloadFromFile'', z_optional z_bool),
        (''reloadFromProvider'', z_optional z_bool)])"

definition rotate_by_body ::
  "(string \<Rightarrow> 'k option) \<Rightarrow> secrets_env \<Rightarrow> secrets_world \<Rightarrow> js_value \<Rightarrow> int \<Rightarrow> 'k signer
    \<Rightarrow> ('k \<times> string \<times> string) res \<times> 'k signer" where
  "rotate_by_body from_secret env w b now st =
     (if value_truthy (field ''reloadFromProvider'' b) then reload_from_provider from_secret env w now st
      else if value_truthy (field ''reloadFromFile'' b) then reload_from_file from_secret env w now st
      else rotate_signing_key from_secret (field ''secretKey'' b) ''api'' now st)"

text \<open>The audit entry \<open>signing_key_rotated\<close> is refused, and the refusal is swallowed.\<close>

definition rotate_key_route ::
  "(string \<Rightarrow> 'k option) \<Rightarrow> ('k \<Rightarrow> string) \<Rightarrow> (js_value \<Rightarrow> (string \<times> string) list) \<Rightarrow> secrets_env \<Rightarrow> secrets_world
    \<Rightarrow> string option \<Rightarrow> js_value \<Rightarrow> int \<Rightarrow> 'k signer \<Rightarrow> response \<times> 'k signer" where
  "rotate_key_route from_secret public_key issues env w authorization b now st =
     (case rotation_gate env authorization of
        Some r \<Rightarrow> (r, st)
      | None \<Rightarrow>
          (case validate rotate_key_schema issues b of
             Respond r \<Rightarrow> (r, st)
           | Next p \<Rightarrow>
               (case rotate_by_body from_secret env w p now st of
                  (Inl e, st') \<Rightarrow> (error_handler (thrown_of e), st')
                | (Inr (k, at_time, source), st') \<Rightarrow>
                    (\<lparr>rstatus = 200, rbody = JObj [(''publicKey'', JStr (public_key k)), (''rotatedAt'', JStr at_time),
                        (''source'', JStr source)]\<rparr>, st'))))"

section \<open>rpcSigning.js\<close>

record 'k rpc_signing =
  rs_enabled :: bool
  rs_window :: "int option"
  rs_secret :: "string option"
  rs_from_secret :: "string \<Rightarrow> 'k option"
  rs_from_public :: "string \<Rightarrow> 'k option"
  rs_public :: "'k \<Rightarrow> string"
  rs_sign :: "'k \<Rightarrow> string \<Rightarrow> string"
  rs_verify :: "'k \<Rightarrow> string \<Rightarrow> string \<Rightarrow> bool"
  rs_sha :: "string \<Rightarrow> string"

text \<open>The key is parsed once and kept: the argument is \<open>_keypair\<close>, which a rotation does not touch.\<close>

definition rpc_keypair :: "'k rpc_signing \<Rightarrow> 'k option \<Rightarrow> 'k res \<times> 'k option" where
  "rpc_keypair c cached =
     (case cached of
        Some k \<Rightarrow> (Inr k, cached)
      | None \<Rightarrow>
          if \<not> truthy (rs_secret c)
          then (Inl (PlainError ''SERVER_SECRET_KEY is required when SOROBAN_RPC_SIGNING_ENABLED=true''), None)
          else case rs_from_secret c (the (rs_secret c)) of
            None \<Rightarrow> (Inl (PlainError ''invalid encoded string''), None)
          | Some k \<Rightarrow> (Inr k, Some k))"

definition body_text :: "json \<Rightarrow> string" where
  "body_text b = (case b of JStr s \<Rightarrow> s | _ \<Rightarrow> json_stringify b)"

definition rpc_digest :: "'k rpc_signing \<Rightarrow> string \<Rightarrow> string \<Rightarrow> string" where
  "rpc_digest c timestamp text = rs_sha c (timestamp @ '':'' @ text)"

definition build_signing_headers ::
  "'k rpc_signing \<Rightarrow> json \<Rightarrow> int \<Rightarrow> 'k option \<Rightarrow> (string \<times> string) list res \<times> 'k option" where
  "build_signing_headers c b now cached =
     (if \<not> rs_enabled c then (Inr [], cached)
      else case rpc_keypair c cached of
        (Inl e, cached') \<Rightarrow> (Inl e, cached')
      | (Inr k, cached') \<Rightarrow>
          let timestamp = int_str (now div 1000);
              signature = rs_sign c k (rpc_digest c timestamp (body_text b))
          in (Inr [(''X-Stellar-Signature'', b64_encode signature), (''X-Stellar-Timestamp'', timestamp),
                   (''X-Stellar-Public-Key'', rs_public c k)], cached'))"

text \<open>A timestamp or a window that is no number makes the comparison false.\<close>

definition outside_window :: "'k rpc_signing \<Rightarrow> string \<Rightarrow> int \<Rightarrow> bool" where
  "outside_window c timestamp now =
     (case (parse_int10 timestamp, rs_window c) of
        (Some t, Some w) \<Rightarrow> w < \<bar>now div 1000 - t\<bar>
      | _ \<Rightarrow> False)"

definition verify_response_signature ::
  "'k rpc_signing \<Rightarrow> string \<Rightarrow> string \<Rightarrow> json \<Rightarrow> string \<Rightarrow> int \<Rightarrow> bool" where
  "verify_response_signature c sig timestamp b public now =
     (if \<not> rs_enabled c then True
      else if outside_window c timestamp now then False
      else case rs_from_public c public of
        None \<Rightarrow> False
      | Some k \<Rightarrow> rs_verify c k (rpc_digest c timestamp (body_text b)) (b64_decode sig))"

definition signed_fetch_headers ::
  "'k rpc_signing \<Rightarrow> (string, string) jsmap \<Rightarrow> json option \<Rightarrow> int \<Rightarrow> 'k option
    \<Rightarrow> (string, string) jsmap res \<times> 'k option" where
  "signed_fetch_headers c hs b now cached =
     (if \<not> rs_enabled c then (Inr hs, cached)
      else case build_signing_headers c (JStr (case b of None \<Rightarrow> [] | Some x \<Rightarrow> body_text x)) now cached of
        (Inl e, cached') \<Rightarrow> (Inl e, cached')
      | (Inr sig, cached') \<Rightarrow> (Inr (foldl (\<lambda>acc p. map_set (fst p) (snd p) acc) hs sig), cached'))"

section \<open>Rotation\<close>

definition holds_key :: "(string \<Rightarrow> 'k option) \<Rightarrow> 'k \<times> string \<times> string \<Rightarrow> 'k signer \<Rightarrow> bool" where
  "holds_key from_secret x st \<longleftrightarrow>
     (\<exists>s. starts_with s ''S'' \<and> from_secret s = Some (fst x))
     \<and> st = \<lparr>sg_active = Some (fst x), sg_rotated_at = Some (fst (snd x)), sg_source = Some (snd (snd x))\<rparr>"

lemma parse_signing_secret_key: "parse_signing_secret from_secret v = Inr k \<Longrightarrow> \<exists>s. starts_with s ''S'' \<and> from_secret s = Some k"
  by (auto simp: parse_signing_secret_def split: option.splits if_splits)

text \<open>A rotation throws and leaves the key, or it puts the parsed key in place.\<close>

lemma rotate_outcome:
  "(\<exists>e. rotate_signing_key from_secret v source now st = (Inl e, st))
   \<or> (\<exists>x st'. rotate_signing_key from_secret v source now st = (Inr x, st') \<and> holds_key from_secret x st')"
  using parse_signing_secret_key [of from_secret v]
  by (auto simp: rotate_signing_key_def holds_key_def set_active_keypair_def split: sum.split)

lemma body_outcome:
  "(\<exists>e. rotate_by_body from_secret env w b now st = (Inl e, st))
   \<or> (\<exists>x st'. rotate_by_body from_secret env w b now st = (Inr x, st') \<and> holds_key from_secret x st')"
  using rotate_outcome [of from_secret]
  by (auto simp: rotate_by_body_def reload_from_provider_def reload_from_file_def split: sum.split option.split)

text \<open>
  The key in memory changes only for a request that carries the configured token, and then it is a key the
  SDK parsed from a secret, the one the answer names; in every other case the old key stays.
\<close>

theorem rotation_guarded:
  assumes "rotate_key_route from_secret public_key issues env w authorization b now st = (r, st')"
  shows "st' = st \<or>
    (\<exists>token x. ev_rotate_token env = Some token \<and> trim token \<noteq> [] \<and> bearer_token authorization = Some (trim token)
       \<and> holds_key from_secret x st' \<and> r = \<lparr>rstatus = 200, rbody = JObj [(''publicKey'', JStr (public_key (fst x))),
            (''rotatedAt'', JStr (fst (snd x))), (''source'', JStr (snd (snd x)))]\<rparr>)"
proof (cases "rotation_gate env authorization")
  case None
  then obtain token where token: "ev_rotate_token env = Some token" "trim token \<noteq> []" "bearer_token authorization = Some (trim token)"
    by (auto simp: rotation_gate_def is_admin_rotate_token_valid_def normalize_secret_def truthy_iff split: if_splits option.splits)
  show ?thesis
  proof (cases "validate rotate_key_schema issues b")
    case (Next p)
    consider e where "rotate_by_body from_secret env w p now st = (Inl e, st)"
      | x st'' where "rotate_by_body from_secret env w p now st = (Inr x, st'')" "holds_key from_secret x st''"
      using body_outcome [of from_secret env w p now st] by blast
    then show ?thesis
    proof cases
      case 1
      then show ?thesis using Next None assms by (simp add: rotate_key_route_def)
    next
      case 2
      then have "st'' = st'" "r = \<lparr>rstatus = 200, rbody = JObj [(''publicKey'', JStr (public_key (fst x))),
            (''rotatedAt'', JStr (fst (snd x))), (''source'', JStr (snd (snd x)))]\<rparr>"
        using Next None assms by (simp_all add: rotate_key_route_def split: prod.splits)
      then show ?thesis using token 2(2) by blast
    qed
  qed (use None assms in \<open>simp add: rotate_key_route_def\<close>)
qed (use assms in \<open>simp add: rotate_key_route_def\<close>)

section \<open>Signed RPC requests\<close>

text \<open>
  The headers of a request verify against the key they name exactly while the two clocks, in seconds, are
  at most the replay window apart.
\<close>

theorem rpc_signature_window:
  assumes "rs_enabled c" and "rs_window c = Some w"
    and "fst (build_signing_headers c b now cached) =
      Inr [(''X-Stellar-Signature'', sig), (''X-Stellar-Timestamp'', timestamp), (''X-Stellar-Public-Key'', public)]"
    and "\<And>k. public = rs_public c k \<Longrightarrow> rs_from_public c public = Some (pk k)"
    and "\<And>k m. rs_verify c (pk k) m (rs_sign c k m)"
  shows "verify_response_signature c sig timestamp b public later \<longleftrightarrow> \<bar>later div 1000 - now div 1000\<bar> \<le> w"
proof -
  obtain k where k: "sig = b64_encode (rs_sign c k (rpc_digest c timestamp (body_text b)))" "timestamp = int_str (now div 1000)"
    "public = rs_public c k"
  proof -
    obtain q cached' where q: "rpc_keypair c cached = (q, cached')" by (cases "rpc_keypair c cached")
    have hs: "fst (build_signing_headers c b now cached) = (case q of Inl e \<Rightarrow> Inl e
        | Inr k \<Rightarrow> Inr [(''X-Stellar-Signature'', b64_encode (rs_sign c k (rpc_digest c (int_str (now div 1000)) (body_text b)))),
            (''X-Stellar-Timestamp'', int_str (now div 1000)), (''X-Stellar-Public-Key'', rs_public c k)])"
      by (cases q) (simp_all only: build_signing_headers_def q assms(1) Let_def prod.case sum.case fst_conv not_True_eq_False if_False)
    show ?thesis
    proof (cases q)
      case (Inl e)
      then show ?thesis using assms(3) unfolding hs by simp
    next
      case (Inr k)
      then have "sig = b64_encode (rs_sign c k (rpc_digest c (int_str (now div 1000)) (body_text b)))"
        "timestamp = int_str (now div 1000)" "public = rs_public c k"
        using assms(3) unfolding hs by auto
      then show ?thesis using that by blast
    qed
  qed
  have "outside_window c timestamp later \<longleftrightarrow> w < \<bar>later div 1000 - now div 1000\<bar>"
    by (simp add: outside_window_def k(2) parse_int10_int_str assms(2))
  moreover have "rs_from_public c public = Some (pk k)" by (rule assms(4) [OF k(3)])
  moreover have "rs_verify c (pk k) (rpc_digest c timestamp (body_text b)) (b64_decode sig)"
    unfolding k(1) b64_decode_encode by (rule assms(5))
  ultimately show ?thesis by (simp add: verify_response_signature_def assms(1) not_less)
qed

text \<open>A signed response whose timestamp is no number never leaves the window.\<close>

lemma no_number_never_expires: "parse_int10 timestamp = None \<Longrightarrow> \<not> outside_window c timestamp now"
  by (simp add: outside_window_def)

section \<open>Concrete runs\<close>

definition demo_secrets :: secrets_env where
  "demo_secrets = \<lparr>ev_provider = None, ev_aws_name = None, ev_vault_addr = None, ev_vault_token = None, ev_vault_path = None,
     ev_key_file = None, ev_server_key = Some ''SAB'', ev_encryption_key = None, ev_rotate_token = Some '' tok ''\<rparr>"

definition demo_secrets_world :: secrets_world where
  "demo_secrets_world = \<lparr>sw_aws = Inr (None, None), sw_vault = Inl (PlainError ''offline''), sw_file = (\<lambda>_. None),
     sw_json_error = (\<lambda>_. [])\<rparr>"

definition demo_rpc :: "string rpc_signing" where
  "demo_rpc = \<lparr>rs_enabled = True, rs_window = Some 30, rs_secret = Some ''SAB'', rs_from_secret = (\<lambda>s. Some (tl s)),
     rs_from_public = (\<lambda>s. Some (tl s)), rs_public = (\<lambda>k. CHR ''G'' # k), rs_sign = (\<lambda>k m. k @ m),
     rs_verify = (\<lambda>k m s. s = k @ m), rs_sha = id\<rparr>"

theorem rotation_guarded_witness:
  "snd (rotate_key_route (\<lambda>s. Some (tl s)) (\<lambda>k. CHR ''G'' # k) (\<lambda>_. []) demo_secrets demo_secrets_world (Some ''Bearer tok'')
      (VObj [(''reloadFromProvider'', VBool True)]) 5 no_signer) \<noteq> no_signer
   \<and> (\<exists>x. holds_key (\<lambda>s. Some (tl s)) x (snd (rotate_key_route (\<lambda>s. Some (tl s)) (\<lambda>k. CHR ''G'' # k) (\<lambda>_. []) demo_secrets
        demo_secrets_world (Some ''Bearer tok'') (VObj [(''reloadFromProvider'', VBool True)]) 5 no_signer)))"
proof -
  let ?run = "rotate_key_route (\<lambda>s. Some (tl s)) (\<lambda>k. CHR ''G'' # k) (\<lambda>_. []) demo_secrets demo_secrets_world (Some ''Bearer tok'')
      (VObj [(''reloadFromProvider'', VBool True)]) 5 no_signer"
  have t: "trim '' tok '' = ''tok''" "trim (drop 7 ''Bearer tok'') = ''tok''" "starts_with ''Bearer tok'' ''Bearer ''" "trim ''SAB'' = ''SAB''"
    "starts_with ''SAB'' ''S''" by code_simp+
  have "rotation_gate demo_secrets (Some ''Bearer tok'') = None"
    using t by (simp add: rotation_gate_def demo_secrets_def is_admin_rotate_token_valid_def normalize_secret_def bearer_token_def)
  moreover have "validate rotate_key_schema (\<lambda>_. []) (VObj [(''reloadFromProvider'', VBool True)]) =
      Next (VObj [(''reloadFromProvider'', VBool True)])"
    by (simp add: validate_def rotate_key_schema_def z_refine_def z_object_def z_optional_def z_bool_def prop_of_def field_def)
  moreover have "load_signing_secret demo_secrets demo_secrets_world = Inr (VStr ''SAB'')"
    using t by (simp add: load_signing_secret_def chosen_provider_def detect_provider_def demo_secrets_def load_from_env_def)
  ultimately have "sg_active (snd ?run) = Some ''AB''"
    using t by (simp add: rotate_key_route_def rotate_by_body_def field_def prop_of_def value_truthy_def reload_from_provider_def
        rotate_signing_key_def parse_signing_secret_def normalize_secret_def set_active_keypair_def)
  then have "snd ?run \<noteq> no_signer" by (auto simp: no_signer_def)
  then show ?thesis using rotation_guarded [OF surjective_pairing, of "\<lambda>s. Some (tl s)" "\<lambda>k. CHR ''G'' # k" "\<lambda>_. []" demo_secrets
        demo_secrets_world "Some ''Bearer tok''" "VObj [(''reloadFromProvider'', VBool True)]" 5 no_signer] by blast
qed

theorem rpc_signature_window_witness:
  "\<exists>sig. verify_response_signature demo_rpc sig ''0'' (JStr ''x'') ''GAB'' 30000
     \<and> \<not> verify_response_signature demo_rpc sig ''0'' (JStr ''x'') ''GAB'' 31000"
proof -
  have zero: "int_str 0 = ''0''" by code_simp
  have "fst (build_signing_headers demo_rpc (JStr ''x'') 0 (Some ''AB'')) =
      Inr [(''X-Stellar-Signature'', b64_encode (rs_sign demo_rpc ''AB'' (rpc_digest demo_rpc ''0'' ''x''))),
           (''X-Stellar-Timestamp'', ''0''), (''X-Stellar-Public-Key'', ''GAB'')]"
    by (simp add: build_signing_headers_def rpc_keypair_def demo_rpc_def zero body_text_def Let_def)
  from rpc_signature_window [OF _ _ this, of 30 "\<lambda>k. k"]
  have "verify_response_signature demo_rpc (b64_encode (rs_sign demo_rpc ''AB'' (rpc_digest demo_rpc ''0'' ''x''))) ''0'' (JStr ''x'')
      ''GAB'' later \<longleftrightarrow> \<bar>later div 1000\<bar> \<le> 30" for later
    by (simp add: demo_rpc_def)
  from this [of 30000] this [of 31000] show ?thesis by auto
qed

end
