(* ===== verification/ContributorStatus.thy ===== *)
theory ContributorStatus
  imports Communications
begin

text \<open>
  Suspension of contributors: \<open>database/contributor-status.js\<close> and \<open>routes/contributor-status.js\<close> under
  \<open>src/backend/src\<close>.  No migration creates the table \<open>contributor_status\<close>, so a store may lack it and then
  every statement throws; the upsert requires its rows to be unique by contract and address.  The
  column \<open>createdAt\<close>, which no statement writes, is \<open>None\<close>.
\<close>

section \<open>database/contributor-status.js\<close>

record status_row =
  cs_contract :: string
  cs_address :: string
  cs_status :: string
  cs_reason :: "string option"
  cs_suspended :: "string option"
  cs_deactivated :: "string option"
  cs_by :: "string option"
  cs_created :: "string option"
  cs_updated :: string

record status_store =
  st_ledger :: ledger
  st_rows :: "status_row table option"

type_synonym 'a status_op = "(status_store, 'a) db_op"

definition of_pair :: "string \<Rightarrow> string \<Rightarrow> nat \<times> status_row \<Rightarrow> bool" where
  "of_pair c a x \<longleftrightarrow> cs_contract (snd x) = c \<and> cs_address (snd x) = a"

definition status_query :: "(status_row table \<Rightarrow> 'a) \<Rightarrow> 'a status_op" where
  "status_query f d =
     (case st_rows (tables d) of
        None \<Rightarrow> (Inl (no_table ''contributor_status''), d)
      | Some s \<Rightarrow> (Inr (f s), d))"

definition get_contributor_status :: "string \<Rightarrow> string \<Rightarrow> (nat \<times> status_row) option status_op" where
  "get_contributor_status c a = status_query (t_get (of_pair c a))"

definition listed_status :: "string \<Rightarrow> bool \<Rightarrow> nat \<times> status_row \<Rightarrow> bool" where
  "listed_status c include_active x \<longleftrightarrow>
     cs_contract (snd x) = c \<and> (include_active \<or> cs_status (snd x) \<noteq> ''active'')"

definition list_contributor_statuses :: "string \<Rightarrow> bool \<Rightarrow> (nat \<times> status_row) list status_op" where
  "list_contributor_statuses c include_active = status_query (\<lambda>s.
     order_desc (\<lambda>x. cs_updated (snd x)) (t_select (listed_status c include_active) s))"

text \<open>A call of \<open>setContributorStatus\<close>, with its time.\<close>

record status_change =
  sc_contract :: string
  sc_address :: string
  sc_status :: string
  sc_reason :: "string option"
  sc_by :: "string option"
  sc_now :: int

definition change_time :: "string \<Rightarrow> status_change \<Rightarrow> string option" where
  "change_time st x = (if sc_status x = st then Some (to_iso (sc_now x)) else None)"

definition new_status_row :: "status_change \<Rightarrow> status_row" where
  "new_status_row x =
     \<lparr>cs_contract = sc_contract x, cs_address = sc_address x, cs_status = sc_status x, cs_reason = sc_reason x,
      cs_suspended = change_time ''suspended'' x, cs_deactivated = change_time ''deactivated'' x,
      cs_by = sc_by x, cs_created = None, cs_updated = to_iso (sc_now x)\<rparr>"

definition status_conflict :: "status_change \<Rightarrow> status_row \<Rightarrow> status_row" where
  "status_conflict x r = r\<lparr>cs_status := sc_status x, cs_reason := sc_reason x,
     cs_suspended := (if sc_status x = ''suspended'' then change_time ''suspended'' x else cs_suspended r),
     cs_deactivated := (if sc_status x = ''deactivated'' then change_time ''deactivated'' x else cs_deactivated r),
     cs_by := sc_by x, cs_updated := to_iso (sc_now x)\<rparr>"

definition put_status :: "status_change \<Rightarrow> status_row table \<Rightarrow> status_row table" where
  "put_status x s =
     (let P = of_pair (sc_contract x) (sc_address x) in
      if t_get P s \<noteq> None then t_update P (status_conflict x) s else snd (t_insert (new_status_row x) s))"

definition upsert_status :: "status_change \<Rightarrow> unit status_op" where
  "upsert_status x d =
     (case st_rows (tables d) of
        None \<Rightarrow> (Inl (no_table ''contributor_status''), d)
      | Some s \<Rightarrow> (Inr (), d\<lparr>tables := (tables d)\<lparr>st_rows := Some (put_status x s)\<rparr>\<rparr>))"

definition set_contributor_status :: "status_change \<Rightarrow> (nat \<times> status_row) option status_op" where
  "set_contributor_status x =
     op_bind (upsert_status x) (\<lambda>_. op_bind count_write (\<lambda>_. get_contributor_status (sc_contract x) (sc_address x)))"

definition is_contributor_blocked :: "string \<Rightarrow> string \<Rightarrow> bool status_op" where
  "is_contributor_blocked c a = status_query (\<lambda>s.
     case t_get (of_pair c a) s of None \<Rightarrow> False | Some x \<Rightarrow> cs_status (snd x) \<noteq> ''active'')"

section \<open>routes/contributor-status.js\<close>

definition set_status_schema :: schema where
  "set_status_schema = z_object
     [(''status'', z_enum [''active'', ''suspended'', ''deactivated'']),
      (''reason'', z_nullable (z_optional (text_between 0 500))),
      (''updatedBy'', z_nullable (z_optional (z_string account_regex)))]"

definition status_json :: "nat \<times> status_row \<Rightarrow> json" where
  "status_json x = JObj
     [(''id'', JNum (int (fst x))), (''contractId'', JStr (cs_contract (snd x))), (''address'', JStr (cs_address (snd x))),
      (''status'', JStr (cs_status (snd x))), (''reason'', opt_json (cs_reason (snd x))),
      (''suspendedAt'', opt_json (cs_suspended (snd x))), (''deactivatedAt'', opt_json (cs_deactivated (snd x))),
      (''updatedBy'', opt_json (cs_by (snd x))), (''createdAt'', opt_json (cs_created (snd x))),
      (''updatedAt'', JStr (cs_updated (snd x)))]"

definition active_json :: "string \<Rightarrow> string \<Rightarrow> json" where
  "active_json c a = JObj
     [(''contractId'', JStr c), (''address'', JStr a), (''status'', JStr ''active''), (''reason'', JNull),
      (''suspendedAt'', JNull), (''deactivatedAt'', JNull), (''updatedBy'', JNull)]"

definition status_or_null :: "(nat \<times> status_row) option \<Rightarrow> json" where
  "status_or_null v = (case v of None \<Rightarrow> JNull | Some x \<Rightarrow> status_json x)"

definition bad_status_address :: response where
  "bad_status_address = send_error 400 (Some ''invalid_stellar_address'') ''Invalid Stellar address format'' []"

definition for_contract :: "string \<Rightarrow> ('s \<Rightarrow> response \<times> 's) \<Rightarrow> 's \<Rightarrow> response \<times> 's" where
  "for_contract c h a = (case validate_contract_id_middleware (VStr c) of Respond r \<Rightarrow> (r, a) | Next _ \<Rightarrow> h a)"

definition list_statuses_route :: "string \<Rightarrow> string option \<Rightarrow> status_store db \<Rightarrow> response \<times> status_store db" where
  "list_statuses_route c include_active = for_contract c
     (or_next (op_bind (list_contributor_statuses c (include_active = Some ''true''))
        (\<lambda>rows. op_return (data_response 200 (JArr (map status_json rows))))))"

definition get_status_route :: "string \<Rightarrow> string \<Rightarrow> status_store db \<Rightarrow> response \<times> status_store db" where
  "get_status_route c a = for_contract c (\<lambda>d.
     if \<not> account_regex a then (bad_status_address, d)
     else or_next (op_bind (get_contributor_status c a)
            (\<lambda>v. op_return (data_response 200 (case v of None \<Rightarrow> active_json c a | Some x \<Rightarrow> status_json x)))) d)"

definition change_of_body :: "string \<Rightarrow> string \<Rightarrow> js_value \<Rightarrow> int \<Rightarrow> status_change" where
  "change_of_body c a b now =
     \<lparr>sc_contract = c, sc_address = a, sc_status = text_field ''status'' b, sc_reason = str_of (field ''reason'' b),
      sc_by = str_of (field ''updatedBy'' b), sc_now = now\<rparr>"

definition status_audit :: "status_change \<Rightarrow> unit status_op" where
  "status_audit x = op_within st_ledger (\<lambda>l t. t\<lparr>st_ledger := l\<rparr>)
     (add_audit_log (sc_contract x) (''contributor_'' @ sc_status x) (sc_by x)
        (JObj [(''address'', JStr (sc_address x)), (''status'', JStr (sc_status x)), (''reason'', opt_json (sc_reason x))])
        (sc_now x))"

definition post_status :: "string \<Rightarrow> string \<Rightarrow> int \<Rightarrow> js_value \<Rightarrow> status_store db \<Rightarrow> response \<times> status_store db" where
  "post_status c a now b d =
     (if \<not> account_regex a then (bad_status_address, d)
      else or_next (op_bind (set_contributor_status (change_of_body c a b now)) (\<lambda>v.
             op_bind (status_audit (change_of_body c a b now)) (\<lambda>_.
             op_return (data_response 200 (status_or_null v))))) d)"

text \<open>The role is what \<open>attachRole\<close> put on the request.\<close>

definition post_status_route ::
  "(js_value \<Rightarrow> (string \<times> string) list) \<Rightarrow> string \<Rightarrow> string \<Rightarrow> string \<Rightarrow> js_value \<Rightarrow> int
    \<Rightarrow> status_store db \<Rightarrow> response \<times> status_store db" where
  "post_status_route issues role c a b now d =
     (case require_role ''operator'' of
        Inl e \<Rightarrow> (error_handler (thrown_of e), d)
      | Inr gate \<Rightarrow> gated (gate (Some role))
          (for_contract c (validated set_status_schema issues (post_status c a now) b)) d)"

section \<open>The status is that of the last change\<close>

text \<open>The specification: what a list of changes of one contributor leaves behind.\<close>

definition latest_change :: "string \<Rightarrow> status_change list \<Rightarrow> string option" where
  "latest_change st xs = (case rev (filter (\<lambda>x. sc_status x = st) xs) of [] \<Rightarrow> None | x # _ \<Rightarrow> Some (to_iso (sc_now x)))"

definition status_after :: "string \<Rightarrow> string \<Rightarrow> status_change list \<Rightarrow> status_row option" where
  "status_after c a xs =
     (case rev xs of
        [] \<Rightarrow> None
      | x # _ \<Rightarrow> Some \<lparr>cs_contract = c, cs_address = a, cs_status = sc_status x, cs_reason = sc_reason x,
          cs_suspended = latest_change ''suspended'' xs, cs_deactivated = latest_change ''deactivated'' xs,
          cs_by = sc_by x, cs_created = None, cs_updated = to_iso (sc_now x)\<rparr>)"

definition changes_of :: "string \<Rightarrow> string \<Rightarrow> status_change list \<Rightarrow> status_change list" where
  "changes_of c a xs = filter (\<lambda>x. sc_contract x = c \<and> sc_address x = a) xs"

definition run_changes :: "status_change list \<Rightarrow> status_store db \<Rightarrow> status_store db" where
  "run_changes xs d = foldl (\<lambda>e x. snd (set_contributor_status x e)) d xs"

lemma latest_change_snoc:
  "latest_change st (xs @ [x]) = (if sc_status x = st then Some (to_iso (sc_now x)) else latest_change st xs)"
  by (simp add: latest_change_def)

lemma changes_of_snoc:
  "changes_of c a (xs @ [x]) = changes_of c a xs @ (if sc_contract x = c \<and> sc_address x = a then [x] else [])"
  by (simp add: changes_of_def)

lemma conflict_pair [simp]: "of_pair c a (i, status_conflict x r) = of_pair c a (i, r)"
  by (simp add: of_pair_def status_conflict_def)

lemma new_row_pair: "of_pair c a (i, new_status_row x) \<longleftrightarrow> sc_contract x = c \<and> sc_address x = a"
  by (auto simp: of_pair_def new_status_row_def)

lemma put_status_get:
  "map_option snd (t_get (of_pair c a) (put_status x s)) =
     (if sc_contract x = c \<and> sc_address x = a
      then Some (case t_get (of_pair c a) s of None \<Rightarrow> new_status_row x | Some y \<Rightarrow> status_conflict x (snd y))
      else map_option snd (t_get (of_pair c a) s))"
proof -
  let ?P = "of_pair (sc_contract x) (sc_address x)"
  have stable: "t_get (of_pair c a) (t_update ?P (status_conflict x) s) =
      map_option (\<lambda>y. if ?P y then (fst y, status_conflict x (snd y)) else y) (t_get (of_pair c a) s)"
    by (rule t_get_update_stable) (simp add: of_pair_def status_conflict_def)
  have other: "\<not> ?P y" if "of_pair c a y" "\<not> (sc_contract x = c \<and> sc_address x = a)" for y
    using that by (auto simp: of_pair_def)
  show ?thesis
  proof (cases "t_get ?P s")
    case None
    then show ?thesis by (auto simp: put_status_def t_get_insert new_row_pair split: option.splits)
  next
    case (Some z)
    then have "t_get (of_pair c a) (put_status x s) =
        map_option (\<lambda>y. if ?P y then (fst y, status_conflict x (snd y)) else y) (t_get (of_pair c a) s)"
      using stable by (simp add: put_status_def)
    moreover have "?P y" if "t_get ?P s = Some y" for y using t_get_Some [OF that] by simp
    moreover have "of_pair c a y" if "t_get (of_pair c a) s = Some y" for y using t_get_Some [OF that] by simp
    ultimately show ?thesis using Some other by (auto simp: option.map_comp split: option.splits)
  qed
qed

text \<open>The last change of a list decides, and the times accumulate.\<close>

lemma status_after_some:
  assumes "status_after c a zs = Some r"
  shows "status_after c a (zs @ [x]) = Some (status_conflict x r)"
  using assms by (auto simp: status_after_def latest_change_snoc status_conflict_def change_time_def split: list.splits)

lemma status_after_step:
  assumes "map_option snd (t_get (of_pair c a) s) = status_after c a (changes_of c a xs)"
  shows "map_option snd (t_get (of_pair c a) (put_status x s)) = status_after c a (changes_of c a (xs @ [x]))"
proof (cases "sc_contract x = c \<and> sc_address x = a")
  case False
  then show ?thesis unfolding put_status_get changes_of_snoc using assms by auto
next
  case True
  show ?thesis
  proof (cases "changes_of c a xs" rule: rev_cases)
    case Nil
    then have "t_get (of_pair c a) s = None" using assms by (simp add: status_after_def)
    then show ?thesis using True Nil
      by (simp add: put_status_get changes_of_snoc status_after_def latest_change_def new_status_row_def change_time_def)
  next
    case (snoc ys y)
    then obtain z where z: "t_get (of_pair c a) s = Some z" "status_after c a (changes_of c a xs) = Some (snd z)"
      using assms by (cases "t_get (of_pair c a) s") (simp_all add: status_after_def)
    then show ?thesis using True status_after_some [OF z(2), of x]
      by (simp add: put_status_get changes_of_snoc)
  qed
qed

lemma set_status_rows:
  "st_rows (tables d) = Some s \<Longrightarrow> tables (snd (set_contributor_status x d)) = (tables d)\<lparr>st_rows := Some (put_status x s)\<rparr>"
  by (cases "counting d") (simp_all add: set_contributor_status_def upsert_status_def op_bind_def count_write_ok
      count_write_fails get_contributor_status_def status_query_def)

lemma run_changes_rows:
  assumes "st_rows (tables d) = Some t_empty"
  shows "\<exists>s. st_rows (tables (run_changes xs d)) = Some s
    \<and> map_option snd (t_get (of_pair c a) s) = status_after c a (changes_of c a xs)"
proof (induction xs rule: rev_induct)
  case Nil
  show ?case using assms by (simp add: run_changes_def changes_of_def status_after_def t_get_def t_empty_def)
next
  case (snoc x xs)
  then obtain s where s: "st_rows (tables (run_changes xs d)) = Some s"
    "map_option snd (t_get (of_pair c a) s) = status_after c a (changes_of c a xs)" by blast
  have "st_rows (tables (run_changes (xs @ [x]) d)) = Some (put_status x s)"
    using set_status_rows [OF s(1), of x] by (simp add: run_changes_def)
  then show ?case using status_after_step [OF s(2)] by blast
qed

text \<open>C26: 
  However changes of status interleave over contracts and addresses, and on either connection, the stored
  record of a contributor is the specified one: status, reason and operator of its last change, the
  times of its last suspension and deactivation.  It is blocked exactly if that last status is not active.
\<close>

theorem status_is_last_change:
  assumes "st_rows (tables d) = Some t_empty"
  shows "(\<exists>v. fst (get_contributor_status c a (run_changes xs d)) = Inr v
      \<and> map_option snd v = status_after c a (changes_of c a xs))
    \<and> fst (is_contributor_blocked c a (run_changes xs d)) =
        Inr (case status_after c a (changes_of c a xs) of None \<Rightarrow> False | Some r \<Rightarrow> cs_status r \<noteq> ''active'')"
proof -
  obtain s where s: "st_rows (tables (run_changes xs d)) = Some s"
    "map_option snd (t_get (of_pair c a) s) = status_after c a (changes_of c a xs)"
    using run_changes_rows [OF assms] by blast
  have "(case t_get (of_pair c a) s of None \<Rightarrow> False | Some x \<Rightarrow> cs_status (snd x) \<noteq> ''active'') =
      (case status_after c a (changes_of c a xs) of None \<Rightarrow> False | Some r \<Rightarrow> cs_status r \<noteq> ''active'')"
    unfolding s(2) [symmetric] by (simp split: option.split)
  then show ?thesis using s by (simp add: get_contributor_status_def is_contributor_blocked_def status_query_def)
qed

section \<open>A change is stored and answered 500\<close>

lemma contributor_action_unsupported: "''contributor_'' @ st \<notin> set audit_actions"
  by (simp add: audit_actions_def)

lemma status_audit_refused:
  "status_audit x d = (Inl (PlainError (''Refusing to record unsupported audit action: contributor_'' @ sc_status x)), d)"
  using refused_audit [OF contributor_action_unsupported [of "sc_status x"]]
  by (cases d; cases "tables d") (simp add: status_audit_def op_within_def)

lemma set_status_result:
  assumes "st_rows (tables d) = Some s"
  shows "fst (set_contributor_status x d) =
    (if counting d then Inr (t_get (of_pair (sc_contract x) (sc_address x)) (put_status x s))
     else Inl (ReferenceError ''_writeCount is not defined''))"
  using assms by (simp add: set_contributor_status_def upsert_status_def op_bind_def count_write_ok count_write_fails
      get_contributor_status_def status_query_def)

lemma handled_500: "(\<And>s c m. e \<noteq> HttpError s c m) \<Longrightarrow> rstatus (error_handler (thrown_of e)) = 500"
  by (cases e) (auto simp: error_handler_def thrown_of_def send_error_def Let_def)

lemma post_status_fails:
  assumes "st_rows (tables d) = Some s" "account_regex a"
  shows "rstatus (fst (post_status c a now b d)) = 500
    \<and> tables (snd (post_status c a now b d)) = (tables d)\<lparr>st_rows := Some (put_status (change_of_body c a b now) s)\<rparr>"
proof -
  let ?x = "change_of_body c a b now"
  obtain d' where d': "snd (set_contributor_status ?x d) = d'" by blast
  have t: "tables d' = (tables d)\<lparr>st_rows := Some (put_status ?x s)\<rparr>"
    using set_status_rows [OF assms(1), of ?x] d' by simp
  have "set_contributor_status ?x d = (fst (set_contributor_status ?x d), d')" using d' by (metis prod.collapse)
  then show ?thesis using assms t set_status_result [OF assms(1), of ?x]
    by (cases "counting d")
      (auto simp: post_status_def or_next_def op_bind_def status_audit_refused intro!: handled_500)
qed

text \<open>
  Every change of status the route accepts is stored and takes effect, yet it is answered 500: the audit
  log supports no action \<open>contributor_...\<close>, so the change leaves no audit entry and no success.
\<close>

theorem status_change_unanswered:
  assumes "st_rows (tables d) = Some s" and "role = ''operator'' \<or> role = ''admin''"
    and "contract_regex c" and "account_regex a" and "validate set_status_schema issues b = Next p"
    and "out = post_status_route issues role c a b now d"
  shows "rstatus (fst out) = 500 \<and> st_ledger (tables (snd out)) = st_ledger (tables d)
    \<and> fst (is_contributor_blocked c a (snd out)) = Inr (text_field ''status'' p \<noteq> ''active'')"
proof -
  have "out = post_status c a now p d"
    using assms(2,3,5,6) by (auto simp: post_status_route_def require_role_def roles_def role_or_viewer_def gated_def
        for_contract_def validate_contract_id_middleware_def validated_def Let_def)
  then have out: "rstatus (fst out) = 500"
    "tables (snd out) = (tables d)\<lparr>st_rows := Some (put_status (change_of_body c a p now) s)\<rparr>"
    using post_status_fails [OF assms(1,4), of c now p] by simp_all
  obtain y where y: "t_get (of_pair c a) (put_status (change_of_body c a p now) s) = Some y"
    "cs_status (snd y) = text_field ''status'' p"
    using put_status_get [of c a "change_of_body c a p now" s]
    by (auto simp: change_of_body_def new_status_row_def status_conflict_def split: option.splits)
  then show ?thesis using out by (simp add: is_contributor_blocked_def status_query_def)
qed

section \<open>Concrete runs\<close>

definition demo_status :: status_store where
  "demo_status = \<lparr>st_ledger = empty_ledger, st_rows = Some t_empty\<rparr>"

definition demo_change :: "string \<Rightarrow> string \<Rightarrow> int \<Rightarrow> status_change" where
  "demo_change a st now = \<lparr>sc_contract = ''C1'', sc_address = a, sc_status = st, sc_reason = None, sc_by = None, sc_now = now\<rparr>"

theorem status_is_last_change_witness:
  "fst (is_contributor_blocked ''C1'' ''G1'' (run_changes
      [demo_change ''G1'' ''suspended'' 0, demo_change ''G2'' ''deactivated'' 1, demo_change ''G1'' ''active'' 2]
      (core_connection demo_status))) = Inr False
   \<and> fst (is_contributor_blocked ''C1'' ''G2'' (run_changes
      [demo_change ''G1'' ''suspended'' 0, demo_change ''G2'' ''deactivated'' 1, demo_change ''G1'' ''active'' 2]
      (core_connection demo_status))) = Inr True"
proof -
  have e: "st_rows (tables (core_connection demo_status)) = Some t_empty" by (simp add: demo_status_def)
  show ?thesis
    using status_is_last_change [OF e, where c = "''C1''" and a = "''G1''" and xs = "[demo_change ''G1'' ''suspended'' 0, demo_change ''G2'' ''deactivated'' 1, demo_change ''G1'' ''active'' 2]"]
      status_is_last_change [OF e, where c = "''C1''" and a = "''G2''" and xs = "[demo_change ''G1'' ''suspended'' 0, demo_change ''G2'' ''deactivated'' 1, demo_change ''G1'' ''active'' 2]"]
    by (simp add: changes_of_def demo_change_def status_after_def)
qed

definition demo_status_body :: js_value where
  "demo_status_body = VObj [(''status'', VStr ''suspended'')]"

theorem status_change_unanswered_witness:
  "rstatus (fst (post_status_route (\<lambda>_. []) ''operator'' (CHR ''C'' # replicate 55 (CHR ''A'')) (CHR ''G'' # replicate 55 (CHR ''A''))
      demo_status_body 0 (core_connection demo_status))) = 500"
proof -
  have v: "validate set_status_schema (\<lambda>_. []) demo_status_body = Next demo_status_body"
    by (simp add: validate_def set_status_schema_def demo_status_body_def z_object_def prop_of_def z_enum_def z_string_def
        z_nullable_def z_optional_def)
  have r: "contract_regex (CHR ''C'' # replicate 55 (CHR ''A''))" "account_regex (CHR ''G'' # replicate 55 (CHR ''A''))" by code_simp+
  show ?thesis
    using status_change_unanswered [OF _ _ r v refl, of "core_connection demo_status" t_empty "''operator''" 0]
    by (simp add: demo_status_def)
qed

end
