(* ===== verification/Kyc.thy ===== *)
theory Kyc
  imports Communications ContributorTax
begin

text \<open>
  Verification of contributors: the callbacks of the KYC providers (\<open>kyc-providers.js\<close>, \<open>database/kyc.js\<close>,
  \<open>routes/kyc-webhooks.js\<close>) and the verification workflow they drive (\<open>database/contributor-verification.js\<close>,
  \<open>routes/verification.js\<close>), all under \<open>src/backend/src\<close>.  No migration creates the two tables, so a
  store may lack them.  The HMAC of a text under a secret, the environment and the way the SQL library
  binds values to a statement are parameters.  The wording of the engine's \<open>TypeError\<close> is shortened.
\<close>

section \<open>kyc-providers.js\<close>

text \<open>A status is looked up as a property: two lower-case names are inherited by every object.\<close>

datatype kyc_outcome = Known string | Inherited string

definition property_lookup :: "(string, string) jsmap \<Rightarrow> string \<Rightarrow> kyc_outcome option" where
  "property_lookup m s =
     (case map_get m s of
        Some x \<Rightarrow> Some (Known x)
      | None \<Rightarrow> if s \<in> {''constructor'', ''__proto__''} then Some (Inherited s) else None)"

definition kyc_event_outcomes :: "string list" where
  "kyc_event_outcomes = [''approved'', ''declined'', ''resubmission_requested'', ''expired'', ''abandoned'']"

definition veriff_status_map :: "(string, string) jsmap" where
  "veriff_status_map =
     [(''approved'', ''approved''), (''declined'', ''declined''), (''resubmission_requested'', ''resubmission_requested''),
      (''expired'', ''expired''), (''abandoned'', ''abandoned'')]"

definition jumio_status_map :: "(string, string) jsmap" where
  "jumio_status_map =
     [(''approved_verified'', ''approved''), (''denied_fraud'', ''declined''), (''denied_unsupported_id_type'', ''declined''),
      (''denied_unsupported_id_country'', ''declined''), (''error_not_readable_id'', ''resubmission_requested''),
      (''no_id_uploaded'', ''resubmission_requested''), (''expired'', ''expired''), (''abandoned'', ''abandoned'')]"

definition nullish :: "js_value \<Rightarrow> bool" where
  "nullish v \<longleftrightarrow> v = VUndef \<or> v = VNull"

definition nullish_or :: "js_value \<Rightarrow> js_value \<Rightarrow> js_value" where
  "nullish_or v w = (if nullish v then w else v)"

definition lower_case :: "js_value \<Rightarrow> string res" where
  "lower_case v = (case v of VStr s \<Rightarrow> Inr (to_lower s) | _ \<Rightarrow> Inl (TypeErr ''toLowerCase is not a function''))"

record kyc_payload =
  kp_session :: js_value
  kp_wallet :: js_value
  kp_outcome :: kyc_outcome

definition with_outcome :: "string \<Rightarrow> (string, string) jsmap \<Rightarrow> js_value \<Rightarrow> js_value \<Rightarrow> js_value \<Rightarrow> kyc_payload res" where
  "with_outcome label m status session wallet =
     (case lower_case (nullish_or status (VStr [])) of
        Inl e \<Rightarrow> Inl e
      | Inr s \<Rightarrow>
          (case property_lookup m s of
             None \<Rightarrow> Inl (PlainError (''Unrecognised '' @ label @ '' status: '' @ [CHR 0x22] @ s @ [CHR 0x22]))
           | Some x \<Rightarrow> Inr \<lparr>kp_session = session, kp_wallet = nullish_or wallet VNull, kp_outcome = x\<rparr>))"

definition parse_veriff :: "js_value \<Rightarrow> kyc_payload res" where
  "parse_veriff b =
     (let v = field ''verification'' b in
      if \<not> value_truthy v
      then Inl (PlainError (''Veriff payload missing '' @ [CHR 0x27] @ ''verification'' @ [CHR 0x27] @ '' object''))
      else if \<not> value_truthy (field ''id'' v) then Inl (PlainError ''Veriff payload missing verification.id'')
      else with_outcome ''Veriff'' veriff_status_map (field ''status'' v) (field ''id'' v) (field ''vendorData'' v))"

definition parse_jumio :: "js_value \<Rightarrow> kyc_payload res" where
  "parse_jumio b =
     (let session = nullish_or (field ''jumioIdScanReference'' b) (field ''transactionReference'' b) in
      if \<not> value_truthy session
      then Inl (PlainError ''Jumio payload missing jumioIdScanReference / transactionReference'')
      else with_outcome ''Jumio'' jumio_status_map
        (nullish_or (field ''verificationStatus'' b) (field ''idScanStatus'' b)) session
        (field ''customerInternalReference'' b))"

definition normalise_kyc_payload :: "string \<Rightarrow> js_value \<Rightarrow> kyc_payload res" where
  "normalise_kyc_payload provider b =
     (if provider = ''veriff'' then parse_veriff b
      else if provider = ''jumio'' then parse_jumio b
      else Inl (PlainError (''Unknown KYC provider: '' @ [CHR 0x22] @ provider @ [CHR 0x22])))"

definition outcome_to_verification_state :: "string \<Rightarrow> string \<times> string" where
  "outcome_to_verification_state x =
     (if x = ''approved'' then (''verified'', ''completed'')
      else if x = ''declined'' then (''rejected'', ''failed'')
      else (''kyc'', ''failed''))"

section \<open>database/contributor-verification.js\<close>

record verification_row =
  vr_wallet :: string
  vr_step :: string
  vr_status :: string
  vr_note :: "string option"
  vr_created :: string
  vr_updated :: string

record kyc_row =
  ky_provider :: js_value
  ky_session :: js_value
  ky_wallet :: js_value
  ky_outcome :: js_value
  ky_raw :: js_value
  ky_received :: string

record kyc_store =
  kv_ledger :: ledger
  kv_events :: "kyc_row table option"
  kv_verifications :: "verification_row list option"

type_synonym 'a kyc_op = "(kyc_store, 'a) db_op"

definition verification_steps :: "string list" where
  "verification_steps = [''email'', ''kyc'', ''manual_review'', ''verified'', ''rejected'']"

definition verification_statuses :: "string list" where
  "verification_statuses = [''pending'', ''in_progress'', ''completed'', ''failed'']"

definition verification_query :: "(verification_row list \<Rightarrow> 'a) \<Rightarrow> 'a kyc_op" where
  "verification_query f d =
     (case kv_verifications (tables d) of
        None \<Rightarrow> (Inl (no_table ''contributor_verification''), d)
      | Some s \<Rightarrow> (Inr (f s), d))"

definition get_verification :: "string \<Rightarrow> verification_row option kyc_op" where
  "get_verification w = verification_query (find (\<lambda>r. vr_wallet r = w))"

text \<open>\<open>ON CONFLICT(walletAddress)\<close> keeps the wallet and \<open>createdAt\<close> of the row.\<close>

definition put_verification :: "verification_row \<Rightarrow> verification_row list \<Rightarrow> verification_row list" where
  "put_verification r s =
     (if vr_wallet r \<in> vr_wallet ` set s
      then map (\<lambda>x. if vr_wallet x = vr_wallet r
             then x\<lparr>vr_step := vr_step r, vr_status := vr_status r, vr_note := vr_note r, vr_updated := vr_updated r\<rparr>
             else x) s
      else s @ [r])"

definition run_upsert :: "verification_row \<Rightarrow> unit kyc_op" where
  "run_upsert r d =
     (case kv_verifications (tables d) of
        None \<Rightarrow> (Inl (no_table ''contributor_verification''), d)
      | Some s \<Rightarrow> (Inr (), d\<lparr>tables := (tables d)\<lparr>kv_verifications := Some (put_verification r s)\<rparr>\<rparr>))"

definition upsert_verification ::
  "string \<Rightarrow> string \<Rightarrow> string \<Rightarrow> string option \<Rightarrow> int \<Rightarrow> verification_row kyc_op" where
  "upsert_verification w step status note now =
     op_bind (get_verification w) (\<lambda>existing.
       (let r = \<lparr>vr_wallet = w, vr_step = step, vr_status = status, vr_note = note,
              vr_created = (case existing of None \<Rightarrow> to_iso now | Some x \<Rightarrow> vr_created x), vr_updated = to_iso now\<rparr>
        in op_bind (run_upsert r) (\<lambda>_. op_bind count_write (\<lambda>_. op_return r))))"

definition get_verifications_by_step :: "string \<Rightarrow> int \<Rightarrow> int \<Rightarrow> verification_row list kyc_op" where
  "get_verifications_by_step step l n = verification_query (\<lambda>s.
     limit_offset l n (order_desc vr_updated (filter (\<lambda>r. vr_step r = step) s)))"

section \<open>database/kyc.js\<close>

definition kyc_query :: "(kyc_row table \<Rightarrow> 'a) \<Rightarrow> 'a kyc_op" where
  "kyc_query f d =
     (case kv_events (tables d) of None \<Rightarrow> (Inl (no_table ''kyc_events''), d) | Some s \<Rightarrow> (Inr (f s), d))"

definition kyc_write :: "(kyc_row table \<Rightarrow> 'a \<times> kyc_row table) \<Rightarrow> 'a kyc_op" where
  "kyc_write f d =
     (case kv_events (tables d) of
        None \<Rightarrow> (Inl (no_table ''kyc_events''), d)
      | Some s \<Rightarrow> (Inr (fst (f s)), d\<lparr>tables := (tables d)\<lparr>kv_events := Some (snd (f s))\<rparr>\<rparr>))"

text \<open>An inherited outcome is a function or an object without own properties: neither fills a place
  of the statement.\<close>

definition kyc_row_of :: "(js_value list \<Rightarrow> js_value list res) \<Rightarrow> string \<Rightarrow> kyc_payload \<Rightarrow> string \<Rightarrow> int \<Rightarrow> kyc_row res" where
  "kyc_row_of bind provider p raw now =
     (case kp_outcome p of
        Inherited k \<Rightarrow> Inl (if k = ''constructor''
          then TypeErr ''SQLite3 can only bind numbers, strings, bigints, buffers, and null''
          else RangeErr ''Too few parameter values were provided'')
      | Known x \<Rightarrow>
          (case bind [VStr provider, kp_session p, kp_wallet p, VStr x, VStr raw] of
             Inl e \<Rightarrow> Inl e
           | Inr [a, b, c, y, r] \<Rightarrow> Inr \<lparr>ky_provider = a, ky_session = b, ky_wallet = c, ky_outcome = y, ky_raw = r,
               ky_received = sql_timestamp now\<rparr>
           | Inr _ \<Rightarrow> Inl (RangeErr ''Wrong number of parameter values'')))"

definition record_kyc_event ::
  "(js_value list \<Rightarrow> js_value list res) \<Rightarrow> string \<Rightarrow> kyc_payload \<Rightarrow> string \<Rightarrow> int \<Rightarrow> nat kyc_op" where
  "record_kyc_event bind provider p raw now d =
     (case kyc_row_of bind provider p raw now of
        Inl e \<Rightarrow> op_raise e d
      | Inr r \<Rightarrow> op_bind (kyc_write (t_insert r)) (\<lambda>i. op_bind count_write (\<lambda>_. op_return i)) d)"

definition of_session :: "string \<Rightarrow> js_value \<Rightarrow> nat \<times> kyc_row \<Rightarrow> bool" where
  "of_session provider session x \<longleftrightarrow> ky_provider (snd x) = VStr provider \<and> ky_session (snd x) = session"

definition of_kyc_wallet :: "string \<Rightarrow> nat \<times> kyc_row \<Rightarrow> bool" where
  "of_kyc_wallet w x \<longleftrightarrow> ky_wallet (snd x) = VStr w"

definition get_kyc_event_by_session :: "string \<Rightarrow> js_value \<Rightarrow> (nat \<times> kyc_row) option kyc_op" where
  "get_kyc_event_by_session provider session = kyc_query (\<lambda>s.
     case order_desc (\<lambda>x. ky_received (snd x)) (t_select (of_session provider session) s) of [] \<Rightarrow> None | x # _ \<Rightarrow> Some x)"

definition get_kyc_events_by_wallet :: "string \<Rightarrow> int \<Rightarrow> int \<Rightarrow> (nat \<times> kyc_row) list kyc_op" where
  "get_kyc_events_by_wallet w l n = kyc_query (\<lambda>s.
     limit_offset l n (order_desc (\<lambda>x. ky_received (snd x)) (t_select (of_kyc_wallet w) s)))"

definition count_kyc_events_by_wallet :: "string \<Rightarrow> nat kyc_op" where
  "count_kyc_events_by_wallet w = kyc_query (t_count (of_kyc_wallet w))"

definition link_kyc_session_to_wallet :: "string \<Rightarrow> js_value \<Rightarrow> string \<Rightarrow> unit kyc_op" where
  "link_kyc_session_to_wallet provider session w = op_bind
     (kyc_write (\<lambda>s. ((), t_update (of_session provider session) (\<lambda>r. r\<lparr>ky_wallet := VStr w\<rparr>) s))) (\<lambda>_. count_write)"

section \<open>routes/kyc-webhooks.js\<close>

definition bad_kyc_address :: response where
  "bad_kyc_address = send_error 400 (Some ''invalid_stellar_address'') ''Invalid Stellar address format'' []"

text \<open>The captured text becomes the body; a text that is not JSON becomes an empty object.\<close>

definition webhook_body :: "string \<Rightarrow> js_value" where
  "webhook_body raw = (case json_parse raw of None \<Rightarrow> VObj [] | Some v \<Rightarrow> v)"

definition kyc_providers :: "string list" where
  "kyc_providers = [''veriff'', ''jumio'']"

definition secret_name :: "string \<Rightarrow> string" where
  "secret_name provider = ''KYC_'' @ to_upper provider @ ''_WEBHOOK_SECRET''"

text \<open>\<open>timingSafeEqual\<close> throws on texts of different lengths, which counts as a mismatch.\<close>

definition verify_kyc_signature ::
  "(string \<Rightarrow> string option) \<Rightarrow> (string \<Rightarrow> string \<Rightarrow> string) \<Rightarrow> string \<Rightarrow> string \<Rightarrow> string \<Rightarrow> bool" where
  "verify_kyc_signature env hmac provider raw signature =
     (let secret = env (secret_name provider) in
      if \<not> truthy secret then True else signature = hmac (the secret) raw)"

fun first_header :: "(string, string) jsmap \<Rightarrow> string list \<Rightarrow> string" where
  "first_header hs [] = []"
| "first_header hs (n # ns) = (case map_get hs n of Some v \<Rightarrow> v | None \<Rightarrow> first_header hs ns)"

definition signature_headers :: "string list" where
  "signature_headers = [''x-hmac-signature'', ''x-auth-client'', ''x-signature'']"

text \<open>\<open>/^G[A-Z2-7]{54}$/\<close>; \<open>test\<close> turns its argument into a text, where only a string or an array around
  one can match.\<close>

definition kyc_wallet_regex :: "string \<Rightarrow> bool" where
  "kyc_wallet_regex s = (case s of [] \<Rightarrow> False | c # r \<Rightarrow> c = CHR ''G'' \<and> length r = 54 \<and> list_all base32_char r)"

fun wallet_text :: "js_value \<Rightarrow> string option" where
  "wallet_text (VStr s) = Some s"
| "wallet_text (VArr [v]) = wallet_text v"
| "wallet_text _ = None"

definition kyc_wallet_ok :: "js_value \<Rightarrow> bool" where
  "kyc_wallet_ok v \<longleftrightarrow> value_truthy v \<and> (case wallet_text v of None \<Rightarrow> False | Some s \<Rightarrow> kyc_wallet_regex s)"

definition outcome_text :: "kyc_outcome \<Rightarrow> string" where
  "outcome_text x = (case x of Known s \<Rightarrow> s | Inherited s \<Rightarrow> s)"

record kyc_data =
  kd_event :: nat
  kd_provider :: string
  kd_session :: js_value
  kd_outcome :: string
  kd_wallet :: js_value
  kd_verification :: "verification_row option"

text \<open>The handler is asynchronous and has no \<open>catch\<close> around the database: a throw there rejects its
  promise, which nobody handles.  \<open>to_text\<close> prints the session id in the note; the audit entry, which is
  refused whatever its details are, gets the same text.\<close>

datatype kyc_answer = Refused response | Accepted kyc_data | Unhandled js_error

definition update_verification ::
  "(js_value list \<Rightarrow> js_value list res) \<Rightarrow> string \<Rightarrow> js_value \<Rightarrow> string \<Rightarrow> js_value \<Rightarrow> nat \<Rightarrow> int \<Rightarrow> string \<Rightarrow> verification_row option kyc_op" where
  "update_verification bind provider wallet x session event now session_text =
     (if \<not> kyc_wallet_ok wallet then op_return None
      else case bind [wallet] of
          Inl e \<Rightarrow> op_raise e
        | Inr [VStr w] \<Rightarrow>
            (case outcome_to_verification_state x of
               (step, status) \<Rightarrow>
                 op_bind (upsert_verification w step status
                   (Some (''KYC '' @ x @ '' via '' @ provider @ '' (session: '' @ session_text @ '')'')) now) (\<lambda>r.
                 op_bind (op_within kv_ledger (\<lambda>l t. t\<lparr>kv_ledger := l\<rparr>)
                   (add_audit_log ''SYSTEM'' ''kyc_verification_updated'' (Some w)
                      (JObj [(''provider'', JStr provider), (''providerSessionId'', JStr session_text), (''outcome'', JStr x),
                         (''step'', JStr step), (''status'', JStr status), (''kycEventId'', JNum (int event))]) now)) (\<lambda>_.
                 op_return (Some r))))
        | Inr _ \<Rightarrow> op_raise (RangeErr ''Wrong number of parameter values''))"

definition store_callback ::
  "(js_value list \<Rightarrow> js_value list res) \<Rightarrow> (js_value \<Rightarrow> string) \<Rightarrow> string \<Rightarrow> kyc_payload \<Rightarrow> string \<Rightarrow> int \<Rightarrow> kyc_data kyc_op" where
  "store_callback bind to_text provider p raw now =
     op_bind (record_kyc_event bind provider p raw now) (\<lambda>i.
     op_bind (update_verification bind provider (kp_wallet p) (outcome_text (kp_outcome p)) (kp_session p) i now
        (to_text (kp_session p))) (\<lambda>v.
     op_return \<lparr>kd_event = i, kd_provider = provider, kd_session = kp_session p, kd_outcome = outcome_text (kp_outcome p),
        kd_wallet = kp_wallet p, kd_verification = v\<rparr>))"

definition kyc_webhook ::
  "(string \<Rightarrow> string option) \<Rightarrow> (string \<Rightarrow> string \<Rightarrow> string) \<Rightarrow> (js_value list \<Rightarrow> js_value list res) \<Rightarrow> (js_value \<Rightarrow> string)
    \<Rightarrow> string \<Rightarrow> (string, string) jsmap \<Rightarrow> string \<Rightarrow> int \<Rightarrow> kyc_store db \<Rightarrow> kyc_answer \<times> kyc_store db" where
  "kyc_webhook env hmac bind to_text provider hs raw now d =
     (if provider \<notin> set kyc_providers
      then (Refused (send_error 400 (Some ''unsupported_provider'')
             (''Unsupported KYC provider: '' @ [CHR 0x22] @ provider @ [CHR 0x22]) []), d)
      else if \<not> verify_kyc_signature env hmac provider raw (first_header hs signature_headers)
      then (Refused (send_error 401 (Some ''invalid_signature'') ''Webhook signature verification failed'' []), d)
      else case normalise_kyc_payload provider (webhook_body raw) of
          Inl e \<Rightarrow> (Refused (send_error 400 (Some ''invalid_payload'') (error_message e) []), d)
        | Inr p \<Rightarrow> (case store_callback bind to_text provider p raw now d of
             (Inl e, d') \<Rightarrow> (Unhandled e, d') | (Inr x, d') \<Rightarrow> (Accepted x, d')))"

definition events_query_schema :: schema where
  "events_query_schema = z_object
     [(''limit'', z_default (VNum (Finite 50)) (z_int 1 100)),
      (''offset'', z_default (VNum (Finite 0)) (z_number (\<lambda>n. is_integer n \<and> at_least 0 n)))]"

text \<open>\<open>z.coerce.number()\<close> of a query parameter.\<close>

definition coerced :: "string option \<Rightarrow> js_value" where
  "coerced q = (case q of None \<Rightarrow> VUndef | Some s \<Rightarrow> VNum (string_to_number s))"

definition parsed_payload :: "js_value \<Rightarrow> js_value" where
  "parsed_payload v = (case v of VStr s \<Rightarrow> (case json_parse s of None \<Rightarrow> v | Some x \<Rightarrow> x) | _ \<Rightarrow> v)"

datatype kyc_page = NoPage response | Page "((nat \<times> kyc_row) \<times> js_value) list" nat int int

definition kyc_events_route ::
  "(js_value \<Rightarrow> (string \<times> string) list) \<Rightarrow> string \<Rightarrow> string option \<Rightarrow> string option \<Rightarrow> kyc_store db \<Rightarrow> kyc_page \<times> kyc_store db" where
  "kyc_events_route issues w qlimit qoffset d =
     (if \<not> kyc_wallet_regex w then (NoPage bad_kyc_address, d)
      else case events_query_schema (VObj [(''limit'', coerced qlimit), (''offset'', coerced qoffset)]) of
          None \<Rightarrow> (NoPage (send_validation_error (issues (VObj [(''limit'', coerced qlimit), (''offset'', coerced qoffset)]))), d)
        | Some q \<Rightarrow>
            (let l = \<lfloor>num_of (field ''limit'' q)\<rfloor>; n = \<lfloor>num_of (field ''offset'' q)\<rfloor> in
             case op_bind (get_kyc_events_by_wallet w l n) (\<lambda>rows. op_bind (count_kyc_events_by_wallet w)
                    (\<lambda>tot. op_return (rows, tot))) d of
               (Inl e, d') \<Rightarrow> (NoPage (error_handler (thrown_of e)), d')
             | (Inr (rows, tot), d') \<Rightarrow> (Page (map (\<lambda>x. (x, parsed_payload (ky_raw (snd x)))) rows) tot l n, d')))"

section \<open>routes/verification.js\<close>

definition verification_json :: "verification_row \<Rightarrow> json" where
  "verification_json r = JObj
     [(''walletAddress'', JStr (vr_wallet r)), (''step'', JStr (vr_step r)), (''status'', JStr (vr_status r)),
      (''adminNote'', opt_json (vr_note r)), (''createdAt'', JStr (vr_created r)), (''updatedAt'', JStr (vr_updated r))]"

definition get_verification_route :: "string \<Rightarrow> kyc_store db \<Rightarrow> response \<times> kyc_store db" where
  "get_verification_route w d =
     (if \<not> account_regex w then (bad_kyc_address, d)
      else or_next (op_bind (get_verification w) (\<lambda>v. op_return (case v of
         None \<Rightarrow> send_error 404 (Some ''verification_not_found'') ''No verification record found for this wallet'' []
       | Some r \<Rightarrow> data_response 200 (verification_json r)))) d)"

definition start_schema :: "(string \<Rightarrow> bool) \<Rightarrow> schema" where
  "start_schema strkey = z_object [(''walletAddress'', stellar_address strkey)]"

definition advance_schema :: "(string \<Rightarrow> bool) \<Rightarrow> schema" where
  "advance_schema strkey = z_object
     [(''walletAddress'', stellar_address strkey), (''step'', z_enum verification_steps),
      (''status'', z_enum verification_statuses), (''adminNote'', z_nullable (z_optional (text_between 0 500)))]"

definition start_verification :: "int \<Rightarrow> js_value \<Rightarrow> kyc_store db \<Rightarrow> response \<times> kyc_store db" where
  "start_verification now b = or_next (op_bind (get_verification (text_field ''walletAddress'' b)) (\<lambda>v. case v of
       Some r \<Rightarrow> op_return (data_response 200 (verification_json r))
     | None \<Rightarrow> op_bind (upsert_verification (text_field ''walletAddress'' b) ''email'' ''pending'' None now)
         (\<lambda>r. op_return (data_response 201 (verification_json r)))))"

definition start_route ::
  "(string \<Rightarrow> bool) \<Rightarrow> (js_value \<Rightarrow> (string \<times> string) list) \<Rightarrow> js_value \<Rightarrow> int \<Rightarrow> kyc_store db \<Rightarrow> response \<times> kyc_store db" where
  "start_route strkey issues b now = validated (start_schema strkey) issues (start_verification now) b"

definition advance_verification :: "int \<Rightarrow> js_value \<Rightarrow> kyc_store db \<Rightarrow> response \<times> kyc_store db" where
  "advance_verification now b = or_next (op_bind (upsert_verification (text_field ''walletAddress'' b) (text_field ''step'' b)
     (text_field ''status'' b) (str_of (field ''adminNote'' b)) now) (\<lambda>r. op_return (data_response 200 (verification_json r))))"

definition advance_route ::
  "(string \<Rightarrow> bool) \<Rightarrow> (js_value \<Rightarrow> (string \<times> string) list) \<Rightarrow> js_value \<Rightarrow> int \<Rightarrow> kyc_store db \<Rightarrow> response \<times> kyc_store db" where
  "advance_route strkey issues b now = validated (advance_schema strkey) issues (advance_verification now) b"

definition queue_route :: "string \<Rightarrow> string option \<Rightarrow> string option \<Rightarrow> kyc_store db \<Rightarrow> response \<times> kyc_store db" where
  "queue_route step qlimit qoffset d =
     (if step \<notin> set verification_steps
      then (send_error 400 (Some ''invalid_step'') (''step must be one of: '' @ join_text '', '' verification_steps) [], d)
      else case parse_pagination qlimit qoffset 50 100 of
          Inl r \<Rightarrow> (r, d)
        | Inr (l, n) \<Rightarrow> or_next (op_bind (get_verifications_by_step step l n) (\<lambda>rs. op_return \<lparr>rstatus = 200, rbody = JObj
            [(''success'', JBool True), (''data'', JArr (map verification_json rs)),
             (''pagination'', JObj [(''limit'', JNum l), (''offset'', JNum n)])]\<rparr>)) d)"

section \<open>No callback verifies a Stellar account\<close>

definition verification_of :: "string \<Rightarrow> kyc_store \<Rightarrow> verification_row option option" where
  "verification_of w t = map_option (find (\<lambda>r. vr_wallet r = w)) (kv_verifications t)"

lemma kyc_regex_not_account: "kyc_wallet_regex s \<Longrightarrow> \<not> account_regex s"
  by (auto simp: kyc_wallet_regex_def account_regex_def strkey_shape_def split: list.splits)

lemma find_map_other:
  "(\<And>x. x \<in> set xs \<Longrightarrow> P (f x) = P x \<and> (P x \<longrightarrow> f x = x)) \<Longrightarrow> find P (map f xs) = find P xs"
  by (induction xs) auto

lemma put_verification_other:
  assumes "vr_wallet r \<noteq> w"
  shows "find (\<lambda>x. vr_wallet x = w) (put_verification r s) = find (\<lambda>x. vr_wallet x = w) s"
proof -
  have "find (\<lambda>x. vr_wallet x = w) (s @ [r]) = find (\<lambda>x. vr_wallet x = w) s"
    using assms by (induction s) auto
  then show ?thesis using assms unfolding put_verification_def by (auto intro!: find_map_other)
qed

lemma keeps_run_upsert: "vr_wallet r \<noteq> w \<Longrightarrow> keeps (\<lambda>t. verification_of w t = v) (run_upsert r)"
  by (auto simp: keeps_def run_upsert_def verification_of_def put_verification_other split: option.splits)

lemma keeps_get_verification: "keeps P (get_verification w)"
  by (simp add: keeps_def get_verification_def verification_query_def split: option.splits)

lemma keeps_upsert_verification:
  "w' \<noteq> w \<Longrightarrow> keeps (\<lambda>t. verification_of w t = v) (upsert_verification w' step status note now)"
  unfolding upsert_verification_def Let_def
  by (intro keeps_bind keeps_get_verification keeps_run_upsert keeps_basic) simp

lemma keeps_kyc_ledger: "keeps (\<lambda>t. verification_of w t = v) (op_within kv_ledger (\<lambda>l t. t\<lparr>kv_ledger := l\<rparr>) m)"
  by (simp add: keeps_def op_within_def verification_of_def split: prod.split)

lemma keeps_kyc_write: "keeps (\<lambda>t. verification_of w t = v) (kyc_write f)"
  by (simp add: keeps_def kyc_write_def verification_of_def split: option.splits)

lemma keeps_record_kyc_event: "keeps (\<lambda>t. verification_of w t = v) (record_kyc_event bind provider p raw now)"
proof -
  have "keeps (\<lambda>t. verification_of w t = v) (op_bind (kyc_write (t_insert r)) (\<lambda>i. op_bind count_write (\<lambda>_. op_return i)))" for r
    by (intro keeps_bind keeps_kyc_write keeps_basic)
  then show ?thesis
    by (auto simp: keeps_def record_kyc_event_def op_raise_def split: sum.splits)
qed

definition binds_text :: "(js_value list \<Rightarrow> js_value list res) \<Rightarrow> bool" where
  "binds_text bind \<longleftrightarrow> (\<forall>v s. bind [v] = Inr [VStr s] \<longrightarrow> wallet_text v = Some s)"

lemma keeps_update_verification:
  assumes "account_regex w" "binds_text bind"
  shows "keeps (\<lambda>t. verification_of w t = v) (update_verification bind provider wallet x session event now txt)"
proof (cases "kyc_wallet_ok wallet")
  case False
  then show ?thesis by (auto simp: update_verification_def)
next
  case True
  show ?thesis
  proof (cases "\<exists>s. bind [wallet] = Inr [VStr s]")
    case False
    then show ?thesis using True
      by (auto simp: update_verification_def split: sum.splits list.splits js_value.splits)
  next
    case bound: True
    then obtain s where s: "bind [wallet] = Inr [VStr s]" by blast
    then have "kyc_wallet_regex s" using True assms(2) by (auto simp: binds_text_def kyc_wallet_ok_def split: option.splits)
    then have "s \<noteq> w" using assms(1) kyc_regex_not_account by blast
    then show ?thesis using True s
      by (auto simp: update_verification_def split: prod.split
          intro!: keeps_bind keeps_upsert_verification keeps_kyc_ledger keeps_basic)
  qed
qed

lemma kyc_webhook_state:
  "snd (kyc_webhook env hmac bind to_text provider hs raw now d) = d
   \<or> (provider \<in> set kyc_providers \<and> verify_kyc_signature env hmac provider raw (first_header hs signature_headers)
      \<and> (\<exists>p. normalise_kyc_payload provider (webhook_body raw) = Inr p
         \<and> snd (kyc_webhook env hmac bind to_text provider hs raw now d) = snd (store_callback bind to_text provider p raw now d)))"
  by (auto simp: kyc_webhook_def split: sum.split prod.split)

text \<open>C24: 
  No callback of a provider, however signed and whatever it reports, changes the verification of a Stellar
  account: the handler accepts wallets of 55 characters, and an account has 56.
\<close>

theorem kyc_callbacks_verify_nobody:
  assumes "account_regex w" and "binds_text bind"
  shows "fst (get_verification w (snd (kyc_webhook env hmac bind to_text provider hs raw now d))) = fst (get_verification w d)"
proof -
  have "keeps (\<lambda>t. verification_of w t = v) (store_callback bind to_text provider p raw now)" for v p
    unfolding store_callback_def
    by (intro keeps_bind keeps_record_kyc_event keeps_update_verification assms keeps_basic)
  then have "verification_of w (tables (snd (kyc_webhook env hmac bind to_text provider hs raw now d))) = verification_of w (tables d)"
    using kyc_webhook_state [of env hmac bind to_text provider hs raw now d] by (auto simp: keeps_def)
  then show ?thesis by (cases "kv_verifications (tables d)")
      (auto simp: get_verification_def verification_query_def verification_of_def split: option.splits)
qed

section \<open>What a stored callback is worth\<close>

lemma with_outcome_known:
  "with_outcome label m status session wallet = Inr p \<Longrightarrow> kp_outcome p = Known x \<Longrightarrow> x \<in> snd ` set m"
  by (auto simp: with_outcome_def property_lookup_def image_iff split: sum.splits option.splits if_splits
      dest!: map_of_SomeD intro: bexI [rotated])

lemma outcome_is_known:
  "normalise_kyc_payload provider b = Inr p \<Longrightarrow> kp_outcome p = Known x \<Longrightarrow> x \<in> set kyc_event_outcomes"
  by (auto simp: normalise_kyc_payload_def parse_veriff_def parse_jumio_def Let_def kyc_event_outcomes_def
      veriff_status_map_def jumio_status_map_def split: if_splits dest!: with_outcome_known)

definition only_event :: "kyc_row \<Rightarrow> kyc_store \<Rightarrow> kyc_store \<Rightarrow> bool" where
  "only_event r t t' \<longleftrightarrow> (\<exists>e. kv_events t = Some e \<and> kv_events t' = Some (snd (t_insert r e)))"

lemma keeps_events: "keeps (\<lambda>t. kv_events t = e) (update_verification bind provider wallet x session event now txt)"
proof -
  have "keeps (\<lambda>t. kv_events t = e) (get_verification w)" for w by (rule keeps_get_verification)
  moreover have "keeps (\<lambda>t. kv_events t = e) (run_upsert r)" for r
    by (simp add: keeps_def run_upsert_def split: option.splits)
  moreover have "keeps (\<lambda>t. kv_events t = e) (op_within kv_ledger (\<lambda>l t. t\<lparr>kv_ledger := l\<rparr>) m)" for m
    by (simp add: keeps_def op_within_def split: prod.split)
  ultimately show ?thesis unfolding update_verification_def upsert_verification_def Let_def
    by (auto split: sum.split list.split js_value.split prod.split intro!: keeps_bind keeps_basic)
qed

lemma store_callback_event:
  assumes "tables (snd (store_callback bind to_text provider p raw now d)) \<noteq> tables d"
  shows "\<exists>r. kyc_row_of bind provider p raw now = Inr r
    \<and> only_event r (tables d) (tables (snd (store_callback bind to_text provider p raw now d)))"
proof (cases "kyc_row_of bind provider p raw now")
  case (Inl e)
  then have "store_callback bind to_text provider p raw now d = (Inl e, d)"
    by (simp add: store_callback_def record_kyc_event_def op_simps)
  then show ?thesis using assms by simp
next
  case (Inr r)
  show ?thesis
  proof (cases "kv_events (tables d)")
    case None
    then have "tables (snd (store_callback bind to_text provider p raw now d)) = tables d"
      using Inr by (simp add: store_callback_def record_kyc_event_def kyc_write_def op_simps)
    then show ?thesis using assms by simp
  next
    case (Some e)
    let ?d = "d\<lparr>tables := (tables d)\<lparr>kv_events := Some (snd (t_insert r e))\<rparr>\<rparr>"
    have "kv_events (tables (snd (store_callback bind to_text provider p raw now d))) = Some (snd (t_insert r e))"
    proof (cases "counting d")
      case False
      then show ?thesis using Inr Some
        by (simp add: store_callback_def record_kyc_event_def kyc_write_def op_simps count_write_fails)
    next
      case True
      have "kv_events (tables (bump ?d)) = Some (snd (t_insert r e))" by simp
      then have "kv_events (tables (snd (op_bind (update_verification bind provider (kp_wallet p) (outcome_text (kp_outcome p))
          (kp_session p) (fst (t_insert r e)) now (to_text (kp_session p))) (\<lambda>v. op_return (f v)) (bump ?d)))) = Some (snd (t_insert r e))" for f
        by (intro keepsD [OF keeps_bind [OF keeps_events keeps_basic(1)]])
      then show ?thesis using Inr Some True
        by (simp add: store_callback_def record_kyc_event_def kyc_write_def op_bind_def [of "record_kyc_event _ _ _ _ _"]
            op_bind_def [of "kyc_write _"] op_bind_def [of count_write] op_return_def count_write_ok)
    qed
    then show ?thesis using Inr Some by (auto simp: only_event_def)
  qed
qed


section \<open>The workflow\<close>

text \<open>One record for each wallet.\<close>

definition verifications_ok :: "verification_row list \<Rightarrow> bool" where
  "verifications_ok s \<longleftrightarrow> distinct (map vr_wallet s)"

lemma put_verification_ok [wf_rules]: "verifications_ok s \<Longrightarrow> verifications_ok (put_verification r s)"
  by (auto simp: verifications_ok_def put_verification_def comp_def if_distrib [of vr_wallet] cong: if_cong)

lemma put_verification_get:
  "\<exists>x. find (\<lambda>y. vr_wallet y = vr_wallet r) (put_verification r s) = Some x
     \<and> vr_step x = vr_step r \<and> vr_status x = vr_status r \<and> vr_note x = vr_note r"
  unfolding put_verification_def by (induction s) auto

text \<open>The steps have no order: from any record the advance route, which has no gate, reaches \<open>verified\<close>.\<close>

lemma advance_to_any_step:
  assumes "kv_verifications (tables d) = Some s" "validate (advance_schema strkey) issues b = Next p"
    and "out = advance_route strkey issues b now d"
  shows "\<exists>x. fst (get_verification (text_field ''walletAddress'' p) (snd out)) = Inr (Some x)
    \<and> vr_step x = text_field ''step'' p \<and> vr_status x = text_field ''status'' p"
proof -
  let ?w = "text_field ''walletAddress'' p"
  define r where "r = \<lparr>vr_wallet = ?w, vr_step = text_field ''step'' p, vr_status = text_field ''status'' p,
    vr_note = str_of (field ''adminNote'' p),
    vr_created = (case find (\<lambda>r. vr_wallet r = ?w) s of None \<Rightarrow> to_iso now | Some x \<Rightarrow> vr_created x), vr_updated = to_iso now\<rparr>"
  have "kv_verifications (tables (snd out)) = Some (put_verification r s)"
    using assms by (cases "counting d") (simp_all add: advance_route_def validated_def advance_verification_def or_next_def
        upsert_verification_def get_verification_def verification_query_def run_upsert_def op_simps Let_def r_def
        count_write_ok count_write_fails)
  moreover have "vr_wallet r = ?w" "vr_step r = text_field ''step'' p" "vr_status r = text_field ''status'' p"
    by (simp_all add: r_def)
  ultimately show ?thesis using put_verification_get [of r s]
    by (auto simp: get_verification_def verification_query_def)
qed

text \<open>Starting again never resets: a wallet with a record gets it back and the store stays as it was.\<close>

lemma start_never_resets:
  assumes "validate (start_schema strkey) issues b = Next p" "fst (get_verification (text_field ''walletAddress'' p) d) = Inr (Some r)"
  shows "start_route strkey issues b now d = (data_response 200 (verification_json r), d)"
proof -
  have "get_verification (text_field ''walletAddress'' p) d = (Inr (Some r), d)"
    using assms(2) by (auto simp: get_verification_def verification_query_def split: option.splits)
  then show ?thesis using assms(1)
    by (simp add: start_route_def validated_def start_verification_def or_next_def op_bind_def op_return_def)
qed

text \<open>The events of a Stellar account cannot be listed either.\<close>

lemma account_events_refused: "account_regex w \<Longrightarrow> kyc_events_route issues w qlimit qoffset d = (NoPage bad_kyc_address, d)"
  using kyc_regex_not_account by (auto simp: kyc_events_route_def)

section \<open>Concrete runs\<close>

definition demo_kyc :: kyc_store where
  "demo_kyc = \<lparr>kv_ledger = empty_ledger, kv_events = Some t_empty, kv_verifications = Some []\<rparr>"

definition demo_callback :: json where
  "demo_callback = JObj [(''verification'', JObj
     [(''id'', JStr ''s1''), (''status'', JStr ''approved''), (''vendorData'', JStr (sample_account (CHR ''A'')))])]"

lemma demo_callback_body: "webhook_body (json_stringify demo_callback) = to_value demo_callback"
  using json_parse_stringify_all [of demo_callback] by (simp add: webhook_body_def demo_callback_def)

definition demo_secret :: "string \<Rightarrow> string option" where
  "demo_secret n = (if n = ''KYC_VERIFF_WEBHOOK_SECRET'' then Some ''k'' else None)"

definition demo_sent :: "kyc_answer \<times> kyc_store db" where
  "demo_sent = kyc_webhook demo_secret (\<lambda>k x. k @ x) Inr (\<lambda>_. ''s1'') ''veriff''
     [(''x-hmac-signature'', ''k'' @ json_stringify demo_callback)] (json_stringify demo_callback) 0 (counted_connection demo_kyc)"

lemma demo_secret_name: "secret_name ''veriff'' = ''KYC_VERIFF_WEBHOOK_SECRET''"
  by code_simp

lemma demo_lower: "to_lower ''approved'' = ''approved''"
  by code_simp

lemma demo_wallet_not_kyc: "\<not> kyc_wallet_regex (sample_account (CHR ''A''))"
  by (simp add: kyc_wallet_regex_def sample_account_def)

lemma demo_payload: "normalise_kyc_payload ''veriff'' (webhook_body (json_stringify demo_callback)) =
    Inr \<lparr>kp_session = VStr ''s1'', kp_wallet = VStr (sample_account (CHR ''A'')), kp_outcome = Known ''approved''\<rparr>"
  unfolding demo_callback_body
  by (simp add: normalise_kyc_payload_def parse_veriff_def demo_callback_def field_def prop_of_def value_truthy_def with_outcome_def
      lower_case_def nullish_or_def nullish_def demo_lower property_lookup_def veriff_status_map_def)

lemma demo_sent_accepted: "\<exists>x. fst demo_sent = Accepted x \<and> kd_outcome x = ''approved''
    \<and> kd_wallet x = VStr (sample_account (CHR ''A''))"
  unfolding demo_sent_def kyc_webhook_def demo_payload
  by (simp add: kyc_providers_def verify_kyc_signature_def demo_secret_name demo_secret_def signature_headers_def store_callback_def
      record_kyc_event_def kyc_row_of_def kyc_write_def update_verification_def kyc_wallet_ok_def demo_wallet_not_kyc demo_kyc_def
      op_simps count_write_ok outcome_text_def)

theorem kyc_callbacks_verify_nobody_witness:
  "(\<exists>x. fst demo_sent = Accepted x \<and> kd_outcome x = ''approved'' \<and> kd_wallet x = VStr (sample_account (CHR ''A'')))
   \<and> fst (get_verification (sample_account (CHR ''A'')) (snd demo_sent)) = Inr None"
proof -
  have r: "account_regex (sample_account (CHR ''A''))" by (rule sample_account_regex) (simp add: base32_char_def is_upper_def)
  have "fst (get_verification (sample_account (CHR ''A'')) (snd demo_sent)) =
      fst (get_verification (sample_account (CHR ''A'')) (counted_connection demo_kyc))"
    unfolding demo_sent_def by (rule kyc_callbacks_verify_nobody [OF r]) (simp add: binds_text_def)
  then show ?thesis using demo_sent_accepted
    by (simp add: get_verification_def verification_query_def demo_kyc_def)
qed


end
