(* ===== verification/FinalityRoutes.thy ===== *)
theory FinalityRoutes
  imports Finality Routes
begin

text \<open>
  The routes of transaction finality, \<open>src/backend/src/routes/transaction-finality.js\<close>, over the registry of
  trackers and the table of \<open>Finality\<close>.  The state adds the polling loops that are running, so that
  requests interleave with the writes and the ends of loops.  Transaction ids are below \<open>2 ^ 53\<close>, where
  \<open>parseInt\<close> is exact.
\<close>

section \<open>State\<close>

record finality_system =
  fs_db :: "ledger db"
  fs_trackers :: tracker_state
  fs_loops :: "nat list"

text \<open>A query that cannot throw.\<close>

definition looked_up :: "'a option ledger_op \<Rightarrow> finality_system \<Rightarrow> 'a option" where
  "looked_up m s = (case fst (m (fs_db s)) of Inl _ \<Rightarrow> None | Inr v \<Rightarrow> v)"

definition finality_record :: "nat \<Rightarrow> finality_system \<Rightarrow> (nat \<times> finality_row) option" where
  "finality_record tid = looked_up (get_finality_by_transaction_id tid)"

section \<open>routes/transaction-finality.js\<close>

definition parse_transaction_id :: "string \<Rightarrow> nat option" where
  "parse_transaction_id raw =
     (case parse_int10 raw of
        None \<Rightarrow> None
      | Some i \<Rightarrow> if i \<le> 0 \<or> int_str i \<noteq> raw then None else Some (nat i))"

definition invalid_finality_param :: "string \<Rightarrow> response" where
  "invalid_finality_param m = send_error 400 (Some ''invalid_param'') m []"

definition finality_failed :: "string \<Rightarrow> response" where
  "finality_failed m = send_error 500 (Some ''internal_error'') m []"

definition finality_not_found :: "string \<Rightarrow> response" where
  "finality_not_found m = send_error 404 (Some ''not_found'') m []"

text \<open>\<open>/^[0-9a-fA-F]{64}$/\<close>\<close>

definition finality_hash_regex :: "string \<Rightarrow> bool" where
  "finality_hash_regex s \<longleftrightarrow> length s = 64 \<and> list_all (\<lambda>c. is_digit c \<or> c \<in> set ''abcdefABCDEF'') s"

definition valid_hash_field :: "js_value \<Rightarrow> bool" where
  "valid_hash_field v \<longleftrightarrow> (case v of VUndef \<Rightarrow> True | VStr h \<Rightarrow> finality_hash_regex h | _ \<Rightarrow> False)"

definition format_finality_record :: "(nat \<times> finality_row) option \<Rightarrow> nat \<Rightarrow> tracker_state \<Rightarrow> json" where
  "format_finality_record x tid ts =
     (case x of
        None \<Rightarrow> JObj [(''transactionId'', JNum (int tid)), (''status'', JStr ''unknown''), (''tracking'', JBool False)]
      | Some (i, r) \<Rightarrow> JObj
          [(''transactionId'', JNum (int (fin_transaction r))), (''txHash'', opt_json (fin_tx_hash r)),
           (''status'', JStr (fin_status r)), (''confirmations'', JNum (int (confirmations r))),
           (''feePaid'', opt_json (fee_paid r)), (''submissionAt'', JStr (submission_at r)),
           (''firstConfirmationAt'', opt_json (first_confirmation_at r)), (''finalStatus'', opt_json (final_status r)),
           (''finalStatusAt'', opt_json (final_status_at r)), (''errorMessage'', opt_json (fin_error r)),
           (''pollAttempts'', JNum (int (poll_attempts r))), (''tracking'', JBool (is_tracking (fin_transaction r) ts))])"

definition finality_answer :: "nat \<Rightarrow> finality_system \<Rightarrow> response" where
  "finality_answer tid s =
     \<lparr>rstatus = 200, rbody = format_finality_record (finality_record tid s) tid (fs_trackers s)\<rparr>"

text \<open>\<open>startTracking\<close> with the part of the loop that runs at once: the first attempt is recorded before the
  loop waits.  What that write throws rejects the loop's promise, not the call.\<close>

definition launch_loop :: "finality_config \<Rightarrow> nat \<Rightarrow> int \<Rightarrow> rat \<Rightarrow> ledger db \<Rightarrow> ledger db" where
  "launch_loop cfg tid now u d =
     (if 0 < max_poll_duration_ms cfg
      then snd (increment_poll_attempt tid (Some (now + compute_backoff_ms cfg 0 u)) d) else d)"

definition start_and_poll ::
  "finality_config \<Rightarrow> nat \<Rightarrow> string option \<Rightarrow> int \<Rightarrow> rat \<Rightarrow> finality_system \<Rightarrow> unit res \<times> finality_system" where
  "start_and_poll cfg tid h now u s =
     (case start_tracking tid h now (fs_db s, fs_trackers s) of
        (Inl e, d, ts) \<Rightarrow> (Inl e, s\<lparr>fs_db := d, fs_trackers := ts\<rparr>)
      | (Inr None, d, ts) \<Rightarrow> (Inr (), s\<lparr>fs_db := d, fs_trackers := ts\<rparr>)
      | (Inr (Some _), d, ts) \<Rightarrow>
          (Inr (), s\<lparr>fs_db := launch_loop cfg tid now u d, fs_trackers := ts, fs_loops := fs_loops s @ [tid]\<rparr>))"

definition or_start_failed ::
  "nat \<Rightarrow> unit res \<times> finality_system \<Rightarrow> response \<times> finality_system" where
  "or_start_failed tid x = (case x of
     (Inl e, s) \<Rightarrow> (finality_failed ''Failed to start finality tracking'', s)
   | (Inr _, s) \<Rightarrow> (finality_answer tid s, s))"

text \<open>A record exists: the hash is stored if it is new, and an untracked pending record is started again.\<close>

definition attach_hash :: "nat \<Rightarrow> string option \<Rightarrow> finality_row \<Rightarrow> finality_system \<Rightarrow> unit res \<times> finality_system" where
  "attach_hash tid h r s =
     (if truthy h \<and> \<not> truthy (fin_tx_hash r)
      then (case update_tx_hash tid (the h) (fs_db s) of (x, d) \<Rightarrow> (x, s\<lparr>fs_db := d\<rparr>))
      else (Inr (), s))"

definition rejoin ::
  "finality_config \<Rightarrow> nat \<Rightarrow> string option \<Rightarrow> int \<Rightarrow> rat \<Rightarrow> finality_row \<Rightarrow> finality_system \<Rightarrow> unit res \<times> finality_system" where
  "rejoin cfg tid h now u r s =
     (case attach_hash tid h r s of
        (Inl e, s1) \<Rightarrow> (Inl e, s1)
      | (Inr _, s1) \<Rightarrow>
          (case finality_record tid s1 of
             Some (i, r1) \<Rightarrow>
               if fin_status r1 = ''pending'' \<and> \<not> is_tracking tid (fs_trackers s1)
               then start_and_poll cfg tid (case fin_tx_hash r1 of None \<Rightarrow> h | Some x \<Rightarrow> Some x) now u s1
               else (Inr (), s1)
           | None \<Rightarrow> (Inl (TypeErr ''Cannot read properties of undefined''), s1)))"

definition post_finality ::
  "finality_config \<Rightarrow> string \<Rightarrow> js_value \<Rightarrow> int \<Rightarrow> rat \<Rightarrow> finality_system \<Rightarrow> response \<times> finality_system" where
  "post_finality cfg raw b now u s =
     (case parse_transaction_id raw of
        None \<Rightarrow> (invalid_finality_param ''Transaction ID must be a positive integer'', s)
      | Some tid \<Rightarrow>
          if looked_up (get_transaction_by_id tid) s = None
          then (finality_not_found (''Transaction '' @ nat_str tid @ '' not found''), s)
          else if \<not> valid_hash_field (field ''txHash'' b)
          then (invalid_finality_param ''txHash must be a 64-character hex string'', s)
          else or_start_failed tid
            (case finality_record tid s of
               None \<Rightarrow> start_and_poll cfg tid (str_of (field ''txHash'' b)) now u s
             | Some (i, r) \<Rightarrow> rejoin cfg tid (str_of (field ''txHash'' b)) now u r s))"

definition get_finality :: "string \<Rightarrow> finality_system \<Rightarrow> response" where
  "get_finality raw s =
     (case parse_transaction_id raw of
        None \<Rightarrow> invalid_finality_param ''Transaction ID must be a positive integer''
      | Some tid \<Rightarrow>
          if looked_up (get_transaction_by_id tid) s = None
          then finality_not_found (''Transaction '' @ nat_str tid @ '' not found'')
          else if finality_record tid s = None
          then finality_not_found (''No finality record found for transaction '' @ nat_str tid @ ''. Use POST to start tracking.'')
          else finality_answer tid s)"

definition delete_finality :: "string \<Rightarrow> finality_system \<Rightarrow> response \<times> finality_system" where
  "delete_finality raw s =
     (case parse_transaction_id raw of
        None \<Rightarrow> (invalid_finality_param ''Transaction ID must be a positive integer'', s)
      | Some tid \<Rightarrow>
          (case cancel_tracking tid (fs_trackers s) of
             (x, ts) \<Rightarrow> (\<lparr>rstatus = 200, rbody = JObj [(''cancelled'', JBool x), (''transactionId'', JNum (int tid))]\<rparr>,
                         s\<lparr>fs_trackers := ts\<rparr>)))"

section \<open>Requests and loops interleaved\<close>

text \<open>What a running loop writes.\<close>

datatype loop_write = Attempt "int option" | Confirm "string option" "string option" | Fail "string option" | Expire

definition write_of :: "nat \<Rightarrow> loop_write \<Rightarrow> int \<Rightarrow> unit ledger_op" where
  "write_of j w now = (case w of
     Attempt t \<Rightarrow> increment_poll_attempt j t
   | Confirm fee first \<Rightarrow> mark_finality_confirmed j fee first now
   | Fail m \<Rightarrow> mark_finality_failed j m now
   | Expire \<Rightarrow> mark_finality_timeout j now)"

datatype finality_event =
    Post string js_value int rat
  | Delete string
  | LoopWrites nat loop_write int
  | LoopEnds nat poll_end

definition finality_step :: "finality_config \<Rightarrow> finality_event \<Rightarrow> finality_system \<Rightarrow> finality_system" where
  "finality_step cfg e s = (case e of
     Post raw b now u \<Rightarrow> snd (post_finality cfg raw b now u s)
   | Delete raw \<Rightarrow> snd (delete_finality raw s)
   | LoopWrites j w now \<Rightarrow> if j \<in> set (fs_loops s) then s\<lparr>fs_db := snd (write_of j w now (fs_db s))\<rparr> else s
   | LoopEnds j e \<Rightarrow> if j \<in> set (fs_loops s)
       then s\<lparr>fs_trackers := after_loop j e (fs_trackers s), fs_loops := remove1 j (fs_loops s)\<rparr> else s)"

definition run_finality :: "finality_config \<Rightarrow> finality_event list \<Rightarrow> finality_system \<Rightarrow> finality_system" where
  "run_finality cfg es s = foldl (\<lambda>t e. finality_step cfg e t) s es"

section \<open>A pending record without a tracker\<close>

definition stranded :: "nat \<Rightarrow> finality_system \<Rightarrow> bool" where
  "stranded tid s \<longleftrightarrow> fin_has tid ''pending'' (fs_db s) \<and> \<not> is_tracking tid (fs_trackers s) \<and> tid \<notin> set (fs_loops s)"

lemma fin_has_other:
  assumes "fin_has tid st d" "j \<noteq> tid" "\<And>r. fin_transaction (f r) = fin_transaction r"
  shows "fin_has tid st (snd (counted_write (set_fin j f) d))"
proof -
  have "t_get (fin_is tid) (t_update (fin_is j) f (finality (tables d))) =
      map_option (\<lambda>x. if fin_is j x then (fst x, f (snd x)) else x) (t_get (fin_is tid) (finality (tables d)))"
    by (rule t_get_update_stable) (simp add: fin_is_def assms(3))
  moreover have "\<not> fin_is j x" if "t_get (fin_is tid) (finality (tables d)) = Some x" for x
    using t_get_Some [OF that] assms(2) by (simp add: fin_is_def)
  ultimately have "t_get (fin_is tid) (t_update (fin_is j) f (finality (tables d))) = t_get (fin_is tid) (finality (tables d))"
    by (cases "t_get (fin_is tid) (finality (tables d))") simp_all
  then show ?thesis using assms(1) by (simp add: fin_has_def counted_write_tables set_fin_def)
qed

lemma fin_has_write_of: "fin_has tid st d \<Longrightarrow> j \<noteq> tid \<Longrightarrow> fin_has tid st (snd (write_of j w now d))"
  by (cases w) (auto simp: write_of_def increment_poll_attempt_def mark_finality_confirmed_def mark_finality_failed_def
      mark_finality_timeout_def intro!: fin_has_other)

lemma fin_has_launch: "fin_has tid st d \<Longrightarrow> j \<noteq> tid \<Longrightarrow> fin_has tid st (launch_loop cfg j now u d)"
  by (simp add: launch_loop_def increment_poll_attempt_def fin_has_other)

lemma fin_has_create: "fin_has tid st d \<Longrightarrow> fin_has tid st (snd (create_finality_record j h now d))"
  by (auto simp: create_finality_record_def op_raise_def fin_has_def counted_write_tables t_get_insert split_beta Let_def)

lemma create_again_fails:
  "fin_has tid st d \<Longrightarrow> create_finality_record tid h now d =
     (Inl (SqliteError ''UNIQUE constraint failed: transaction_finality.transaction_id''), d)"
  by (auto simp: create_finality_record_def op_raise_def fin_has_def)

lemma stranded_cannot_start:
  assumes "stranded tid s"
  shows "\<exists>e. start_and_poll cfg tid h now u s = (Inl e, s)"
proof -
  have "start_tracking tid h now (fs_db s, fs_trackers s) =
      (Inl (SqliteError ''UNIQUE constraint failed: transaction_finality.transaction_id''), fs_db s, fs_trackers s)"
    using assms create_again_fails [of tid "''pending''" "fs_db s" h now]
    by (simp add: stranded_def start_tracking_def is_tracking_def)
  then show ?thesis by (simp add: start_and_poll_def)
qed

lemma stranded_other_start:
  assumes "stranded tid s" "j \<noteq> tid"
  shows "stranded tid (snd (start_and_poll cfg j h now u s))"
proof -
  obtain x d where c: "create_finality_record j h now (fs_db s) = (x, d)" by fastforce
  have d: "fin_has tid ''pending'' d" using fin_has_create [of tid _ "fs_db s" j h now] assms(1) c by (simp add: stranded_def)
  show ?thesis using assms c d fin_has_launch [OF d assms(2)]
    by (auto simp: stranded_def start_and_poll_def start_tracking_def is_tracking_def map_has_def split: sum.split)
qed

lemma stranded_start: "stranded tid s \<Longrightarrow> stranded tid (snd (start_and_poll cfg j h now u s))"
  using stranded_other_start [of tid s j] stranded_cannot_start [of tid s cfg h now u] by (cases "j = tid") auto

lemma stranded_attach:
  assumes "stranded tid s"
  shows "stranded tid (snd (attach_hash j h r s))"
proof -
  have "fin_has tid ''pending'' (snd (update_tx_hash j x (fs_db s)))" for x
  proof (cases "j = tid")
    case True
    then show ?thesis using assms
      by (auto simp: stranded_def update_tx_hash_def set_finality_tx_hash_def elim!: fin_has_change)
  next
    case False
    then show ?thesis using assms by (simp add: stranded_def update_tx_hash_def set_finality_tx_hash_def fin_has_other)
  qed
  then show ?thesis using assms by (simp add: stranded_def attach_hash_def split_beta)
qed

lemma stranded_rejoin: "stranded tid s \<Longrightarrow> stranded tid (snd (rejoin cfg j h now u r s))"
  using stranded_attach [of tid s j h r] stranded_start [of tid "snd (attach_hash j h r s)" cfg j _ now u]
  by (auto simp: rejoin_def split: prod.split sum.split option.split)

lemma stranded_post: "stranded tid s \<Longrightarrow> stranded tid (snd (post_finality cfg raw b now u s))"
  using stranded_start [of tid s] stranded_rejoin [of tid s]
  by (auto simp: post_finality_def or_start_failed_def split: option.split prod.split sum.split)
    (metis snd_conv)+

lemma stranded_step: "stranded tid s \<Longrightarrow> stranded tid (finality_step cfg e s)"
proof (cases e)
  case (Delete raw)
  assume "stranded tid s"
  then show ?thesis using Delete
    by (auto simp: finality_step_def delete_finality_def cancel_tracking_def stranded_def is_tracking_def map_has_def
        split: option.splits)
next
  case (LoopWrites j w now)
  assume s: "stranded tid s"
  then show ?thesis using LoopWrites fin_has_write_of [of tid _ "fs_db s" j w now]
    by (auto simp: finality_step_def stranded_def)
next
  case (LoopEnds j x)
  assume s: "stranded tid s"
  then show ?thesis using LoopEnds set_remove1_subset [of j "fs_loops s"]
    by (auto simp: finality_step_def stranded_def is_tracking_def map_has_def after_loop_def split: poll_end.splits)
qed (simp add: finality_step_def stranded_post)

text \<open>A restart of the server loses the registry and the loops; no code looks for pending records.\<close>

definition restart :: "finality_system \<Rightarrow> finality_system" where
  "restart s = s\<lparr>fs_trackers := \<lparr>active_trackers = [], next_controller = 0, aborted = []\<rparr>, fs_loops := []\<rparr>"

lemma stranded_restart: "fin_has tid ''pending'' (fs_db s) \<Longrightarrow> stranded tid (restart s)"
  by (simp add: stranded_def restart_def is_tracking_def map_has_def)

lemma stranded_run: "stranded tid s \<Longrightarrow> stranded tid (run_finality cfg es s)"
  by (induction es arbitrary: s) (simp_all add: run_finality_def stranded_step)

lemma parse_own_id: "parse_transaction_id (nat_str n) = (if n = 0 then None else Some n)"
  by (simp add: parse_transaction_id_def parse_int10_nat_str int_str_def)

lemma stranded_record: "stranded tid s \<Longrightarrow> \<exists>i r. finality_record tid s = Some (i, r) \<and> fin_status r = ''pending''"
  by (auto simp: stranded_def fin_has_def finality_record_def looked_up_def get_finality_by_transaction_id_def op_read_def)

lemma stranded_rejoin_fails:
  assumes "stranded tid s"
  shows "\<exists>e s1. rejoin cfg tid h now u r s = (Inl e, s1)"
proof -
  obtain x s1 where a: "attach_hash tid h r s = (x, s1)" by fastforce
  have s1: "stranded tid s1" using stranded_attach [OF assms, of tid h r] a by simp
  obtain i r1 where rec: "finality_record tid s1 = Some (i, r1)" "fin_status r1 = ''pending''"
    using stranded_record [OF s1] by blast
  show ?thesis
  proof (cases x)
    case (Inl e)
    then show ?thesis using a by (simp add: rejoin_def)
  next
    case (Inr v)
    then show ?thesis using a rec s1 stranded_cannot_start [OF s1, of cfg "case fin_tx_hash r1 of None \<Rightarrow> h | Some x \<Rightarrow> Some x" now u]
      by (auto simp: rejoin_def stranded_def)
  qed
qed

lemma stranded_post_fails:
  assumes "stranded tid s"
  shows "400 \<le> rstatus (fst (post_finality cfg (nat_str tid) b now u s))"
proof -
  obtain i r where rec: "finality_record tid s = Some (i, r)" using stranded_record [OF assms] by blast
  obtain e s1 where "rejoin cfg tid (str_of (field ''txHash'' b)) now u r s = (Inl e, s1)"
    using stranded_rejoin_fails [OF assms] by blast
  then show ?thesis using rec
    by (simp add: post_finality_def parse_own_id or_start_failed_def invalid_finality_param_def finality_not_found_def
        finality_failed_def send_error_def)
qed


text \<open>On the connection of \<open>core.js\<close> every record is in this state from the start: its insertion is stored and
  then throws, so no loop begins.\<close>

lemma core_start_strands:
  assumes "\<not> counting (fs_db s)" "t_get (fin_is tid) (finality (tables (fs_db s))) = None"
    and "t_get (by_id tid) (transactions (tables (fs_db s))) \<noteq> None"
    and "\<not> is_tracking tid (fs_trackers s)" "tid \<notin> set (fs_loops s)"
  shows "\<exists>e s1. start_and_poll cfg tid h now u s = (Inl e, s1) \<and> stranded tid s1"
proof -
  let ?d = "(fs_db s)\<lparr>tables := (tables (fs_db s))\<lparr>finality := snd (t_insert (new_finality tid h now) (finality (tables (fs_db s))))\<rparr>\<rparr>"
  have c: "create_finality_record tid h now (fs_db s) = (Inl (ReferenceError ''_writeCount is not defined''), ?d)"
    using assms(1-3) by (auto simp: create_finality_record_def counted_write_fails Let_def split_beta)
  have "fin_has tid ''pending'' ?d"
    using assms(2) by (simp add: fin_has_def t_get_insert fin_is_def new_finality_def)
  then show ?thesis using assms(4,5)
    by (simp add: start_and_poll_def start_tracking_def c stranded_def is_tracking_def)
qed

section \<open>Concrete runs\<close>

definition demo_finality :: finality_system where
  "demo_finality = \<lparr>fs_db = counted_connection (snd (insert_tx (new_tx ''C1'' ''distribute'' ''G1'' None None 5) empty_ledger)),
     fs_trackers = no_trackers, fs_loops = []\<rparr>"

definition demo_tracked :: finality_system where
  "demo_tracked = snd (post_finality default_finality_config ''1'' (VObj []) 5 0 demo_finality)"

lemma demo_id_text: "nat_str 1 = ''1''"
  by code_simp

lemmas demo_id_text_Suc = demo_id_text [unfolded One_nat_def]

lemma demo_tracked_pending:
  "rstatus (fst (post_finality default_finality_config ''1'' (VObj []) 5 0 demo_finality)) = 200
   \<and> fin_has 1 ''pending'' (fs_db demo_tracked) \<and> fs_loops demo_tracked = [1]"
proof -
  have p: "parse_transaction_id ''1'' = Some 1" using parse_own_id [of 1] demo_id_text by simp
  show ?thesis unfolding demo_tracked_def post_finality_def p
    by (simp add: demo_finality_def looked_up_def get_transaction_by_id_def op_read_def finality_record_def
        get_finality_by_transaction_id_def insert_tx_def t_insert_def t_get_def by_id_def empty_ledger_def t_empty_def Let_def
        field_def prop_of_def valid_hash_field_def start_and_poll_def start_tracking_def no_trackers_def map_has_def
        create_finality_record_def counted_write_ok launch_loop_def default_finality_config_def increment_poll_attempt_def
        or_start_failed_def finality_answer_def set_fin_def t_update_def fin_is_def new_finality_def fin_has_def str_of_def)
qed


end
