(* ===== verification/ClientSigning.thy ===== *)
theory ClientSigning
  imports Signature Base64
begin

text \<open>
  The client's side of signed requests, \<open>src/frontend/src/utils/sign-request.ts\<close>, against the server's
  \<open>verify-signature.js\<close>.  Strings stand for their UTF-8 bytes, as in the server's model; the random
  bytes of a nonce, the clock, SHA-256 and the key pair of the SDK are parameters.  Between the two lies
  the body parser: \<open>body-size-limit.js\<close> can keep the raw body for the verification, while the parser
  \<open>index.js\<close> installs does not.

  A request signed by the client is accepted if the raw body is kept, and every signed request with a
  body is refused if it is not.
\<close>

record keypair =
  kp_public :: string
  kp_sign :: "string \<Rightarrow> string"

section \<open>utils/sign-request.ts\<close>

definition url_char :: "char \<Rightarrow> char" where
  "url_char c = (if c = CHR ''+'' then CHR ''-'' else if c = CHR ''/'' then CHR ''_'' else c)"

definition generate_nonce :: "string \<Rightarrow> string" where
  "generate_nonce bytes = filter (\<lambda>c. c \<noteq> CHR ''='') (map url_char (b64_encode bytes))"

definition hex_digit :: "nat \<Rightarrow> char" where
  "hex_digit n = (if n < 10 then digit_char n else char_of (87 + n))"

definition byte_hex :: "char \<Rightarrow> string" where
  "byte_hex c = (let n = of_char c :: nat in [hex_digit (n div 16), hex_digit (n mod 16)])"

definition bytes_hex :: "string \<Rightarrow> string" where
  "bytes_hex s = concat (map byte_hex s)"

definition client_signed_string :: "(string \<Rightarrow> string) \<Rightarrow> string \<Rightarrow> string \<Rightarrow> string \<Rightarrow> string \<Rightarrow> string \<Rightarrow> string" where
  "client_signed_string sha meth path timestamp nonce bytes =
     (let hash = sha bytes
      in to_upper meth @ ''\<newline>'' @ path @ ''\<newline>'' @ timestamp @ ''\<newline>'' @ nonce @ ''\<newline>'' @ hash)"

definition body_string :: "json option \<Rightarrow> string" where
  "body_string b = (case b of None \<Rightarrow> [] | Some JNull \<Rightarrow> [] | Some j \<Rightarrow> json_stringify j)"

definition sign_request ::
  "(string \<Rightarrow> string) \<Rightarrow> keypair \<Rightarrow> string \<Rightarrow> int \<Rightarrow> string \<Rightarrow> string \<Rightarrow> json option \<Rightarrow> (string \<times> string) list" where
  "sign_request sha kp random now meth path b =
     (let timestamp = int_str now; nonce = generate_nonce random;
          signed = client_signed_string sha meth path timestamp nonce (body_string b)
      in [(''X-Signature'', bytes_hex (kp_sign kp signed)), (''X-Signed-By'', kp_public kp),
          (''X-Nonce'', nonce), (''X-Timestamp'', timestamp)])"

section \<open>On the way to the server\<close>

text \<open>The \<open>verify\<close> hook of \<open>express.json\<close>: without it \<open>req.rawBody\<close> stays undefined, which the
  verification treats like an empty body.\<close>

definition captured_body :: "bool \<Rightarrow> string \<Rightarrow> string" where
  "captured_body capture buf = (if capture then buf else [])"

definition deployed_capture :: bool where
  "deployed_capture = False"

text \<open>The request as Node presents it: header names in lower case.\<close>

definition received ::
  "bool \<Rightarrow> string \<Rightarrow> string \<Rightarrow> json option \<Rightarrow> (string \<times> string) list \<Rightarrow> request" where
  "received capture meth url b hs =
     \<lparr>req_method = meth, original_url = url, headers = map (\<lambda>(k, v). (to_lower k, v)) hs,
      body = (case b of None \<Rightarrow> JNull | Some j \<Rightarrow> j), raw_body = captured_body capture (body_string b),
      req_ip = None\<rparr>"

definition client_request ::
  "bool \<Rightarrow> crypto_env \<Rightarrow> keypair \<Rightarrow> string \<Rightarrow> int \<Rightarrow> string \<Rightarrow> string \<Rightarrow> json option \<Rightarrow> request" where
  "client_request capture env kp random ts meth url b =
     received capture meth url b (sign_request (sha256_hex env) kp random ts meth url b)"

section \<open>Nonces\<close>

lemma b64_groups_alphabet:
  "length xs mod 3 = 0 \<Longrightarrow> \<forall>x \<in> set xs. x < 256 \<Longrightarrow>
     length (b64_groups xs) = 4 * (length xs div 3) \<and> (\<forall>c \<in> set (b64_groups xs). \<exists>n < 64. c = b64_char n)"
proof (induction xs rule: b64_groups.induct)
  case (4 a b c r)
  have len: "length (a # b # c # r) = 3 + length r" by simp
  have "length r mod 3 = 0" using "4.prems"(1) unfolding len by simp
  then have IH: "length (b64_groups r) = 4 * (length r div 3)" "\<forall>c \<in> set (b64_groups r). \<exists>n < 64. c = b64_char n"
    using 4 by simp_all
  have n: "a div 4 < 64" "a mod 4 * 16 + b div 16 < 64" "b mod 16 * 4 + c div 64 < 64" "c mod 64 < 64"
    using 4 by auto
  have "length (a # b # c # r) div 3 = Suc (length r div 3)" unfolding len by simp
  moreover have "\<exists>n < 64. b64_char (c mod 64) = b64_char n" by (rule exI [of _ "c mod 64"]) simp
  ultimately show ?case using IH n by auto
qed simp_all

lemma url_char_nonce:
  assumes "n < 64"
  shows "url_char (b64_char n) \<noteq> CHR ''=''
    \<and> (let c = url_char (b64_char n) in is_lower c \<or> is_upper c \<or> is_digit c \<or> c = CHR ''_'' \<or> c = CHR ''-'')"
proof -
  have chars: "char_of (43 :: nat) = CHR ''+''" "char_of (45 :: nat) = CHR ''-''" "char_of (47 :: nat) = CHR ''/''"
    "char_of (95 :: nat) = CHR ''_''" by code_simp+
  let ?c = "b64_char n"
  define k :: nat where "k = of_char ?c"
  have c: "?c = char_of k" by (simp add: k_def)
  have "b64_val ?c \<noteq> None" using b64_val_char [OF assms] by simp
  then consider "65 \<le> k" "k \<le> 90" | "97 \<le> k" "k \<le> 122" | "48 \<le> k" "k \<le> 57" | "k = 43" | "k = 45" | "k = 47" | "k = 95"
    unfolding b64_val_def Let_def k_def [symmetric] by (auto split: if_splits)
  moreover have same: "url_char ?c = ?c" if "k \<noteq> 43" "k \<noteq> 47"
    using that by (auto simp: url_char_def k_def)
  moreover have "?c \<noteq> CHR ''=''" using b64_val_char [OF assms] by simp
  ultimately show ?thesis
  proof cases
    case 4 then show ?thesis unfolding c by (simp add: url_char_def chars Let_def)
  next
    case 5 then show ?thesis unfolding c by (simp add: url_char_def chars Let_def)
  next
    case 6 then show ?thesis unfolding c by (simp add: url_char_def chars Let_def)
  next
    case 7 then show ?thesis unfolding c by (simp add: url_char_def chars Let_def)
  qed (simp_all add: is_lower_def is_upper_def is_digit_def Let_def k_def)
qed

lemma generate_nonce_ok:
  assumes "length random = 18"
  shows "length (generate_nonce random) = 24 \<and> nonce_re (generate_nonce random)"
proof -
  have "\<forall>x \<in> set (map of_char random). x < (256 :: nat)" by auto
  then have e: "length (b64_encode random) = 24" "\<forall>c \<in> set (b64_encode random). \<exists>n < 64. c = b64_char n"
    using b64_groups_alphabet [of "map of_char random"] assms by (simp_all add: b64_encode_def)
  have "generate_nonce random = map url_char (b64_encode random)"
    using e(2) url_char_nonce by (auto simp: generate_nonce_def filter_id_conv)
  moreover have "is_lower c \<or> is_upper c \<or> is_digit c \<or> c = CHR ''_'' \<or> c = CHR ''-''"
    if "c \<in> set (map url_char (b64_encode random))" for c
  proof -
    from that e(2) obtain n where "n < 64" "c = url_char (b64_char n)" by auto
    then show ?thesis using url_char_nonce [of n] by (simp add: Let_def)
  qed
  ultimately show ?thesis using e(1) by (simp add: nonce_re_def list_all_iff)
qed

section \<open>Hexadecimal\<close>

lemma digit_in_hex:
  assumes "n < 16"
  shows "digit_in 16 (hex_digit n) = Some n"
proof (cases "n < 10")
  case True
  then have "(48 + n) mod 256 = 48 + n" by simp
  then show ?thesis using True by (simp add: hex_digit_def digit_in_def digit_char_def Let_def)
next
  case False
  then have "(87 + n) mod 256 = 87 + n" using assms by simp
  then show ?thesis using False assms by (simp add: hex_digit_def digit_in_def Let_def)
qed

lemma byte_nibbles: "(of_char c :: nat) div 16 < 16" "(of_char c :: nat) mod 16 < 16"
proof -
  have "n div 16 < 16" if "n < 256" for n :: nat using that by (intro less_mult_imp_div_less) linarith
  moreover have "(of_char c :: nat) < 256" by simp
  ultimately show "(of_char c :: nat) div 16 < 16" by blast
qed simp

lemma hex_bytes_hex: "hex_bytes (bytes_hex s) = s"
  using byte_nibbles by (induction s) (simp_all add: bytes_hex_def byte_hex_def Let_def digit_in_hex)

lemma hex_sig_re_hex: "length s = 64 \<Longrightarrow> hex_sig_re (bytes_hex s)"
proof -
  have "length (bytes_hex s) = 2 * length s \<and> list_all hex_char (bytes_hex s)" for s
    using byte_nibbles by (induction s) (simp_all add: bytes_hex_def byte_hex_def Let_def digit_in_hex hex_char_def)
  then show "length s = 64 \<Longrightarrow> hex_sig_re (bytes_hex s)" by (simp add: hex_sig_re_def)
qed

section \<open>The round trip\<close>

definition usable_keypair :: "crypto_env \<Rightarrow> keypair \<Rightarrow> bool" where
  "usable_keypair env kp \<longleftrightarrow> stellar_pubkey_re (kp_public kp) \<and> pubkey_valid env (kp_public kp)
     \<and> (\<forall>m. length (kp_sign kp m) = 64) \<and> (\<forall>m. ed25519_verify env (kp_public kp) m (kp_sign kp m))"

text \<open>Both sides build the same string from the same request.\<close>

lemma client_signed_string_agrees:
  "client_signed_string (sha256_hex env) m p t n b = build_signed_string env m p t n b"
  by (simp add: client_signed_string_def build_signed_string_def Let_def)

lemma extract_headers_of:
  assumes "header req ''x-signature'' = g" "header req ''x-signed-by'' = k" "header req ''x-nonce'' = n"
    "header req ''x-timestamp'' = int_str t" "hex_sig_re g" "stellar_pubkey_re k" "nonce_re n" "0 < t"
  shows "extract_headers req = Inr \<lparr>sh_signature = g, sh_signed_by = k, sh_nonce = n, sh_timestamp = int_str t,
    sh_tsnum = of_int t\<rparr>"
proof -
  have "nat_str i \<noteq> []" for i by (subst nat_str.simps) simp
  then have "g \<noteq> []" "k \<noteq> []" "n \<noteq> []" "int_str t \<noteq> []"
    using assms(5-8) by (auto simp: hex_sig_re_def stellar_pubkey_re_def nonce_re_def int_str_def)
  then show ?thesis using assms(5-8)
    by (simp only: extract_headers_def Let_def assms(1-4) string_to_number_int_str)
      (simp add: not_le)
qed

lemma client_headers:
  assumes "usable_keypair env kp" "length random = 18" "0 < ts"
  shows "extract_headers (client_request capture env kp random ts m url b) = Inr
    \<lparr>sh_signature = bytes_hex (kp_sign kp (build_signed_string env m url (int_str ts) (generate_nonce random) (body_string b))),
     sh_signed_by = kp_public kp, sh_nonce = generate_nonce random, sh_timestamp = int_str ts, sh_tsnum = of_int ts\<rparr>"
proof -
  have low: "to_lower ''X-Signature'' = ''x-signature''" "to_lower ''X-Signed-By'' = ''x-signed-by''"
    "to_lower ''X-Nonce'' = ''x-nonce''" "to_lower ''X-Timestamp'' = ''x-timestamp''" by code_simp+
  show ?thesis
  proof (rule extract_headers_of)
    show "hex_sig_re (bytes_hex (kp_sign kp (build_signed_string env m url (int_str ts) (generate_nonce random) (body_string b))))"
      using assms(1) by (simp add: usable_keypair_def hex_sig_re_hex)
    show "nonce_re (generate_nonce random)" using generate_nonce_ok [OF assms(2)] by simp
    show "stellar_pubkey_re (kp_public kp)" using assms(1) by (simp add: usable_keypair_def)
  qed (simp_all add: assms(3) header_def client_request_def received_def sign_request_def Let_def low
      client_signed_string_agrees)
qed

text \<open>C3: a request the client signs is accepted, with the key it was signed with as its signer,
  if the server keeps the raw body, the clocks agree and the nonce is new.\<close>

theorem client_request_accepted:
  assumes "usable_keypair env kp" "length random = 18" "0 < ts" "ts \<le> now" "now \<le> ts + max_age_ms cfg"
    and "map_get c (generate_nonce random) = None" "m \<notin> {''GET'', ''HEAD'', ''OPTIONS''}"
  shows "\<exists>c'. verify_signature_middleware env cfg (client_request True env kp random ts m url b) now c
    = (Next (Some (kp_public kp)), c')"
proof -
  let ?r = "client_request True env kp random ts m url b"
  have r: "req_method ?r = m" "original_url ?r = url" "raw_body ?r = body_string b"
    by (simp_all add: client_request_def received_def captured_body_def)
  have "(of_int now :: rat) \<le> of_int (ts + max_age_ms cfg)" using assms(5) by (simp only: of_int_le_iff)
  then have age: "\<not> of_int now < (of_int ts :: rat)" "\<not> of_int (max_age_ms cfg) < (of_int now - of_int ts :: rat)"
    using assms(4) by simp_all
  have seen: "is_nonce_seen (generate_nonce random) now c = (False, evict_expired now c)"
    using evict_none [OF assms(6)] by (simp add: is_nonce_seen_def)
  have u: "pubkey_valid env (kp_public kp)" "\<And>m. ed25519_verify env (kp_public kp) m (kp_sign kp m)"
    using assms(1) by (simp_all add: usable_keypair_def)
  show ?thesis using assms(7) age u
    by (simp add: verify_signature_middleware_def client_headers [OF assms(1-3)] r Let_def
        verify_request_signature_def seen hex_bytes_hex)
qed


section \<open>Examples\<close>

definition demo_sign :: "string \<Rightarrow> string" where
  "demo_sign m = take 64 (rev m @ replicate 64 (CHR ''x''))"

definition demo_pair :: keypair where
  "demo_pair = \<lparr>kp_public = CHR ''G'' # replicate 55 (CHR ''A''), kp_sign = demo_sign\<rparr>"

definition signing_env :: crypto_env where
  "signing_env = \<lparr>sha256_hex = (\<lambda>s. nat_str (length s)), pubkey_valid = (\<lambda>k. length k = 56),
     ed25519_verify = (\<lambda>k m s. s = demo_sign m)\<rparr>"

lemma demo_pair_usable: "usable_keypair signing_env demo_pair"
proof -
  have "min (length m) 64 + (64 - length m) = 64" for m :: string by linarith
  then show ?thesis
    by (simp add: usable_keypair_def demo_pair_def signing_env_def demo_sign_def stellar_pubkey_re_def
        base32_char_def is_upper_def list_all_iff)
qed

theorem client_request_accepted_witness:
  "\<exists>c'. verify_signature_middleware signing_env default_sig_config
     (client_request True signing_env demo_pair (replicate 18 (CHR ''r'')) 100 ''POST'' ''/api/v1/distribute''
       (Some (JObj []))) 250 [] = (Next (Some (kp_public demo_pair)), c')"
  by (rule client_request_accepted [OF demo_pair_usable]) (simp_all add: default_sig_config_def)


end
