(* ===== verification/OfflineQueue.thy ===== *)
theory OfflineQueue
  imports SqlTable Http
begin

text \<open>
  The offline side of the client: \<open>src/frontend/public/service-worker.js\<close> and the constants it shares with
  \<open>src/frontend/src/lib/offlineQueue.ts\<close>.  The object store of the queue is a table with its auto-increment
  key; a put under a key that is gone inserts the row again.  A drain works on the rows it read at its
  start, and the browser may run several drains, enqueues and a clearing at once: \<open>sw_step\<close> interleaves
  them at their awaits.  The network and the clock are arguments.
\<close>

record queued_write =
  qw_url :: string
  qw_method :: string
  qw_headers :: "(string \<times> string) list"
  qw_body :: string
  qw_attempts :: nat
  qw_next :: int
  qw_at :: int

record write_request =
  wr_url :: string
  wr_method :: string
  wr_headers :: "(string \<times> string) list"
  wr_body :: string

section \<open>The write queue\<close>

definition max_queue_size :: nat where
  "max_queue_size = 100"

definition base_backoff_ms :: int where
  "base_backoff_ms = 1000"

definition max_backoff_ms :: int where
  "max_backoff_ms = 600000"

definition queue_backoff_ms :: "nat \<Rightarrow> int" where
  "queue_backoff_ms attempts = min (base_backoff_ms * 2 ^ attempts) max_backoff_ms"

text \<open>\<open>objectStore.put\<close> under a key already given out.\<close>

definition t_put :: "nat \<Rightarrow> 'r \<Rightarrow> 'r table \<Rightarrow> 'r table" where
  "t_put i r t = t\<lparr>trows := filter (\<lambda>x. fst x < i) (trows t) @ (i, r) # filter (\<lambda>x. i < fst x) (trows t)\<rparr>"

definition fresh_write :: "write_request \<Rightarrow> int \<Rightarrow> queued_write" where
  "fresh_write w now = \<lparr>qw_url = wr_url w, qw_method = wr_method w, qw_headers = wr_headers w, qw_body = wr_body w,
     qw_attempts = 0, qw_next = now, qw_at = now\<rparr>"

definition queue_count :: "queued_write table \<Rightarrow> nat" where
  "queue_count t = length (trows t)"

definition enqueue_write :: "write_request \<Rightarrow> int \<Rightarrow> queued_write table \<Rightarrow> bool \<times> queued_write table" where
  "enqueue_write w now t =
     (if max_queue_size \<le> queue_count t then (False, t) else (True, snd (t_insert (fresh_write w now) t)))"

definition rescheduled :: "int \<Rightarrow> queued_write \<Rightarrow> queued_write" where
  "rescheduled now w = (let n = Suc (qw_attempts w) in w\<lparr>qw_attempts := n, qw_next := now + queue_backoff_ms n\<rparr>)"

definition reschedule_retry :: "int \<Rightarrow> nat \<times> queued_write \<Rightarrow> queued_write table \<Rightarrow> queued_write table" where
  "reschedule_retry now x t = t_put (fst x) (rescheduled now (snd x)) t"

text \<open>What \<open>fetch\<close> gives: an answer that is \<open>ok\<close> or not, or a network error.\<close>

datatype fetch_reply = Answered bool | NetworkDown

datatype sw_message = WriteReplayed string | QueueUpdated nat

text \<open>One item of a drain: the network answers the item with the given key as scripted, at the given time.\<close>

definition drain_item ::
  "(nat \<Rightarrow> fetch_reply \<times> int) \<Rightarrow> int \<Rightarrow> nat \<times> queued_write \<Rightarrow> queued_write table \<times> bool \<times> sw_message list
    \<Rightarrow> queued_write table \<times> bool \<times> sw_message list" where
  "drain_item net now x s =
     (if now < qw_next (snd x) then s
      else case net (fst x) of
          (Answered True, _) \<Rightarrow> (t_delete (by_id (fst x)) (fst s), True, snd (snd s) @ [WriteReplayed (qw_url (snd x))])
        | (_, later) \<Rightarrow> (reschedule_retry later x (fst s), True, snd (snd s)))"

definition drain_queue ::
  "(nat \<Rightarrow> fetch_reply \<times> int) \<Rightarrow> int \<Rightarrow> queued_write table \<Rightarrow> queued_write table \<times> sw_message list" where
  "drain_queue net now t =
     (case fold (drain_item net now) (trows t) (t, False, []) of
        (t', changed, ms) \<Rightarrow> (t', ms @ (if changed then [QueueUpdated (queue_count t')] else [])))"

definition clear_queue :: "queued_write table \<Rightarrow> queued_write table" where
  "clear_queue t = t_delete (\<lambda>_. True) t"

definition get_queued_writes :: "queued_write table \<Rightarrow> (nat \<times> queued_write) list" where
  "get_queued_writes t = order_asc (\<lambda>x. qw_at (snd x)) (trows t)"

section \<open>The fetch handler\<close>

definition app_shell :: "string list" where
  "app_shell = [''/'', ''/index.html'']"

definition cacheable_api_prefixes :: "string list" where
  "cacheable_api_prefixes = [''/api/collaborators/'', ''/api/history/'', ''/api/analytics/'',
     ''/api/secondary-royalty/'', ''/api/contract/'', ''/api/audit/'', ''/api/transaction/'']"

definition is_cacheable_api_get :: "string \<Rightarrow> bool" where
  "is_cacheable_api_get path = list_ex (\<lambda>p. starts_with path p) cacheable_api_prefixes"

datatype strategy = LeaveAlone | QueueWrites | NetworkFirst | CacheFirst | StaleWhileRevalidate

definition strategy_of :: "bool \<Rightarrow> string \<Rightarrow> string \<Rightarrow> strategy" where
  "strategy_of same_origin meth path =
     (if \<not> same_origin then LeaveAlone
      else if meth \<noteq> ''GET'' then QueueWrites
      else if is_cacheable_api_get path then NetworkFirst
      else if path \<in> set app_shell \<or> path = ''/index.html'' then CacheFirst
      else StaleWhileRevalidate)"

text \<open>What the page gets: the network's answer, or one the worker made.\<close>

datatype page_answer = FromNetwork bool | FromWorker response

definition write_handler ::
  "fetch_reply \<Rightarrow> write_request \<Rightarrow> int \<Rightarrow> queued_write table \<Rightarrow> page_answer \<times> queued_write table" where
  "write_handler reply w now t =
     (case reply of
        Answered ok \<Rightarrow> (FromNetwork ok, t)
      | NetworkDown \<Rightarrow>
          (case enqueue_write w now t of
             (False, t') \<Rightarrow> (FromWorker \<lparr>rstatus = 503, rbody = JObj [(''queued'', JBool False), (''offline'', JBool True),
                 (''error'', JStr ''offline_queue_full''),
                 (''message'', JStr ''Offline queue is full (max 100 pending writes). Please retry once back online.'')]\<rparr>, t')
           | (True, t') \<Rightarrow>
               (FromWorker \<lparr>rstatus = 202, rbody = JObj [(''queued'', JBool True), (''offline'', JBool True)]\<rparr>, t')))"

text \<open>A cacheable GET: the network's response by url, or nothing when it is down.\<close>

definition api_get_handler ::
  "(bool \<times> 'b) option \<Rightarrow> string \<Rightarrow> (string, 'b) jsmap \<Rightarrow> ((bool \<times> 'b) + 'b option) \<times> (string, 'b) jsmap" where
  "api_get_handler net url c =
     (case net of
        Some (ok, b) \<Rightarrow> (Inl (ok, b), if ok then map_set url b c else c)
      | None \<Rightarrow> (Inr (map_get c url), c))"

section \<open>Interleaved workers\<close>

record sw =
  sw_db :: "queued_write table"
  sw_adds :: "write_request list"
  sw_drains :: "(int \<times> (nat \<times> queued_write) list) list"
  sw_sent :: "(nat \<times> bool) list"
  sw_cleared :: "nat set"

definition sw_init :: sw where
  "sw_init = \<lparr>sw_db = t_empty, sw_adds = [], sw_drains = [], sw_sent = [], sw_cleared = {}\<rparr>"

inductive sw_step :: "sw \<Rightarrow> sw \<Rightarrow> bool" where
  check: "queue_count (sw_db s) < max_queue_size \<Longrightarrow> sw_step s (s\<lparr>sw_adds := sw_adds s @ [w]\<rparr>)"
| add: "sw_adds s = us @ w # vs \<Longrightarrow>
    sw_step s (s\<lparr>sw_db := snd (t_insert (fresh_write w now) (sw_db s)), sw_adds := us @ vs\<rparr>)"
| start: "sw_step s (s\<lparr>sw_drains := sw_drains s @ [(now, trows (sw_db s))]\<rparr>)"
| skip: "k < length (sw_drains s) \<Longrightarrow> sw_drains s ! k = (now, x # xs) \<Longrightarrow> now < qw_next (snd x) \<Longrightarrow>
    sw_step s (s\<lparr>sw_drains := (sw_drains s)[k := (now, xs)]\<rparr>)"
| accepted: "k < length (sw_drains s) \<Longrightarrow> sw_drains s ! k = (now, x # xs) \<Longrightarrow> qw_next (snd x) \<le> now \<Longrightarrow>
    sw_step s (s\<lparr>sw_db := t_delete (by_id (fst x)) (sw_db s), sw_drains := (sw_drains s)[k := (now, xs)],
      sw_sent := sw_sent s @ [(fst x, True)]\<rparr>)"
| refused: "k < length (sw_drains s) \<Longrightarrow> sw_drains s ! k = (now, x # xs) \<Longrightarrow> qw_next (snd x) \<le> now \<Longrightarrow>
    sw_step s (s\<lparr>sw_db := reschedule_retry later x (sw_db s), sw_drains := (sw_drains s)[k := (now, xs)],
      sw_sent := sw_sent s @ [(fst x, False)]\<rparr>)"
| finish: "sw_drains s = us @ (now, []) # vs \<Longrightarrow> sw_step s (s\<lparr>sw_drains := us @ vs\<rparr>)"
| clear: "sw_step s (s\<lparr>sw_db := clear_queue (sw_db s), sw_cleared := sw_cleared s \<union> set (map fst (trows (sw_db s)))\<rparr>)"

inductive sw_reach :: "sw \<Rightarrow> bool" where
  init: "sw_reach sw_init"
| step: "sw_reach s \<Longrightarrow> sw_step s s' \<Longrightarrow> sw_reach s'"

text \<open>Runs in which a drain only starts when no other is running.\<close>

inductive serial_reach :: "sw \<Rightarrow> bool" where
  init: "serial_reach sw_init"
| step: "serial_reach s \<Longrightarrow> sw_step s s' \<Longrightarrow> length (sw_drains s') \<le> 1 \<Longrightarrow> serial_reach s'"

section \<open>The store\<close>

abbreviation db_ids :: "'r table \<Rightarrow> nat set" where
  "db_ids t \<equiv> fst ` set (trows t)"

lemma ids_put [simp]: "db_ids (t_put i r t) = insert i (db_ids t)"
  by (auto simp: t_put_def image_iff)

lemma ids_delete [simp]: "db_ids (t_delete (by_id i) t) = db_ids t - {i}"
  by (auto simp: t_delete_def by_id_def)

lemma ids_clear [simp]: "db_ids (clear_queue t) = {}"
  by (simp add: clear_queue_def t_delete_def)

lemma ids_insert [simp]: "db_ids (snd (t_insert r t)) = insert (Suc (tseq t)) (db_ids t)"
  by (simp add: t_insert_def)

lemma seq_simps [simp]:
  "tseq (t_put i r t) = tseq t" "tseq (t_delete P t) = tseq t" "tseq (clear_queue t) = tseq t"
  "tseq (snd (t_insert r t)) = Suc (tseq t)" "tseq (reschedule_retry n x t) = tseq t"
  by (simp_all add: t_put_def t_delete_def clear_queue_def t_insert_def reschedule_retry_def)

lemma ids_reschedule [simp]: "db_ids (reschedule_retry n x t) = insert (fst x) (db_ids t)"
  by (simp add: reschedule_retry_def)

lemma ok_put: "t_ok t \<Longrightarrow> 0 < i \<Longrightarrow> i \<le> tseq t \<Longrightarrow> t_ok (t_put i r t)"
  by (auto simp: t_ok_def t_put_def sorted_wrt_append sorted_wrt_map filter_map intro: sorted_wrt_filter)

section \<open>A drain on its own\<close>

definition after_drain :: "(nat \<Rightarrow> fetch_reply \<times> int) \<Rightarrow> int \<Rightarrow> nat \<times> queued_write \<Rightarrow> (nat \<times> queued_write) option" where
  "after_drain net now x =
     (if now < qw_next (snd x) then Some x
      else case net (fst x) of (Answered True, _) \<Rightarrow> None | (_, later) \<Rightarrow> Some (fst x, rescheduled later (snd x)))"

definition replayed :: "(nat \<Rightarrow> fetch_reply \<times> int) \<Rightarrow> int \<Rightarrow> nat \<times> queued_write \<Rightarrow> bool" where
  "replayed net now x \<longleftrightarrow> qw_next (snd x) \<le> now \<and> fst (net (fst x)) = Answered True"

lemma put_middle:
  assumes "sorted_wrt (<) (map fst (ys @ (i, r) # zs))" "trows t = ys @ (i, r) # zs"
  shows "trows (t_put i r' t) = ys @ (i, r') # zs"
proof -
  have "fst x < i" if "x \<in> set ys" for x using assms(1) that by (auto simp: sorted_wrt_append)
  moreover have "i < fst x" if "x \<in> set zs" for x using assms(1) that by (auto simp: sorted_wrt_append)
  ultimately have "filter (\<lambda>x. fst x < i) ys = ys" "filter (\<lambda>x. i < fst x) ys = []"
    "filter (\<lambda>x. fst x < i) zs = []" "filter (\<lambda>x. i < fst x) zs = zs"
    by (auto intro!: filter_True filter_False dest: order.asym)
  then show ?thesis by (simp add: t_put_def assms(2))
qed

lemma delete_middle:
  assumes "sorted_wrt (<) (map fst (ys @ x # zs))" "trows t = ys @ x # zs"
  shows "trows (t_delete (by_id (fst x)) t) = ys @ zs"
proof -
  have "\<forall>y \<in> set (ys @ zs). fst y \<noteq> fst x" using assms(1) by (auto simp: sorted_wrt_append)
  then show ?thesis by (simp add: t_delete_def by_id_def assms(2) filter_True)
qed

lemma drain_items:
  assumes "sorted_wrt (<) (map fst (ys @ xs))" "trows t = ys @ xs"
    "fold (drain_item net now) xs (t, ch, ms) = (t', ch', ms')"
  shows "trows t' = ys @ List.map_filter (after_drain net now) xs \<and> tseq t' = tseq t
    \<and> ms' = ms @ map (\<lambda>x. WriteReplayed (qw_url (snd x))) (filter (replayed net now) xs)
    \<and> (ch' \<longleftrightarrow> ch \<or> (\<exists>x \<in> set xs. qw_next (snd x) \<le> now))"
  using assms
proof (induction xs arbitrary: ys t ch ms)
  case Nil
  then show ?case by (simp add: List.map_filter_simps)
next
  case (Cons x xs)
  obtain t1 ch1 ms1 where s: "drain_item net now x (t, ch, ms) = (t1, ch1, ms1)" by (cases "drain_item net now x (t, ch, ms)") auto
  define o' where "o' = (case after_drain net now x of None \<Rightarrow> [] | Some y \<Rightarrow> [y])"
  have x: "x = (fst x, snd x)" by simp
  have fx: "fst y = fst x" if "after_drain net now x = Some y" for y
    using that by (auto simp: after_drain_def split: if_splits prod.splits fetch_reply.splits bool.splits)
  have r: "trows t1 = (ys @ o') @ xs \<and> tseq t1 = tseq t \<and> ch1 = (ch \<or> qw_next (snd x) \<le> now)
    \<and> ms1 = ms @ (if replayed net now x then [WriteReplayed (qw_url (snd x))] else [])"
  proof (cases "now < qw_next (snd x)")
    case True
    then show ?thesis using s Cons.prems(2) by (auto simp: drain_item_def o'_def after_drain_def replayed_def)
  next
    case due: False
    have del: "trows (t_delete (by_id (fst x)) t) = ys @ xs" by (rule delete_middle [OF Cons.prems(1,2)])
    have put: "trows (t_put (fst x) r t) = ys @ (fst x, r) # xs" for r
      by (rule put_middle [of ys "fst x" "snd x"]) (use Cons.prems(1,2) in simp_all)
    obtain reply later where n: "net (fst x) = (reply, later)" by (cases "net (fst x)")
    show ?thesis
    proof (cases "reply = Answered True")
      case True
      then show ?thesis using s due del n by (auto simp: drain_item_def o'_def after_drain_def replayed_def)
    next
      case False
      then have "after_drain net now x = Some (fst x, rescheduled later (snd x))"
        "t1 = reschedule_retry later x t" "ch1" "ms1 = ms"
        using s due n by (auto simp: drain_item_def after_drain_def split: fetch_reply.splits bool.splits)
      then show ?thesis using put False due n by (simp add: o'_def replayed_def reschedule_retry_def)
    qed
  qed
  have "sorted_wrt (<) (map fst ((ys @ o') @ xs))"
  proof (cases "after_drain net now x")
    case None
    then show ?thesis using Cons.prems(1) by (simp add: o'_def sorted_wrt_append)
  next
    case (Some y)
    then show ?thesis using Cons.prems(1) fx [OF Some] by (simp add: o'_def sorted_wrt_append)
  qed
  from Cons.IH [OF this conjunct1 [OF r], of ch1 ms1] Cons.prems(3) s r
  show ?case by (cases "after_drain net now x") (auto simp: o'_def List.map_filter_simps)
qed

text \<open>A drain replays the writes that are due in the order they were queued, announces those the server
  accepted and removes exactly them; each other due write waits twice as long as before, and at most ten
  minutes.  The writes that are not due stay as they are, and the queue does not grow.\<close>

theorem drain_queue_replays_due:
  assumes "t_ok t" "drain_queue net now t = (t', ms)"
  shows "trows t' = List.map_filter (after_drain net now) (trows t) \<and> t_ok t' \<and> queue_count t' \<le> queue_count t
    \<and> filter (\<lambda>m. m \<noteq> QueueUpdated (queue_count t')) ms
        = map (\<lambda>x. WriteReplayed (qw_url (snd x))) (filter (replayed net now) (trows t))"
proof -
  obtain t1 ch ms1 where f: "fold (drain_item net now) (trows t) (t, False, []) = (t1, ch, ms1)"
    by (cases "fold (drain_item net now) (trows t) (t, False, [])") auto
  have "sorted_wrt (<) (map fst (trows t))" using assms(1) by (simp add: t_ok_def)
  from drain_items [of "[]", OF _ _ f] this
  have r: "trows t1 = List.map_filter (after_drain net now) (trows t)" "tseq t1 = tseq t"
    "ms1 = map (\<lambda>x. WriteReplayed (qw_url (snd x))) (filter (replayed net now) (trows t))" by simp_all
  have fx: "fst y = fst x" if "after_drain net now x = Some y" for x y
    using that by (auto simp: after_drain_def split: if_splits prod.splits fetch_reply.splits bool.splits)
  have "length (List.map_filter (after_drain net now) xs) \<le> length xs" for xs
    by (induction xs) (auto simp: List.map_filter_simps split: option.split)
  moreover have "t_ok t1"
  proof -
    have "sorted_wrt (<) (map fst (List.map_filter (after_drain net now) xs))
        \<and> (\<forall>y \<in> set (List.map_filter (after_drain net now) xs). \<exists>x \<in> set xs. fst y = fst x)"
      if "sorted_wrt (<) (map fst xs)" for xs
      using that
    proof (induction xs)
      case (Cons x xs)
      then show ?case using fx [of x] by (auto simp: List.map_filter_simps split: option.split) (metis fst_conv)+
    qed (simp add: List.map_filter_simps)
    then show ?thesis using assms(1) r by (fastforce simp: t_ok_def)
  qed
  ultimately show ?thesis using assms(2) r f
    by (auto simp: drain_queue_def queue_count_def filter_id_conv)
qed

text \<open>The waiting time of a retry doubles from two seconds up to ten minutes.\<close>

lemma backoff_range: "1000 \<le> queue_backoff_ms n \<and> queue_backoff_ms n \<le> 600000
    \<and> queue_backoff_ms n \<le> queue_backoff_ms (Suc n)"
proof -
  have "(1 :: int) \<le> 2 ^ n" by simp
  then show ?thesis by (auto simp: queue_backoff_ms_def base_backoff_ms_def max_backoff_ms_def min_def)
qed

section \<open>Interleaved workers\<close>

text \<open>C15: however drains, enqueues and clearings interleave, every write that was queued is still queued,
  was accepted by the server, or was cleared by the user.\<close>

theorem no_queued_write_lost:
  assumes "sw_reach s" "1 \<le> i" "i \<le> tseq (sw_db s)"
  shows "i \<in> db_ids (sw_db s) \<or> (i, True) \<in> set (sw_sent s) \<or> i \<in> sw_cleared s"
  using assms
proof (induction)
  case init
  then show ?case by (simp add: sw_init_def t_empty_def)
next
  case (step s s')
  from step.hyps(2) step.IH step.prems show ?case
    by cases (auto simp: le_Suc_eq)
qed

definition serial_inv :: "sw \<Rightarrow> bool" where
  "serial_inv s \<longleftrightarrow> t_ok (sw_db s) \<and> length (sw_drains s) \<le> 1
     \<and> (\<forall>(i, b) \<in> set (sw_sent s). i \<le> tseq (sw_db s))
     \<and> (\<forall>(now, xs) \<in> set (sw_drains s). distinct (map fst xs) \<and> (\<forall>x \<in> set xs. 0 < fst x \<and> fst x \<le> tseq (sw_db s)
          \<and> (fst x, True) \<notin> set (sw_sent s)))
     \<and> (\<forall>i \<in> db_ids (sw_db s). (i, True) \<notin> set (sw_sent s))
     \<and> distinct (map fst (filter snd (sw_sent s)))"

lemma serial_step:
  assumes "serial_inv s" "sw_step s s'" "length (sw_drains s') \<le> 1"
  shows "serial_inv s'"
  using assms(2)
proof cases
  case (check w)
  then show ?thesis using assms(1) by (simp add: serial_inv_def)
next
  case (add us w vs now)
  have "t_ok (snd (t_insert (fresh_write w now) (sw_db s)))" using assms(1) tb.ok_ins by (auto simp: serial_inv_def)
  with add show ?thesis using assms(1) by (fastforce simp: serial_inv_def)
next
  case (start now)
  then have "sw_drains s = []" using assms(3) by simp
  with start assms(1) tb.ok_distinct [of "sw_db s"] show ?thesis by (auto simp: serial_inv_def t_ok_def)
next
  case (skip k now x xs)
  then have "sw_drains s = [(now, x # xs)]" using assms(1) by (cases "sw_drains s") (auto simp: serial_inv_def)
  with skip assms(1) show ?thesis by (auto simp: serial_inv_def)
next
  case (accepted k now x xs)
  then have d: "sw_drains s = [(now, x # xs)]" "k = 0" using assms(1) by (cases "sw_drains s"; auto simp: serial_inv_def)+
  have "t_ok (t_delete (by_id (fst x)) (sw_db s))" using assms(1) tb.ok_del by (auto simp: serial_inv_def)
  with accepted d assms(1) show ?thesis by (auto simp: serial_inv_def) (metis fst_conv image_eqI)
next
  case (refused k now x xs later)
  then have d: "sw_drains s = [(now, x # xs)]" "k = 0" using assms(1) by (cases "sw_drains s"; auto simp: serial_inv_def)+
  have "t_ok (reschedule_retry later x (sw_db s))"
    unfolding reschedule_retry_def using assms(1) d by (intro ok_put) (auto simp: serial_inv_def)
  with refused d assms(1) show ?thesis by (auto simp: serial_inv_def)
next
  case (finish us now vs)
  then show ?thesis using assms(1,3) by (auto simp: serial_inv_def)
next
  case clear
  have "t_ok (clear_queue (sw_db s))" by (simp add: t_ok_def clear_queue_def t_delete_def)
  with clear assms(1) show ?thesis by (auto simp: serial_inv_def clear_queue_def t_delete_def)
qed


section \<open>Cached answers\<close>

definition ok_for :: "string \<Rightarrow> string \<times> (bool \<times> 'b) option \<Rightarrow> bool" where
  "ok_for url g = (fst g = url \<and> (case snd g of Some (ok, _) \<Rightarrow> ok | None \<Rightarrow> False))"

definition last_ok :: "string \<Rightarrow> (string \<times> (bool \<times> 'b) option) list \<Rightarrow> 'b option" where
  "last_ok url gs = (case filter (ok_for url) gs of [] \<Rightarrow> None | xs \<Rightarrow> map_option snd (snd (last xs)))"

definition api_cache :: "(string \<times> (bool \<times> 'b) option) list \<Rightarrow> (string, 'b) jsmap" where
  "api_cache gs = fold (\<lambda>g c. snd (api_get_handler (snd g) (fst g) c)) gs []"

lemma api_cache_snoc: "api_cache (gs @ [g]) = snd (api_get_handler (snd g) (fst g) (api_cache gs))"
  by (simp add: api_cache_def)

lemma last_ok_snoc: "last_ok url (gs @ [g]) = (if ok_for url g then map_option snd (snd g) else last_ok url gs)"
  by (cases "filter (ok_for url) gs") (simp_all add: last_ok_def)

lemma api_cache_last: "map_get (api_cache gs) url = last_ok url gs"
proof (induction gs rule: rev_induct)
  case Nil
  then show ?case by (simp add: api_cache_def last_ok_def)
next
  case (snoc g gs)
  obtain u net where g: "g = (u, net)" by (cases g)
  show ?case
  proof (cases net)
    case None
    then show ?thesis using snoc by (simp add: api_cache_snoc last_ok_snoc g ok_for_def api_get_handler_def)
  next
    case (Some r)
    obtain ok b where "r = (ok, b)" by (cases r)
    then show ?thesis using snoc Some
      by (simp add: api_cache_snoc last_ok_snoc g ok_for_def api_get_handler_def map_of_update)
  qed
qed

text \<open>Online a cacheable GET gets the network's answer; offline it gets the body of the last successful
  answer for its url, whatever was fetched in between, and 503 if there was none.\<close>

theorem offline_answer_is_last_ok:
  "fst (api_get_handler net url (api_cache gs)) = (case net of Some r \<Rightarrow> Inl r | None \<Rightarrow> Inr (last_ok url gs))"
  by (cases net) (auto simp: api_get_handler_def api_cache_last)

section \<open>Overlapping drains\<close>

definition demo_write :: write_request where
  "demo_write = \<lparr>wr_url = ''/api/v1/distribute'', wr_method = ''POST'', wr_headers = [], wr_body = ''{}''\<rparr>"

definition queued_once :: sw where
  "queued_once = sw_init\<lparr>sw_db := snd (t_insert (fresh_write demo_write 5) t_empty)\<rparr>"

lemma queued_once_reach: "sw_reach queued_once" "serial_reach queued_once"
proof -
  have c: "sw_step sw_init (sw_init\<lparr>sw_adds := [demo_write]\<rparr>)"
    using sw_step.check [of sw_init demo_write] by (simp add: sw_init_def queue_count_def t_empty_def max_queue_size_def)
  have a: "sw_step (sw_init\<lparr>sw_adds := [demo_write]\<rparr>) queued_once"
    using sw_step.add [of "sw_init\<lparr>sw_adds := [demo_write]\<rparr>" "[]" demo_write "[]" 5]
    by (simp add: sw_init_def queued_once_def)
  show "sw_reach queued_once" by (rule sw_reach.step [OF sw_reach.step [OF sw_reach.init c] a])
  show "serial_reach queued_once"
    by (rule serial_reach.step [OF serial_reach.step [OF serial_reach.init c] a]) (simp_all add: sw_init_def queued_once_def)
qed

text \<open>Two drains that overlap submit one queued distribution twice.\<close>

lemma overlapping_drains_submit_twice: "\<exists>s. sw_reach s \<and> sw_sent s = [(1, True), (1, True)]"
proof -
  let ?x = "(1 :: nat, fresh_write demo_write 5)"
  let ?d = "(9 :: int, [?x])" and ?e = "(9 :: int, [] :: (nat \<times> queued_write) list)"
  have r: "trows (sw_db queued_once) = [?x]" "sw_drains queued_once = []" "sw_sent queued_once = []"
    by (simp_all add: queued_once_def sw_init_def t_insert_def t_empty_def)
  have n: "qw_next (snd ?x) \<le> 9" by (simp add: fresh_write_def)
  define s1 where "s1 = queued_once\<lparr>sw_drains := [?d]\<rparr>"
  define s2 where "s2 = s1\<lparr>sw_drains := [?d, ?d]\<rparr>"
  define s3 where "s3 = s2\<lparr>sw_db := t_delete (by_id 1) (sw_db s2), sw_drains := [?e, ?d], sw_sent := [(1, True)]\<rparr>"
  define s4 where "s4 = s3\<lparr>sw_db := t_delete (by_id 1) (sw_db s3), sw_drains := [?e, ?e], sw_sent := [(1, True), (1, True)]\<rparr>"
  have 1: "sw_step queued_once s1" using sw_step.start [of queued_once 9] by (simp add: s1_def r)
  have 2: "sw_step s1 s2" using sw_step.start [of s1 9] by (simp add: s1_def s2_def r)
  have 3: "sw_step s2 s3" using sw_step.accepted [of 0 s2 9 ?x "[]"] n by (simp add: s1_def s2_def s3_def r)
  have 4: "sw_step s3 s4" using sw_step.accepted [of 1 s3 9 ?x "[]"] n by (simp add: s1_def s2_def s3_def s4_def r)
  have "sw_reach s4" using queued_once_reach(1) 1 2 3 4 by (blast intro: sw_reach.step)
  then show ?thesis by (auto simp: s4_def)
qed

theorem no_queued_write_lost_witness:
  "1 \<in> db_ids (sw_db queued_once) \<or> (1, True) \<in> set (sw_sent queued_once) \<or> 1 \<in> sw_cleared queued_once"
  by (rule no_queued_write_lost [OF queued_once_reach(1)]) (simp_all add: queued_once_def)


theorem drain_queue_replays_due_witness:
  "trows (fst (drain_queue (\<lambda>_. (Answered True, 7)) 6 (sw_db queued_once))) = []"
proof -
  have "t_ok (sw_db queued_once)" by (simp add: queued_once_def t_ok_def t_insert_def t_empty_def)
  from drain_queue_replays_due [OF this, of "\<lambda>_. (Answered True, 7)" 6]
  have "trows (fst (drain_queue (\<lambda>_. (Answered True, 7)) 6 (sw_db queued_once)))
      = List.map_filter (after_drain (\<lambda>_. (Answered True, 7)) 6) (trows (sw_db queued_once))" by (metis prod.collapse)
  then show ?thesis
    by (simp add: queued_once_def t_insert_def t_empty_def List.map_filter_simps after_drain_def fresh_write_def)
qed

end
