(* ===== verification/RoyaltyConfig.thy ===== *)
theory RoyaltyConfig
  imports Validation JsDouble
begin

text \<open>
  Royalty configurations in the client: the import and export of configuration files,
  \<open>src/frontend/src/utils/royaltyConfig.ts\<close>, and the submission of the form,
  \<open>src/frontend/src/components/InitializeForm.tsx\<close>, against the schema of the server.  Percentages are
  doubles.  How a number prints, \<open>String(n)\<close>, is the argument \<open>num\<close>; the parser of decimals gives the exact
  value, which \<open>as_double\<close> rounds (a negative number is only ever compared with zero and stays as it is).
\<close>

record config_row =
  cr_address :: string
  cr_points :: string

record config_file =
  cf_version :: int
  cf_created :: string
  cf_entries :: "(string \<times> rat) list"

record 'r rows_state =
  rs_errors :: "string list"
  rs_seen :: "string list"
  rs_rows :: "'r list"
  rs_total :: rat

definition rows_init :: "'r rows_state" where
  "rows_init = \<lparr>rs_errors = [], rs_seen = [], rs_rows = [], rs_total = 0\<rparr>"

definition rows_error :: "nat \<Rightarrow> string \<Rightarrow> 'r rows_state \<Rightarrow> 'r rows_state" where
  "rows_error i m s = s\<lparr>rs_errors := rs_errors s @ [''Row '' @ nat_str (Suc i) @ '': '' @ m]\<rparr>"

definition rows_accept :: "string \<Rightarrow> rat \<Rightarrow> 'r \<Rightarrow> 'r rows_state \<Rightarrow> 'r rows_state" where
  "rows_accept a q r s = s\<lparr>rs_seen := rs_seen s @ [a], rs_rows := rs_rows s @ [r], rs_total := to_double (rs_total s + q)\<rparr>"

definition config_version :: int where
  "config_version = 1"

definition max_config_collaborators :: nat where
  "max_config_collaborators = 50"

definition as_double :: "js_number \<Rightarrow> js_number" where
  "as_double n = (case n of Finite q \<Rightarrow> Finite (if 0 \<le> q then to_double q else q) | _ \<Rightarrow> n)"

definition valid_percentage :: "js_number \<Rightarrow> bool" where
  "valid_percentage n = (case n of Finite q \<Rightarrow> 0 < q \<and> q \<le> 100 | _ \<Rightarrow> False)"

definition math_round :: "rat \<Rightarrow> int" where
  "math_round x = \<lfloor>x + 1 / 2\<rfloor>"

definition sums_to_hundred :: "rat \<Rightarrow> bool" where
  "sums_to_hundred x \<longleftrightarrow> math_round (to_double (x * 100)) = 10000"

text \<open>\<open>toFixed(2)\<close> of a non-negative number.\<close>

definition to_fixed2 :: "rat \<Rightarrow> string" where
  "to_fixed2 x = (let n = nat (math_round (x * 100)) in nat_str (n div 100) @ ''.'' @ pad 2 (n mod 100))"

section \<open>Import\<close>

definition config_import_row :: "(rat \<Rightarrow> string) \<Rightarrow> nat \<times> js_value \<Rightarrow> config_row rows_state \<Rightarrow> config_row rows_state" where
  "config_import_row num = (\<lambda>(i, entry) s.
     (case entry of
        VObj ps \<Rightarrow>
          (case prop_of ps ''address'' of
             VStr a \<Rightarrow>
               if \<not> account_regex a
               then rows_error i ''\"address\" must be a valid Stellar address (G..., 56 chars).'' s
               else if a \<in> set (rs_seen s)
               then rows_error i (''duplicate collaborator address \"'' @ a @ ''\".'') s
               else (case prop_of ps ''percentage'' of
                   VNum n \<Rightarrow>
                     (case as_double n of
                        Finite q \<Rightarrow>
                          if q \<le> 0 \<or> 100 < q
                          then rows_error i ''\"percentage\" must be a number greater than 0 and up to 100.'' s
                          else rows_accept a q \<lparr>cr_address = a, cr_points = num q\<rparr> s
                      | _ \<Rightarrow> rows_error i ''\"percentage\" must be a number greater than 0 and up to 100.'' s)
                 | _ \<Rightarrow> rows_error i ''\"percentage\" must be a number greater than 0 and up to 100.'' s)
           | _ \<Rightarrow> rows_error i ''\"address\" must be a valid Stellar address (G..., 56 chars).'' s)
      | _ \<Rightarrow> rows_error i ''must be an object with \"address\" and \"percentage\".'' s))"

definition check_config :: "(rat \<Rightarrow> string) \<Rightarrow> js_value \<Rightarrow> string list + config_row list" where
  "check_config num v =
     (case v of
        VObj ps \<Rightarrow>
          let version = prop_of ps ''version'' in
          if version = VUndef \<or> version = VNull
          then Inl [''\"version\" field is required. Supported versions: 1.'']
          else (case version of
            VNum (Finite n) \<Rightarrow>
              if n \<noteq> of_int \<lfloor>n\<rfloor> then Inl [''\"version\" must be an integer.'']
              else if n \<noteq> of_int config_version
              then Inl [''Unsupported configuration version '' @ num n @ ''. Supported versions: 1.'']
              else (case prop_of ps ''collaborators'' of
                  VArr xs \<Rightarrow>
                    if xs = [] then Inl [''\"collaborators\" must be a non-empty array.'']
                    else if max_config_collaborators < length xs
                    then Inl [''Too many collaborators ('' @ nat_str (length xs) @ ''). Maximum is 50.'']
                    else let s = fold (config_import_row num) (enumerate 0 xs) rows_init in
                      if rs_errors s \<noteq> [] then Inl (rs_errors s)
                      else if \<not> sums_to_hundred (rs_total s)
                      then Inl [''Collaborator percentages must sum to 100% (file totals '' @ to_fixed2 (rs_total s) @ ''%).'']
                      else Inr (rs_rows s)
                | _ \<Rightarrow> Inl [''\"collaborators\" must be a non-empty array.''])
          | _ \<Rightarrow> Inl [''\"version\" must be an integer.''])
      | _ \<Rightarrow> Inl [''File must contain a JSON object with a \"collaborators\" array.''])"

definition parse_royalty_config_import :: "(rat \<Rightarrow> string) \<Rightarrow> string \<Rightarrow> string list + config_row list" where
  "parse_royalty_config_import num raw =
     (case json_parse raw of None \<Rightarrow> Inl [''File is not valid JSON.''] | Some v \<Rightarrow> check_config num v)"

section \<open>Export\<close>

definition export_row :: "nat \<times> config_row \<Rightarrow> (string \<times> rat) rows_state \<Rightarrow> (string \<times> rat) rows_state" where
  "export_row = (\<lambda>(i, c) s.
     (let a = cr_address c in
      if \<not> account_regex a then rows_error i (''\"'' @ a @ ''\" is not a valid Stellar address.'') s
      else if a \<in> set (rs_seen s) then rows_error i (''duplicate collaborator address \"'' @ a @ ''\".'') s
      else (case as_double (string_to_number (cr_points c)) of
          Finite q \<Rightarrow>
            if q \<le> 0 \<or> 100 < q then rows_error i ''allocation must be a number greater than 0 and up to 100.'' s
            else rows_accept a q (a, q) s
        | _ \<Rightarrow> rows_error i ''allocation must be a number greater than 0 and up to 100.'' s)))"

definition build_royalty_config_export :: "config_row list \<Rightarrow> string \<Rightarrow> string list + config_file" where
  "build_royalty_config_export cs created =
     (if cs = [] then Inl [''Add at least one collaborator before exporting.'']
      else let s = fold export_row (enumerate 0 cs) rows_init in
        if rs_errors s \<noteq> [] then Inl (rs_errors s)
        else if \<not> sums_to_hundred (rs_total s)
        then Inl [''Collaborator percentages must sum to 100% before exporting (currently '' @ to_fixed2 (rs_total s) @ ''%).'']
        else Inr \<lparr>cf_version = config_version, cf_created = created, cf_entries = rs_rows s\<rparr>)"

text \<open>The file as a value; its text is \<open>JSON.stringify(config, null, 2)\<close>.\<close>

definition file_value :: "config_file \<Rightarrow> js_value" where
  "file_value f = VObj [(''version'', VNum (Finite (of_int (cf_version f)))), (''createdAt'', VStr (cf_created f)),
     (''collaborators'', VArr (map (\<lambda>(a, q). VObj [(''address'', VStr a), (''percentage'', VNum (Finite q))]) (cf_entries f)))]"

section \<open>The form\<close>

definition percentage_input :: "string \<Rightarrow> bool" where
  "percentage_input s =
     (let ip = takeWhile is_digit s; r = dropWhile is_digit s
      in s = [] \<or> (ip \<noteq> [] \<and> (r = [] \<or> (hd r = CHR ''.'' \<and> list_all is_digit (tl r))))
         \<or> (ip = [] \<and> hd r = CHR ''.'' \<and> tl r \<noteq> [] \<and> list_all is_digit (tl r)))"

definition get_percentage_validation_error :: "string \<Rightarrow> string option" where
  "get_percentage_validation_error s =
     (if s = [] then Some ''Percentage is required.''
      else if hd s = CHR ''-'' \<and> tl s \<noteq> [] \<and> percentage_input (tl s) then Some ''Percentage must be between 0 and 100.''
      else if \<not> percentage_input s then Some ''Percentage must be a number.''
      else case as_double (string_to_number s) of
          Finite q \<Rightarrow> if q < 0 \<or> 100 < q then Some ''Percentage must be between 0 and 100.'' else None
        | Infinite _ \<Rightarrow> Some ''Percentage must be between 0 and 100.''
        | NaN \<Rightarrow> Some ''Percentage must be a number.'')"

definition points_of :: "config_row \<Rightarrow> rat" where
  "points_of c = (case as_double (string_to_number (cr_points c)) of Finite q \<Rightarrow> q | _ \<Rightarrow> 0)"

definition form_total :: "config_row list \<Rightarrow> rat" where
  "form_total cs = foldl (\<lambda>t c. to_double (t + points_of c)) 0 cs"

definition share_of :: "config_row \<Rightarrow> int" where
  "share_of c = math_round (to_double (points_of c * 100))"

definition form_payload :: "string \<Rightarrow> string \<Rightarrow> config_row list \<Rightarrow> js_value" where
  "form_payload contract wallet cs =
     VObj [(''contractId'', VStr contract), (''walletAddress'', VStr wallet),
       (''collaborators'', VArr (map (\<lambda>c. VStr (cr_address c)) cs)),
       (''shares'', VArr (map (\<lambda>c. VNum (Finite (of_int (share_of c)))) cs))]"

text \<open>\<open>submit\<close> up to the request, for a form without a pending commitment; a refusal is the status it shows.\<close>

definition submit_form ::
  "(string \<Rightarrow> bool) \<Rightarrow> bool \<Rightarrow> string \<Rightarrow> string \<Rightarrow> config_row list \<Rightarrow> string + js_value" where
  "submit_form strkey network_mismatch contract wallet cs =
     (if network_mismatch then Inl ''Your wallet is on the wrong network. Switch it before submitting.''
      else if contract = [] then Inl ''Enter a contract ID first.''
      else if list_ex (\<lambda>c. cr_address c = [] \<or> \<not> is_valid_stellar_account_address strkey (VStr (cr_address c))
          \<or> get_percentage_validation_error (cr_points c) \<noteq> None) cs
      then Inl ''Please fix all field errors before submitting.''
      else if \<not> sums_to_hundred (form_total cs)
      then Inl (''Percentages must sum to 100% (currently '' @ to_fixed2 (form_total cs) @ ''%).'')
      else if \<not> distinct (map cr_address cs) then Inl ''Duplicate addresses are not allowed.''
      else Inr (form_payload contract wallet cs))"

section \<open>Checking rows\<close>

text \<open>Import and export check their rows alike: an entry that can be read and whose address is new is taken
  over, any other adds an error.\<close>

definition totalled :: "rat \<Rightarrow> (string \<times> rat) list \<Rightarrow> rat" where
  "totalled t es = foldl (\<lambda>t e. to_double (t + snd e)) t es"

locale checked_rows =
  fixes entry :: "'x \<Rightarrow> (string \<times> rat) option"
    and put_row :: "nat \<times> 'x \<Rightarrow> 'r rows_state \<Rightarrow> 'r rows_state"
    and made :: "string \<times> rat \<Rightarrow> 'r"
  assumes taken: "entry x = Some (a, q) \<Longrightarrow> a \<notin> set (rs_seen s) \<Longrightarrow> put_row (i, x) s = rows_accept a q (made (a, q)) s"
    and complained: "entry x = None \<or> fst (the (entry x)) \<in> set (rs_seen s) \<Longrightarrow>
      \<exists>e. put_row (i, x) s = s\<lparr>rs_errors := rs_errors s @ [e]\<rparr>"
begin

definition readable :: "'x list \<Rightarrow> (string \<times> rat) list \<Rightarrow> string list \<Rightarrow> bool" where
  "readable xs es seen \<longleftrightarrow> map entry xs = map Some es \<and> distinct (seen @ map fst es)"

lemma errors_stay: "rs_errors s \<noteq> [] \<Longrightarrow> rs_errors (fold put_row ps s) \<noteq> []"
proof (induction ps arbitrary: s)
  case (Cons p ps)
  obtain i x where p: "p = (i, x)" by (cases p)
  have "rs_errors (put_row p s) \<noteq> []"
  proof (cases "entry x = None \<or> fst (the (entry x)) \<in> set (rs_seen s)")
    case True
    then show ?thesis using complained [of x s i] p by auto
  next
    case False
    then obtain a q where "entry x = Some (a, q)" "a \<notin> set (rs_seen s)" by auto
    then show ?thesis using taken [of x a q s i] p Cons.prems by (simp add: rows_accept_def)
  qed
  then show ?case using Cons.IH by simp
qed simp

lemma checked:
  assumes "readable xs es (rs_seen s)"
  shows "fold put_row (enumerate i xs) s = s\<lparr>rs_seen := rs_seen s @ map fst es, rs_rows := rs_rows s @ map made es,
    rs_total := totalled (rs_total s) es\<rparr>"
  using assms
proof (induction xs arbitrary: es s i)
  case Nil
  then show ?case by (simp add: readable_def totalled_def)
next
  case (Cons x xs)
  then obtain a q es' where es: "es = (a, q) # es'" "entry x = Some (a, q)" "map entry xs = map Some es'"
    "a \<notin> set (rs_seen s)" "distinct ((rs_seen s @ [a]) @ map fst es')" by (cases es) (auto simp: readable_def)
  then have "put_row (i, x) s = rows_accept a q (made (a, q)) s" using taken by blast
  moreover have "readable xs es' (rs_seen (rows_accept a q (made (a, q)) s))"
    using es by (simp add: readable_def rows_accept_def)
  ultimately show ?case using Cons.IH es(1) by (simp add: rows_accept_def totalled_def)
qed

lemma unreadable:
  assumes "rs_errors (fold put_row (enumerate i xs) s) = []"
  shows "\<exists>es. map entry xs = map Some es \<and> distinct (map fst es) \<and> set (map fst es) \<inter> set (rs_seen s) = {}"
  using assms
proof (induction xs arbitrary: s i)
  case Nil
  then show ?case by auto
next
  case (Cons x xs)
  let ?s = "put_row (i, x) s"
  have e: "rs_errors (fold put_row (enumerate (Suc i) xs) ?s) = []" using Cons.prems by simp
  show ?case
  proof (cases "entry x = None \<or> fst (the (entry x)) \<in> set (rs_seen s)")
    case True
    then have "rs_errors ?s \<noteq> []" using complained [of x s i] by auto
    then show ?thesis using errors_stay e by blast
  next
    case False
    then obtain a q where a: "entry x = Some (a, q)" "a \<notin> set (rs_seen s)" by auto
    obtain es where "map entry xs = map Some es" "distinct (map fst es)" "set (map fst es) \<inter> set (rs_seen ?s) = {}"
      using Cons.IH [OF e] by blast
    then show ?thesis using a taken [OF a, of i] by (intro exI [of _ "(a, q) # es"]) (auto simp: rows_accept_def)
  qed
qed

lemma checked_iff:
  "rs_errors (fold put_row (enumerate 0 xs) rows_init) = [] \<longleftrightarrow> (\<exists>es. map entry xs = map Some es \<and> distinct (map fst es))"
  "map entry xs = map Some es \<Longrightarrow> distinct (map fst es) \<Longrightarrow> rs_rows (fold put_row (enumerate 0 xs) rows_init) = map made es
    \<and> rs_total (fold put_row (enumerate 0 xs) rows_init) = totalled 0 es
    \<and> rs_errors (fold put_row (enumerate 0 xs) rows_init) = []"
  using unreadable [of 0 xs rows_init] checked [of xs _ rows_init 0]
  by (auto simp: rows_init_def readable_def)

end

definition percentage_of :: "js_number \<Rightarrow> rat option" where
  "percentage_of n = (if valid_percentage (as_double n) then (case as_double n of Finite q \<Rightarrow> Some q | _ \<Rightarrow> None) else None)"

definition import_entry :: "js_value \<Rightarrow> (string \<times> rat) option" where
  "import_entry v =
     (case (field ''address'' v, field ''percentage'' v) of
        (VStr a, VNum n) \<Rightarrow> if account_regex a then map_option (Pair a) (percentage_of n) else None
      | _ \<Rightarrow> None)"

definition export_entry :: "config_row \<Rightarrow> (string \<times> rat) option" where
  "export_entry c =
     (if account_regex (cr_address c)
      then map_option (Pair (cr_address c)) (percentage_of (string_to_number (cr_points c))) else None)"

definition row_of :: "(rat \<Rightarrow> string) \<Rightarrow> string \<times> rat \<Rightarrow> config_row" where
  "row_of num e = \<lparr>cr_address = fst e, cr_points = num (snd e)\<rparr>"

lemma rows_error_adds: "\<exists>e. rows_error i m s = s\<lparr>rs_errors := rs_errors s @ [e]\<rparr>"
  by (auto simp: rows_error_def)

lemma config_import_row_cases:
  "(\<exists>e. config_import_row num (i, x) s = s\<lparr>rs_errors := rs_errors s @ [e]\<rparr>)
     \<and> (import_entry x = None \<or> fst (the (import_entry x)) \<in> set (rs_seen s))
   \<or> (\<exists>a q. import_entry x = Some (a, q) \<and> a \<notin> set (rs_seen s)
        \<and> config_import_row num (i, x) s = rows_accept a q (row_of num (a, q)) s)"
proof (cases "\<exists>ps a. x = VObj ps \<and> prop_of ps ''address'' = VStr a \<and> account_regex a")
  case False
  then show ?thesis
    by (intro disjI1) (simp add: config_import_row_def import_entry_def field_def rows_error_adds split: js_value.split)
next
  case True
  then obtain ps a where x: "x = VObj ps" "prop_of ps ''address'' = VStr a" "account_regex a" by blast
  show ?thesis
  proof (cases "a \<in> set (rs_seen s)")
    case True
    have "import_entry x = None \<or> fst (the (import_entry x)) = a" using x
      by (auto simp: import_entry_def field_def split: js_value.split) (metis fst_conv not_None_eq option.map_sel option.sel)
    moreover have "\<exists>e. config_import_row num (i, x) s = s\<lparr>rs_errors := rs_errors s @ [e]\<rparr>"
      using x True by (simp add: config_import_row_def rows_error_adds)
    ultimately show ?thesis using True by blast
  next
    case new: False
    show ?thesis
    proof (cases "\<exists>n. prop_of ps ''percentage'' = VNum n")
      case False
      then show ?thesis using x new
        by (intro disjI1) (simp add: config_import_row_def import_entry_def field_def rows_error_adds split: js_value.split)
    next
      case True
      then obtain n where n: "prop_of ps ''percentage'' = VNum n" by blast
      show ?thesis
      proof (cases "as_double n")
        case (Finite q)
        then show ?thesis using x new n
          by (cases "q \<le> 0 \<or> 100 < q")
            (auto simp: config_import_row_def import_entry_def field_def rows_error_adds percentage_of_def valid_percentage_def row_of_def)
      qed (use x new n in \<open>simp_all add: config_import_row_def import_entry_def field_def rows_error_adds percentage_of_def
        valid_percentage_def\<close>)
    qed
  qed
qed

interpretation imported: checked_rows import_entry "config_import_row num" "row_of num" for num
proof
  show "config_import_row num (i, x) s = rows_accept a q (row_of num (a, q)) s"
    if "import_entry x = Some (a, q)" "a \<notin> set (rs_seen s)" for x a q s i
    using config_import_row_cases [of num i x s] that by auto
  show "\<exists>e. config_import_row num (i, x) s = s\<lparr>rs_errors := rs_errors s @ [e]\<rparr>"
    if "import_entry x = None \<or> fst (the (import_entry x)) \<in> set (rs_seen s)" for x s i
    using config_import_row_cases [of num i x s] that by auto
qed

interpretation exported: checked_rows export_entry export_row "\<lambda>e. e"
proof
  show "export_row (i, x) s = rows_accept a q (a, q) s"
    if "export_entry x = Some (a, q)" "a \<notin> set (rs_seen s)" for x a q s i
    using that by (auto simp: export_row_def export_entry_def percentage_of_def valid_percentage_def Let_def
        split: js_number.splits if_splits)
  show "\<exists>e. export_row (i, x) s = s\<lparr>rs_errors := rs_errors s @ [e]\<rparr>"
    if "export_entry x = None \<or> fst (the (export_entry x)) \<in> set (rs_seen s)" for x s i
  proof (cases "account_regex (cr_address x) \<and> cr_address x \<notin> set (rs_seen s)")
    case False
    then show ?thesis by (auto simp: export_row_def rows_error_adds Let_def)
  next
    case True
    then show ?thesis using that
      by (cases "as_double (string_to_number (cr_points x))")
        (auto simp: export_row_def export_entry_def percentage_of_def valid_percentage_def rows_error_adds Let_def split: if_splits)
  qed
qed

section \<open>What import and export accept\<close>

lemma percentage_of_range: "percentage_of n = Some q \<Longrightarrow> 0 < q \<and> q \<le> 100 \<and> to_double q = q"
  by (auto simp: percentage_of_def valid_percentage_def as_double_def split: js_number.splits if_splits)

lemma percentage_of_double: "0 < q \<Longrightarrow> q \<le> 100 \<Longrightarrow> to_double q = q \<Longrightarrow> percentage_of (Finite q) = Some q"
  by (simp add: percentage_of_def valid_percentage_def as_double_def)

definition good_entry :: "string \<times> rat \<Rightarrow> bool" where
  "good_entry e \<longleftrightarrow> account_regex (fst e) \<and> 0 < snd e \<and> snd e \<le> 100 \<and> to_double (snd e) = snd e"

lemma import_entry_good: "import_entry v = Some e \<Longrightarrow> good_entry e"
  by (auto simp: import_entry_def good_entry_def dest!: percentage_of_range split: js_value.splits if_splits)

lemma export_entry_good: "export_entry c = Some e \<Longrightarrow> good_entry e \<and> fst e = cr_address c
    \<and> as_double (string_to_number (cr_points c)) = Finite (snd e)"
  by (auto simp: export_entry_def good_entry_def percentage_of_def valid_percentage_def
      dest!: percentage_of_range split: js_number.splits if_splits)
    (auto simp: as_double_def split: js_number.splits if_splits)

lemma check_config_accepts:
  "check_config num v = Inr rows \<longleftrightarrow> (\<exists>ps xs es. v = VObj ps \<and> prop_of ps ''version'' = VNum (Finite 1)
     \<and> prop_of ps ''collaborators'' = VArr xs \<and> 1 \<le> length xs \<and> length xs \<le> 50 \<and> map import_entry xs = map Some es
     \<and> distinct (map fst es) \<and> sums_to_hundred (totalled 0 es) \<and> rows = map (row_of num) es)"
  (is "?l \<longleftrightarrow> ?r")
proof
  assume ?l
  then obtain ps xs where v: "v = VObj ps" "prop_of ps ''version'' = VNum (Finite 1)" "prop_of ps ''collaborators'' = VArr xs"
    "xs \<noteq> []" "length xs \<le> 50"
    and s: "rs_errors (fold (config_import_row num) (enumerate 0 xs) rows_init) = []"
      "sums_to_hundred (rs_total (fold (config_import_row num) (enumerate 0 xs) rows_init))"
      "rows = rs_rows (fold (config_import_row num) (enumerate 0 xs) rows_init)"
    by (auto simp: check_config_def Let_def config_version_def max_config_collaborators_def
        split: js_value.splits js_number.splits if_splits)
  from s(1) imported.checked_iff(1) obtain es where es: "map import_entry xs = map Some es" "distinct (map fst es)" by blast
  from imported.checked_iff(2) [OF es, of num] s v es show ?r by (cases xs) auto
next
  assume ?r
  then obtain ps xs es where v: "v = VObj ps" "prop_of ps ''version'' = VNum (Finite 1)" "prop_of ps ''collaborators'' = VArr xs"
    "xs \<noteq> []" "length xs \<le> 50" "map import_entry xs = map Some es" "distinct (map fst es)"
    "sums_to_hundred (totalled 0 es)" "rows = map (row_of num) es" by (metis One_nat_def length_0_conv not_less_eq_eq le0)
  then show ?l using imported.checked_iff(2) [OF v(6,7), of num]
    by (simp add: check_config_def Let_def config_version_def max_config_collaborators_def)
qed

lemma export_accepts:
  "build_royalty_config_export cs created = Inr f \<longleftrightarrow> cs \<noteq> [] \<and> (\<exists>es. map export_entry cs = map Some es
     \<and> distinct (map fst es) \<and> sums_to_hundred (totalled 0 es) \<and> f = \<lparr>cf_version = 1, cf_created = created, cf_entries = es\<rparr>)"
  (is "?l \<longleftrightarrow> ?r")
proof
  assume ?l
  then have c: "cs \<noteq> []" and s: "rs_errors (fold export_row (enumerate 0 cs) rows_init) = []"
      "sums_to_hundred (rs_total (fold export_row (enumerate 0 cs) rows_init))"
      "f = \<lparr>cf_version = 1, cf_created = created, cf_entries = rs_rows (fold export_row (enumerate 0 cs) rows_init)\<rparr>"
    by (auto simp: build_royalty_config_export_def Let_def config_version_def split: if_splits)
  from s(1) exported.checked_iff(1) obtain es where es: "map export_entry cs = map Some es" "distinct (map fst es)" by blast
  from exported.checked_iff(2) [OF es] s c es show ?r by auto
next
  assume ?r
  then obtain es where e: "cs \<noteq> []" "map export_entry cs = map Some es" "distinct (map fst es)"
    "sums_to_hundred (totalled 0 es)" "f = \<lparr>cf_version = 1, cf_created = created, cf_entries = es\<rparr>" by blast
  then show ?l using exported.checked_iff(2) [OF e(2,3)]
    by (simp add: build_royalty_config_export_def Let_def config_version_def)
qed

text \<open>An imported file gives between one and fifty collaborators with well-formed, different addresses and
  percentages above 0 and up to 100 that sum to 100 up to the rounding of the check.\<close>

theorem imported_config_sound:
  assumes "parse_royalty_config_import num raw = Inr rows"
  shows "\<exists>es. rows = map (row_of num) es \<and> 1 \<le> length es \<and> length es \<le> 50 \<and> distinct (map fst es)
    \<and> list_all good_entry es \<and> sums_to_hundred (totalled 0 es)"
proof -
  obtain v where "check_config num v = Inr rows"
    using assms by (auto simp: parse_royalty_config_import_def split: option.splits)
  then obtain xs es where e: "1 \<le> length xs" "length xs \<le> 50" "map import_entry xs = map Some es" "distinct (map fst es)"
    "sums_to_hundred (totalled 0 es)" "rows = map (row_of num) es" by (auto simp: check_config_accepts)
  have "length es = length xs" using arg_cong [OF e(3), of length] by simp
  moreover have "list_all good_entry es"
    unfolding list_all_iff
  proof
    fix y assume "y \<in> set es"
    then have "Some y \<in> set (map import_entry xs)" unfolding e(3) by simp
    then obtain x where "import_entry x = Some y" by auto
    then show "good_entry y" by (rule import_entry_good)
  qed
  ultimately show ?thesis using e by auto
qed


section \<open>The form and the server\<close>

lemma share_range:
  assumes "0 \<le> q" "q \<le> 100"
  shows "0 \<le> math_round (to_double (q * 100)) \<and> math_round (to_double (q * 100)) \<le> 10000"
proof -
  have "to_double (q * 100) < 10000 + 1 / 2"
  proof (cases "q = 0")
    case True
    then show ?thesis by (simp add: to_double.simps [of 0])
  next
    case False
    then have "\<bar>to_double (q * 100) - q * 100\<bar> \<le> q * 100 / 2 ^ 53" using assms by (intro to_double_error) simp
    moreover have "q * 100 / 2 ^ 53 < 1 / 2" using assms by simp
    ultimately show ?thesis using assms unfolding abs_le_iff by linarith
  qed
  then show ?thesis using to_double_nonneg [of "q * 100"] by (simp add: math_round_def le_floor_iff floor_le_iff)
qed

lemma accepted_percentage: "get_percentage_validation_error s = None \<Longrightarrow>
    \<exists>q. as_double (string_to_number s) = Finite q \<and> 0 \<le> q \<and> q \<le> 100"
  by (auto simp: get_percentage_validation_error_def split: if_splits js_number.splits)

lemma z_array_same:
  assumes "\<forall>x \<in> set xs. s (f x) = Some (f x)"
  shows "z_array lo hi s (VArr (map f xs)) = (if lo \<le> length xs \<and> length xs \<le> hi then Some (VArr (map f xs)) else None)"
proof -
  have "those (map s (map f xs)) = Some (map f xs)" using assms by (simp add: those_Some)
  then show ?thesis by (simp add: z_array_def)
qed

lemma basis_points_int: "0 \<le> n \<Longrightarrow> n \<le> 10000 \<Longrightarrow> basis_points (VNum (Finite (of_int n))) = Some (VNum (Finite (of_int n)))"
  using basis_points_nat [of "nat n"] by simp


section \<open>Examples\<close>

text \<open>Percentages of a sixteenth whose shares round down to 9999 in sum.\<close>

definition demo_rows :: "config_row list" where
  "demo_rows = [\<lparr>cr_address = sample_account (CHR ''A''), cr_points = ''33.0625''\<rparr>,
     \<lparr>cr_address = sample_account (CHR ''B''), cr_points = ''33.0625''\<rparr>,
     \<lparr>cr_address = sample_account (CHR ''C''), cr_points = ''33.0625''\<rparr>,
     \<lparr>cr_address = sample_account (CHR ''D''), cr_points = ''0.8125''\<rparr>]"

lemma demo_numbers: "string_to_number ''33.0625'' = Finite (529 / 16)" "string_to_number ''0.8125'' = Finite (13 / 16)"
  by (simp_all add: string_to_number_def trim_def unsigned_decimal_def exponent_part_def digits_val_def digit_val_def
      scale10_def is_digit_def is_space_def)

lemma demo_doubles:
  "to_double (529 / 16) = 529 / 16" "to_double (13 / 16) = 13 / 16" "to_double (529 / 8) = 529 / 8"
  "to_double (1587 / 16) = 1587 / 16" "to_double 100 = 100" "to_double 10000 = 10000" "to_double (13225 / 4) = 13225 / 4"
  "to_double (325 / 4) = 325 / 4"
  using to_double_dyadic [of 529 4] to_double_dyadic [of 13 4] to_double_dyadic [of 529 3] to_double_dyadic [of 1587 4]
    to_double_dyadic [of 100 0] to_double_dyadic [of 10000 0] to_double_dyadic [of 13225 2] to_double_dyadic [of 325 2]
  by simp_all

lemma demo_points:
  "as_double (string_to_number ''33.0625'') = Finite (529 / 16)" "as_double (string_to_number ''0.8125'') = Finite (13 / 16)"
  by (simp_all add: demo_numbers as_double_def demo_doubles)

lemma demo_total: "sums_to_hundred (form_total demo_rows)" "map share_of demo_rows = [3306, 3306, 3306, 81]"
  by (simp_all add: form_total_def demo_rows_def points_of_def demo_points demo_doubles sums_to_hundred_def math_round_def
      share_of_def floor_eq_iff)

lemma demo_addresses: "account_regex (sample_account (CHR ''A''))" "account_regex (sample_account (CHR ''B''))"
  "account_regex (sample_account (CHR ''C''))" "account_regex (sample_account (CHR ''D''))"
  by (simp_all add: sample_account_regex base32_char_def is_upper_def)

lemma demo_valid: "is_valid_stellar_account_address (\<lambda>_. True) (VStr (sample_account (CHR ''A'')))"
  "is_valid_stellar_account_address (\<lambda>_. True) (VStr (sample_account (CHR ''B'')))"
  "is_valid_stellar_account_address (\<lambda>_. True) (VStr (sample_account (CHR ''C'')))"
  "is_valid_stellar_account_address (\<lambda>_. True) (VStr (sample_account (CHR ''D'')))"
  by (simp_all add: is_valid_stellar_account_address_def normalize_stellar_account_address_def Let_def demo_addresses
      sample_account_trim base32_char_def is_upper_def)

lemma demo_distinct: "distinct (map cr_address demo_rows)"
  by (simp add: demo_rows_def sample_account_def)

lemma demo_submitted: "submit_form (\<lambda>_. True) False sample_contract (sample_account (CHR ''A'')) demo_rows
    = Inr (form_payload sample_contract (sample_account (CHR ''A'')) demo_rows)"
proof -
  have "get_percentage_validation_error ''33.0625'' = None" "get_percentage_validation_error ''0.8125'' = None"
    by (simp_all add: get_percentage_validation_error_def demo_points percentage_input_def is_digit_def)
  then have "\<not> list_ex (\<lambda>c. cr_address c = [] \<or> \<not> is_valid_stellar_account_address (\<lambda>_. True) (VStr (cr_address c))
      \<or> get_percentage_validation_error (cr_points c) \<noteq> None) demo_rows"
    by (simp add: demo_rows_def demo_valid) (simp add: sample_account_def)
  then show ?thesis using demo_total(1) demo_distinct by (simp add: submit_form_def sample_contract_def)
qed


definition demo_file :: config_file where
  "demo_file = \<lparr>cf_version = 1, cf_created = ''2026'', cf_entries = [(sample_account (CHR ''A''), 75), (sample_account (CHR ''B''), 25)]\<rparr>"

definition demo_config :: "config_row list" where
  "demo_config = [\<lparr>cr_address = sample_account (CHR ''A''), cr_points = ''75''\<rparr>,
     \<lparr>cr_address = sample_account (CHR ''B''), cr_points = ''25''\<rparr>]"

definition demo_text :: string where
  "demo_text = json_stringify (JObj [(''version'', JNum 1), (''createdAt'', JStr ''2026''),
     (''collaborators'', JArr [JObj [(''address'', JStr (sample_account (CHR ''A''))), (''percentage'', JNum 75)],
        JObj [(''address'', JStr (sample_account (CHR ''B''))), (''percentage'', JNum 25)]])])"

lemma demo_text_parses: "json_parse demo_text = Some (file_value demo_file)"
  unfolding demo_text_def by (subst json_parse_stringify_all) (simp_all add: file_value_def demo_file_def)

lemma demo_exported: "build_royalty_config_export demo_config ''2026'' = Inr demo_file"
proof -
  have n: "string_to_number ''75'' = Finite 75" "string_to_number ''25'' = Finite 25" by code_simp+
  have d: "to_double 75 = 75" "to_double 25 = 25"
    using to_double_dyadic [of 75 0] to_double_dyadic [of 25 0] by simp_all
  show ?thesis unfolding export_accepts
    by (simp add: demo_config_def demo_file_def export_entry_def demo_addresses n percentage_of_double d)
      (simp add: totalled_def sums_to_hundred_def math_round_def demo_doubles d floor_eq_iff sample_account_def)
qed


lemma demo_imported: "parse_royalty_config_import (\<lambda>q. int_str \<lfloor>q\<rfloor>) demo_text
    = Inr (map (row_of (\<lambda>q. int_str \<lfloor>q\<rfloor>)) (cf_entries demo_file))"
proof -
  have d: "to_double 75 = 75" "to_double 25 = 25"
    using to_double_dyadic [of 75 0] to_double_dyadic [of 25 0] by simp_all
  have "check_config (\<lambda>q. int_str \<lfloor>q\<rfloor>) (file_value demo_file)
      = Inr (map (row_of (\<lambda>q. int_str \<lfloor>q\<rfloor>)) (cf_entries demo_file))"
    unfolding check_config_accepts
    by (simp add: demo_file_def file_value_def import_entry_def field_def prop_of_def demo_addresses percentage_of_double d)
      (intro exI [of _ "cf_entries demo_file"],
        simp add: demo_file_def totalled_def sums_to_hundred_def math_round_def demo_doubles d floor_eq_iff sample_account_def)
  then show ?thesis by (simp add: parse_royalty_config_import_def demo_text_parses)
qed

theorem imported_config_sound_witness:
  "\<exists>es. map (row_of (\<lambda>q. int_str \<lfloor>q\<rfloor>)) (cf_entries demo_file) = map (row_of (\<lambda>q. int_str \<lfloor>q\<rfloor>)) es \<and> list_all good_entry es"
  using imported_config_sound [OF demo_imported] by blast

end
