(* ===== verification/Spec2Isabelle.thy ===== *)
theory Spec2Isabelle
  imports Idempotency Signature Dedup WarmCache RpcRetry ScheduleCalculator AuditLog Holds Stellar
    BuildLock Rbac PaymentSchedules Finality Webhooks Pool Websocket CsvImport Disputes Referrals
    RateLimitUsage TransactionRoutes SecondaryRoyalties Archive TxDetails History
    Snapshots Communications HealthMonitor ContributorTax SigningKey ContributorStatus Kyc FinalityRoutes
    ClientSigning OfflineQueue RoyaltyConfig
begin

text \<open>
  Verification library of the Stellar Royalty Splitter: the Node.js service under
  \<open>src/backend/src\<close> and the parts of the web client under \<open>src/frontend\<close> that decide what the service
  receives.  The service takes signed HTTP requests, builds unsigned Soroban transactions that
  distribute royalties, and keeps transactions, holds, schedules, disputes, resales, webhooks and an
  audit log in SQLite.

  \<^bold>\<open>Parts of the program and theories.\<close>  A request passes the middleware, reaches a route, and the
  route calls the Stellar client and the database modules; timers run the jobs; the client signs its
  requests, checks its forms and queues writes made offline.

    \<^item> The languages and libraries.  \<open>Prelude\<close>: strings, \<open>parseInt\<close>, the theorem collections.
      \<open>OrderedMap\<close>: the insertion-ordered \<open>Map\<close> (locale \<open>js_map\<close>).  \<open>SqlTable\<close>: tables with AUTOINCREMENT
      ids, updates, deletes, ordering and paging (locale \<open>sql_table\<close>).  \<open>JsDate\<close>: the UTC calendar,
      \<open>toISOString\<close>, the string order of timestamps.  \<open>JsNumber\<close>, \<open>JsDouble\<close>: \<open>Number(string)\<close>, rounding to
      doubles.  \<open>Json\<close>, \<open>Base64\<close>: \<open>JSON.parse\<close> against \<open>JSON.stringify\<close>, \<open>Buffer\<close>.  \<open>Http\<close>: JSON values,
      requests, responses, \<open>error-response.js\<close>.  \<open>Handlers\<close>: asynchronous handlers as steps that throw or
      yield.  \<open>Routes\<close>: what the route modules share.
    \<^item> The middleware.  \<open>Signature\<close>: \<open>verify-signature.js\<close>.  \<open>Idempotency\<close>: \<open>idempotency.js\<close>.  \<open>Dedup\<close>:
      \<open>middleware/dedup.js\<close>.  \<open>Rbac\<close>: \<open>middleware/rbac.js\<close>.  \<open>Validation\<close>: \<open>validation.js\<close> and
      \<open>stellar-address.js\<close>.  \<open>RateLimitUsage\<close>: \<open>database/rate-limit.js\<close>.
    \<^item> The chain.  \<open>RpcRetry\<close>: \<open>rpc-retry.js\<close>.  \<open>Stellar\<close> and \<open>BuildLock\<close>: \<open>stellar.js\<close>.  \<open>WarmCache\<close>:
      \<open>cache.js\<close>.  \<open>SigningKey\<close>: \<open>secrets-manager.js\<close>, \<open>signing-key.js\<close>, \<open>rpcSigning.js\<close> and the
      rotation route of \<open>routes/admin.js\<close>.  \<open>Finality\<close>: \<open>database/transaction-finality.js\<close> and \<open>transaction-finality.js\<close>.
      \<open>FinalityRoutes\<close>: the routes over its registry, interleaved with the running loops.
    \<^item> The database.  \<open>Database\<close>: \<open>database/core.js\<close> (the connection, the write counter, checkpoints,
      migrations).  \<open>Pool\<close>: \<open>database/pool.js\<close>.  \<open>Transactions\<close>: \<open>database/transactions.js\<close>, and the rows
      of all tables the modules share, as the record \<open>ledger\<close>.  \<open>AuditLog\<close>: \<open>database/audit.js\<close>.
      \<open>Archive\<close>: \<open>database/archive.js\<close>.  \<open>TxDetails\<close>: \<open>getTransactionDetails\<close>.  \<open>HealthMonitor\<close>:
      \<open>database/health-monitor.js\<close> over the pool.
    \<^item> The services, each a database module with its routes or its job.  \<open>TransactionRoutes\<close>
      (distribute, batch-distribute, initialize), \<open>History\<close>, \<open>Holds\<close>, \<open>ScheduleCalculator\<close> and
      \<open>PaymentSchedules\<close>, \<open>Webhooks\<close>, \<open>Websocket\<close>, \<open>CsvImport\<close>, \<open>Disputes\<close>, \<open>Referrals\<close>,
      \<open>SecondaryRoyalties\<close>, \<open>Snapshots\<close> (with its job), \<open>Communications\<close>, \<open>ContributorTax\<close>,
      \<open>ContributorStatus\<close>, and \<open>Kyc\<close> (the callbacks of \<open>kyc-providers.js\<close> with the verification workflow).
    \<^item> The web client.  \<open>ClientSigning\<close>: \<open>sign-request.ts\<close> against the server's check.  \<open>OfflineQueue\<close>:
      \<open>service-worker.js\<close>.  \<open>RoyaltyConfig\<close>: \<open>royaltyConfig.ts\<close> and \<open>InitializeForm.tsx\<close> against the
      server's schema.

  \<^bold>\<open>How code becomes definitions.\<close>  A function keeps its name in snake case.  Module variables are
  records passed as state; a database function is a \<open>db_op\<close>, a function from the connection to a
  result (\<open>Inl\<close> a thrown error, \<open>Inr\<close> a value) and the connection after it, so a statement executed
  before a throw stays executed.  \<open>Date.now()\<close> and random choices are arguments.  An asynchronous
  function that runs without interference is a function of the world it runs in; where tasks
  interleave (\<open>Dedup\<close>, \<open>BuildLock\<close>, \<open>Pool\<close>, \<open>HealthMonitor\<close>, \<open>OfflineQueue\<close>, the overlapping requests of \<open>Idempotency\<close>,
  the confirmation of \<open>History\<close>, \<open>FinalityRoutes\<close>) the steps of the event loop are events or an inductive relation.
  Cryptography, the Stellar SDK, Horizon, webhook receivers, the network of the client, the binding of
  untyped values by the SQL library and the SQL engine behind the migrations are parameters.

  \<^bold>\<open>What the lemmas show.\<close>

    \<^item> The request path: a signature is bound to its request and accepted once; a role gate admits exactly the holders of a live key of sufficient role; the schemas accept
      only well-formed bodies; the usage shown for a key is the number of its requests in the hour.
    \<^item> Exactly once and single flight: the idempotency cache and the deduplication, with the overlaps
      they do not cover; a retried distribution is recorded once; an offline write is never lost and,
      by one worker, accepted once.
    \<^item> Records: unique hashes, complete paging of the history, accounting of every distribution and
      batch, a truthful hold trail, archiving that neither loses nor duplicates an event and keeps the
      details of a transaction, royalties paid out once, referrals that stay consistent, the status of a contributor.
    \<^item> Refinements: the dispute routes implement a desk of tickets; the pool implements exclusive
      connections; the form and the server agree on which configurations are valid.
    \<^item> Building and time: retries are bounded and use a fresh sequence number, builds of one wallet
      are exclusive, in order and never stuck; the next runs of a schedule are the next moments of its
      rule; polling ends, but a record pending at a restart is never polled again.
    \<^item> Departures of the code from its comments.  The write counter of \<open>core.js\<close> is lost in a comment,
      so on its connection every counted write stores its row and then throws; theorems that need
      counted writes say so with the hypothesis \<open>counting d\<close>, which the connection of the older module
      \<open>database.js\<close> satisfies.  The deployed server keeps no raw body and refuses every signed request
      with one; the scheduler never advances; the archive has no tables; a reconnection of the pool never
      succeeds; snapshots store API keys, internal notes are public, and no KYC callback verifies a
      Stellar account.

  \<^bold>\<open>Bounds and fuel.\<close>  \<open>poll_loop\<close> runs over a list of rounds; with the default configuration 8001
  rounds are enough, since every round but the first waits at least 75 ms of a window of 10 minutes.
  \<open>poll_horizon\<close> runs over rounds as well and ends once a round starts after its timeout.  \<open>walk_history\<close>, the client that follows cursors, needs one
  request more than there are rows.  \<open>json_value\<close> takes fuel for its nesting; the length of the text is
  enough.  \<open>retry_loop\<close> and \<open>retry_build_loop\<close> count their attempts down.

  \<^bold>\<open>Not modelled.\<close>  The on-chain contract (Rust) and the deployment files.  Logging, metrics and
  tracing; e-mail and digests, notifications; the health routes; the alert rules and maintenance
  routes of the administrator, and the encryption of stored data; the
  Swagger document; the packages behind rate limiting and body parsing; reports and analytics, which are
  sums computed inside SQL; the routes that only validate, call one function and print its result; the
  rendering of the client and its hooks.
\<close>

end
